(* ===== verification/Cyro_Prelude.thy ===== *)
theory Cyro_Prelude
  imports Complex_Main "HOL-Library.Word" "HOL-Library.Sublist"
begin

text \<open>
  The shared vocabulary of the development: the machine integers of the Rust
  code (\<open>u64\<close>, \<open>i64\<close>, \<open>u8\<close>, \<open>u16\<close>) with the saturating operations of its
  standard library, the string operations of \<open>str\<close> the code calls, IEEE
  comparison as \<open>PartialOrd\<close> sees it, and lemma collections.

  Integers wrap as in the release profile of \<open>Cargo.toml\<close> (which leaves the
  overflow checks off). Strings are byte strings; \<open>trim\<close> removes the ASCII
  white space that \<open>char::is_whitespace\<close> accepts.
\<close>

section \<open>Lemma collections\<close>

named_theorems sat_simps \<open>saturating arithmetic read through unat\<close>
named_theorems str_simps \<open>string operations on literals\<close>

section \<open>Machine integers\<close>

type_synonym u8 = "8 word"
type_synonym u16 = "16 word"
type_synonym u32 = "32 word"
type_synonym u64 = "64 word"
type_synonym i64 = "64 word"

abbreviation u64_max :: nat where
  "u64_max \<equiv> 18446744073709551615"

definition sat_add :: "u64 \<Rightarrow> u64 \<Rightarrow> u64" where
  "sat_add a b = (if unat a + unat b \<le> u64_max then a + b else - 1)"

definition sat_sub :: "u64 \<Rightarrow> u64 \<Rightarrow> u64" where
  "sat_sub a b = (if unat b \<le> unat a then a - b else 0)"

definition unsigned_abs :: "i64 \<Rightarrow> u64" where
  "unsigned_abs d = (if 0 \<le> sint d then d else - d)"

lemma u64_bound [simp]: "unat (a :: u64) \<le> 18446744073709551615"
  using unsigned_less [where 'b = 64 and 'a = nat and w=a] by simp

lemma sint_u64_small: "unat (d :: u64) < 9223372036854775808 \<Longrightarrow> sint d = int (unat d)"
proof -
  assume "unat d < 9223372036854775808"
  then have lt: "uint d < 9223372036854775808"
    by (metis of_nat_less_numeral_iff uint_nat)
  have "- (2 ^ 63) \<le> uint d" by (rule order_trans [of _ 0]) simp_all
  moreover have "uint d < 2 ^ 63" using lt by simp
  ultimately have "signed_take_bit 63 (uint d) = uint d"
    by (rule signed_take_bit_int_eq_self)
  then show ?thesis by (simp add: sint_uint)
qed

lemma sint_u64_large:
  "9223372036854775808 \<le> unat (d :: u64) \<Longrightarrow> sint d = int (unat d) - 18446744073709551616"
proof -
  assume "9223372036854775808 \<le> unat d"
  then have ge: "9223372036854775808 \<le> uint d"
    using uint_nat [of d] by linarith
  have lt: "uint d < 18446744073709551616" using uint_lt2p [of d] by simp
  have "signed_take_bit 63 (uint d) = signed_take_bit 63 (uint d - 18446744073709551616)"
    by (simp add: signed_take_bit_eq_iff_take_bit_eq take_bit_eq_mod)
  also have "\<dots> = uint d - 18446744073709551616"
    using ge lt by (intro signed_take_bit_int_eq_self) simp_all
  finally show ?thesis by (simp add: sint_uint)
qed

lemma sint_u64_nonneg_iff: "0 \<le> sint (d :: u64) \<longleftrightarrow> unat d < 9223372036854775808"
proof (cases "unat d < 9223372036854775808")
  case True then show ?thesis by (simp add: sint_u64_small)
next
  case False
  have "int (unat d) \<le> 18446744073709551615" using u64_bound [of d] by linarith
  then show ?thesis using False sint_u64_large [of d] by linarith
qed

lemma sint_u64_neg: assumes "sint (d :: u64) < 0" shows "int (unat (- d)) = - sint d"
proof -
  have lt: "uint d < 18446744073709551616" using uint_lt2p [of d] by simp
  have u: "int (unat d) = uint d" by simp
  from assms have g: "9223372036854775808 \<le> unat d"
    using sint_u64_nonneg_iff [of d] by linarith
  then have g0: "0 < uint d" using u by linarith
  have "uint (- d) = (- uint d) mod 18446744073709551616"
    by (simp add: uint_word_ariths)
  also have "\<dots> = (18446744073709551616 - uint d) mod 18446744073709551616"
    by (metis minus_mod_self1)
  also have "\<dots> = 18446744073709551616 - uint d"
    using lt g0 by (intro mod_pos_pos_trivial) linarith+
  finally have "uint (- d) = 18446744073709551616 - uint d" .
  moreover have "sint d = uint d - 18446744073709551616"
    using sint_u64_large [OF g] u by linarith
  ultimately show ?thesis by simp
qed

lemma unat_u64_minus_one: "unat (- 1 :: u64) = u64_max"
  by (simp add: unsigned_minus_1_eq_mask mask_eq_exp_minus_1)

lemma unat_sat_add [sat_simps]: "unat (sat_add a b) = min u64_max (unat a + unat b)"
proof (cases "unat a + unat b \<le> u64_max")
  case True
  then have "unat a + unat b < 2 ^ LENGTH(64)" by simp
  then have "unat (a + b) = unat a + unat b"
    by (simp add: unat_add_lem [THEN iffD1])
  with True show ?thesis by (simp add: sat_add_def)
next
  case False
  then show ?thesis by (simp add: sat_add_def unat_u64_minus_one)
qed

lemma unat_sat_sub [sat_simps]: "unat (sat_sub a b) = unat a - unat b"
  by (simp add: sat_sub_def unat_sub word_le_nat_alt)

lemma unat_plus_small: "unat (a :: u64) + unat b < 18446744073709551616 \<Longrightarrow> unat (a + b) = unat a + unat b"
  by (simp add: unat_add_lem [THEN iffD1])

lemma unat_minus_small: "b \<le> a \<Longrightarrow> unat ((a :: u64) - b) = unat a - unat b"
  by (simp add: unat_sub)

lemma sat_add_0 [simp]: "sat_add a 0 = a" "sat_add 0 a = a"
  by (simp_all add: sat_add_def)

lemma sat_sub_0 [simp]: "sat_sub a 0 = a"
  by (simp add: sat_sub_def)

lemma sat_sub_self [simp]: "sat_sub a a = 0"
  by (simp add: sat_sub_def)

lemma sat_sub_add_cancel:
  assumes "unat a + unat b \<le> u64_max"
  shows "sat_sub (sat_add a b) b = a"
proof -
  have "unat (sat_sub (sat_add a b) b) = unat a"
    using assms by (simp add: sat_simps)
  then show ?thesis by (rule unsigned_word_eqI)
qed

text \<open>Adding a signed change the way the code does: saturating in either direction.\<close>

definition sat_apply :: "u64 \<Rightarrow> i64 \<Rightarrow> u64" where
  "sat_apply a d = (if 0 \<le> sint d then sat_add a d else sat_sub a (unsigned_abs d))"

lemma unat_unsigned_abs [sat_simps]: "int (unat (unsigned_abs d)) = \<bar>sint d\<bar>"
proof (cases "0 \<le> sint d")
  case True
  then have "unat d < 9223372036854775808" by (simp add: sint_u64_nonneg_iff)
  then show ?thesis using True sint_u64_small [of d] by (simp add: unsigned_abs_def)
next
  case False
  then show ?thesis using sint_u64_neg [of d] by (simp add: unsigned_abs_def)
qed

lemma sint_sat_apply:
  "int (unat (sat_apply a d)) = max 0 (min (int u64_max) (int (unat a) + sint d))"
proof (cases "0 \<le> sint d")
  case True
  then have "sint d = int (unat d)"
    using sint_u64_nonneg_iff [of d] sint_u64_small [of d] by blast
  moreover have "unat (sat_apply a d) = min u64_max (unat a + unat d)"
    using True by (simp add: sat_apply_def unat_sat_add)
  ultimately show ?thesis by linarith
next
  case False
  have "unat (sat_apply a d) = unat a - unat (unsigned_abs d)"
    using False by (simp add: sat_apply_def unat_sat_sub)
  moreover have "int (unat (unsigned_abs d)) = - sint d"
    using False unat_unsigned_abs [of d] by linarith
  moreover have "unat a \<le> u64_max" by simp
  ultimately show ?thesis using False by linarith
qed

lemma sat_apply_0 [simp]: "sat_apply a 0 = a"
  by (simp add: sat_apply_def)

section \<open>Polls\<close>

text \<open>\<open>std::task::Poll\<close>.\<close>

datatype 'a poll = Pending | Ready 'a

section \<open>Strings\<close>

text \<open>
  The methods of \<open>str\<close> the code uses, over byte strings. \<open>starts_with\<close>,
  \<open>ends_with\<close> and \<open>contains\<close> are the substring tests; \<open>str_find\<close> and
  \<open>str_rfind\<close> give byte offsets; \<open>str_split\<close> cuts at every occurrence of a
  character, \<open>str_split_once\<close> at the first one (\<open>splitn(2, _)\<close> has two parts
  exactly when it is \<open>Some\<close>); \<open>str_lines\<close> is \<open>str::lines\<close>: no line for what
  follows the last newline if that is empty, and one carriage return before a
  newline is dropped.
\<close>

definition starts_with :: "string \<Rightarrow> string \<Rightarrow> bool" where
  "starts_with s p \<longleftrightarrow> take (length p) s = p"

definition ends_with :: "string \<Rightarrow> string \<Rightarrow> bool" where
  "ends_with s p \<longleftrightarrow> length p \<le> length s \<and> drop (length s - length p) s = p"

fun str_find :: "string \<Rightarrow> string \<Rightarrow> nat option" where
  "str_find [] p = (if p = [] then Some 0 else None)"
| "str_find (c # s) p =
     (if starts_with (c # s) p then Some 0 else map_option Suc (str_find s p))"

fun str_rfind :: "string \<Rightarrow> string \<Rightarrow> nat option" where
  "str_rfind [] p = (if p = [] then Some 0 else None)"
| "str_rfind (c # s) p =
     (case str_rfind s p of
        Some i \<Rightarrow> Some (Suc i)
      | None \<Rightarrow> if starts_with (c # s) p then Some 0 else None)"

definition str_contains :: "string \<Rightarrow> string \<Rightarrow> bool" where
  "str_contains s p \<longleftrightarrow> str_find s p \<noteq> None"

definition is_ws :: "char \<Rightarrow> bool" where
  "is_ws c \<longleftrightarrow> c = CHR '' '' \<or> c = CHR 0x09 \<or> c = CHR 0x0A \<or> c = CHR 0x0B
      \<or> c = CHR 0x0C \<or> c = CHR 0x0D"

definition trim_start :: "string \<Rightarrow> string" where
  "trim_start s = dropWhile is_ws s"

definition trim_end :: "string \<Rightarrow> string" where
  "trim_end s = rev (dropWhile is_ws (rev s))"

definition trim :: "string \<Rightarrow> string" where
  "trim s = trim_end (trim_start s)"

function trim_start_matches :: "string \<Rightarrow> string \<Rightarrow> string" where
  "trim_start_matches p s =
     (if p \<noteq> [] \<and> starts_with s p then trim_start_matches p (drop (length p) s) else s)"
  by pat_completeness auto
termination
proof (relation "measure (\<lambda>(p, s). length s)", simp)
  fix p s :: string
  assume a: "p \<noteq> [] \<and> starts_with s p"
  then have "s \<noteq> []" by (auto simp: starts_with_def)
  with a show "((p, drop (length p) s), p, s) \<in> measure (\<lambda>(p, s). length s)"
    by simp
qed

declare trim_start_matches.simps [simp del]

definition trim_end_matches :: "string \<Rightarrow> string \<Rightarrow> string" where
  "trim_end_matches p s = rev (trim_start_matches (rev p) (rev s))"

fun str_split :: "char \<Rightarrow> string \<Rightarrow> string list" where
  "str_split c [] = [[]]"
| "str_split c (x # s) =
     (if x = c then [] # str_split c s
      else (case str_split c s of [] \<Rightarrow> [[x]] | p # ps \<Rightarrow> (x # p) # ps))"

fun str_split_once :: "char \<Rightarrow> string \<Rightarrow> (string \<times> string) option" where
  "str_split_once c [] = None"
| "str_split_once c (x # s) =
     (if x = c then Some ([], s)
      else map_option (\<lambda>(a, b). (x # a, b)) (str_split_once c s))"

fun str_join :: "string \<Rightarrow> string list \<Rightarrow> string" where
  "str_join sep [] = []"
| "str_join sep [p] = p"
| "str_join sep (p # q # ps) = p @ sep @ str_join sep (q # ps)"

definition strip_cr :: "string \<Rightarrow> string" where
  "strip_cr l = (if l \<noteq> [] \<and> last l = CHR 0x0D then butlast l else l)"

definition str_lines :: "string \<Rightarrow> string list" where
  "str_lines s =
     (let ps = str_split CHR 0x0A s
      in map strip_cr (butlast ps) @ (if last ps = [] then [] else [last ps]))"

abbreviation newline :: string where
  "newline \<equiv> [CHR 0x0A]"

lemma str_split_not_Nil [simp]: "str_split c s \<noteq> []"
  by (induction s) (auto split: list.splits)

lemma str_join_Cons: "ps \<noteq> [] \<Longrightarrow> str_join sep (p # ps) = p @ sep @ str_join sep ps"
  by (cases ps) simp_all

lemma str_join_split: "str_join [c] (str_split c s) = s"
proof (induction s)
  case Nil
  show ?case by simp
next
  case (Cons x s)
  obtain p ps where "str_split c s = p # ps"
    by (cases "str_split c s") auto
  with Cons show ?case
    by (cases ps) (auto simp: str_join_Cons)
qed

lemma str_split_once_Some:
  "str_split_once c s = Some (a, b) \<Longrightarrow> s = a @ c # b \<and> c \<notin> set a"
  by (induction s arbitrary: a b) (auto split: if_splits)

lemma str_split_once_None: "str_split_once c s = None \<longleftrightarrow> c \<notin> set s"
  by (induction s) auto

lemma str_split_once_append: "c \<notin> set a \<Longrightarrow> str_split_once c (a @ c # b) = Some (a, b)"
  by (induction a) auto

lemma str_split_append_sep:
  "c \<notin> set a \<Longrightarrow> str_split c (a @ c # s) = a # str_split c s"
  by (induction a) auto

lemma str_split_no_sep: "c \<notin> set a \<Longrightarrow> str_split c a = [a]"
  by (induction a) auto

text \<open>Splitting what was joined gives the pieces back, when none holds the separator.\<close>

lemma str_split_join:
  "ps \<noteq> [] \<Longrightarrow> \<forall>p \<in> set ps. c \<notin> set p \<Longrightarrow> str_split c (str_join [c] ps) = ps"
proof (induction ps)
  case (Cons p ps)
  then show ?case
    by (cases ps) (auto simp: str_split_no_sep str_split_append_sep)
qed simp

lemma str_join_snoc: "ps \<noteq> [] \<Longrightarrow> str_join sep (ps @ [p]) = str_join sep ps @ sep @ p"
proof (induction ps)
  case (Cons a ps)
  then show ?case by (cases "ps = []") (simp_all add: str_join_Cons)
qed simp

lemma str_lines_join:
  assumes "\<forall>l \<in> set ls. CHR 0x0A \<notin> set l \<and> (l = [] \<or> last l \<noteq> CHR 0x0D)"
  shows "str_lines (str_join newline ls @ newline) = (if ls = [] then [[]] else ls)"
proof -
  have cr: "map strip_cr ls = ls"
    using assms by (intro map_idI) (auto simp: strip_cr_def)
  have "str_split CHR 0x0A (str_join newline (ls @ [[]])) = ls @ [[]]"
    using assms by (intro str_split_join) auto
  then show ?thesis
    using cr by (cases "ls = []") (auto simp: str_lines_def strip_cr_def str_join_snoc)
qed

lemma starts_with_append [simp]: "starts_with (p @ s) p"
  by (simp add: starts_with_def)

lemma ends_with_append [simp]: "ends_with (s @ p) p"
  by (simp add: ends_with_def)

lemma starts_with_iff: "starts_with s p \<longleftrightarrow> (\<exists>r. s = p @ r)"
  by (metis append_eq_conv_conj starts_with_def)

lemma starts_with_length: "starts_with s p \<Longrightarrow> length p \<le> length s"
  by (auto simp: starts_with_iff)

lemma str_find_Some:
  "str_find s p = Some i \<Longrightarrow> i + length p \<le> length s \<and> take (length p) (drop i s) = p"
proof (induction s arbitrary: i)
  case Nil
  then show ?case by (auto split: if_splits)
next
  case (Cons c s)
  show ?case
  proof (cases "starts_with (c # s) p")
    case True
    with Cons.prems starts_with_length [OF True] show ?thesis
      by (simp add: starts_with_def)
  next
    case False
    with Cons show ?thesis by auto
  qed
qed

lemma str_find_append: "str_find (a @ p @ b) p \<noteq> None"
proof (induction a)
  case Nil
  show ?case using starts_with_append [of p b] by (cases "p @ b") auto
qed auto

section \<open>Decimal numerals\<close>

fun digits_rev :: "nat \<Rightarrow> string" where
  "digits_rev n =
     (if n < 10 then [char_of (48 + n)] else char_of (48 + n mod 10) # digits_rev (n div 10))"

declare digits_rev.simps [simp del]

definition nat_to_string :: "nat \<Rightarrow> string" where
  "nat_to_string n = rev (digits_rev n)"

definition int_to_string :: "int \<Rightarrow> string" where
  "int_to_string i = (if i < 0 then CHR ''-'' # nat_to_string (nat (- i)) else nat_to_string (nat i))"

definition is_digit :: "char \<Rightarrow> bool" where
  "is_digit c \<longleftrightarrow> 48 \<le> (of_char c :: nat) \<and> (of_char c :: nat) \<le> 57"

definition digits_value :: "string \<Rightarrow> nat" where
  "digits_value s = foldl (\<lambda>n c. 10 * n + (of_char c - 48)) 0 s"

definition parse_digits :: "string \<Rightarrow> nat option" where
  "parse_digits s = (if s \<noteq> [] \<and> list_all is_digit s then Some (digits_value s) else None)"

text \<open>\<open>str::parse::<i64>\<close>: an optional sign, at least one digit, in range.\<close>

definition in_i64 :: "int \<Rightarrow> bool" where
  "in_i64 i \<longleftrightarrow> - 9223372036854775808 \<le> i \<and> i \<le> 9223372036854775807"

definition parse_i64 :: "string \<Rightarrow> int option" where
  "parse_i64 s =
     (let (neg, ds) = (case s of
            [] \<Rightarrow> (False, [])
          | c # r \<Rightarrow> if c = CHR ''-'' then (True, r)
                     else if c = CHR ''+'' then (False, r) else (False, s))
      in case parse_digits ds of
           None \<Rightarrow> None
         | Some n \<Rightarrow> (let i = (if neg then - int n else int n) in if in_i64 i then Some i else None))"

lemma digits_value_append:
  "digits_value (s @ [c]) = 10 * digits_value s + (of_char c - 48)"
  by (simp add: digits_value_def)

lemma of_char_digit: "n < 10 \<Longrightarrow> of_char (char_of (48 + n) :: char) = (48 + n :: nat)"
  by (simp add: of_char_of)

lemma digits_rev_props:
  "digits_rev n \<noteq> [] \<and> list_all is_digit (digits_rev n) \<and> digits_value (rev (digits_rev n)) = n"
proof (induction n rule: digits_rev.induct)
  case (1 n)
  show ?case
  proof (cases "n < 10")
    case True
    then show ?thesis
      by (simp add: digits_rev.simps [of n] digits_value_def is_digit_def of_char_of)
  next
    case False
    have m: "n mod 10 < 10" by simp
    show ?thesis
      using "1" [OF False] False m
      by (simp add: digits_rev.simps [of n] digits_value_append is_digit_def of_char_of)
  qed
qed

lemma parse_nat_to_string [simp]: "parse_digits (nat_to_string n) = Some n"
  using digits_rev_props [of n]
  by (simp add: parse_digits_def nat_to_string_def list_all_iff)

lemma nat_to_string_digits: "list_all is_digit (nat_to_string n)" "nat_to_string n \<noteq> []"
  using digits_rev_props [of n] by (simp_all add: nat_to_string_def list_all_iff)

lemma nat_to_string_inj: "nat_to_string m = nat_to_string n \<Longrightarrow> m = n"
  by (metis option.inject parse_nat_to_string)

lemma parse_int_to_string: "in_i64 i \<Longrightarrow> parse_i64 (int_to_string i) = Some i"
proof -
  assume i: "in_i64 i"
  obtain c r where cr: "nat_to_string (nat i) = c # r"
    using nat_to_string_digits(2) by (cases "nat_to_string (nat i)") auto
  have "is_digit c" using nat_to_string_digits(1) [of "nat i"] cr by simp
  then have "c \<noteq> CHR ''-''" "c \<noteq> CHR ''+''" by (auto simp: is_digit_def)
  then show ?thesis
    using i cr parse_nat_to_string [of "nat i"]
    by (auto simp: parse_i64_def int_to_string_def Let_def)
qed

section \<open>IEEE comparison\<close>

text \<open>
  The values an \<open>f64\<close> can compare as: \<open>PartialOrd\<close> on it is the order of the
  numbers with both infinities, and every comparison with NaN is false.
\<close>

datatype f64 = NaN | NegInf | Finite rat | PosInf

fun f64_lt :: "f64 \<Rightarrow> f64 \<Rightarrow> bool" where
  "f64_lt NaN b = False"
| "f64_lt a NaN = False"
| "f64_lt NegInf b = (b \<noteq> NegInf)"
| "f64_lt (Finite x) NegInf = False"
| "f64_lt (Finite x) (Finite y) = (x < y)"
| "f64_lt (Finite x) PosInf = True"
| "f64_lt PosInf b = False"

definition f64_eq :: "f64 \<Rightarrow> f64 \<Rightarrow> bool" where
  "f64_eq a b \<longleftrightarrow> a = b \<and> a \<noteq> NaN"

definition f64_le :: "f64 \<Rightarrow> f64 \<Rightarrow> bool" where
  "f64_le a b \<longleftrightarrow> f64_lt a b \<or> f64_eq a b"

lemma f64_trichotomy:
  "a \<noteq> NaN \<Longrightarrow> b \<noteq> NaN \<Longrightarrow> f64_lt a b \<noteq> f64_le b a"
  by (cases a; cases b) (auto simp: f64_le_def f64_eq_def)

end
