(* ===== verification/Json.thy ===== *)
theory Json
  imports Cyro_Prelude
begin

text \<open>
  The values of \<open>serde_json::Value\<close> the code handles. The workspace builds
  \<open>serde_json\<close> with \<open>preserve_order\<close>, so an object is an association list in
  insertion order: inserting an existing key replaces its value in place, and a
  new key goes to the end.
\<close>

type_synonym uuid = "128 word"

datatype json =
    JNull
  | JBool bool
  | JInt int
  | JFloat f64
  | JString string
  | JArray "json list"
  | JObject "(string \<times> json) list"

fun obj_insert :: "'k \<Rightarrow> 'a \<Rightarrow> ('k \<times> 'a) list \<Rightarrow> ('k \<times> 'a) list" where
  "obj_insert k v [] = [(k, v)]"
| "obj_insert k v ((k', v') # m) =
     (if k = k' then (k, v) # m else (k', v') # obj_insert k v m)"

fun json_get :: "json \<Rightarrow> string \<Rightarrow> json option" where
  "json_get (JObject m) k = map_of m k"
| "json_get _ k = None"

text \<open>A unit variant of an enum: its name, or an object with it as only key and null inside.\<close>

fun unit_variant :: "json \<Rightarrow> string option" where
  "unit_variant (JString s) = Some s"
| "unit_variant (JObject [(k, JNull)]) = Some k"
| "unit_variant _ = None"

fun json_as_str :: "json \<Rightarrow> string option" where
  "json_as_str (JString s) = Some s"
| "json_as_str _ = None"

fun json_as_array :: "json \<Rightarrow> json list option" where
  "json_as_array (JArray xs) = Some xs"
| "json_as_array _ = None"

lemma map_of_obj_insert [simp]: "map_of (obj_insert k v m) = (map_of m)(k \<mapsto> v)"
  by (induction m) (auto simp: fun_eq_iff)

lemma keys_obj_insert: "set (map fst (obj_insert k v m)) = insert k (set (map fst m))"
proof (induction m)
  case (Cons x m)
  then show ?case by (cases x) (simp add: insert_commute)
qed simp

lemma distinct_obj_insert:
  "distinct (map fst m) \<Longrightarrow> distinct (map fst (obj_insert k v m))"
proof (induction m)
  case (Cons x m)
  obtain a b where x: "x = (a, b)" by (cases x)
  show ?case
  proof (cases "k = a")
    case False
    have "set (map fst (obj_insert k v m)) = insert k (set (map fst m))"
      by (rule keys_obj_insert)
    with Cons x False show ?thesis by simp
  qed (use Cons x in simp)
qed simp

end
