(* ===== verification/Permissions.thy ===== *)
theory Permissions
  imports Json
begin

text \<open>
  \<open>application/src/server/permissions.rs\<close>: the permissions a panel token or an
  SFTP user carries, how one is granted, how a list of them is read from JSON,
  and the map from users to their permissions with its expiry.

  A \<open>HashSet\<close> of permissions is a set; the ignore overrides of the \<open>ignore\<close>
  crate are the type parameter \<open>'ov\<close>, with the crate's matcher an argument.
  An \<open>Instant\<close> is a number of nanoseconds.
\<close>

section \<open>Permissions\<close>

datatype Permission =
    PAll
  | WebsocketConnect
  | ControlConsole
  | ControlStart
  | ControlStop
  | ControlRestart
  | AdminWebsocketErrors
  | AdminWebsocketInstall
  | AdminWebsocketTransfer
  | BackupRead
  | ScheduleRead
  | FileRead
  | FileReadContent
  | FileCreate
  | FileUpdate
  | FileDelete
  | FileArchive

fun is_admin :: "Permission \<Rightarrow> bool" where
  "is_admin AdminWebsocketErrors = True"
| "is_admin AdminWebsocketInstall = True"
| "is_admin AdminWebsocketTransfer = True"
| "is_admin _ = False"

definition perm_matches :: "Permission \<Rightarrow> Permission \<Rightarrow> bool" where
  "perm_matches self other \<longleftrightarrow> self = other \<or> (other = PAll \<and> \<not> is_admin other)"

type_synonym permissions = "Permission set"

definition has_permission :: "permissions \<Rightarrow> Permission \<Rightarrow> bool" where
  "has_permission ps permission \<longleftrightarrow> (\<exists>p \<in> ps. perm_matches permission p)"

lemma has_permission_iff: "has_permission ps p \<longleftrightarrow> p \<in> ps \<or> PAll \<in> ps"
  by (auto simp: has_permission_def perm_matches_def)

lemma has_permission_mono: "has_permission ps p \<Longrightarrow> ps \<subseteq> qs \<Longrightarrow> has_permission qs p"
  by (auto simp: has_permission_iff)

section \<open>The wire names\<close>

text \<open>\<open>#[serde(rename, alias)]\<close>: the name written, and the names read.\<close>

fun permission_name :: "Permission \<Rightarrow> string" where
  "permission_name PAll = ''*''"
| "permission_name WebsocketConnect = ''websocket.connect''"
| "permission_name ControlConsole = ''control.console''"
| "permission_name ControlStart = ''control.start''"
| "permission_name ControlStop = ''control.stop''"
| "permission_name ControlRestart = ''control.restart''"
| "permission_name AdminWebsocketErrors = ''admin.websocket.errors''"
| "permission_name AdminWebsocketInstall = ''admin.websocket.install''"
| "permission_name AdminWebsocketTransfer = ''admin.websocket.transfer''"
| "permission_name BackupRead = ''backup.read''"
| "permission_name ScheduleRead = ''schedule.read''"
| "permission_name FileRead = ''file.read''"
| "permission_name FileReadContent = ''file.read-content''"
| "permission_name FileCreate = ''file.create''"
| "permission_name FileUpdate = ''file.update''"
| "permission_name FileDelete = ''file.delete''"
| "permission_name FileArchive = ''file.archive''"

definition permission_table :: "(string \<times> Permission) list" where
  "permission_table =
     [(''*'', PAll),
      (''websocket.connect'', WebsocketConnect),
      (''control.console'', ControlConsole),
      (''control.start'', ControlStart),
      (''control.stop'', ControlStop),
      (''control.restart'', ControlRestart),
      (''admin.websocket.errors'', AdminWebsocketErrors),
      (''admin.websocket.install'', AdminWebsocketInstall),
      (''admin.websocket.transfer'', AdminWebsocketTransfer),
      (''backup.read'', BackupRead), (''backups.read'', BackupRead),
      (''schedule.read'', ScheduleRead), (''schedules.read'', ScheduleRead),
      (''file.read'', FileRead), (''files.read'', FileRead),
      (''file.read-content'', FileReadContent), (''files.read-content'', FileReadContent),
      (''file.create'', FileCreate), (''files.create'', FileCreate),
      (''file.update'', FileUpdate), (''files.update'', FileUpdate),
      (''file.delete'', FileDelete), (''files.delete'', FileDelete),
      (''file.archive'', FileArchive), (''files.archive'', FileArchive)]"

definition permission_of_name :: "string \<Rightarrow> Permission option" where
  "permission_of_name s = map_of permission_table s"

text \<open>
  \<open>serde_json::from_value\<close> of a unit variant: the name as a string, or an object
  with the name as its only key and null as its value.
\<close>

definition permission_from_value :: "json \<Rightarrow> Permission option" where
  "permission_from_value v =
     (case unit_variant v of Some name \<Rightarrow> permission_of_name name | None \<Rightarrow> None)"

lemma permission_from_value_JString [simp]:
  "permission_from_value (JString s) = permission_of_name s"
  by (simp add: permission_from_value_def)

lemma permission_from_value_JInt [simp]: "permission_from_value (JInt i) = None"
  by (simp add: permission_from_value_def)

lemma permission_of_name_name [simp]: "permission_of_name (permission_name p) = Some p"
  by (cases p) (simp_all add: permission_of_name_def permission_table_def)

text \<open>
  \<open>visit_seq\<close>: the elements of the sequence in order, \<open>None\<close> standing for an
  element \<open>next_element\<close> fails on, which ends the loop without an error. A value
  that names no permission is skipped.
\<close>

fun visit_seq :: "json option list \<Rightarrow> permissions \<Rightarrow> permissions" where
  "visit_seq [] permissions = permissions"
| "visit_seq (None # seq) permissions = permissions"
| "visit_seq (Some result # seq) permissions =
     (case permission_from_value result of
        Some permission \<Rightarrow> visit_seq seq (insert permission permissions)
      | None \<Rightarrow> visit_seq seq permissions)"

definition deserialize_permissions :: "json option list \<Rightarrow> permissions" where
  "deserialize_permissions seq = visit_seq seq {}"

lemma visit_seq_all:
  "visit_seq (map Some vs) ps = ps \<union> {p. \<exists>v \<in> set vs. permission_from_value v = Some p}"
  by (induction vs arbitrary: ps) (auto split: option.splits)

section \<open>The map of user permissions\<close>

type_synonym 'ov user_permissions = "permissions \<times> 'ov option \<times> nat"

type_synonym 'ov user_permissions_map = "uuid \<Rightarrow> 'ov user_permissions option"

definition elapsed_secs :: "nat \<Rightarrow> nat \<Rightarrow> nat" where
  "elapsed_secs now earlier = (now - earlier) div 1000000000"

text \<open>One round of the background task: entries not used for a day are dropped.\<close>

definition upm_cleanup :: "nat \<Rightarrow> 'ov user_permissions_map \<Rightarrow> 'ov user_permissions_map" where
  "upm_cleanup now m =
     (\<lambda>u. case m u of
        Some (ps, ov, last_access) \<Rightarrow>
          if elapsed_secs now last_access < 60 * 60 * 24 then Some (ps, ov, last_access) else None
      | None \<Rightarrow> None)"

definition upm_has_permission ::
  "nat \<Rightarrow> uuid \<Rightarrow> Permission \<Rightarrow> 'ov user_permissions_map \<Rightarrow> bool \<times> 'ov user_permissions_map" where
  "upm_has_permission now user_uuid permission m =
     (case m user_uuid of
        Some (ps, ov, last_access) \<Rightarrow>
          (has_permission ps permission, m(user_uuid \<mapsto> (ps, ov, now)))
      | None \<Rightarrow> (False, m))"

text \<open>\<open>whitelisted\<close> is \<open>Override::matched(_, _).is_whitelist()\<close> of the \<open>ignore\<close> crate.\<close>

definition upm_is_ignored ::
  "('ov \<Rightarrow> 'path \<Rightarrow> bool \<Rightarrow> bool) \<Rightarrow> nat \<Rightarrow> uuid \<Rightarrow> 'path \<Rightarrow> bool
     \<Rightarrow> 'ov user_permissions_map \<Rightarrow> bool \<times> 'ov user_permissions_map" where
  "upm_is_ignored whitelisted now user_uuid path is_dir m =
     (case m user_uuid of
        Some (ps, ignored, last_access) \<Rightarrow>
          ((case ignored of Some ig \<Rightarrow> whitelisted ig path is_dir | None \<Rightarrow> False),
           m(user_uuid \<mapsto> (ps, ignored, now)))
      | None \<Rightarrow> (False, m))"

text \<open>\<open>build_overrides\<close> is the crate's builder over the added lines; it may fail.\<close>

definition upm_set_permissions ::
  "(string list \<Rightarrow> 'ov option) \<Rightarrow> nat \<Rightarrow> uuid \<Rightarrow> permissions \<Rightarrow> string list
     \<Rightarrow> 'ov user_permissions_map \<Rightarrow> 'ov user_permissions_map" where
  "upm_set_permissions build_overrides now user_uuid permissions ignored_files m =
     m(user_uuid \<mapsto> (permissions, build_overrides ignored_files, now))"

definition upm_is_contained :: "uuid \<Rightarrow> 'ov user_permissions_map \<Rightarrow> bool" where
  "upm_is_contained user_id m \<longleftrightarrow> m user_id \<noteq> None"

text \<open>
  What the map promises: the answers depend only on the permissions last set,
  \<open>upm_granted\<close>; a query changes no one's permissions.
\<close>

definition upm_granted :: "'ov user_permissions_map \<Rightarrow> uuid \<Rightarrow> permissions option" where
  "upm_granted m u = map_option fst (m u)"

lemma upm_has_permission_granted:
  "fst (upm_has_permission now u p m)
     = (case upm_granted m u of Some ps \<Rightarrow> has_permission ps p | None \<Rightarrow> False)"
  "upm_granted (snd (upm_has_permission now u p m)) = upm_granted m"
  by (auto simp: upm_has_permission_def upm_granted_def split: option.splits)

lemma upm_is_ignored_granted:
  "upm_granted (snd (upm_is_ignored w now u pth d m)) = upm_granted m"
  by (auto simp: upm_is_ignored_def upm_granted_def split: option.splits)

lemma upm_set_permissions_granted:
  "upm_granted (upm_set_permissions b now u ps ign m) = (upm_granted m)(u \<mapsto> ps)"
  by (auto simp: upm_set_permissions_def upm_granted_def)

lemma upm_cleanup_granted:
  "upm_granted (upm_cleanup now m) u = upm_granted m u \<or> upm_granted (upm_cleanup now m) u = None"
  by (auto simp: upm_cleanup_def upm_granted_def split: option.splits)

section \<open>Properties\<close>

text \<open>
  A token holds a permission exactly when it lists it or lists the wildcard
  \<open>*\<close>; in particular the wildcard grants the admin permissions too, because the
  guard in \<open>matches\<close> tests the wildcard itself for being an admin permission.
\<close>

theorem has_permission_spec:
  "(has_permission ps p \<longleftrightarrow> p \<in> ps \<or> PAll \<in> ps) \<and>
   (\<forall>q. is_admin q = (q = AdminWebsocketErrors \<or> q = AdminWebsocketInstall
      \<or> q = AdminWebsocketTransfer)) \<and>
   has_permission {PAll} AdminWebsocketErrors"
  by (auto simp: has_permission_iff elim: is_admin.elims)

text \<open>
  Reading back the names of a set of permissions gives the set: unknown
  values in between are skipped, and reading never fails.
\<close>

theorem deserialize_permissions_roundtrip:
  assumes "set ps = S" and "\<forall>v \<in> set junk. permission_from_value v = None"
    and "set vs = set junk \<union> (JString \<circ> permission_name) ` set ps"
  shows "deserialize_permissions (map Some vs) = S"
proof -
  have "{p. \<exists>v \<in> set vs. permission_from_value v = Some p} = set ps"
  proof (rule set_eqI, rule iffI)
    fix p assume "p \<in> {p. \<exists>v \<in> set vs. permission_from_value v = Some p}"
    then obtain v where v: "v \<in> set vs" "permission_from_value v = Some p" by blast
    then have "v \<notin> set junk" using assms(2) by auto
    then obtain q where "q \<in> set ps" "v = JString (permission_name q)"
      using v(1) assms(3) by auto
    then show "p \<in> set ps" using v(2) by simp
  next
    fix p assume "p \<in> set ps"
    then have "JString (permission_name p) \<in> set vs" using assms(3) by auto
    then show "p \<in> {p. \<exists>v \<in> set vs. permission_from_value v = Some p}" by force
  qed
  then show ?thesis
    using assms(1) by (simp add: deserialize_permissions_def visit_seq_all)
qed

theorem deserialize_permissions_roundtrip_witness:
  "deserialize_permissions
     (map Some [JString ''file.read'', JInt 3, JString ''nope'', JString ''control.start''])
   = {FileRead, ControlStart}"
  by (rule deserialize_permissions_roundtrip
        [where ps = "[FileRead, ControlStart]" and junk = "[JInt 3, JString ''nope'']"])
     (auto simp: permission_of_name_def permission_table_def)

datatype 'path upm_op =
    UHas nat uuid Permission
  | UIgnored nat uuid 'path bool
  | UCleanup nat
  | USet nat uuid permissions "string list"

fun upm_step ::
  "(string list \<Rightarrow> 'ov option) \<Rightarrow> ('ov \<Rightarrow> 'path \<Rightarrow> bool \<Rightarrow> bool) \<Rightarrow> 'path upm_op
     \<Rightarrow> 'ov user_permissions_map \<Rightarrow> 'ov user_permissions_map" where
  "upm_step b w (UHas now u p) m = snd (upm_has_permission now u p m)"
| "upm_step b w (UIgnored now u pth d) m = snd (upm_is_ignored w now u pth d m)"
| "upm_step b w (UCleanup now) m = upm_cleanup now m"
| "upm_step b w (USet now u ps ign) m = upm_set_permissions b now u ps ign m"

fun sets_user :: "uuid \<Rightarrow> 'path upm_op \<Rightarrow> bool" where
  "sets_user u (USet now v ps ign) = (u = v)"
| "sets_user u _ = False"

fun is_cleanup :: "'path upm_op \<Rightarrow> bool" where
  "is_cleanup (UCleanup now) = True"
| "is_cleanup _ = False"

lemma upm_step_granted:
  assumes "\<not> sets_user u op"
  shows "upm_granted (upm_step b w op m) u = upm_granted m u
     \<or> (is_cleanup op \<and> upm_granted (upm_step b w op m) u = None)"
proof (cases op)
  case (UCleanup now)
  then show ?thesis using upm_cleanup_granted [of now m u] by simp
next
  case (USet now v ps ign)
  then show ?thesis using assms by (simp add: upm_set_permissions_granted)
qed (simp_all add: upm_has_permission_granted upm_is_ignored_granted)

lemma upm_fold_granted:
  assumes "\<forall>op \<in> set ops. \<not> sets_user u op"
  shows "upm_granted (fold (upm_step b w) ops m) u = upm_granted m u
     \<or> (list_ex is_cleanup ops \<and> upm_granted (fold (upm_step b w) ops m) u = None)"
  using assms
proof (induction ops arbitrary: m)
  case (Cons op ops)
  have "upm_granted (upm_step b w op m) u = upm_granted m u
     \<or> (is_cleanup op \<and> upm_granted (upm_step b w op m) u = None)"
    using Cons.prems by (intro upm_step_granted) simp
  with Cons.IH [of "upm_step b w op m"] Cons.prems show ?case by auto
qed simp

text \<open>
  Once a user's permissions are set, whatever queries, clean-ups and settings
  of other users follow, a query for that user is answered from the permissions
  set, or denied because a clean-up has dropped the idle entry: no operation for
  another user and no query ever widens them.
\<close>

theorem user_permissions_never_widen:
  assumes "\<forall>op \<in> set ops. \<not> sets_user u op"
  shows "fst (upm_has_permission t u p
            (fold (upm_step b w) ops (upm_set_permissions b now u ps ign m)))
       = has_permission ps p
     \<or> (list_ex is_cleanup ops \<and>
        \<not> fst (upm_has_permission t u p
            (fold (upm_step b w) ops (upm_set_permissions b now u ps ign m))))"
  using upm_fold_granted [OF assms, of b w "upm_set_permissions b now u ps ign m"]
  by (auto simp: upm_has_permission_granted upm_set_permissions_granted)

theorem user_permissions_never_widen_witness:
  "fst (upm_has_permission 9 1 FileDelete
      (fold (upm_step (\<lambda>_. Some ()) (\<lambda>_ _ _. True))
        [UHas 4 1 FileRead, USet 5 2 {PAll} [], UIgnored 6 1 () True]
        (upm_set_permissions (\<lambda>_. Some ()) 3 1 {FileRead} [] Map.empty)))
    = has_permission {FileRead} FileDelete"
  using user_permissions_never_widen
    [where ops = "[UHas 4 1 FileRead, USet 5 2 {PAll} [], UIgnored 6 1 () True]"
      and u = 1 and t = 9 and p = FileDelete and b = "\<lambda>_. Some ()" and w = "\<lambda>_ _ _. True"
      and now = 3 and ps = "{FileRead}" and ign = "[]" and m = Map.empty]
  by simp

lemma upm_cleanup_spec:
  "m u = Some (ps, ov, t) \<Longrightarrow>
     upm_cleanup now m u = (if elapsed_secs now t < 86400 then Some (ps, ov, t) else None)"
  by (simp add: upm_cleanup_def)

end
