(* ===== verification/Rust_Path.thy ===== *)
theory Rust_Path
  imports Cyro_Prelude
begin

text \<open>
  Paths of \<open>std::path\<close> on Unix, and how the file system of a server confines
  them (\<open>server/filesystem/cap/mod.rs\<close>, \<open>server/filesystem/mod.rs\<close>).

  \<open>Path\<close> equality, \<open>strip_prefix\<close>, \<open>push\<close> and \<open>pop\<close> act on the components of a
  path, so a path is its component list; \<open>components\<close> parses a path string as
  the standard library does: repeated separators, a trailing separator and every
  \<open>.\<close> but a leading one are dropped.
\<close>

section \<open>Components\<close>

datatype component = RootDir | CurDir | ParentDir | Normal string

type_synonym path = "component list"

definition component_of :: "string \<Rightarrow> component" where
  "component_of s = (if s = ''..'' then ParentDir else Normal s)"

definition components :: "string \<Rightarrow> path" where
  "components s =
     (let parts = str_split CHR ''/'' s;
          body = map component_of (filter (\<lambda>p. p \<noteq> [] \<and> p \<noteq> ''.'') parts)
      in if starts_with s ''/'' then RootDir # body
         else if hd parts = ''.'' then CurDir # body
         else body)"

fun component_str :: "component \<Rightarrow> string" where
  "component_str RootDir = ''/''"
| "component_str CurDir = ''.''"
| "component_str ParentDir = ''..''"
| "component_str (Normal s) = s"

text \<open>The paths \<open>components\<close> yields: the root or \<open>.\<close> only in front.\<close>

fun plain :: "component \<Rightarrow> bool" where
  "plain ParentDir = True"
| "plain (Normal s) = (s \<noteq> [] \<and> s \<noteq> ''.'' \<and> s \<noteq> ''..'' \<and> CHR ''/'' \<notin> set s)"
| "plain _ = False"

definition wf_path :: "path \<Rightarrow> bool" where
  "wf_path p \<longleftrightarrow>
     (case p of [] \<Rightarrow> True
      | c # cs \<Rightarrow> (c = RootDir \<or> c = CurDir \<or> plain c) \<and> list_all plain cs)"

fun is_normal :: "component \<Rightarrow> bool" where
  "is_normal (Normal s) = True"
| "is_normal _ = False"

definition push :: "path \<Rightarrow> component \<Rightarrow> path" where
  "push result c = (if c = RootDir then [RootDir] else result @ [c])"

definition pop :: "path \<Rightarrow> path" where
  "pop result = (if result = [] \<or> last result = RootDir then result else butlast result)"

definition strip_prefix :: "path \<Rightarrow> path \<Rightarrow> path option" where
  "strip_prefix p base = (if take (length base) p = base then Some (drop (length base) p) else None)"

text \<open>\<open>Path::join\<close>: an absolute path replaces, a leading \<open>.\<close> disappears behind another component.\<close>

fun path_join :: "path \<Rightarrow> path \<Rightarrow> path" where
  "path_join p (RootDir # q) = RootDir # q"
| "path_join p (CurDir # q) = (if p = [] then CurDir # q else p @ q)"
| "path_join p q = p @ q"

definition path_text :: "path \<Rightarrow> string" where
  "path_text p =
     (case p of
        RootDir # q \<Rightarrow> ''/'' @ str_join ''/'' (map component_str q)
      | _ \<Rightarrow> str_join ''/'' (map component_str p))"

section \<open>The confinement of paths\<close>

definition resolve_step :: "component \<Rightarrow> path \<Rightarrow> path" where
  "resolve_step c result =
     (case c of
        ParentDir \<Rightarrow> if result \<noteq> [] \<and> last result \<noteq> RootDir then pop result else result
      | _ \<Rightarrow> push result c)"

definition resolve_path :: "path \<Rightarrow> path" where
  "resolve_path p = fold resolve_step p []"

definition relative_path :: "path \<Rightarrow> path \<Rightarrow> path" where
  "relative_path base_path p =
     resolve_path
       (case strip_prefix p base_path of
          Some r \<Rightarrow> r
        | None \<Rightarrow> (case strip_prefix p [RootDir] of Some r \<Rightarrow> r | None \<Rightarrow> p))"

definition path_to_components :: "path \<Rightarrow> path \<Rightarrow> string list" where
  "path_to_components base_path p = map component_str (relative_path base_path p)"

subsection \<open>Lemmas\<close>

lemma str_split_parts: "p \<in> set (str_split c s) \<Longrightarrow> c \<notin> set p"
  by (induction s arbitrary: p) (auto split: list.splits if_splits)

lemma plain_component_of:
  "p \<in> set (str_split CHR ''/'' s) \<Longrightarrow> p \<noteq> [] \<Longrightarrow> p \<noteq> ''.'' \<Longrightarrow> plain (component_of p)"
  using str_split_parts [of p "CHR ''/''" s] by (auto simp: component_of_def)

lemma wf_components [simp]: "wf_path (components s)"
proof -
  have "list_all plain (map component_of
      (filter (\<lambda>p. p \<noteq> [] \<and> p \<noteq> ''.'') (str_split CHR ''/'' s)))"
    using plain_component_of by (auto simp: list_all_iff)
  then show ?thesis
    by (cases "map component_of (filter (\<lambda>p. p \<noteq> [] \<and> p \<noteq> ''.'') (str_split CHR ''/'' s))")
       (auto simp: components_def Let_def wf_path_def)
qed

lemma plain_not_special: "plain c \<Longrightarrow> c \<noteq> RootDir \<and> c \<noteq> CurDir"
  by (cases c) auto

text \<open>What the loop of \<open>resolve_path\<close> keeps: an optional leading \<open>.\<close>, then names.\<close>

definition resolved :: "path \<Rightarrow> bool" where
  "resolved r \<longleftrightarrow> (case r of [] \<Rightarrow> True | c # cs \<Rightarrow> (c = CurDir \<or> is_normal c) \<and> list_all is_normal cs)"

lemma resolved_snoc: "resolved r \<Longrightarrow> is_normal c \<Longrightarrow> resolved (r @ [c])"
  by (cases r) (auto simp: resolved_def)

lemma resolved_butlast: "resolved r \<Longrightarrow> resolved (butlast r)"
  by (cases r) (auto simp: resolved_def list_all_iff dest: in_set_butlastD)

lemma resolved_no_root: "resolved r \<Longrightarrow> RootDir \<notin> set r \<and> ParentDir \<notin> set r"
  by (cases r) (auto simp: resolved_def list_all_iff)

lemma resolve_step_resolved:
  assumes "resolved r" and "plain c \<or> (c = CurDir \<and> r = [])"
  shows "resolved (resolve_step c r)"
proof (cases c)
  case ParentDir
  then show ?thesis
    using assms(1) by (simp add: resolve_step_def pop_def resolved_butlast)
next
  case (Normal s)
  then show ?thesis
    using assms(1) by (simp add: resolve_step_def push_def resolved_snoc)
next
  case CurDir
  then show ?thesis using assms(2) by (simp add: resolve_step_def push_def resolved_def)
qed (use assms in simp)

lemma fold_resolve_step:
  "list_all plain p \<Longrightarrow> resolved r \<Longrightarrow> resolved (fold resolve_step p r)"
  by (induction p arbitrary: r) (simp_all add: resolve_step_resolved)

lemma resolve_path_resolved:
  assumes "wf_path p" and "RootDir \<notin> set p"
  shows "resolved (resolve_path p)"
proof (cases p)
  case Nil
  then show ?thesis by (simp add: resolve_path_def resolved_def)
next
  case (Cons c cs)
  have "resolved (resolve_step c [])"
    using assms Cons by (intro resolve_step_resolved) (auto simp: wf_path_def resolved_def)
  then show ?thesis
    using assms Cons by (simp add: resolve_path_def wf_path_def fold_resolve_step)
qed

lemma wf_path_drop:
  assumes "wf_path p" and "0 < n"
  shows "list_all plain (drop n p)"
proof (cases p)
  case (Cons c cs)
  obtain m where "n = Suc m" using assms(2) by (cases n) auto
  then show ?thesis
    using assms(1) Cons by (auto simp: wf_path_def list_all_iff dest: in_set_dropD)
qed simp

lemma plain_wf: "list_all plain p \<Longrightarrow> wf_path p \<and> RootDir \<notin> set p"
  by (cases p) (auto simp: wf_path_def list_all_iff)

lemma relative_path_resolved:
  assumes "wf_path p" and "base \<noteq> []"
  shows "resolved (relative_path base p)"
proof -
  have strip: "strip_prefix p b = Some r \<Longrightarrow> b \<noteq> [] \<Longrightarrow> wf_path r \<and> RootDir \<notin> set r" for b r
    using wf_path_drop [OF assms(1), of "length b"]
    by (auto simp: strip_prefix_def split: if_splits dest!: plain_wf)
  have nostrip: "strip_prefix p [RootDir] = None \<Longrightarrow> RootDir \<notin> set p"
    using assms(1)
    by (cases p) (auto simp: strip_prefix_def wf_path_def list_all_iff split: if_splits)
  show ?thesis
    using strip [OF _ assms(2)] strip [of "[RootDir]"] nostrip assms(1)
    by (auto simp: relative_path_def intro!: resolve_path_resolved split: option.splits)
qed

lemma fold_resolve_normal:
  "list_all is_normal q \<Longrightarrow> fold resolve_step q r = r @ q"
proof (induction q arbitrary: r)
  case (Cons c q)
  then show ?case by (cases c) (simp_all add: resolve_step_def push_def)
qed simp

lemma resolve_path_id: "resolved r \<Longrightarrow> resolve_path r = r"
  by (cases r) (auto simp: resolve_path_def resolved_def fold_resolve_normal
      resolve_step_def push_def split: component.splits)

lemma relative_path_of_resolved:
  assumes "resolved r" and "hd base = RootDir" and "base \<noteq> []"
  shows "relative_path base r = r"
proof -
  obtain b where b: "base = RootDir # b" using assms(2,3) by (cases base) auto
  have "RootDir \<notin> set r" using assms(1) resolved_no_root by blast
  then have "strip_prefix r base = None" "strip_prefix r [RootDir] = None"
    by (cases r; auto simp: strip_prefix_def b)+
  then show ?thesis using assms(1) by (simp add: relative_path_def resolve_path_id)
qed

section \<open>Properties\<close>

text \<open>
  C1: Confinement. Whatever path string a client sends, the path the file system
  opens relative to the server's directory contains no root and no \<open>..\<close>, so it
  never names anything above that directory; and resolving it again, as nested
  calls do, changes nothing.
\<close>

theorem relative_path_confined:
  assumes "base \<noteq> []" and "hd base = RootDir"
  shows "ParentDir \<notin> set (relative_path base (components s)) \<and>
     RootDir \<notin> set (relative_path base (components s)) \<and>
     CurDir \<notin> set (tl (relative_path base (components s))) \<and>
     relative_path base (relative_path base (components s)) = relative_path base (components s)"
proof -
  have r: "resolved (relative_path base (components s))"
    using assms(1) by (intro relative_path_resolved) simp_all
  then have "CurDir \<notin> set (tl (relative_path base (components s)))"
    by (cases "relative_path base (components s)") (auto simp: resolved_def list_all_iff)
  then show ?thesis
    using resolved_no_root [OF r] relative_path_of_resolved [OF r assms(2,1)] by blast
qed

theorem relative_path_confined_witness:
  "ParentDir \<notin> set (relative_path (components ''/srv/a'') (components ''/srv/a/../../etc/passwd''))"
proof -
  have c: "components ''/srv/a'' = [RootDir, Normal ''srv'', Normal ''a'']"
    by (simp add: components_def component_of_def starts_with_def)
  show ?thesis
    using relative_path_confined [of "components ''/srv/a''" "''/srv/a/../../etc/passwd''"]
    unfolding c by simp
qed

text \<open>
  A path below the server's directory, given absolutely, from the root or
  relatively, is the same relative path; but a leading \<open>.\<close> is kept, so \<open>./a\<close> and
  \<open>a\<close>, the same file, have different components.
\<close>

theorem relative_path_same_file:
  assumes "list_all is_normal q" and "base = RootDir # b" and "\<not> prefix b q"
  shows "relative_path base (base @ q) = q \<and> relative_path base (RootDir # q) = q \<and>
     relative_path base q = q \<and>
     path_to_components base (CurDir # q) = ''.'' # path_to_components base q"
proof -
  have r: "resolved q" "resolved (CurDir # q)"
    using assms(1) by (cases q; simp add: resolved_def)+
  have "strip_prefix (base @ q) base = Some q" by (simp add: strip_prefix_def)
  then have 1: "relative_path base (base @ q) = q"
    using r by (simp add: relative_path_def resolve_path_id)
  have "strip_prefix (RootDir # q) base = None"
    using assms(2,3) take_is_prefix [of "length b" q] by (auto simp: strip_prefix_def)
  then have 2: "relative_path base (RootDir # q) = q"
    using r by (simp add: relative_path_def strip_prefix_def resolve_path_id)
  have "relative_path base q = q" "relative_path base (CurDir # q) = CurDir # q"
    using r assms(2) by (simp_all add: relative_path_of_resolved)
  then show ?thesis using 1 2 by (simp add: path_to_components_def)
qed

theorem relative_path_same_file_witness:
  "path_to_components [RootDir, Normal ''srv''] [CurDir, Normal ''a'']
     = ''.'' # path_to_components [RootDir, Normal ''srv''] [Normal ''a'']"
  using relative_path_same_file [of "[Normal ''a'']" "[RootDir, Normal ''srv'']" "[Normal ''srv'']"]
  by simp

end
