(* ===== verification/Disk_Usage.thy ===== *)
theory Disk_Usage
  imports Rust_Path
begin

text \<open>
  \<open>server/filesystem/usage.rs\<close>: the tree of cached sizes. A node holds a size and
  its named entries. The sizes of the nodes along a path change together; the
  size of the node a call starts from (the root) only changes in
  \<open>add_directory\<close>. File names are UTF-8, so \<open>to_str\<close> does not fail.
\<close>

datatype DiskUsage = DU (size_of: u64) (entries: "string \<Rightarrow> DiskUsage option")

definition du_default :: DiskUsage where
  "du_default = DU 0 (\<lambda>_. None)"

fun du_walk :: "DiskUsage \<Rightarrow> string list \<Rightarrow> DiskUsage option" where
  "du_walk current [] = Some current"
| "du_walk current (name # names) =
     (case entries current name of
        Some usage \<Rightarrow> du_walk usage names
      | None \<Rightarrow> None)"

definition is_root :: "path \<Rightarrow> bool" where
  "is_root p \<longleftrightarrow> p = [] \<or> p = [RootDir]"

definition get_size :: "DiskUsage \<Rightarrow> path \<Rightarrow> u64 option" where
  "get_size self p =
     (if is_root p then Some (size_of self)
      else map_option size_of (du_walk self (map component_str p)))"

definition entry_or_default :: "DiskUsage \<Rightarrow> string \<Rightarrow> DiskUsage" where
  "entry_or_default self name =
     (case entries self name of Some e \<Rightarrow> e | None \<Rightarrow> du_default)"

fun update_size_slice :: "DiskUsage \<Rightarrow> string list \<Rightarrow> i64 \<Rightarrow> DiskUsage" where
  "update_size_slice self [] delta = self"
| "update_size_slice self (component # path) delta =
     (let entry = entry_or_default self component;
          entry = DU (sat_apply (size_of entry) delta) (entries entry)
      in DU (size_of self)
            ((entries self)(component \<mapsto> update_size_slice entry path delta)))"

definition update_size :: "DiskUsage \<Rightarrow> path \<Rightarrow> i64 \<Rightarrow> DiskUsage" where
  "update_size self p delta =
     (if is_root p then self else update_size_slice self (map component_str p) delta)"

text \<open>The first argument list is never empty: \<open>remove_path\<close> sees to it.\<close>

fun recursive_remove :: "DiskUsage \<Rightarrow> string list \<Rightarrow> DiskUsage option \<times> DiskUsage" where
  "recursive_remove self [] = (None, self)"
| "recursive_remove self [name] =
     (case entries self name of
        Some removed \<Rightarrow> (Some removed, DU (size_of self) ((entries self)(name := None)))
      | None \<Rightarrow> (None, self))"
| "recursive_remove self (name # n # names) =
     (case entries self name of
        Some usage \<Rightarrow>
          (case recursive_remove usage (n # names) of
             (Some removed, usage) \<Rightarrow>
               (Some removed,
                DU (size_of self)
                   ((entries self)(name \<mapsto> DU (sat_sub (size_of usage) (size_of removed)) (entries usage))))
           | (None, usage) \<Rightarrow>
               (None, DU (size_of self) ((entries self)(name \<mapsto> usage))))
      | None \<Rightarrow> (None, self))"

definition remove_path :: "DiskUsage \<Rightarrow> path \<Rightarrow> DiskUsage option \<times> DiskUsage" where
  "remove_path self p =
     (if is_root p then (None, self) else recursive_remove self (map component_str p))"

definition du_clear :: "DiskUsage \<Rightarrow> DiskUsage" where
  "du_clear self = DU (size_of self) (\<lambda>_. None)"

fun add_directory_loop :: "DiskUsage \<Rightarrow> string list \<Rightarrow> string \<Rightarrow> DiskUsage \<Rightarrow> DiskUsage" where
  "add_directory_loop current [] leaf source_dir =
     DU (sat_add (size_of current) (size_of source_dir)) ((entries current)(leaf \<mapsto> source_dir))"
| "add_directory_loop current (component # parents) leaf source_dir =
     DU (sat_add (size_of current) (size_of source_dir))
        ((entries current)(component \<mapsto>
           add_directory_loop (entry_or_default current component) parents leaf source_dir))"

definition add_directory :: "DiskUsage \<Rightarrow> string list \<Rightarrow> DiskUsage \<Rightarrow> bool \<times> DiskUsage" where
  "add_directory self target_path source_dir =
     (if target_path = [] then (False, self)
      else (True, add_directory_loop self (butlast target_path) (last target_path) source_dir))"

subsection \<open>Lemmas\<close>

text \<open>The size cached for a path, absent nodes counting zero.\<close>

definition size_at :: "DiskUsage \<Rightarrow> string list \<Rightarrow> u64" where
  "size_at du q = (case du_walk du q of Some e \<Rightarrow> size_of e | None \<Rightarrow> 0)"

lemma entries_du_default [simp]: "entries du_default = (\<lambda>_. None)"
  and size_du_default [simp]: "size_of du_default = 0"
  by (simp_all add: du_default_def)

lemma size_at_Nil [simp]: "size_at du [] = size_of du"
  by (simp add: size_at_def)

lemma size_at_default [simp]: "size_at du_default q = 0"
  by (cases q) (simp_all add: size_at_def)

lemma size_at_Cons: "size_at du (n # q) = size_at (entry_or_default du n) q"
  by (cases q) (auto simp: size_at_def entry_or_default_def split: option.splits)

lemma size_at_DU_Cons:
  "size_at (DU z (es(n \<mapsto> e))) (m # q) = (if m = n then size_at e q else size_at (DU z es) (m # q))"
  by (simp add: size_at_def)

lemma size_at_DU_size [simp]: "size_at (DU z (entries du)) (m # q) = size_at du (m # q)"
  by (simp add: size_at_def)

lemma size_of_update_size_slice [simp]: "size_of (update_size_slice du p d) = size_of du"
  by (cases p) (simp_all add: Let_def)

lemma size_at_update_size_slice:
  "size_at (update_size_slice du p d) q =
     (if q \<noteq> [] \<and> prefix q p then sat_apply (size_at du q) d else size_at du q)"
proof (induction p arbitrary: du q)
  case (Cons c p)
  show ?case
  proof (cases q)
    case Nil then show ?thesis by (simp add: Let_def)
  next
    case (Cons m q')
    show ?thesis
    proof (cases "m = c")
      case True
      then show ?thesis
        using Cons Cons.IH
        by (cases q') (simp_all add: Let_def size_at_DU_Cons size_at_Cons [of du])
    next
      case False
      then show ?thesis using Cons by (simp add: Let_def size_at_DU_Cons)
    qed
  qed
qed simp

lemma du_walk_DU_None [simp]: "(du_walk (DU z (entries du)) q = None) = (du_walk du q = None)"
  by (cases q) simp_all

lemma du_walk_Cons_None:
  "(du_walk du (m # q) = None) = (entries du m = None \<or> du_walk (entry_or_default du m) q = None)"
  by (simp add: entry_or_default_def split: option.split)

lemma walk_update_size_slice_dom:
  "du_walk (update_size_slice du p d) q = None \<longleftrightarrow> du_walk du q = None \<and> \<not> prefix q p"
proof (induction p arbitrary: du q)
  case (Cons c p)
  show ?case
  proof (cases q)
    case (Cons m q')
    show ?thesis
    proof (cases "m = c")
      case True
      let ?e = "entry_or_default du c"
      have d: "entries du c = None \<Longrightarrow> \<not> prefix q' p \<Longrightarrow> du_walk ?e q' = None"
        by (cases q') (simp_all add: entry_or_default_def)
      have i: "(du_walk (update_size_slice (DU (sat_apply (size_of ?e) d) (entries ?e)) p d) q' = None)
          = (du_walk ?e q' = None \<and> \<not> prefix q' p)"
        by (simp only: Cons.IH du_walk_DU_None)
      have "(du_walk (update_size_slice du (c # p) d) (c # q') = None)
          = (du_walk ?e q' = None \<and> \<not> prefix q' p)"
        unfolding i [symmetric] by (simp add: Let_def)
      moreover have "(du_walk du (c # q') = None \<and> \<not> prefix (c # q') (c # p))
          = (du_walk ?e q' = None \<and> \<not> prefix q' p)"
        using d unfolding du_walk_Cons_None by auto
      ultimately show ?thesis unfolding Cons True by (rule trans [OF _ sym])
    next
      case False
      then show ?thesis using Cons by (simp add: Let_def)
    qed
  qed simp
next
  case Nil
  then show ?case by (cases q) auto
qed

lemma recursive_remove_result:
  "p \<noteq> [] \<Longrightarrow> fst (recursive_remove du p) = du_walk du p"
  by (induction du p rule: recursive_remove.induct) (auto split: option.splits prod.splits)

lemma recursive_remove_None:
  "p \<noteq> [] \<Longrightarrow> du_walk du p = None \<Longrightarrow> snd (recursive_remove du p) = du"
proof (induction du p rule: recursive_remove.induct)
  case (3 self name n names)
  show ?case
  proof (cases "entries self name")
    case (Some usage)
    then have "fst (recursive_remove usage (n # names)) = None"
      "snd (recursive_remove usage (n # names)) = usage"
      using 3 recursive_remove_result [of "n # names" usage] by auto
    then show ?thesis
      using Some by (cases self) (auto split: prod.splits option.splits)
  qed simp
qed (auto split: option.splits)

lemma size_at_recursive_remove:
  "p \<noteq> [] \<Longrightarrow> du_walk du p = Some r \<Longrightarrow>
   size_at (snd (recursive_remove du p)) q =
     (if prefix p q then 0
      else if q \<noteq> [] \<and> prefix q p then sat_sub (size_at du q) (size_of r)
      else size_at du q)"
proof (induction du p arbitrary: q rule: recursive_remove.induct)
  case (2 self name)
  show ?case
  proof (cases q)
    case (Cons m q')
    obtain e where e: "entries self name = Some e" using "2.prems"(2) by (auto split: option.splits)
    show ?thesis
    proof (cases "m = name")
      case True
      then show ?thesis using Cons e by (simp add: size_at_def)
    next
      case False
      then show ?thesis using Cons e by (simp add: size_at_def)
    qed
  qed (use 2 in \<open>auto split: option.splits\<close>)
next
  case (3 self name n names)
  from "3.prems"(2) obtain usage where u: "entries self name = Some usage"
    "du_walk usage (n # names) = Some r" by (auto split: option.splits)
  obtain usage' where u': "recursive_remove usage (n # names) = (Some r, usage')"
    using recursive_remove_result [of "n # names" usage] u(2)
    by (cases "recursive_remove usage (n # names)") auto
  have IH: "size_at usage' q' =
     (if prefix (n # names) q' then 0
      else if q' \<noteq> [] \<and> prefix q' (n # names) then sat_sub (size_at usage q') (size_of r)
      else size_at usage q')" for q'
    using "3.IH" [OF u(1) _ u(2)] u' by simp
  have self: "snd (recursive_remove self (name # n # names)) =
      DU (size_of self) ((entries self)(name \<mapsto>
        DU (sat_sub (size_of usage') (size_of r)) (entries usage')))"
    using u(1) u' by simp
  show ?case
  proof (cases q)
    case (Cons m q')
    show ?thesis
    proof (cases "m = name")
      case True
      have sub: "size_at self (name # x) = size_at usage x" for x
        using u(1) by (simp add: size_at_Cons entry_or_default_def)
      show ?thesis
      proof (cases q')
        case Nil
        then show ?thesis
          using True Cons self sub [of "[]"] IH [of "[]"] by (simp add: size_at_DU_Cons)
      next
        case q': (Cons a l)
        have "size_at (snd (recursive_remove self (name # n # names))) q = size_at usage' q'"
          using True Cons q' by (simp only: self size_at_DU_Cons simp_thms if_True size_at_DU_size)
        then show ?thesis using True Cons q' by (simp only: IH) (auto simp: sub)
      qed
    next
      case False
      then show ?thesis using Cons self by (simp add: size_at_DU_Cons)
    qed
  qed (use self in simp)
qed simp

lemma add_directory_loop_walk:
  "du_walk (add_directory_loop du ps leaf src) (ps @ leaf # q) = du_walk src q"
  by (induction ps arbitrary: du) simp_all

lemma size_at_add_directory_loop:
  "size_at (add_directory_loop du ps leaf src) q =
     (if prefix (ps @ [leaf]) q then size_at src (drop (length ps + 1) q)
      else if prefix q ps then sat_add (size_at du q) (size_of src)
      else size_at du q)"
proof (induction ps arbitrary: du q)
  case Nil
  show ?case
  proof (cases q)
    case (Cons m q')
    then show ?thesis by (simp add: size_at_DU_Cons)
  qed simp
next
  case (Cons c ps)
  show ?case
  proof (cases q)
    case (Cons m q')
    then show ?thesis
      using Cons.IH by (simp add: size_at_DU_Cons size_at_Cons [of du])
  qed simp
qed

section \<open>Properties\<close>

text \<open>
  A size change reaches exactly the nodes on the path: every proper or improper
  prefix of it but the root, saturating at each; all other sizes, the root's
  included, stay, and nodes that were missing appear.
\<close>

theorem update_size_spec:
  "size_at (update_size_slice du p d) q =
     (if q \<noteq> [] \<and> prefix q p then sat_apply (size_at du q) d else size_at du q) \<and>
   dom (du_walk (update_size_slice du p d)) = dom (du_walk du) \<union> {r. prefix r p}"
  using walk_update_size_slice_dom [of du p d] by (auto simp: size_at_update_size_slice dom_def)

text \<open>The changes a list of updates makes to a node, and whether it stays in range.\<close>

fun charged :: "(string list \<times> i64) list \<Rightarrow> string list \<Rightarrow> int" where
  "charged [] q = 0"
| "charged ((p, d) # us) q = (if prefix q p then sint d else 0) + charged us q"

fun in_range :: "int \<Rightarrow> (string list \<times> i64) list \<Rightarrow> string list \<Rightarrow> bool" where
  "in_range z [] q = (0 \<le> z \<and> z \<le> int u64_max)"
| "in_range z ((p, d) # us) q =
     (0 \<le> z \<and> z \<le> int u64_max \<and> in_range (z + (if prefix q p then sint d else 0)) us q)"

lemma in_range_hd: "in_range z us q \<Longrightarrow> 0 \<le> z \<and> z \<le> int u64_max"
  by (cases us) auto

lemma ledger_from:
  "q \<noteq> [] \<Longrightarrow> in_range (int (unat (size_at du q))) us q \<Longrightarrow>
   int (unat (size_at (fold (\<lambda>(p, d) du. update_size_slice du p d) us du) q))
     = int (unat (size_at du q)) + charged us q"
proof (induction us arbitrary: du)
  case (Cons u us)
  obtain p d where u: "u = (p, d)" by (cases u)
  let ?du = "update_size_slice du p d"
  have "in_range (int (unat (size_at du q)) + (if prefix q p then sint d else 0)) us q"
    using Cons.prems u by simp
  moreover from in_range_hd [OF this]
  have s: "int (unat (size_at ?du q)) =
      int (unat (size_at du q)) + (if prefix q p then sint d else 0)"
    using Cons.prems(1) sint_sat_apply [of "size_at du q" d]
    by (simp only: size_at_update_size_slice) auto
  ultimately have "in_range (int (unat (size_at ?du q))) us q" by simp
  from Cons.IH [OF Cons.prems(1) this] s u show ?case by simp
qed simp

text \<open>
  C10: The ledger. After any sequence of size changes from the empty tree, the size
  cached for a directory is the sum of the changes made to paths in or below it,
  as long as that running sum stays in the range of a \<open>u64\<close>.
\<close>

theorem update_size_ledger:
  assumes "q \<noteq> []" and "in_range 0 us q"
  shows "int (unat (size_at (fold (\<lambda>(p, d) du. update_size_slice du p d) us du_default) q))
     = charged us q"
  using ledger_from [of q du_default us] assms by simp

theorem update_size_ledger_witness:
  "int (unat (size_at (fold (\<lambda>(p, d) du. update_size_slice du p d)
      [([''a'', ''x''], 5), ([''b''], 7), ([''a'', ''y''], 4), ([''a'', ''x''], - 3)] du_default)
      [''a''])) = 6"
  using update_size_ledger
    [of "[''a'']" "[([''a'', ''x''], 5), ([''b''], 7), ([''a'', ''y''], 4), ([''a'', ''x''], - 3)]"]
  by simp

text \<open>
  C11: Removing a path hands back its subtree and takes its size off every directory
  above it but the root; removing a path that is not cached changes nothing.
\<close>

theorem remove_path_spec:
  assumes "\<not> is_root p"
  shows "fst (remove_path du p) = du_walk du (map component_str p) \<and>
     (fst (remove_path du p) = None \<longrightarrow> snd (remove_path du p) = du) \<and>
     (\<forall>r. fst (remove_path du p) = Some r \<longrightarrow>
       size_at (snd (remove_path du p)) q =
         (if prefix (map component_str p) q then 0
          else if q \<noteq> [] \<and> prefix q (map component_str p) then sat_sub (size_at du q) (size_of r)
          else size_at du q))"
proof -
  have ne: "map component_str p \<noteq> []" using assms by (auto simp: is_root_def)
  show ?thesis
    using assms recursive_remove_result [OF ne, of du] recursive_remove_None [OF ne, of du]
      size_at_recursive_remove [OF ne, of du _ q]
    by (auto simp: remove_path_def)
qed

theorem remove_path_spec_witness:
  "fst (remove_path (update_size_slice du_default [''a''] 5) [Normal ''a'']) \<noteq> None"
  using remove_path_spec
    [of "[Normal ''a'']" "update_size_slice du_default [''a''] 5" "[''a'']"]
  by (simp add: is_root_def Let_def)

text \<open>
  Moving a cached directory, as a rename does: the subtree arrives unchanged
  below the target, and the directories above the target, now including the
  root, grow by its size. The root's size is therefore not the sum of its
  entries: removals and size changes never touch it.
\<close>

theorem move_directory_spec:
  assumes "\<not> is_root p" and "du_walk du (map component_str p) = Some r" and "target \<noteq> []"
  shows "du_walk (snd (add_directory (snd (remove_path du p)) target r)) (target @ q)
           = du_walk du (map component_str p @ q) \<and>
     size_at (snd (add_directory (snd (remove_path du p)) target r)) []
           = sat_add (size_at du []) (size_of r)"
proof -
  let ?p = "map component_str p"
  have ne: "?p \<noteq> []" using assms(1) by (auto simp: is_root_def)
  have t: "butlast target @ last target # q = target @ q"
    using assms(3) by (metis append.assoc append_Cons append_Nil append_butlast_last_id)
  have w: "du_walk du (?p @ q) = du_walk r q"
    using assms(2) by (induction ?p arbitrary: p du) (auto split: option.splits)
  have root: "size_at (snd (remove_path du p)) [] = size_at du []"
    using size_at_recursive_remove [OF ne assms(2), of "[]"] assms(1) ne
    by (simp add: remove_path_def)
  show ?thesis
    using add_directory_loop_walk [of _ "butlast target" "last target" r q] w root assms(3)
      size_at_add_directory_loop [of _ "butlast target" "last target" r "[]"]
    by (simp add: add_directory_def t)
qed

theorem move_directory_spec_witness:
  "size_at (snd (add_directory (snd (remove_path (update_size_slice du_default [''a''] 5)
      [Normal ''a''])) [''b''] (DU 5 (\<lambda>_. None)))) [] = 5"
proof -
  have "du_walk (update_size_slice du_default [''a''] 5) [''a''] = Some (DU 5 (\<lambda>_. None))"
    by (simp add: Let_def entry_or_default_def sat_apply_def sint_u64_nonneg_iff)
  then show ?thesis
    using move_directory_spec
      [of "[Normal ''a'']" "update_size_slice du_default [''a''] 5" "DU 5 (\<lambda>_. None)" "[''b'']" "[]"]
    by (simp add: is_root_def Let_def)
qed

end
