(* ===== verification/Effects.thy ===== *)
theory Effects
  imports Json
begin

text \<open>
  The vocabulary the server's components share: \<open>ServerState\<close>
  (\<open>server/state.rs\<close>), \<open>ServerPowerAction\<close> (\<open>models.rs\<close>), the websocket events
  and messages (\<open>server/websocket/mod.rs\<close>) with their JSON form, and \<open>effect\<close>,
  the observable calls a component makes on the world outside it (the broadcast
  channel, the schedule triggers, Docker). Components append the effects they
  cause, in order, to a trace in their state. \<open>anyhow\<close> errors are their text.
\<close>

type_synonym 'a result = "string + 'a"

section \<open>Server states\<close>

datatype ServerState = Offline | Starting | Stopping | Running

fun to_str :: "ServerState \<Rightarrow> string" where
  "to_str Offline = ''offline''"
| "to_str Starting = ''starting''"
| "to_str Stopping = ''stopping''"
| "to_str Running = ''running''"

text \<open>\<open>None\<close> is the panic \<open>Invalid server state\<close>.\<close>

definition state_of_u8 :: "u8 \<Rightarrow> ServerState option" where
  "state_of_u8 value =
     (if value = 0 then Some Offline
      else if value = 1 then Some Starting
      else if value = 2 then Some Stopping
      else if value = 3 then Some Running
      else None)"

fun u8_of_state :: "ServerState \<Rightarrow> u8" where
  "u8_of_state Offline = 0"
| "u8_of_state Starting = 1"
| "u8_of_state Stopping = 2"
| "u8_of_state Running = 3"

lemma state_of_u8_of_state [simp]: "state_of_u8 (u8_of_state st) = Some st"
  by (cases st) (simp_all add: state_of_u8_def)

lemma state_of_u8_Some: "state_of_u8 b = Some st \<longleftrightarrow> b = u8_of_state st"
  by (cases st) (auto simp: state_of_u8_def split: if_splits)

lemma to_str_inj: "to_str a = to_str b \<longleftrightarrow> a = b"
  by (cases a; cases b) simp_all

section \<open>Power actions\<close>

datatype ServerPowerAction = Start | Stop | Restart | Kill

definition power_action_from_str :: "string \<Rightarrow> ServerPowerAction result" where
  "power_action_from_str s =
     (if s = ''start'' then Inr Start
      else if s = ''stop'' then Inr Stop
      else if s = ''restart'' then Inr Restart
      else if s = ''kill'' then Inr Kill
      else Inl (''invalid server power action provided: '' @ s))"

fun power_action_name :: "ServerPowerAction \<Rightarrow> string" where
  "power_action_name Start = ''start''"
| "power_action_name Stop = ''stop''"
| "power_action_name Restart = ''restart''"
| "power_action_name Kill = ''kill''"

lemma power_action_from_str_iff:
  "power_action_from_str s = Inr a \<longleftrightarrow> s = power_action_name a"
  by (cases a) (auto simp: power_action_from_str_def)

section \<open>Websocket events and messages\<close>

datatype WebsocketEvent =
    AuthenticationSuccess
  | TokenExpiring
  | TokenExpired
  | Authentication
  | SetState
  | SendServerLogs
  | SendCommand
  | SendStats
  | WsError
  | JwtError
  | ServerStats
  | ServerStatus
  | ServerConsoleOutput
  | ServerInstallOutput
  | ServerImagePullProgress
  | ServerImagePullCompleted
  | ServerInstallStarted
  | ServerInstallCompleted
  | ServerDaemonMessage
  | ServerBackupProgress
  | ServerBackupCompleted
  | ServerBackupRestoreProgress
  | ServerBackupRestoreCompleted
  | ServerTransferLogs
  | ServerTransferStatus
  | ServerScheduleStatus
  | ServerScheduleStepError
  | ServerOperationProgress
  | ServerOperationCompleted
  | ServerOperationError

fun event_name :: "WebsocketEvent \<Rightarrow> string" where
  "event_name AuthenticationSuccess = ''auth success''"
| "event_name TokenExpiring = ''token expiring''"
| "event_name TokenExpired = ''token expired''"
| "event_name Authentication = ''auth''"
| "event_name SetState = ''set state''"
| "event_name SendServerLogs = ''send logs''"
| "event_name SendCommand = ''send command''"
| "event_name SendStats = ''send stats''"
| "event_name WsError = ''daemon error''"
| "event_name JwtError = ''jwt error''"
| "event_name ServerStats = ''stats''"
| "event_name ServerStatus = ''status''"
| "event_name ServerConsoleOutput = ''console output''"
| "event_name ServerInstallOutput = ''install output''"
| "event_name ServerImagePullProgress = ''image pull progress''"
| "event_name ServerImagePullCompleted = ''image pull completed''"
| "event_name ServerInstallStarted = ''install started''"
| "event_name ServerInstallCompleted = ''install completed''"
| "event_name ServerDaemonMessage = ''daemon message''"
| "event_name ServerBackupProgress = ''backup progress''"
| "event_name ServerBackupCompleted = ''backup completed''"
| "event_name ServerBackupRestoreProgress = ''backup restore progress''"
| "event_name ServerBackupRestoreCompleted = ''backup restore completed''"
| "event_name ServerTransferLogs = ''transfer logs''"
| "event_name ServerTransferStatus = ''transfer status''"
| "event_name ServerScheduleStatus = ''schedule status''"
| "event_name ServerScheduleStepError = ''schedule step error''"
| "event_name ServerOperationProgress = ''operation progress''"
| "event_name ServerOperationCompleted = ''operation completed''"
| "event_name ServerOperationError = ''operation error''"

definition all_events :: "WebsocketEvent list" where
  "all_events =
     [AuthenticationSuccess, TokenExpiring, TokenExpired, Authentication, SetState,
      SendServerLogs, SendCommand, SendStats, WsError, JwtError, ServerStats, ServerStatus,
      ServerConsoleOutput, ServerInstallOutput, ServerImagePullProgress,
      ServerImagePullCompleted, ServerInstallStarted, ServerInstallCompleted,
      ServerDaemonMessage, ServerBackupProgress, ServerBackupCompleted,
      ServerBackupRestoreProgress, ServerBackupRestoreCompleted, ServerTransferLogs,
      ServerTransferStatus, ServerScheduleStatus, ServerScheduleStepError,
      ServerOperationProgress, ServerOperationCompleted, ServerOperationError]"

definition event_of_name :: "string \<Rightarrow> WebsocketEvent option" where
  "event_of_name s = map_of (map (\<lambda>e. (event_name e, e)) all_events) s"

lemma event_of_name_name [simp]: "event_of_name (event_name e) = Some e"
  by (cases e) (simp_all add: event_of_name_def all_events_def)

record WebsocketMessage =
  event :: WebsocketEvent
  args :: "string list"

definition new_message :: "WebsocketEvent \<Rightarrow> string list \<Rightarrow> WebsocketMessage" where
  "new_message ev data = \<lparr>event = ev, args = data\<rparr>"

text \<open>
  \<open>string_vec_or_empty\<close>: an array of strings and nulls, the nulls dropped, or
  null for the empty vector; every other value is an error (\<open>None\<close>).
\<close>

fun visit_strings :: "json list \<Rightarrow> string list option" where
  "visit_strings [] = Some []"
| "visit_strings (JNull # vs) = visit_strings vs"
| "visit_strings (JString s # vs) = map_option ((#) s) (visit_strings vs)"
| "visit_strings (_ # vs) = None"

fun string_vec_or_empty :: "json \<Rightarrow> string list option" where
  "string_vec_or_empty (JArray vs) = visit_strings vs"
| "string_vec_or_empty JNull = Some []"
| "string_vec_or_empty _ = None"

definition arc_vec :: "string list \<Rightarrow> json" where
  "arc_vec vec = JArray (map JString vec)"

definition message_to_json :: "WebsocketMessage \<Rightarrow> json" where
  "message_to_json m =
     JObject [(''event'', JString (event_name (event m))), (''args'', arc_vec (args m))]"

text \<open>
  The derived \<open>Deserialize\<close>: an object with both fields, each once, in any order,
  other fields ignored; or the array of the two values.
\<close>

definition message_fields :: "json \<Rightarrow> json \<Rightarrow> WebsocketMessage option" where
  "message_fields ev as =
     (case unit_variant ev of
        None \<Rightarrow> None
      | Some name \<Rightarrow>
          (case (event_of_name name, string_vec_or_empty as) of
             (Some e, Some vec) \<Rightarrow> Some (new_message e vec)
           | _ \<Rightarrow> None))"

fun message_from_json :: "json \<Rightarrow> WebsocketMessage option" where
  "message_from_json (JObject m) =
     (case (filter (\<lambda>kv. fst kv = ''event'') m, filter (\<lambda>kv. fst kv = ''args'') m) of
        ([(_, ev)], [(_, as)]) \<Rightarrow> message_fields ev as
      | _ \<Rightarrow> None)"
| "message_from_json (JArray [ev, as]) = message_fields ev as"
| "message_from_json _ = None"

lemma visit_strings_JString [simp]: "visit_strings (map JString ss) = Some ss"
  by (induction ss) auto

text \<open>
  Every message the daemon sends reads back as itself, whatever fields a
  client adds to the object; a null argument list reads as the empty one and
  null arguments are dropped.
\<close>

theorem message_roundtrip:
  "message_from_json (message_to_json m) = Some m \<and>
   message_from_json (JObject [(''x'', j), (''args'', JNull), (''event'', JString (event_name e))])
     = Some (new_message e []) \<and>
   message_from_json (JArray [JString (event_name e), JArray [JNull, JString s]])
     = Some (new_message e [s])"
  by (simp add: message_to_json_def message_fields_def arc_vec_def new_message_def)

section \<open>Effects\<close>

datatype effect =
    StateTrigger ServerState
  | PowerTrigger ServerPowerAction
  | CrashTrigger
  | Broadcast WebsocketMessage
  | DockerKill string string
  | DockerStop string int
  | DockerStart string
  | DockerCreate string
  | DockerRemove string
  | DockerUpdate string
  | DockerPull string string "string option"
  | Stdin string string
  | SetupFilesystem
  | DestroyFilesystem
  | UpdateSchedules
  | UpdateFiles
  | ChownBase
  | SpawnStart nat bool
  | SpawnStopWithKill nat bool
  | UpdateDiskLimit u64

end
