(* ===== verification/Filesystem.thy ===== *)
theory Filesystem
  imports Disk_Usage Effects
begin

text \<open>
  \<open>server/filesystem/mod.rs\<close> and \<open>server/filesystem/limiter\<close>: the accounting of a
  server's disk space. The cached total is what the limit is checked against;
  the tree of theory \<open>Disk_Usage\<close> holds the size of every directory.

  The operating system is a record of the results of the calls the code makes;
  the calls that change the disk are appended to \<open>fs_calls\<close>. The \<open>ignore\<close> crate's
  matcher is the type parameter \<open>'gi\<close>. The limiter programs (btrfs, zfs, xfs)
  are a record of the results of their five entry points.
\<close>

section \<open>The state\<close>

datatype fs_call =
    CreateDirAll path
  | RemoveDirAll path
  | RemoveFile path
  | RenamePath path path
  | ChownPath path
  | OpenBase path
  | OpenFile path bool
  | WriteAll path string

record 'gi Filesystem =
  fs_base_path :: path
  disk_limit :: i64
  disk_usage_cached :: u64
  disk_usage :: DiskUsage
  disk_ignored :: 'gi
  initialized :: bool
  fs_pulls :: "uuid set"
  fs_calls :: "fs_call list"

definition new_filesystem :: "path \<Rightarrow> u64 \<Rightarrow> 'gi \<Rightarrow> 'gi Filesystem" where
  "new_filesystem base_path limit ignored =
     \<lparr>fs_base_path = base_path, disk_limit = limit, disk_usage_cached = 0,
      disk_usage = du_default, disk_ignored = ignored, initialized = False,
      fs_pulls = {}, fs_calls = []\<rparr>"

definition call :: "fs_call \<Rightarrow> 'gi Filesystem \<Rightarrow> 'gi Filesystem" where
  "call c fs = fs\<lparr>fs_calls := fs_calls fs @ [c]\<rparr>"

text \<open>\<open>build\<close> is the crate's builder over the lines of the deny list.\<close>

definition update_ignored :: "(string list \<Rightarrow> 'gi) \<Rightarrow> string list \<Rightarrow> 'gi Filesystem \<Rightarrow> 'gi Filesystem" where
  "update_ignored build deny_list fs = fs\<lparr>disk_ignored := build deny_list\<rparr>"

definition is_ignored ::
  "('gi \<Rightarrow> path \<Rightarrow> bool \<Rightarrow> bool) \<Rightarrow> path \<Rightarrow> bool \<Rightarrow> 'gi Filesystem \<Rightarrow> bool" where
  "is_ignored ignores p is_dir fs = ignores (disk_ignored fs) p is_dir"

text \<open>\<open>pulls\<close>: \<open>locked\<close> tells whether \<open>try_write\<close> got the lock.\<close>

definition pulls :: "bool \<Rightarrow> uuid set \<Rightarrow> 'gi Filesystem \<Rightarrow> uuid set \<times> 'gi Filesystem" where
  "pulls got_lock operations fs =
     (let fs = (if got_lock then fs\<lparr>fs_pulls := {k \<in> fs_pulls fs. k \<in> operations}\<rparr> else fs)
      in (fs_pulls fs, fs))"

section \<open>The limiters\<close>

datatype SystemDiskLimiterMode = LimitNone | BtrfsSubvolume | ZfsDataset | XfsQuota

record limiter_backend =
  lb_setup :: "unit result"
  lb_attach :: "unit result"
  lb_disk_usage :: "u64 result"
  lb_update_disk_limit :: "u64 \<Rightarrow> unit result"
  lb_destroy :: "unit result"

type_synonym backends = "SystemDiskLimiterMode \<Rightarrow> limiter_backend"

text \<open>The limiter \<open>none\<close>; \<open>create\<close> and \<open>remove\<close> are the results of the directory calls.\<close>

definition none_setup :: "unit result \<Rightarrow> unit result" where
  "none_setup create = create"

definition none_attach :: "unit result" where
  "none_attach = Inr ()"

definition none_disk_usage :: "'gi Filesystem \<Rightarrow> u64 result" where
  "none_disk_usage fs = Inr (disk_usage_cached fs)"

definition none_update_disk_limit :: "u64 \<Rightarrow> unit result" where
  "none_update_disk_limit limit = Inr ()"

definition none_destroy :: "unit result \<Rightarrow> unit result" where
  "none_destroy remove = remove"

definition limiter_setup :: "SystemDiskLimiterMode \<Rightarrow> backends \<Rightarrow> unit result \<Rightarrow> unit result" where
  "limiter_setup mode be create =
     (if mode \<noteq> LimitNone \<and> \<not> isl (lb_setup (be mode)) then Inr () else none_setup create)"

definition limiter_attach :: "SystemDiskLimiterMode \<Rightarrow> backends \<Rightarrow> unit result" where
  "limiter_attach mode be =
     (if mode \<noteq> LimitNone \<and> \<not> isl (lb_attach (be mode)) then Inr () else none_attach)"

definition limiter_disk_usage ::
  "SystemDiskLimiterMode \<Rightarrow> backends \<Rightarrow> 'gi Filesystem \<Rightarrow> u64 result" where
  "limiter_disk_usage mode be fs =
     (if mode = LimitNone then none_disk_usage fs
      else case lb_disk_usage (be mode) of
             Inl err \<Rightarrow> none_disk_usage fs
           | Inr usage \<Rightarrow> Inr usage)"

definition limiter_update_disk_limit ::
  "SystemDiskLimiterMode \<Rightarrow> backends \<Rightarrow> u64 \<Rightarrow> unit result" where
  "limiter_update_disk_limit mode be limit =
     (if mode = LimitNone then none_update_disk_limit limit
      else lb_update_disk_limit (be mode) limit)"

definition limiter_destroy ::
  "SystemDiskLimiterMode \<Rightarrow> backends \<Rightarrow> unit result \<Rightarrow> unit result" where
  "limiter_destroy mode be remove =
     (if mode = LimitNone then none_destroy remove else lb_destroy (be mode))"

definition limiter_usage :: "SystemDiskLimiterMode \<Rightarrow> backends \<Rightarrow> 'gi Filesystem \<Rightarrow> u64" where
  "limiter_usage mode be fs =
     (case limiter_disk_usage mode be fs of
        Inr usage \<Rightarrow> usage
      | Inl _ \<Rightarrow> disk_usage_cached fs)"

text \<open>The limit is stored whatever the limiter answers: a failure is only logged.\<close>

definition update_disk_limit :: "u64 \<Rightarrow> 'gi Filesystem \<Rightarrow> 'gi Filesystem" where
  "update_disk_limit limit fs = fs\<lparr>disk_limit := limit\<rparr>"

definition is_full :: "SystemDiskLimiterMode \<Rightarrow> backends \<Rightarrow> 'gi Filesystem \<Rightarrow> bool" where
  "is_full mode be fs \<longleftrightarrow> disk_limit fs \<noteq> 0 \<and> disk_limit fs \<le> limiter_usage mode be fs"

section \<open>The periodic scan\<close>

text \<open>
  One round of the disk checker over the entries of the walk, in the order its
  threads report them: a path with its metadata (directory or not, size), or
  \<open>None\<close> when the metadata cannot be read. \<open>fetch_add\<close> wraps.
\<close>

definition parent :: "path \<Rightarrow> path option" where
  "parent p = (if p = [] \<or> last p = RootDir then None else Some (butlast p))"

definition file_name :: "path \<Rightarrow> string option" where
  "file_name p =
     (if p = [] then None else case last p of Normal s \<Rightarrow> Some s | _ \<Rightarrow> None)"

definition scan_entry ::
  "path \<times> (bool \<times> u64) option \<Rightarrow> DiskUsage \<times> u64 \<Rightarrow> DiskUsage \<times> u64" where
  "scan_entry e acc =
     (case (e, acc) of
        ((p, None), acc) \<Rightarrow> acc
      | ((p, Some (is_dir, len)), (usage, tot)) \<Rightarrow>
          ((if is_dir then update_size usage p len
            else case parent p of
                   Some par \<Rightarrow> update_size usage par len
                 | None \<Rightarrow> usage),
           tot + len))"

definition disk_check ::
  "(path \<times> (bool \<times> u64) option) list result \<Rightarrow> 'gi Filesystem \<Rightarrow> 'gi Filesystem" where
  "disk_check walk fs =
     (case walk of
        Inl err \<Rightarrow> fs
      | Inr es \<Rightarrow>
          (case fold scan_entry es (du_default, 0) of
             (usage, tot) \<Rightarrow> fs\<lparr>disk_usage := usage, disk_usage_cached := tot\<rparr>))"

section \<open>Allocation\<close>

text \<open>
  The check and the change of the cached total that the four allocation functions
  share word for word. The sum of the check is an \<open>i64\<close> addition, which wraps.
\<close>

definition over_limit :: "i64 \<Rightarrow> 'gi Filesystem \<Rightarrow> bool" where
  "over_limit delta fs \<longleftrightarrow>
     disk_limit fs \<noteq> 0 \<and> sint (disk_limit fs) < sint (disk_usage_cached fs + delta)"

definition charge_cached :: "i64 \<Rightarrow> 'gi Filesystem \<Rightarrow> 'gi Filesystem" where
  "charge_cached delta fs =
     (if 0 < sint delta then fs\<lparr>disk_usage_cached := disk_usage_cached fs + delta\<rparr>
      else let abs_size = unsigned_abs delta; current = disk_usage_cached fs
           in if abs_size \<le> current then fs\<lparr>disk_usage_cached := current - abs_size\<rparr>
              else fs\<lparr>disk_usage_cached := 0\<rparr>)"

definition async_allocate_in_path ::
  "path \<Rightarrow> i64 \<Rightarrow> bool \<Rightarrow> 'gi Filesystem \<Rightarrow> bool \<times> 'gi Filesystem" where
  "async_allocate_in_path p delta ignorant fs =
     (if delta = 0 then (True, fs)
      else if 0 < sint delta \<and> \<not> ignorant \<and> over_limit delta fs then (False, fs)
      else let fs = charge_cached delta fs
           in (True, fs\<lparr>disk_usage := update_size (disk_usage fs) p delta\<rparr>))"

definition async_allocate_in_path_slice ::
  "string list \<Rightarrow> i64 \<Rightarrow> bool \<Rightarrow> 'gi Filesystem \<Rightarrow> bool \<times> 'gi Filesystem" where
  "async_allocate_in_path_slice p delta ignorant fs =
     (if delta = 0 then (True, fs)
      else if 0 < sint delta \<and> \<not> ignorant \<and> over_limit delta fs then (False, fs)
      else let fs = charge_cached delta fs
           in (True, fs\<lparr>disk_usage := update_size_slice (disk_usage fs) p delta\<rparr>))"

definition allocate_in_path ::
  "path \<Rightarrow> i64 \<Rightarrow> bool \<Rightarrow> 'gi Filesystem \<Rightarrow> bool \<times> 'gi Filesystem" where
  "allocate_in_path p delta ignorant fs =
     (if delta = 0 then (True, fs)
      else if 0 < sint delta \<and> \<not> ignorant \<and> over_limit delta fs then (False, fs)
      else let fs = charge_cached delta fs
           in (True, fs\<lparr>disk_usage := update_size (disk_usage fs) p delta\<rparr>))"

definition allocate_in_path_slice ::
  "string list \<Rightarrow> i64 \<Rightarrow> bool \<Rightarrow> 'gi Filesystem \<Rightarrow> bool \<times> 'gi Filesystem" where
  "allocate_in_path_slice p delta ignorant fs =
     (if delta = 0 then (True, fs)
      else if 0 < sint delta \<and> \<not> ignorant \<and> over_limit delta fs then (False, fs)
      else let fs = charge_cached delta fs
           in (True, fs\<lparr>disk_usage := update_size_slice (disk_usage fs) p delta\<rparr>))"

section \<open>Removing and renaming\<close>

record os =
  os_symlink_metadata :: "path \<Rightarrow> (bool \<times> u64) result"
  os_metadata :: "path \<Rightarrow> (bool \<times> u64) result"
  os_canonicalize :: "path \<Rightarrow> path result"
  os_create_dir_all :: "path \<Rightarrow> unit result"
  os_remove_dir_all :: "path \<Rightarrow> unit result"
  os_remove_file :: "path \<Rightarrow> unit result"
  os_rename :: "path \<Rightarrow> path \<Rightarrow> unit result"

abbreviation fs_relative_path :: "'gi Filesystem \<Rightarrow> path \<Rightarrow> path" where
  "fs_relative_path fs p \<equiv> relative_path (fs_base_path fs) p"

definition truncate_path :: "os \<Rightarrow> path \<Rightarrow> 'gi Filesystem \<Rightarrow> unit result \<times> 'gi Filesystem" where
  "truncate_path os path fs =
     (let path = fs_relative_path fs path in
      case os_symlink_metadata os path of
        Inl err \<Rightarrow> (Inl err, fs)
      | Inr (is_dir, len) \<Rightarrow>
          let sz = (if is_dir then (case get_size (disk_usage fs) path of Some s \<Rightarrow> s | None \<Rightarrow> 0)
                      else len);
              fs = snd (async_allocate_in_path path (- sz) False fs);
              fs = (if is_dir then fs\<lparr>disk_usage := snd (remove_path (disk_usage fs) path)\<rparr> else fs)
          in if is_dir then (os_remove_dir_all os path, call (RemoveDirAll path) fs)
             else (os_remove_file os path, call (RemoveFile path) fs))"

definition rename_path ::
  "os \<Rightarrow> path \<Rightarrow> path \<Rightarrow> 'gi Filesystem \<Rightarrow> unit result \<times> 'gi Filesystem" where
  "rename_path os old_path new_path fs =
     (let old_path = fs_relative_path fs old_path;
          new_path = fs_relative_path fs new_path;
          (created, fs) = (case parent new_path of
             Some par \<Rightarrow> (os_create_dir_all os par, call (CreateDirAll par) fs)
           | None \<Rightarrow> (Inr (), fs))
      in case created of
           Inl err \<Rightarrow> (Inl err, fs)
         | Inr _ \<Rightarrow>
      (case os_metadata os old_path of
         Inl err \<Rightarrow> (Inl err, fs)
       | Inr (is_dir, len) \<Rightarrow>
      (case parent old_path of
         None \<Rightarrow> (Inl ''failed to get old path parent'', fs)
       | Some old_par \<Rightarrow>
      (case parent new_path of
         None \<Rightarrow> (Inl ''failed to get new path parent'', fs)
       | Some new_par \<Rightarrow>
      (let old_parent = case_sum (\<lambda>_. []) id (os_canonicalize os old_par);
           new_parent = case_sum (\<lambda>_. []) id (os_canonicalize os new_par)
       in case file_name new_path of
         None \<Rightarrow> (Inl ''failed to get new path file name'', fs)
       | Some name \<Rightarrow>
           let abs_new_path = new_parent @ [Normal name];
               fs =
                 (if is_dir then
                    case remove_path (disk_usage fs) old_path of
                      (Some sub, usage) \<Rightarrow>
                        fs\<lparr>disk_usage := snd (add_directory usage (map component_str abs_new_path) sub)\<rparr>
                    | (None, usage) \<Rightarrow> fs\<lparr>disk_usage := usage\<rparr>
                  else
                    snd (async_allocate_in_path new_parent len True
                          (snd (async_allocate_in_path old_parent (- len) True fs))))
           in (os_rename os old_path new_path, call (RenamePath old_path new_path) fs))))))"

text \<open>
  \<open>truncate_root\<close>: the accounting is cleared first; then the entries of the walk
  go one by one until one fails to be listed (\<open>None\<close>) or removed.
\<close>

fun truncate_walk :: "os \<Rightarrow> (bool \<times> path) option list \<Rightarrow> 'gi Filesystem \<Rightarrow> unit result \<times> 'gi Filesystem" where
  "truncate_walk os [] fs = (Inr (), fs)"
| "truncate_walk os (None # es) fs = (Inr (), fs)"
| "truncate_walk os (Some (is_dir, p) # es) fs =
     (let (r, fs) = (if is_dir then (os_remove_dir_all os p, call (RemoveDirAll p) fs)
                     else (os_remove_file os p, call (RemoveFile p) fs))
      in case r of Inl err \<Rightarrow> (Inl err, fs) | Inr _ \<Rightarrow> truncate_walk os es fs)"

definition truncate_root ::
  "os \<Rightarrow> (bool \<times> path) option list result \<Rightarrow> 'gi Filesystem \<Rightarrow> unit result \<times> 'gi Filesystem" where
  "truncate_root os walk fs =
     (let fs = fs\<lparr>disk_usage := du_clear (disk_usage fs), disk_usage_cached := 0\<rparr>
      in case walk of Inl err \<Rightarrow> (Inl err, fs) | Inr es \<Rightarrow> truncate_walk os es fs)"

section \<open>Ownership, set-up and attachment\<close>

text \<open>\<open>chown\<close> gives the result for each path; below a directory failures are ignored.\<close>

definition chown_path ::
  "(path \<Rightarrow> bool result) \<Rightarrow> (path \<Rightarrow> unit result) \<Rightarrow> path list result \<Rightarrow> path
     \<Rightarrow> 'gi Filesystem \<Rightarrow> unit result \<times> 'gi Filesystem" where
  "chown_path is_dir_of chown walk path fs =
     (case is_dir_of path of
        Inl err \<Rightarrow> (Inl err, fs)
      | Inr is_dir \<Rightarrow>
          let rel = fs_relative_path fs path;
              target = (if is_root rel then fs_base_path fs else rel)
          in case chown target of
               Inl err \<Rightarrow> (Inl err, call (ChownPath target) fs)
             | Inr _ \<Rightarrow>
                 (let fs = call (ChownPath target) fs in
                  if is_dir then
                    (case walk of
                       Inl err \<Rightarrow> (Inl err, fs)
                     | Inr ps \<Rightarrow> (Inr (), fold (\<lambda>p. call (ChownPath p)) ps fs))
                  else (Inr (), fs)))"

definition open_base :: "unit result \<Rightarrow> 'gi Filesystem \<Rightarrow> 'gi Filesystem" where
  "open_base open_result fs =
     (if initialized fs then fs
      else let fs = call (OpenBase (fs_base_path fs)) fs
           in case open_result of Inr _ \<Rightarrow> fs\<lparr>initialized := True\<rparr> | Inl _ \<Rightarrow> fs)"

definition fs_setup ::
  "SystemDiskLimiterMode \<Rightarrow> backends \<Rightarrow> unit result \<Rightarrow> unit result \<Rightarrow> 'gi Filesystem \<Rightarrow> 'gi Filesystem" where
  "fs_setup mode be create open_result fs =
     (case limiter_setup mode be create of
        Inl err \<Rightarrow> fs
      | Inr _ \<Rightarrow> open_base open_result fs)"

definition fs_attach :: "unit result \<Rightarrow> 'gi Filesystem \<Rightarrow> 'gi Filesystem" where
  "fs_attach open_result fs = open_base open_result fs"

text \<open>
  \<open>backup_fs\<close>: the mounted backup a path lies in. \<open>parse_uuid\<close> parses the name
  below the mount path, \<open>browse\<close> is the backup manager's answer, \<open>uuid_text\<close> the
  printed uuid.
\<close>

definition backup_fs ::
  "bool \<Rightarrow> path \<Rightarrow> (string \<Rightarrow> uuid option) \<Rightarrow> (uuid \<Rightarrow> string) \<Rightarrow> uuid list
     \<Rightarrow> (uuid \<Rightarrow> 'b option result) \<Rightarrow> path \<Rightarrow> 'gi Filesystem \<Rightarrow> ('b \<times> path) option" where
  "backup_fs enabled mount_path parse_uuid uuid_text backups browse path fs =
     (if \<not> enabled then None
      else case strip_prefix (fs_relative_path fs path) mount_path of
             None \<Rightarrow> None
           | Some [] \<Rightarrow> None
           | Some (c # rest) \<Rightarrow>
               (case parse_uuid (component_str c) of
                  None \<Rightarrow> None
                | Some u \<Rightarrow>
                    if u \<notin> set backups then None
                    else case browse u of
                           Inr (Some b) \<Rightarrow>
                             map_option (Pair b) (strip_prefix (c # rest) [Normal (uuid_text u)])
                         | _ \<Rightarrow> None))"

end
