(* ===== verification/Filesystem_Quota.thy ===== *)
theory Filesystem_Quota
  imports Filesystem
begin

text \<open>
  What the accounting of theory \<open>Filesystem\<close> promises: the four allocation
  functions agree, a successful allocation charges the cached total and exactly
  the directories of its path, the total never passes the limit as long as
  allocations run one at a time (and can when two of them interleave), removals
  and renames give back what they took, and the periodic scan computes the sums
  of the sizes it sees.
\<close>

section \<open>Lemmas\<close>

lemma sint_add_no_overflow:
  fixes a b :: u64
  assumes "- 9223372036854775808 \<le> sint a + sint b" and "sint a + sint b \<le> 9223372036854775807"
  shows "sint (a + b) = sint a + sint b"
proof -
  have "signed_take_bit 63 (sint a + sint b) = sint a + sint b"
    using assms by (intro signed_take_bit_int_eq_self) simp_all
  then show ?thesis by (simp add: sint_word_ariths)
qed

lemma sint_u64_bounds: "- 9223372036854775808 \<le> sint (d :: u64)" "sint d \<le> 9223372036854775807"
proof -
  show "sint d \<le> 9223372036854775807"
    using sint_lt [of d] by simp
  show "- 9223372036854775808 \<le> sint d"
    using sint_ge [of d] by simp
qed

lemma over_limit_iff:
  assumes "0 < sint delta" and "int (unat (disk_usage_cached fs)) + sint delta < 9223372036854775808"
  shows "over_limit delta fs \<longleftrightarrow>
     disk_limit fs \<noteq> 0 \<and> sint (disk_limit fs) < int (unat (disk_usage_cached fs)) + sint delta"
proof -
  have "unat (disk_usage_cached fs) < 9223372036854775808" using assms by linarith
  then have c: "sint (disk_usage_cached fs) = int (unat (disk_usage_cached fs))"
    by (rule sint_u64_small)
  have "sint (disk_usage_cached fs + delta) = sint (disk_usage_cached fs) + sint delta"
    using assms c by (intro sint_add_no_overflow) linarith+
  then show ?thesis by (simp only: over_limit_def c)
qed

lemma charge_cached_int:
  assumes "int (unat (disk_usage_cached fs)) + sint delta \<le> int u64_max"
  shows "int (unat (disk_usage_cached (charge_cached delta fs)))
     = max 0 (int (unat (disk_usage_cached fs)) + sint delta)"
proof (cases "0 < sint delta")
  case True
  let ?c = "disk_usage_cached fs"
  have d: "sint delta = int (unat delta)"
    using True sint_u64_nonneg_iff [of delta] sint_u64_small [of delta] by linarith
  then have le: "unat ?c + unat delta \<le> u64_max" using assms by linarith
  then have "unat (?c + delta) = unat ?c + unat delta"
    using unat_sat_add [of ?c delta] by (simp add: sat_add_def)
  then have "int (unat (?c + delta)) = int (unat ?c) + sint delta" using d by linarith
  moreover have "disk_usage_cached (charge_cached delta fs) = ?c + delta"
    using True by (simp add: charge_cached_def)
  moreover have "0 \<le> int (unat ?c) + sint delta"
    using True of_nat_0_le_iff [of "unat ?c"] by (rule_tac add_nonneg_nonneg) auto
  ultimately show ?thesis by (simp only: max_absorb2)
next
  case False
  let ?c = "disk_usage_cached fs" and ?a = "unsigned_abs delta"
  have "disk_usage_cached (charge_cached delta fs) = sat_sub ?c ?a"
    using False by (simp add: charge_cached_def sat_sub_def Let_def word_le_nat_alt)
  then have "unat (disk_usage_cached (charge_cached delta fs)) = unat ?c - unat ?a"
    by (simp only: unat_sat_sub)
  then show ?thesis using unat_unsigned_abs [of delta] False by linarith
qed

lemma charge_cached_other [simp]:
  "disk_limit (charge_cached d fs) = disk_limit fs"
  "disk_usage (charge_cached d fs) = disk_usage fs"
  "fs_base_path (charge_cached d fs) = fs_base_path fs"
  by (simp_all add: charge_cached_def Let_def)

text \<open>The nodes a path charges: its components, none for the root.\<close>

definition names :: "path \<Rightarrow> string list" where
  "names p = (if is_root p then [] else map component_str p)"

lemma update_size_names: "update_size du p d = update_size_slice du (names p) d"
  by (simp add: update_size_def names_def)

lemmas allocate_defs =
  async_allocate_in_path_def async_allocate_in_path_slice_def allocate_in_path_def
  allocate_in_path_slice_def

lemma allocate_all_equal:
  "async_allocate_in_path p d ign fs = allocate_in_path_slice (names p) d ign fs"
  "async_allocate_in_path_slice ns d ign fs = allocate_in_path_slice ns d ign fs"
  "allocate_in_path p d ign fs = allocate_in_path_slice (names p) d ign fs"
  by (simp_all add: allocate_defs update_size_names)

lemma allocate_slice_cases:
  "allocate_in_path_slice ns d ign fs =
     (if d \<noteq> 0 \<and> 0 < sint d \<and> \<not> ign \<and> over_limit d fs then (False, fs)
      else (True, (if d = 0 then fs else (charge_cached d fs)
              \<lparr>disk_usage := update_size_slice (disk_usage fs) ns d\<rparr>)))"
  by (simp add: allocate_in_path_slice_def Let_def)

lemma allocate_slice_limit [simp]:
  "disk_limit (snd (allocate_in_path_slice ns d ign fs)) = disk_limit fs"
  by (simp add: allocate_slice_cases)

lemma charge_cached_0: "disk_usage_cached (charge_cached 0 fs) = disk_usage_cached fs"
  by (simp add: charge_cached_def unsigned_abs_def)

lemma allocate_slice_True:
  assumes "allocate_in_path_slice ns d ign fs = (True, fs')"
  shows "disk_usage_cached fs' = disk_usage_cached (charge_cached d fs)"
    and "size_at (disk_usage fs') q =
      (if q \<noteq> [] \<and> prefix q ns then sat_apply (size_at (disk_usage fs) q) d
       else size_at (disk_usage fs) q)"
  using assms
  by (auto simp: allocate_slice_cases charge_cached_0 size_at_update_size_slice
      split: if_splits)

definition within_limit :: "'gi Filesystem \<Rightarrow> bool" where
  "within_limit fs \<longleftrightarrow> disk_limit fs = 0 \<or> int (unat (disk_usage_cached fs)) \<le> sint (disk_limit fs)"

datatype quota_op =
    QPath path i64
  | QSlice "string list" i64
  | QAsyncPath path i64
  | QAsyncSlice "string list" i64

fun quota_delta :: "quota_op \<Rightarrow> i64" where
  "quota_delta (QPath p d) = d"
| "quota_delta (QSlice p d) = d"
| "quota_delta (QAsyncPath p d) = d"
| "quota_delta (QAsyncSlice p d) = d"

fun quota_run :: "quota_op \<Rightarrow> 'gi Filesystem \<Rightarrow> bool \<times> 'gi Filesystem" where
  "quota_run (QPath p d) fs = allocate_in_path p d False fs"
| "quota_run (QSlice p d) fs = allocate_in_path_slice p d False fs"
| "quota_run (QAsyncPath p d) fs = async_allocate_in_path p d False fs"
| "quota_run (QAsyncSlice p d) fs = async_allocate_in_path_slice p d False fs"

fun quota_names :: "quota_op \<Rightarrow> string list" where
  "quota_names (QPath p d) = names p"
| "quota_names (QSlice p d) = p"
| "quota_names (QAsyncPath p d) = names p"
| "quota_names (QAsyncSlice p d) = p"

lemma quota_run_slice:
  "quota_run op fs = allocate_in_path_slice (quota_names op) (quota_delta op) False fs"
  by (cases op) (simp_all add: allocate_all_equal)

lemma quota_step_within:
  assumes "within_limit fs" and "sint (disk_limit fs) < 4611686018427387904"
    and "sint d < 4611686018427387904" and "disk_limit fs \<noteq> 0"
  shows "within_limit (snd (allocate_in_path_slice ns d False fs))"
proof (cases "d \<noteq> 0 \<and> 0 < sint d \<and> over_limit d fs")
  case True
  then show ?thesis using assms(1) by (simp add: allocate_slice_cases)
next
  case False
  have c: "int (unat (disk_usage_cached fs)) \<le> sint (disk_limit fs)"
    using assms(1,4) by (simp add: within_limit_def)
  let ?fs = "snd (allocate_in_path_slice ns d False fs)"
  have fs': "disk_usage_cached ?fs = disk_usage_cached (charge_cached d fs)"
    using False by (auto simp: allocate_slice_cases charge_cached_0)
  have m: "int (unat (disk_usage_cached ?fs)) = max 0 (int (unat (disk_usage_cached fs)) + sint d)"
    unfolding fs' using c assms(2,3) by (intro charge_cached_int) linarith
  have "max 0 (int (unat (disk_usage_cached fs)) + sint d) \<le> sint (disk_limit fs)"
  proof (cases "0 < sint d")
    case True
    then have "d \<noteq> 0" by auto
    then have "\<not> over_limit d fs" using True False by blast
    then show ?thesis
      using over_limit_iff [OF True, of fs] c assms by linarith
  next
    case False
    then show ?thesis using c by linarith
  qed
  then show ?thesis using m by (simp add: within_limit_def)
qed

section \<open>Properties\<close>

text \<open>
  C3: The quota. With a limit below \<open>2^62\<close>, any sequence of allocations and
  releases (by any of the four functions, none of them told to ignore the limit,
  each below \<open>2^62\<close> bytes) that run one after the other keeps the cached total
  within the limit.
\<close>

theorem quota_never_exceeded:
  assumes "within_limit fs" and "sint (disk_limit fs) < 2 ^ 62"
    and "\<forall>op \<in> set ops. sint (quota_delta op) < 2 ^ 62"
  shows "within_limit (fold (\<lambda>op fs. snd (quota_run op fs)) ops fs)"
  using assms
proof (induction ops arbitrary: fs)
  case (Cons op ops)
  let ?fs = "snd (quota_run op fs)"
  have lim: "disk_limit ?fs = disk_limit fs" by (simp add: quota_run_slice)
  have "within_limit ?fs"
  proof (cases "disk_limit fs = 0")
    case True
    then show ?thesis using lim by (simp add: within_limit_def)
  next
    case False
    then show ?thesis
      unfolding quota_run_slice using Cons.prems by (intro quota_step_within) simp_all
  qed
  then show ?case using Cons.IH [of ?fs] Cons.prems lim by simp
qed simp

theorem quota_never_exceeded_witness:
  "within_limit (fold (\<lambda>op fs. snd (quota_run op fs))
      [QSlice [''a''] 60, QPath [Normal ''b''] 60, QAsyncPath [Normal ''a''] (- 10)]
      (new_filesystem [RootDir] 100 ()))"
proof -
  have "sint (60 :: u64) = 60" "sint (100 :: u64) = 100" "sint (- 10 :: u64) = - 10"
    by (simp_all add: sint_uint signed_take_bit_int_eq_self)
  then show ?thesis
    by (intro quota_never_exceeded) (simp_all add: new_filesystem_def within_limit_def)
qed

text \<open>
  C8: What one allocation does: it is refused, with nothing changed, exactly when it
  grows a limited total past the limit and is not told to ignore it; otherwise
  the total moves by the change (stopping at zero) and so does the size of every
  directory on the path and of no other.
\<close>

theorem allocate_spec:
  assumes "int (unat (disk_usage_cached fs)) + sint d < 2 ^ 63"
    and "allocate_in_path p d ign fs = (ok, fs')"
  shows "(\<not> ok) = (0 < sint d \<and> \<not> ign \<and> disk_limit fs \<noteq> 0 \<and>
            sint (disk_limit fs) < int (unat (disk_usage_cached fs)) + sint d) \<and>
     (\<not> ok \<longrightarrow> fs' = fs) \<and>
     (ok \<longrightarrow> int (unat (disk_usage_cached fs')) = max 0 (int (unat (disk_usage_cached fs)) + sint d) \<and>
        (\<forall>q. size_at (disk_usage fs') q =
           (if q \<noteq> [] \<and> prefix q (names p) then sat_apply (size_at (disk_usage fs) q) d
            else size_at (disk_usage fs) q)))"
proof -
  have a: "allocate_in_path_slice (names p) d ign fs = (ok, fs')"
    using assms(2) by (simp add: allocate_all_equal)
  have ov: "0 < sint d \<Longrightarrow> over_limit d fs \<longleftrightarrow>
      disk_limit fs \<noteq> 0 \<and> sint (disk_limit fs) < int (unat (disk_usage_cached fs)) + sint d"
    using assms(1) by (intro over_limit_iff) simp_all
  have m: "int (unat (disk_usage_cached (charge_cached d fs)))
      = max 0 (int (unat (disk_usage_cached fs)) + sint d)"
    using assms(1) by (intro charge_cached_int) simp
  have refused: "(\<not> ok) = (0 < sint d \<and> \<not> ign \<and> over_limit d fs)"
    "\<not> ok \<Longrightarrow> fs' = fs"
    using a by (auto simp: allocate_slice_cases split: if_splits)
  show ?thesis
  proof (cases ok)
    case True
    then show ?thesis
      using refused(1) ov m allocate_slice_True [of "names p" d ign fs fs'] a by auto
  next
    case False
    then show ?thesis using refused ov by blast
  qed
qed

theorem allocate_spec_witness:
  "fst (allocate_in_path [Normal ''a''] 60 False
      (new_filesystem [RootDir] 100 ()\<lparr>disk_usage_cached := 50\<rparr>)) = False"
proof -
  let ?fs = "new_filesystem [RootDir] 100 ()\<lparr>disk_usage_cached := 50\<rparr>"
  have s: "sint (60 :: u64) = 60" "sint (100 :: u64) = 100"
    by (simp_all add: sint_uint signed_take_bit_int_eq_self)
  obtain ok fs' where a: "allocate_in_path [Normal ''a''] 60 False ?fs = (ok, fs')" by fastforce
  show ?thesis
    using allocate_spec [OF _ a] s a by (simp add: new_filesystem_def)
qed

text \<open>Two tasks between the check and the change of the cached total.\<close>

datatype quota_pc = WantsQuota i64 | Checked i64 | QuotaDone

inductive quota_step ::
  "'gi Filesystem \<times> (nat \<Rightarrow> quota_pc) \<Rightarrow> 'gi Filesystem \<times> (nat \<Rightarrow> quota_pc) \<Rightarrow> bool" where
  check: "pc t = WantsQuota d \<Longrightarrow> \<not> over_limit d fs \<Longrightarrow> quota_step (fs, pc) (fs, pc(t := Checked d))"
| refuse: "pc t = WantsQuota d \<Longrightarrow> over_limit d fs \<Longrightarrow> quota_step (fs, pc) (fs, pc(t := QuotaDone))"
| commit: "pc t = Checked d \<Longrightarrow> quota_step (fs, pc) (charge_cached d fs, pc(t := QuotaDone))"

inductive_cases quota_stepE: "quota_step c c'"

text \<open>
  The check of the total and its change are separate accesses: two allocations
  that each fit can both pass the check and together exceed the limit.
\<close>

theorem quota_race:
  "\<exists>fs' pc'. quota_step\<^sup>*\<^sup>* (new_filesystem [RootDir] 100 (), \<lambda>t. WantsQuota 60) (fs', pc') \<and>
     within_limit (new_filesystem [RootDir] 100 () :: unit Filesystem) \<and> \<not> within_limit fs'"
proof -
  let ?fs = "new_filesystem [RootDir] 100 ()" and ?pc = "\<lambda>t :: nat. WantsQuota 60"
  let ?a = "?pc(0 := Checked 60)" let ?b = "?a(1 := Checked 60)"
  let ?c = "?b(0 := QuotaDone)" let ?d = "?c(1 := QuotaDone)"
  let ?fs1 = "charge_cached 60 ?fs" let ?fs2 = "charge_cached 60 ?fs1"
  have s: "sint (60 :: u64) = 60" "sint (100 :: u64) = 100" "sint (120 :: u64) = 120"
    by (simp_all add: sint_uint signed_take_bit_int_eq_self)
  have free: "\<not> over_limit 60 ?fs" by (simp add: over_limit_def new_filesystem_def s)
  have "quota_step (?fs, ?pc) (?fs, ?a)" using free by (intro check) simp_all
  moreover have "quota_step (?fs, ?a) (?fs, ?b)" using free by (intro check) simp_all
  moreover have "quota_step (?fs, ?b) (?fs1, ?c)" by (intro commit) simp
  moreover have "quota_step (?fs1, ?c) (?fs2, ?d)" by (intro commit) simp
  ultimately have "quota_step\<^sup>*\<^sup>* (?fs, ?pc) (?fs2, ?d)"
    by (meson rtranclp.rtrancl_into_rtrancl rtranclp.rtrancl_refl)
  moreover have "within_limit ?fs" "\<not> within_limit ?fs2"
    by (simp_all add: within_limit_def new_filesystem_def charge_cached_def s)
  ultimately show ?thesis by blast
qed

section \<open>Removing, renaming, scanning\<close>

lemma unat_eq_word: "unat a = unat b \<Longrightarrow> a = b"
  by (simp only: word_unat_eq_iff)

lemma sint_minus_u64:
  assumes "unat s < 9223372036854775808"
  shows "sint (- s :: u64) = - int (unat s)"
proof -
  have s: "sint s = int (unat s)" using assms by (rule sint_u64_small)
  have "signed_take_bit 63 (- sint s) = - sint s"
  proof (rule signed_take_bit_int_eq_self)
    have b: "0 \<le> sint s" "sint s \<le> 9223372036854775807"
      using sint_u64_nonneg_iff [of s] assms sint_u64_bounds(2) [of s] by blast+
    show "- (2 ^ 63) \<le> - sint s" "- sint s < 2 ^ 63" using b by simp_all
  qed
  then show ?thesis using s by (simp add: sint_word_ariths)
qed

lemma sat_apply_minus:
  assumes "unat s < 9223372036854775808"
  shows "sat_apply a (- s) = sat_sub a s"
proof -
  have "int (unat (sat_apply a (- s))) = int (unat (sat_sub a s))"
    unfolding sint_sat_apply sint_minus_u64 [OF assms] unat_sat_sub
    using u64_bound [of a] by linarith
  then have "unat (sat_apply a (- s)) = unat (sat_sub a s)" by linarith
  then show ?thesis by (rule unat_eq_word)
qed

lemma release_cached:
  assumes "unat s < 9223372036854775808"
  shows "disk_usage_cached (charge_cached (- s) fs) = sat_sub (disk_usage_cached fs) s"
proof -
  have "int (unat (disk_usage_cached fs)) + sint (- s) \<le> int u64_max"
    using sint_minus_u64 [OF assms] u64_bound [of "disk_usage_cached fs"] by linarith
  then have "unat (disk_usage_cached (charge_cached (- s) fs)) = unat (sat_sub (disk_usage_cached fs) s)"
    using charge_cached_int [of fs "- s"] sint_minus_u64 [OF assms]
    unfolding unat_sat_sub by linarith
  then show ?thesis by (rule unat_eq_word)
qed

lemma release_slice:
  assumes "unat s < 9223372036854775808"
  shows "allocate_in_path_slice ns (- s) ign fs =
     (True, if s = 0 then fs else (charge_cached (- s) fs)
        \<lparr>disk_usage := update_size_slice (disk_usage fs) ns (- s)\<rparr>)"
  using sint_minus_u64 [OF assms] by (auto simp: allocate_slice_cases)

lemma release_usage:
  assumes "unat s < 9223372036854775808"
  shows "size_at (disk_usage (snd (allocate_in_path_slice ns (- s) ign fs))) q =
     (if q \<noteq> [] \<and> prefix q ns then sat_sub (size_at (disk_usage fs) q) s
      else size_at (disk_usage fs) q)"
    and "disk_usage_cached (snd (allocate_in_path_slice ns (- s) ign fs))
      = sat_sub (disk_usage_cached fs) s"
  using assms
  by (auto simp: release_slice size_at_update_size_slice sat_apply_minus release_cached)

lemma call_simps [simp]:
  "disk_usage (call c fs) = disk_usage fs" "disk_usage_cached (call c fs) = disk_usage_cached fs"
  "fs_calls (call c fs) = fs_calls fs @ [c]" "disk_limit (call c fs) = disk_limit fs"
  by (simp_all add: call_def)

text \<open>
  Deleting a directory takes its cached size off the total and off every
  directory above it, drops its subtree from the tree and then removes the
  directory itself, whatever the operating system answers.
\<close>

theorem truncate_directory_spec:
  assumes "relative_path (fs_base_path fs) path = rp" and "\<not> is_root rp"
    and "os_symlink_metadata os rp = Inr (True, len)"
    and "du_walk (disk_usage fs) (names rp) = Some node" and "unat (size_of node) < 2 ^ 63"
  shows "fst (truncate_path os path fs) = os_remove_dir_all os rp \<and>
     last (fs_calls (snd (truncate_path os path fs))) = RemoveDirAll rp \<and>
     disk_usage_cached (snd (truncate_path os path fs)) = sat_sub (disk_usage_cached fs) (size_of node) \<and>
     size_at (disk_usage (snd (truncate_path os path fs))) q =
       (if prefix (names rp) q then 0
        else if q \<noteq> [] \<and> prefix q (names rp) then sat_sub (size_at (disk_usage fs) q) (size_of node)
        else size_at (disk_usage fs) q)"
proof -
  let ?s = "size_of node" let ?n = "names rp"
  have n: "?n = map component_str rp" "?n \<noteq> []"
    using assms(2) by (auto simp: names_def is_root_def)
  have s: "unat ?s < 9223372036854775808" using assms(5) by simp
  let ?fs = "snd (allocate_in_path_slice ?n (- ?s) False fs)"
  have g: "get_size (disk_usage fs) rp = Some ?s"
    using assms(2,4) n by (simp add: get_size_def)
  have t: "truncate_path os path fs =
      (os_remove_dir_all os rp,
       call (RemoveDirAll rp) (?fs\<lparr>disk_usage := snd (recursive_remove (disk_usage ?fs) ?n)\<rparr>))"
    using assms(1-3) g n
    by (simp add: truncate_path_def Let_def allocate_all_equal remove_path_def)
  have u: "size_at (disk_usage ?fs) q =
      (if q \<noteq> [] \<and> prefix q ?n then sat_sub (size_at (disk_usage fs) q) ?s
       else size_at (disk_usage fs) q)" for q
    by (rule release_usage(1) [OF s])
  have "size_at (disk_usage fs) ?n = ?s" using assms(4) by (simp add: size_at_def)
  then have z: "size_at (disk_usage ?fs) ?n = 0" using u [of ?n] n by simp
  have "du_walk (disk_usage ?fs) ?n \<noteq> None"
    using assms(4) walk_update_size_slice_dom [of "disk_usage fs" ?n "- ?s" ?n]
    by (cases "?s = 0") (auto simp: release_slice [OF s] allocate_in_path_slice_def)
  then obtain r where r: "du_walk (disk_usage ?fs) ?n = Some r" "size_of r = 0"
    using z by (auto simp: size_at_def)
  have rm: "size_at (snd (recursive_remove (disk_usage ?fs) ?n)) q =
      (if prefix ?n q then 0
       else if q \<noteq> [] \<and> prefix q ?n then sat_sub (size_at (disk_usage fs) q) ?s
       else size_at (disk_usage fs) q)"
    unfolding size_at_recursive_remove [OF n(2) r(1), of q] r(2) sat_sub_0 u by simp
  show ?thesis unfolding t using rm release_usage(2) [OF s, of ?n False fs] by simp
qed

theorem truncate_directory_spec_witness:
  "disk_usage_cached (snd (truncate_path
      \<lparr>os_symlink_metadata = \<lambda>_. Inr (True, 4096), os_metadata = \<lambda>_. Inr (True, 4096),
       os_canonicalize = Inr, os_create_dir_all = \<lambda>_. Inr (), os_remove_dir_all = \<lambda>_. Inr (),
       os_remove_file = \<lambda>_. Inr (), os_rename = \<lambda>_ _. Inr ()\<rparr>
      [Normal ''a'']
      (new_filesystem [RootDir] 100 ()
        \<lparr>disk_usage_cached := 7, disk_usage := DU 0 [''a'' \<mapsto> DU 5 Map.empty]\<rparr>))) = 2"
proof -
  let ?os = "\<lparr>os_symlink_metadata = \<lambda>_. Inr (True, 4096), os_metadata = \<lambda>_. Inr (True, 4096),
       os_canonicalize = Inr, os_create_dir_all = \<lambda>_. Inr (), os_remove_dir_all = \<lambda>_. Inr (),
       os_remove_file = \<lambda>_. Inr (), os_rename = \<lambda>_ _. Inr ()\<rparr>"
  let ?fs = "new_filesystem [RootDir] 100 ()
        \<lparr>disk_usage_cached := 7, disk_usage := DU 0 [''a'' \<mapsto> DU 5 Map.empty]\<rparr>"
  have "relative_path [RootDir] [Normal ''a''] = [Normal ''a'']"
    by (intro relative_path_of_resolved) (simp_all add: resolved_def)
  then have "disk_usage_cached (snd (truncate_path ?os [Normal ''a''] ?fs)) = sat_sub 7 5"
    using truncate_directory_spec
      [of ?fs "[Normal ''a'']" "[Normal ''a'']" ?os 4096 "DU 5 Map.empty" "[]"]
    by (simp add: new_filesystem_def names_def is_root_def)
  then show ?thesis by (simp add: sat_sub_def)
qed

text \<open>
  Renaming a file moves its size from the directories above the old place to
  those above the new one and leaves the total alone (the size does not exceed
  it), ignoring the disk limit; nothing is charged twice.
\<close>

theorem rename_file_spec:
  assumes rel: "fs_relative_path fs old = old_dir @ [Normal a]"
    "fs_relative_path fs new = new_dir @ [Normal b]"
    and os: "os_create_dir_all os new_dir = Inr ()" "os_metadata os (old_dir @ [Normal a]) = Inr (False, len)"
    "os_canonicalize os old_dir = Inr old_dir" "os_canonicalize os new_dir = Inr new_dir"
    and len: "unat len < 2 ^ 63" "len \<le> disk_usage_cached fs"
  shows "fst (rename_path os old new fs) = os_rename os (old_dir @ [Normal a]) (new_dir @ [Normal b]) \<and>
     disk_usage_cached (snd (rename_path os old new fs)) = disk_usage_cached fs \<and>
     size_at (disk_usage (snd (rename_path os old new fs))) q =
       (let freed = (if q \<noteq> [] \<and> prefix q (names old_dir) then sat_sub (size_at (disk_usage fs) q) len
                     else size_at (disk_usage fs) q)
        in if q \<noteq> [] \<and> prefix q (names new_dir) then sat_add freed len else freed)"
proof -
  have l: "unat len < 9223372036854775808" using len(1) by simp
  let ?fs0 = "call (CreateDirAll new_dir) fs"
  let ?fs1 = "snd (allocate_in_path_slice (names old_dir) (- len) True ?fs0)"
  let ?fs2 = "snd (allocate_in_path_slice (names new_dir) len True ?fs1)"
  have par: "parent (d @ [Normal x]) = Some d" "file_name (d @ [Normal x]) = Some x" for d x
    by (simp_all add: parent_def file_name_def)
  have t: "rename_path os old new fs =
      (os_rename os (old_dir @ [Normal a]) (new_dir @ [Normal b]),
       call (RenamePath (old_dir @ [Normal a]) (new_dir @ [Normal b])) ?fs2)"
    unfolding rename_path_def rel Let_def using os par by (simp add: allocate_all_equal)
  have nn: "0 \<le> sint len" using l by (simp add: sint_u64_nonneg_iff)
  have sl: "sint len = int (unat len)" using l by (rule sint_u64_small)
  have c1: "disk_usage_cached ?fs1 = sat_sub (disk_usage_cached fs) len"
    using release_usage(2) [OF l, of "names old_dir" True ?fs0] by simp
  have u1: "size_at (disk_usage ?fs1) q =
      (if q \<noteq> [] \<and> prefix q (names old_dir) then sat_sub (size_at (disk_usage fs) q) len
       else size_at (disk_usage fs) q)"
    using release_usage(1) [OF l, of "names old_dir" True ?fs0 q] by simp
  have a2: "allocate_in_path_slice (names new_dir) len True ?fs1 = (True, ?fs2)"
    by (simp add: allocate_slice_cases)
  have u2: "size_at (disk_usage ?fs2) q =
      (if q \<noteq> [] \<and> prefix q (names new_dir) then sat_add (size_at (disk_usage ?fs1) q) len
       else size_at (disk_usage ?fs1) q)"
    using allocate_slice_True(2) [OF a2, of q] nn by (simp add: sat_apply_def)
  have le: "unat len \<le> unat (disk_usage_cached fs)" using len(2) by (simp add: word_le_nat_alt)
  have c1': "unat (disk_usage_cached ?fs1) = unat (disk_usage_cached fs) - unat len"
    unfolding c1 by (rule unat_sat_sub)
  have "int (unat (disk_usage_cached (charge_cached len ?fs1)))
      = max 0 (int (unat (disk_usage_cached ?fs1)) + sint len)"
    using c1' sl le u64_bound [of "disk_usage_cached fs"] by (intro charge_cached_int) linarith
  then have "unat (disk_usage_cached ?fs2) = unat (disk_usage_cached fs)"
    unfolding allocate_slice_True(1) [OF a2] using c1' sl le by linarith
  then have "disk_usage_cached ?fs2 = disk_usage_cached fs" by (rule unat_eq_word)
  then show ?thesis unfolding t Let_def fst_conv snd_conv call_simps u2 u1 by simp
qed

theorem rename_file_spec_witness:
  "disk_usage_cached (snd (rename_path
      \<lparr>os_symlink_metadata = \<lambda>_. Inr (False, 5), os_metadata = \<lambda>_. Inr (False, 5),
       os_canonicalize = Inr, os_create_dir_all = \<lambda>_. Inr (), os_remove_dir_all = \<lambda>_. Inr (),
       os_remove_file = \<lambda>_. Inr (), os_rename = \<lambda>_ _. Inr ()\<rparr>
      [Normal ''a'', Normal ''f''] [Normal ''b'', Normal ''f'']
      (new_filesystem [RootDir] 100 ()\<lparr>disk_usage_cached := 7\<rparr>))) = 7"
proof -
  let ?os = "\<lparr>os_symlink_metadata = \<lambda>_. Inr (False, 5), os_metadata = \<lambda>_. Inr (False, 5),
       os_canonicalize = Inr, os_create_dir_all = \<lambda>_. Inr (), os_remove_dir_all = \<lambda>_. Inr (),
       os_remove_file = \<lambda>_. Inr (), os_rename = \<lambda>_ _. Inr ()\<rparr>"
  let ?fs = "new_filesystem [RootDir] 100 ()\<lparr>disk_usage_cached := 7\<rparr>"
  have "relative_path [RootDir] [Normal d, Normal ''f''] = [Normal d, Normal ''f'']" for d
    by (intro relative_path_of_resolved) (simp_all add: resolved_def)
  then show ?thesis
    using rename_file_spec
      [of ?fs "[Normal ''a'', Normal ''f'']" "[Normal ''a'']" "''f''"
          "[Normal ''b'', Normal ''f'']" "[Normal ''b'']" "''f''" ?os 5 "[]"]
    by (simp add: new_filesystem_def)
qed

text \<open>The updates one scanned entry makes: a directory to itself, a file to its parent.\<close>

definition scan_charge :: "path \<times> (bool \<times> u64) option \<Rightarrow> (string list \<times> i64) list" where
  "scan_charge e =
     (case e of
        (p, None) \<Rightarrow> []
      | (p, Some (is_dir, len)) \<Rightarrow>
          (if is_dir then [(names p, len)]
           else case parent p of Some par \<Rightarrow> [(names par, len)] | None \<Rightarrow> []))"

definition scanned :: "path \<times> (bool \<times> u64) option \<Rightarrow> u64" where
  "scanned e = (case snd e of Some (is_dir, len) \<Rightarrow> len | None \<Rightarrow> 0)"

lemma fold_scan_entry:
  "fold scan_entry es (du, t) =
     (fold (\<lambda>(p, d) du. update_size_slice du p d) (concat (map scan_charge es)) du,
      t + sum_list (map scanned es))"
proof (induction es arbitrary: du t)
  case (Cons e es)
  obtain p m where e: "e = (p, m)" by (cases e)
  have "scan_entry e (du, t) =
      (fold (\<lambda>(p, d) du. update_size_slice du p d) (scan_charge e) du, t + scanned e)"
    by (auto simp: e scan_entry_def scan_charge_def scanned_def update_size_names
        split: option.splits)
  then show ?case using Cons by (simp add: add.assoc)
qed simp

text \<open>
  A finished scan replaces the cached figures by those of the walk: the total is
  the sum of all sizes seen (modulo \<open>2^64\<close>), the size of a directory the sum of
  its own size and those of the files and directories in it at any depth, in
  whatever order the threads report them; a failed scan changes nothing.
\<close>

theorem disk_check_spec:
  assumes "q \<noteq> []" and "in_range 0 (concat (map scan_charge es)) q"
  shows "disk_usage_cached (disk_check (Inr es) fs) = sum_list (map scanned es) \<and>
     int (unat (size_at (disk_usage (disk_check (Inr es) fs)) q)) = charged (concat (map scan_charge es)) q \<and>
     disk_limit (disk_check (Inr es) fs) = disk_limit fs \<and>
     disk_check (Inl err) fs = fs"
  using assms ledger_from [of q du_default "concat (map scan_charge es)"]
  by (simp add: disk_check_def fold_scan_entry)

theorem disk_check_spec_witness:
  "int (unat (size_at (disk_usage (disk_check
      (Inr [([Normal ''a''], Some (True, 10)), ([Normal ''a'', Normal ''f''], Some (False, 5)),
            ([Normal ''g''], Some (False, 3)), ([Normal ''h''], None)])
      (new_filesystem [RootDir] 100 ()))) [''a''])) = 15"
proof -
  have s: "sint (10 :: u64) = 10" "sint (5 :: u64) = 5"
    by (simp_all add: sint_uint signed_take_bit_int_eq_self)
  show ?thesis
    using disk_check_spec
      [of "[''a'']" "[([Normal ''a''], Some (True, 10)), ([Normal ''a'', Normal ''f''], Some (False, 5)),
            ([Normal ''g''], Some (False, 3)), ([Normal ''h''], None)]" "new_filesystem [RootDir] 100 ()"]
    by (simp add: scan_charge_def names_def parent_def is_root_def s)
qed

text \<open>
  The limiters fall back: without a limiter program, or when it fails, the usage
  is the cached total, set-up is the plain directory creation and attaching
  succeeds; when it works, its answer is used.
\<close>

theorem limiter_fallback:
  "limiter_usage mode be fs =
     (if mode = LimitNone \<or> isl (lb_disk_usage (be mode)) then disk_usage_cached fs
      else projr (lb_disk_usage (be mode))) \<and>
   limiter_attach mode be = Inr () \<and>
   (isl (limiter_setup mode be create) \<longrightarrow> isl create \<and> (mode = LimitNone \<or> isl (lb_setup (be mode)))) \<and>
   (is_full LimitNone be fs = (disk_limit fs \<noteq> 0 \<and> disk_limit fs \<le> disk_usage_cached fs))"
  by (auto simp: limiter_usage_def limiter_disk_usage_def none_disk_usage_def limiter_attach_def
      none_attach_def limiter_setup_def none_setup_def is_full_def split: sum.splits)

theorem limiter_fallback_witness:
  "limiter_usage LimitNone (\<lambda>_. undefined) (new_filesystem [RootDir] 100 ()) = 0"
  using limiter_fallback [of LimitNone "\<lambda>_. undefined" "new_filesystem [RootDir] 100 ()" "Inr ()"]
  by (simp add: new_filesystem_def)

end
