(* ===== verification/Fs_Writer.thy ===== *)
theory Fs_Writer
  imports Filesystem_Quota
begin

text \<open>
  \<open>server/filesystem/writer.rs\<close>: writers that charge what they write to the disk
  usage, in batches of \<open>ALLOCATION_THRESHOLD\<close> bytes.

  The buffered file under a writer is not modelled: its answer to a call is an
  argument of the call. The synchronous writer works over any allocation function
  (locale \<open>allocator\<close>), which \<open>allocate_in_path_slice\<close> interprets. The
  asynchronous one polls the future of \<open>async_allocate_in_path_slice\<close>, whose only
  suspension point is the lock of the usage tree: \<open>lock_free\<close> tells whether a
  poll gets it.
\<close>

definition ALLOCATION_THRESHOLD :: int where
  "ALLOCATION_THRESHOLD = 1024 * 1024"

type_synonym 'fs alloc = "string list \<Rightarrow> i64 \<Rightarrow> bool \<Rightarrow> 'fs \<Rightarrow> bool \<times> 'fs"

section \<open>The synchronous writer\<close>

record FileSystemWriter =
  fw_parent :: "string list"
  fw_writer :: bool
  fw_ignorant :: bool
  accumulated_bytes :: i64
  fw_modified :: "u64 option"
  current_position :: u64
  highest_position :: u64

text \<open>\<open>created\<close> and \<open>permitted\<close> are the results of creating the file and setting its mode.\<close>

definition fw_new ::
  "'gi Filesystem \<Rightarrow> unit result \<Rightarrow> unit result option \<Rightarrow> path \<Rightarrow> u64 option \<Rightarrow> FileSystemWriter result" where
  "fw_new fs created permitted destination modified =
     (case parent destination of
        None \<Rightarrow> Inl ''Destination has no parent''
      | Some parent_path \<Rightarrow>
          let par = path_to_components (fs_base_path fs) (fs_relative_path fs parent_path) in
          (case (created, permitted) of
             (Inl err, _) \<Rightarrow> Inl err
           | (Inr _, Some (Inl err)) \<Rightarrow> Inl err
           | _ \<Rightarrow> Inr \<lparr>fw_parent = par, fw_writer = True, fw_ignorant = False,
                    accumulated_bytes = 0, fw_modified = modified,
                    current_position = 0, highest_position = 0\<rparr>))"

definition fw_set_ignorant :: "FileSystemWriter \<Rightarrow> FileSystemWriter" where
  "fw_set_ignorant w = w\<lparr>fw_ignorant := True\<rparr>"

definition allocate_accumulated ::
  "'fs alloc \<Rightarrow> FileSystemWriter \<Rightarrow> 'fs \<Rightarrow> unit result \<times> FileSystemWriter \<times> 'fs" where
  "allocate_accumulated alloc w fs =
     (if 0 < sint (accumulated_bytes w) then
        (case alloc (fw_parent w) (accumulated_bytes w) (fw_ignorant w) fs of
           (False, fs) \<Rightarrow> (Inl ''Failed to allocate space'', w, fs)
         | (True, fs) \<Rightarrow> (Inr (), w\<lparr>accumulated_bytes := 0\<rparr>, fs))
      else (Inr (), w, fs))"

definition advance :: "u64 \<Rightarrow> FileSystemWriter \<Rightarrow> FileSystemWriter" where
  "advance written w =
     (let w = w\<lparr>current_position := current_position w + written\<rparr>
      in if highest_position w < current_position w then
           w\<lparr>accumulated_bytes := accumulated_bytes w + (current_position w - highest_position w),
             highest_position := current_position w\<rparr>
         else w)"

text \<open>\<open>io\<close> is what the buffered file answers: an error, or the bytes it took.\<close>

definition fw_write ::
  "'fs alloc \<Rightarrow> u64 result \<Rightarrow> FileSystemWriter \<Rightarrow> 'fs \<Rightarrow> u64 result \<times> FileSystemWriter \<times> 'fs" where
  "fw_write alloc io w fs =
     (if \<not> fw_writer w then (Inl ''Writer is not available'', w, fs)
      else case io of
        Inl err \<Rightarrow> (Inl err, w, fs)
      | Inr written \<Rightarrow>
          (let w = advance written w in
           if ALLOCATION_THRESHOLD \<le> sint (accumulated_bytes w) then
             (case allocate_accumulated alloc w fs of
                (Inl err, w, fs) \<Rightarrow> (Inl err, w, fs)
              | (Inr _, w, fs) \<Rightarrow> (Inr written, w, fs))
           else (Inr written, w, fs)))"

definition fw_flush ::
  "'fs alloc \<Rightarrow> unit result \<Rightarrow> FileSystemWriter \<Rightarrow> 'fs \<Rightarrow> unit result \<times> FileSystemWriter \<times> 'fs" where
  "fw_flush alloc io w fs =
     (case allocate_accumulated alloc w fs of
        (Inl err, w, fs) \<Rightarrow> (Inl err, w, fs)
      | (Inr _, w, fs) \<Rightarrow>
          (if fw_writer w then io else Inl ''Writer is not available'', w, fs))"

definition fw_seek ::
  "'fs alloc \<Rightarrow> u64 result \<Rightarrow> FileSystemWriter \<Rightarrow> 'fs \<Rightarrow> u64 result \<times> FileSystemWriter \<times> 'fs" where
  "fw_seek alloc io w fs =
     (case allocate_accumulated alloc w fs of
        (Inl err, w, fs) \<Rightarrow> (Inl err, w, fs)
      | (Inr _, w, fs) \<Rightarrow>
          if \<not> fw_writer w then (Inl ''Writer is not available'', w, fs)
          else case io of
                 Inl err \<Rightarrow> (Inl err, w, fs)
               | Inr new_pos \<Rightarrow> (Inr new_pos, w\<lparr>current_position := new_pos\<rparr>, fs))"

text \<open>Dropping the writer only sets the modification time: nothing is charged.\<close>

definition fw_drop :: "FileSystemWriter \<Rightarrow> 'fs \<Rightarrow> FileSystemWriter \<times> 'fs" where
  "fw_drop w fs = (if fw_modified w \<noteq> None then w\<lparr>fw_writer := False\<rparr> else w, fs)"

datatype fw_op = WWrite "u64 result" | WFlush "unit result" | WSeek "u64 result"

fun fw_step :: "'fs alloc \<Rightarrow> fw_op \<Rightarrow> FileSystemWriter \<times> 'fs \<Rightarrow> FileSystemWriter \<times> 'fs" where
  "fw_step alloc (WWrite io) (w, fs) = snd (fw_write alloc io w fs)"
| "fw_step alloc (WFlush io) (w, fs) = snd (fw_flush alloc io w fs)"
| "fw_step alloc (WSeek io) (w, fs) = snd (fw_seek alloc io w fs)"

text \<open>How far an operation can move the position.\<close>

fun fw_reach :: "fw_op \<Rightarrow> nat" where
  "fw_reach (WWrite (Inr n)) = unat n"
| "fw_reach (WSeek (Inr n)) = unat n"
| "fw_reach _ = 0"

section \<open>The interface the writers use\<close>

locale allocator =
  fixes alloc :: "'fs alloc" and used :: "'fs \<Rightarrow> int"
  assumes alloc_ok:
    "alloc p d ign fs = (True, fs') \<Longrightarrow> 0 < sint d \<Longrightarrow> used fs + sint d \<le> int u64_max \<Longrightarrow>
       used fs' = used fs + sint d"
    and alloc_refused: "alloc p d ign fs = (False, fs') \<Longrightarrow> fs' = fs"
begin

text \<open>Charged and not yet charged bytes together are the highest position reached.\<close>

definition accounts :: "int \<Rightarrow> FileSystemWriter \<Rightarrow> 'fs \<Rightarrow> bool" where
  "accounts base w fs \<longleftrightarrow>
     0 \<le> sint (accumulated_bytes w) \<and> base \<le> used fs \<and>
     used fs + sint (accumulated_bytes w) = base + int (unat (highest_position w)) \<and>
     unat (highest_position w) < 2 ^ 62 \<and> base < 2 ^ 62"

lemma accounts_allocate:
  assumes "accounts base w fs" and "allocate_accumulated alloc w fs = (r, w', fs')"
  shows "accounts base w' fs' \<and> (\<not> isl r \<longrightarrow> accumulated_bytes w' = 0) \<and>
     highest_position w' = highest_position w \<and> current_position w' = current_position w"
proof (cases "0 < sint (accumulated_bytes w)")
  case True
  obtain ok fs1 where a: "alloc (fw_parent w) (accumulated_bytes w) (fw_ignorant w) fs = (ok, fs1)"
    by fastforce
  have "used fs + sint (accumulated_bytes w) \<le> int u64_max"
    using assms(1) unfolding accounts_def by (auto simp del: of_nat_unat)
  then show ?thesis
    using assms a True alloc_ok [OF _ True, of "fw_parent w" "fw_ignorant w" fs fs1]
      alloc_refused [of "fw_parent w" "accumulated_bytes w" "fw_ignorant w" fs fs1]
    by (cases ok) (auto simp: allocate_accumulated_def accounts_def)
next
  case False
  then have "sint (accumulated_bytes w) = 0"
    using assms(1) by (simp add: accounts_def)
  then have "accumulated_bytes w = 0" by (simp add: signed_eq_0_iff)
  then show ?thesis using assms False by (auto simp: allocate_accumulated_def)
qed

lemma accounts_advance:
  assumes "accounts base w fs" and "unat (current_position w) + unat n < 2 ^ 62"
  shows "accounts base (advance n w) fs"
proof -
  let ?c = "current_position w + n" and ?h = "highest_position w"
  have bound: "unat (current_position w) + unat n < 4611686018427387904" using assms(2) by simp
  have c: "unat ?c = unat (current_position w) + unat n"
    using bound by (intro unat_plus_small) simp
  show ?thesis
  proof (cases "?h < ?c")
    case True
    then have lt: "unat ?h < unat ?c" by (simp add: word_less_nat_alt)
    have diff: "unat (?c - ?h) = unat ?c - unat ?h"
      using True by (intro unat_minus_small) simp
    have small: "unat (?c - ?h) < 9223372036854775808" using diff c bound by linarith
    have d: "sint (?c - ?h) = int (unat ?c) - int (unat ?h)"
      using sint_u64_small [OF small] diff lt by linarith
    have acc: "sint (accumulated_bytes w) = base + int (unat ?h) - used fs"
      "0 \<le> sint (accumulated_bytes w)" "base \<le> used fs"
      using assms(1) by (simp_all add: accounts_def)
    have "sint (accumulated_bytes w + (?c - ?h)) = sint (accumulated_bytes w) + sint (?c - ?h)"
      using acc d c bound lt by (intro sint_add_no_overflow) linarith+
    then show ?thesis
      using True assms(1) d lt acc bound c
      by (auto simp: accounts_def advance_def Let_def simp del: of_nat_unat)
  next
    case False
    then show ?thesis using assms(1) by (simp add: accounts_def advance_def Let_def)
  qed
qed

lemma advance_position [simp]:
  "current_position (advance n w) = current_position w + n"
  "fw_writer (advance n w) = fw_writer w"
  by (simp_all add: advance_def Let_def)

lemma accounts_step:
  assumes "accounts base w fs" and "unat (current_position w) + fw_reach op < 2 ^ 62"
    and "fw_step alloc op (w, fs) = (w', fs')"
  shows "accounts base w' fs' \<and> unat (current_position w') \<le> unat (current_position w) + fw_reach op"
proof (cases op)
  case (WWrite io)
  show ?thesis
  proof (cases io)
    case (Inr n)
    let ?w = "advance n w"
    have adv: "accounts base ?w fs"
      using assms(1,2) WWrite Inr by (intro accounts_advance) simp_all
    have c: "unat (current_position ?w) = unat (current_position w) + unat n"
      using assms(2) WWrite Inr by (simp add: unat_plus_small)
    obtain r w1 fs1 where a: "allocate_accumulated alloc ?w fs = (r, w1, fs1)"
      by (metis prod_cases3)
    show ?thesis
      using assms(1,3) WWrite Inr adv c accounts_allocate [OF adv a] a
      by (cases r) (auto simp: fw_write_def Let_def split: if_splits)
  qed (use assms(1,3) WWrite in \<open>auto simp: fw_write_def split: if_splits\<close>)
next
  case (WFlush io)
  obtain r w1 fs1 where a: "allocate_accumulated alloc w fs = (r, w1, fs1)"
    by (metis prod_cases3)
  show ?thesis
    using assms(3) WFlush accounts_allocate [OF assms(1) a] a
    by (cases r) (auto simp: fw_flush_def)
next
  case (WSeek io)
  obtain r w1 fs1 where a: "allocate_accumulated alloc w fs = (r, w1, fs1)"
    by (metis prod_cases3)
  show ?thesis
    using assms(3) WSeek accounts_allocate [OF assms(1) a] a
    by (cases r; cases io) (auto simp: fw_seek_def accounts_def split: if_splits)
qed

lemma accounts_run:
  assumes "accounts base w fs"
    and "unat (current_position w) + sum_list (map fw_reach ops) < 2 ^ 62"
    and "fold (fw_step alloc) ops (w, fs) = (w', fs')"
  shows "accounts base w' fs'"
  using assms
proof (induction ops arbitrary: w fs)
  case (Cons op ops)
  obtain w1 fs1 where s: "fw_step alloc op (w, fs) = (w1, fs1)" by fastforce
  have "accounts base w1 fs1 \<and> unat (current_position w1) \<le> unat (current_position w) + fw_reach op"
    using Cons.prems(2) by (intro accounts_step [OF Cons.prems(1) _ s]) simp
  then show ?case using Cons.IH [of w1 fs1] Cons.prems(2,3) s by simp
qed simp

lemma flush_charges_all:
  assumes "accounts base w fs" and "fw_flush alloc io w fs = (Inr (), w', fs')"
  shows "used fs' = base + int (unat (highest_position w'))"
proof -
  obtain r w1 fs1 where a: "allocate_accumulated alloc w fs = (r, w1, fs1)"
    by (metis prod_cases3)
  have "\<not> isl r" "w' = w1" "fs' = fs1"
    using assms(2) a by (auto simp: fw_flush_def split: sum.splits)
  then show ?thesis
    using accounts_allocate [OF assms(1) a] by (auto simp: accounts_def simp del: of_nat_unat)
qed

end

section \<open>The allocator of the file system\<close>

abbreviation fs_used :: "'gi Filesystem \<Rightarrow> int" where
  "fs_used fs \<equiv> int (unat (disk_usage_cached fs))"

interpretation fsq: allocator allocate_in_path_slice fs_used
proof
  fix p d ign and fs fs' :: "'a Filesystem"
  assume a: "allocate_in_path_slice p d ign fs = (True, fs')" "0 < sint d"
    "fs_used fs + sint d \<le> int u64_max"
  have "fs_used fs' = max 0 (fs_used fs + sint d)"
    unfolding allocate_slice_True(1) [OF a(1)] by (rule charge_cached_int [OF a(3)])
  then show "fs_used fs' = fs_used fs + sint d"
    using a(2) of_nat_0_le_iff [of "unat (disk_usage_cached fs)"] by linarith
qed (auto simp: allocate_slice_cases split: if_splits)

section \<open>The asynchronous writer\<close>

datatype allocation = FutStart i64 | FutWaiting i64

record AsyncFileSystemWriter = FileSystemWriter +
  allocation_in_progress :: "allocation option"

text \<open>
  One poll of the future of \<open>async_allocate_in_path_slice\<close>: the first poll checks the
  limit and changes the cached total, then waits for the lock of the tree.
\<close>

definition poll_future ::
  "bool \<Rightarrow> string list \<Rightarrow> bool \<Rightarrow> allocation \<Rightarrow> 'gi Filesystem
     \<Rightarrow> bool poll \<times> allocation \<times> 'gi Filesystem" where
  "poll_future lock_free p ignorant fut fs =
     (let finish = (\<lambda>d fs.
            if lock_free then
              (Ready True, FutWaiting d, fs\<lparr>disk_usage := update_size_slice (disk_usage fs) p d\<rparr>)
            else (Pending, FutWaiting d, fs))
      in case fut of
           FutStart d \<Rightarrow>
             if d = 0 then (Ready True, fut, fs)
             else if 0 < sint d \<and> \<not> ignorant \<and> over_limit d fs then (Ready False, fut, fs)
             else finish d (charge_cached d fs)
         | FutWaiting d \<Rightarrow> finish d fs)"

definition start_allocation :: "'w AsyncFileSystemWriter_scheme \<Rightarrow> 'w AsyncFileSystemWriter_scheme" where
  "start_allocation w =
     (if 0 < sint (accumulated_bytes w) \<and> allocation_in_progress w = None then
        w\<lparr>allocation_in_progress := Some (FutStart (accumulated_bytes w)), accumulated_bytes := 0\<rparr>
      else w)"

definition poll_allocation ::
  "bool \<Rightarrow> 'w AsyncFileSystemWriter_scheme \<Rightarrow> 'gi Filesystem
     \<Rightarrow> unit result poll \<times> 'w AsyncFileSystemWriter_scheme \<times> 'gi Filesystem" where
  "poll_allocation lock_free w fs =
     (case allocation_in_progress w of
        None \<Rightarrow> (Ready (Inr ()), w, fs)
      | Some fut \<Rightarrow>
          (case poll_future lock_free (fw_parent w) (fw_ignorant w) fut fs of
             (Ready True, _, fs) \<Rightarrow> (Ready (Inr ()), w\<lparr>allocation_in_progress := None\<rparr>, fs)
           | (Ready False, _, fs) \<Rightarrow>
               (Ready (Inl ''Failed to allocate space''), w\<lparr>allocation_in_progress := None\<rparr>, fs)
           | (Pending, fut, fs) \<Rightarrow> (Pending, w\<lparr>allocation_in_progress := Some fut\<rparr>, fs)))"

text \<open>
  \<open>poll_write\<close>: \<open>free1\<close> and \<open>free2\<close> are the lock at the two polls of the allocation,
  \<open>io\<close> what the buffered file answers to \<open>poll_write\<close>.
\<close>

definition poll_write ::
  "bool \<Rightarrow> u64 result poll \<Rightarrow> bool \<Rightarrow> 'w AsyncFileSystemWriter_scheme \<Rightarrow> 'gi Filesystem
     \<Rightarrow> u64 result poll \<times> 'w AsyncFileSystemWriter_scheme \<times> 'gi Filesystem" where
  "poll_write free1 io free2 w fs =
     (case poll_allocation free1 w fs of
        (Pending, w, fs) \<Rightarrow> (Pending, w, fs)
      | (Ready (Inl err), w, fs) \<Rightarrow> (Ready (Inl err), w, fs)
      | (Ready (Inr _), w, fs) \<Rightarrow>
          (case io of
             Ready (Inr written) \<Rightarrow>
               (let w = w\<lparr>current_position := current_position w + written\<rparr> in
                if highest_position w < current_position w then
                  (let w = w\<lparr>accumulated_bytes := accumulated_bytes w + (current_position w - highest_position w),
                             highest_position := current_position w\<rparr> in
                   if ALLOCATION_THRESHOLD \<le> sint (accumulated_bytes w) then
                     (case poll_allocation free2 (start_allocation w) fs of
                        (Pending, w, fs) \<Rightarrow> (Pending, w, fs)
                      | (Ready (Inl err), w, fs) \<Rightarrow> (Ready (Inl err), w, fs)
                      | (Ready (Inr _), w, fs) \<Rightarrow> (io, w, fs))
                   else (io, w, fs))
                else (io, w, fs))
           | _ \<Rightarrow> (io, w, fs)))"

definition poll_flush ::
  "bool \<Rightarrow> bool \<Rightarrow> unit result poll \<Rightarrow> 'w AsyncFileSystemWriter_scheme \<Rightarrow> 'gi Filesystem
     \<Rightarrow> unit result poll \<times> 'w AsyncFileSystemWriter_scheme \<times> 'gi Filesystem" where
  "poll_flush free1 free2 io w fs =
     (case poll_allocation free1 w fs of
        (Pending, w, fs) \<Rightarrow> (Pending, w, fs)
      | (Ready (Inl err), w, fs) \<Rightarrow> (Ready (Inl err), w, fs)
      | (Ready (Inr _), w, fs) \<Rightarrow>
          if 0 < sint (accumulated_bytes w) then
            (case poll_allocation free2 (start_allocation w) fs of
               (Pending, w, fs) \<Rightarrow> (Pending, w, fs)
             | (Ready (Inl err), w, fs) \<Rightarrow> (Ready (Inl err), w, fs)
             | (Ready (Inr _), w, fs) \<Rightarrow> (io, w, fs))
          else (io, w, fs))"

text \<open>\<open>poll_shutdown\<close> is \<open>poll_flush\<close> with the shutdown of the file at its end.\<close>

definition poll_shutdown ::
  "bool \<Rightarrow> bool \<Rightarrow> unit result poll \<Rightarrow> 'w AsyncFileSystemWriter_scheme \<Rightarrow> 'gi Filesystem
     \<Rightarrow> unit result poll \<times> 'w AsyncFileSystemWriter_scheme \<times> 'gi Filesystem" where
  "poll_shutdown free1 free2 io w fs = poll_flush free1 free2 io w fs"

definition start_seek ::
  "unit result \<Rightarrow> 'w AsyncFileSystemWriter_scheme \<Rightarrow> unit result \<times> 'w AsyncFileSystemWriter_scheme" where
  "start_seek io w = (io, if 0 < sint (accumulated_bytes w) then start_allocation w else w)"

definition poll_complete ::
  "bool \<Rightarrow> u64 result poll \<Rightarrow> 'w AsyncFileSystemWriter_scheme \<Rightarrow> 'gi Filesystem
     \<Rightarrow> u64 result poll \<times> 'w AsyncFileSystemWriter_scheme \<times> 'gi Filesystem" where
  "poll_complete free1 io w fs =
     (case poll_allocation free1 w fs of
        (Pending, w, fs) \<Rightarrow> (Pending, w, fs)
      | (Ready (Inl err), w, fs) \<Rightarrow> (Ready (Inl err), w, fs)
      | (Ready (Inr _), w, fs) \<Rightarrow>
          (case io of
             Ready (Inr new_pos) \<Rightarrow> (io, w\<lparr>current_position := new_pos\<rparr>, fs)
           | _ \<Rightarrow> (io, w, fs)))"

text \<open>Dropping the asynchronous writer charges what is left in a task of its own.\<close>

definition async_drop :: "'w AsyncFileSystemWriter_scheme \<Rightarrow> 'gi Filesystem \<Rightarrow> 'gi Filesystem" where
  "async_drop w fs =
     (if 0 < sint (accumulated_bytes w) then
        snd (async_allocate_in_path_slice (fw_parent w) (accumulated_bytes w) (fw_ignorant w) fs)
      else fs)"

lemma poll_future_free:
  "poll_future True p ign (FutStart d) fs =
     (Ready (fst (async_allocate_in_path_slice p d ign fs)),
      if d \<noteq> 0 \<and> fst (async_allocate_in_path_slice p d ign fs) then FutWaiting d else FutStart d,
      snd (async_allocate_in_path_slice p d ign fs))"
  by (simp add: poll_future_def async_allocate_in_path_slice_def Let_def)

section \<open>Properties\<close>

text \<open>
  C9: Whatever a client does with a synchronous writer (writes, flushes and seeks in
  any order, some of them failing or refused), the bytes charged to the disk usage
  and those still accumulated add up to the highest position written, and a flush
  that succeeds leaves every byte up to there charged.
\<close>

theorem writer_accounts:
  assumes "fw_new fs created permitted destination modified = Inr w"
    and "sum_list (map fw_reach ops) < 2 ^ 62" and "unat (disk_usage_cached fs) < 2 ^ 62"
    and "fold (fw_step allocate_in_path_slice) ops (w, fs) = (w', fs')"
  shows "0 \<le> sint (accumulated_bytes w') \<and>
     int (unat (disk_usage_cached fs')) + sint (accumulated_bytes w')
       = int (unat (disk_usage_cached fs)) + int (unat (highest_position w')) \<and>
     (\<forall>io w'' fs''. fw_flush allocate_in_path_slice io w' fs' = (Inr (), w'', fs'') \<longrightarrow>
       int (unat (disk_usage_cached fs''))
         = int (unat (disk_usage_cached fs)) + int (unat (highest_position w'')))"
proof -
  have w: "accumulated_bytes w = 0" "current_position w = 0" "highest_position w = 0"
    using assms(1) by (auto simp: fw_new_def Let_def split: option.splits sum.splits)
  have start: "fsq.accounts (int (unat (disk_usage_cached fs))) w fs"
    using assms(3) w unfolding fsq.accounts_def by (simp del: of_nat_unat)
  have "unat (current_position w) + sum_list (map fw_reach ops) < 2 ^ 62"
    using assms(2) w by simp
  from fsq.accounts_run [OF start this assms(4)]
  have a: "fsq.accounts (int (unat (disk_usage_cached fs))) w' fs'" .
  have "0 \<le> sint (accumulated_bytes w')"
    "int (unat (disk_usage_cached fs')) + sint (accumulated_bytes w')
       = int (unat (disk_usage_cached fs)) + int (unat (highest_position w'))"
    using a by (simp_all only: fsq.accounts_def)
  then show ?thesis using fsq.flush_charges_all [OF a] by (intro conjI allI impI)
qed

theorem writer_accounts_witness:
  "\<exists>w w' fs'. fw_new (new_filesystem [RootDir] 100 ()) (Inr ()) None [Normal ''f''] None = Inr w \<and>
     fold (fw_step allocate_in_path_slice) [WWrite (Inr 10), WSeek (Inr 4), WWrite (Inr 3)]
       (w, new_filesystem [RootDir] 100 ()) = (w', fs') \<and>
     int (unat (disk_usage_cached fs')) + sint (accumulated_bytes w') = int (unat (highest_position w'))"
proof -
  let ?fs = "new_filesystem [RootDir] 100 ()"
  let ?ops = "[WWrite (Inr 10), WSeek (Inr 4), WWrite (Inr 3)]"
  obtain w where n: "fw_new ?fs (Inr ()) None [Normal ''f''] None = Inr w"
    by (simp add: fw_new_def parent_def Let_def)
  obtain w' fs' where r: "fold (fw_step allocate_in_path_slice) ?ops (w, ?fs) = (w', fs')"
    by fastforce
  have "sum_list (map fw_reach ?ops) < 2 ^ 62" "disk_usage_cached ?fs = 0"
    by (simp_all add: new_filesystem_def)
  then have "int (unat (disk_usage_cached fs')) + sint (accumulated_bytes w') = int (unat (highest_position w'))"
    using writer_accounts [OF n _ _ r] by simp
  then show ?thesis using n r by blast
qed

text \<open>
  A synchronous writer that is dropped without a flush leaves the accumulated
  bytes, up to the threshold, uncharged; the asynchronous writer charges them.
\<close>

theorem drop_uncharged:
  assumes "accumulated_bytes w = 5000" and "fw_ignorant w"
  shows "snd (fw_drop (FileSystemWriter.truncate w) fs) = fs \<and>
     disk_usage_cached (async_drop w fs) = disk_usage_cached fs + 5000"
proof -
  have "sint (5000 :: u64) = 5000" by (simp add: sint_uint signed_take_bit_int_eq_self)
  then show ?thesis
    using assms
    by (simp add: fw_drop_def async_drop_def async_allocate_in_path_slice_def charge_cached_def Let_def)
qed

theorem drop_uncharged_witness:
  "disk_usage_cached (async_drop
      \<lparr>fw_parent = [''a''], fw_writer = True, fw_ignorant = True, accumulated_bytes = 5000,
       fw_modified = None, current_position = 5000, highest_position = 5000,
       allocation_in_progress = None\<rparr> (new_filesystem [RootDir] 100 ())) = 5000"
  using drop_uncharged
    [of "\<lparr>fw_parent = [''a''], fw_writer = True, fw_ignorant = True, accumulated_bytes = 5000,
       fw_modified = None, current_position = 5000, highest_position = 5000,
       allocation_in_progress = None\<rparr>" "new_filesystem [RootDir] 100 ()"]
  by (simp add: new_filesystem_def)

text \<open>
  A pending answer after a completed write. When the file has taken the bytes,
  the batch is full and the lock of the usage tree is busy, \<open>poll_write\<close> answers
  \<open>Pending\<close>, so its caller offers the same bytes again: they are written, and
  counted in the position, twice.
\<close>

theorem poll_write_duplicates:
  assumes "allocation_in_progress w = None" and "accumulated_bytes w = 0"
    and "current_position w = 0" and "highest_position w = 0" and "fw_ignorant w"
  shows "\<exists>w1 fs1 w2 fs2.
     poll_write True (Ready (Inr 1048576)) False w fs = (Pending, w1, fs1) \<and>
     current_position w1 = 1048576 \<and>
     poll_write True (Ready (Inr 1048576)) True w1 fs1 = (Ready (Inr 1048576), w2, fs2) \<and>
     current_position w2 = 2097152 \<and>
     disk_usage_cached fs2 = disk_usage_cached fs + 2097152"
proof -
  have s: "sint (1048576 :: u64) = 1048576" by (simp add: sint_uint signed_take_bit_int_eq_self)
  show ?thesis
    using assms
    by (simp add: poll_write_def poll_allocation_def poll_future_def start_allocation_def
        ALLOCATION_THRESHOLD_def charge_cached_def Let_def s)
qed

theorem poll_write_duplicates_witness:
  "\<exists>w1 fs1. poll_write True (Ready (Inr 1048576)) False
      \<lparr>fw_parent = [''a''], fw_writer = True, fw_ignorant = True, accumulated_bytes = 0,
       fw_modified = None, current_position = 0, highest_position = 0,
       allocation_in_progress = None\<rparr> (new_filesystem [RootDir] 100 ()) = (Pending, w1, fs1) \<and>
     current_position w1 = 1048576"
  using poll_write_duplicates
    [of "\<lparr>fw_parent = [''a''], fw_writer = True, fw_ignorant = True, accumulated_bytes = 0,
       fw_modified = None, current_position = 0, highest_position = 0,
       allocation_in_progress = None\<rparr>" "new_filesystem [RootDir] 100 ()"]
  by fastforce

end
