(* ===== verification/Io_Streams.thy ===== *)
theory Io_Streams
  imports Effects
begin

text \<open>
  \<open>io/\<close>, \<open>lib.rs\<close> and \<open>server/filesystem/archive/multi_reader.rs\<close>: the reader and
  writer adaptors of the archive and backup code. A reader is a function from the
  length of the buffer and its state to the bytes it puts there, or an error; the
  locale \<open>read_source\<close> is the contract of \<open>std::io::Read\<close>, \<open>data_source\<close> that of a
  reader of known contents. Time is in nanoseconds; the floating point arithmetic
  of the rate limiters is an argument.
\<close>

type_synonym byte = "8 word"
type_synonym 's reader = "nat \<Rightarrow> 's \<Rightarrow> byte list result \<times> 's"
type_synonym 'w writer = "byte list \<Rightarrow> 'w \<Rightarrow> unit result \<times> 'w"

definition BUFFER_SIZE :: nat where
  "BUFFER_SIZE = 32 * 1024"

section \<open>Copying\<close>

partial_function (option) copy_shared ::
  "'s reader \<Rightarrow> 'w writer \<Rightarrow> nat \<Rightarrow> 's \<Rightarrow> 'w \<Rightarrow> (unit result \<times> 's \<times> 'w) option" where
  "copy_shared rd wr n s w =
     (case rd n s of
        (Inl err, s) \<Rightarrow> Some (Inl err, s, w)
      | (Inr bs, s) \<Rightarrow>
          if bs = [] then Some (Inr (), s, w)
          else (case wr bs w of
                  (Inl err, w) \<Rightarrow> Some (Inl err, s, w)
                | (Inr _, w) \<Rightarrow> copy_shared rd wr n s w))"

definition io_copy :: "'s reader \<Rightarrow> 'w writer \<Rightarrow> 's \<Rightarrow> 'w \<Rightarrow> (unit result \<times> 's \<times> 'w) option" where
  "io_copy rd wr s w = copy_shared rd wr BUFFER_SIZE s w"

text \<open>Reading with buffers of the given lengths, until an error.\<close>

fun drain :: "'s reader \<Rightarrow> nat list \<Rightarrow> 's \<Rightarrow> byte list result \<times> 's" where
  "drain rd [] s = (Inr [], s)"
| "drain rd (n # ns) s =
     (case rd n s of
        (Inl err, s) \<Rightarrow> (Inl err, s)
      | (Inr bs, s) \<Rightarrow>
          (case drain rd ns s of
             (Inl err, s) \<Rightarrow> (Inl err, s)
           | (Inr out, s) \<Rightarrow> (Inr (bs @ out), s)))"

section \<open>Adaptors\<close>

record 's FixedReader =
  fr_inner :: 's
  fr_size :: nat
  fr_bytes_read :: nat

definition fixed_new :: "'s \<Rightarrow> nat \<Rightarrow> 's FixedReader" where
  "fixed_new inner sz = \<lparr>fr_inner = inner, fr_size = sz, fr_bytes_read = 0\<rparr>"

definition fixed_read :: "'s reader \<Rightarrow> 's FixedReader reader" where
  "fixed_read rd n r =
     (if fr_size r \<le> fr_bytes_read r then (Inr [], r)
      else let remaining = fr_size r - fr_bytes_read r;
               to_read = min n remaining
           in case rd to_read (fr_inner r) of
                (Inl err, s) \<Rightarrow> (Inl err, r\<lparr>fr_inner := s\<rparr>)
              | (Inr bs, s) \<Rightarrow>
                  let r = r\<lparr>fr_inner := s, fr_bytes_read := fr_bytes_read r + length bs\<rparr>
                  in if length bs < to_read then
                       (let zeros_needed = to_read - length bs
                        in (Inr (bs @ replicate zeros_needed 0),
                            r\<lparr>fr_bytes_read := fr_bytes_read r + zeros_needed\<rparr>))
                     else (Inr bs, r))"

text \<open>\<open>AsyncFixedReader::poll_read\<close>: \<open>io\<close> is the answer of the inner poll, of at most \<open>to_read\<close> bytes.\<close>

definition async_fixed_poll_read ::
  "(nat \<Rightarrow> byte list result poll) \<Rightarrow> nat \<Rightarrow> 's FixedReader \<Rightarrow> byte list result poll \<times> 's FixedReader" where
  "async_fixed_poll_read io n r =
     (if fr_size r \<le> fr_bytes_read r then (Ready (Inr []), r)
      else let remaining = fr_size r - fr_bytes_read r;
               to_read = min n remaining
           in case io to_read of
                Ready (Inr bs) \<Rightarrow>
                  (let r = r\<lparr>fr_bytes_read := fr_bytes_read r + length bs\<rparr> in
                   if length bs < to_read then
                     (Ready (Inr (bs @ replicate (to_read - length bs) 0)),
                      r\<lparr>fr_bytes_read := fr_bytes_read r + (to_read - length bs)\<rparr>)
                   else (Ready (Inr bs), r))
              | other \<Rightarrow> (other, r))"

record 's CountingReader =
  cr_inner :: 's
  cr_bytes_read :: u64

definition counting_read :: "'s reader \<Rightarrow> 's CountingReader reader" where
  "counting_read rd n r =
     (case rd n (cr_inner r) of
        (Inl err, s) \<Rightarrow> (Inl err, r\<lparr>cr_inner := s\<rparr>)
      | (Inr bs, s) \<Rightarrow>
          (Inr bs, r\<lparr>cr_inner := s, cr_bytes_read := cr_bytes_read r + of_nat (length bs)\<rparr>))"

definition async_counting_poll_read ::
  "byte list result poll \<Rightarrow> 's CountingReader \<Rightarrow> byte list result poll \<times> 's CountingReader" where
  "async_counting_poll_read io r =
     (case io of
        Ready (Inr bs) \<Rightarrow> (io, r\<lparr>cr_bytes_read := cr_bytes_read r + of_nat (length bs)\<rparr>)
      | _ \<Rightarrow> (io, r))"

record 'w CountingWriter =
  cw_inner :: 'w
  cw_bytes_written :: u64

text \<open>\<open>wr\<close> is the inner \<open>write\<close>: the number of bytes taken, or an error.\<close>

definition counting_write ::
  "(byte list \<Rightarrow> 'w \<Rightarrow> nat result \<times> 'w) \<Rightarrow> byte list \<Rightarrow> 'w CountingWriter \<Rightarrow> nat result \<times> 'w CountingWriter" where
  "counting_write wr buf c =
     (case wr buf (cw_inner c) of
        (Inl err, w) \<Rightarrow> (Inl err, c\<lparr>cw_inner := w\<rparr>)
      | (Inr n, w) \<Rightarrow>
          (Inr n, c\<lparr>cw_inner := w, cw_bytes_written := cw_bytes_written c + of_nat n\<rparr>))"

text \<open>An aborted listener is \<open>True\<close>; dropping the guard sets it.\<close>

definition guard_new :: bool where
  "guard_new = False"

definition guard_drop :: "bool \<Rightarrow> bool" where
  "guard_drop listener = True"

definition abort_read :: "bool \<Rightarrow> 's reader \<Rightarrow> 's reader" where
  "abort_read listener rd n s = (if listener then (Inl ''Operation aborted'', s) else rd n s)"

definition abort_call :: "bool \<Rightarrow> ('w \<Rightarrow> 'a result \<times> 'w) \<Rightarrow> 'w \<Rightarrow> 'a result \<times> 'w" where
  "abort_call listener op w = (if listener then (Inl ''Operation aborted'', w) else op w)"

definition abort_write ::
  "bool \<Rightarrow> (byte list \<Rightarrow> 'w \<Rightarrow> nat result \<times> 'w) \<Rightarrow> byte list \<Rightarrow> 'w \<Rightarrow> nat result \<times> 'w" where
  "abort_write listener wr buf w = abort_call listener (wr buf) w"

section \<open>The multi reader\<close>

datatype seek_from = FromStart u64 | FromEnd i64 | FromCurrent i64

record MultiReader =
  mr_file :: "byte list"
  mr_file_size :: u64
  mr_offset :: u64

definition mr_new :: "byte list \<Rightarrow> MultiReader" where
  "mr_new file = \<lparr>mr_file = file, mr_file_size = of_nat (length file), mr_offset = 0\<rparr>"

text \<open>
  \<open>read_at\<close> of a regular file gives the bytes at the offset, as many as fit the
  buffer, or fewer: \<open>cap\<close> bounds what one call returns.
\<close>

definition mr_read :: "(nat \<Rightarrow> nat) \<Rightarrow> MultiReader reader" where
  "mr_read cap n r =
     (let bs = take (min n (cap n)) (drop (unat (mr_offset r)) (mr_file r))
      in (Inr bs, r\<lparr>mr_offset := mr_offset r + of_nat (length bs)\<rparr>))"

definition seek_by :: "u64 \<Rightarrow> i64 \<Rightarrow> u64" where
  "seek_by base off =
     (if 0 \<le> sint off then sat_add base off else sat_sub base (- off))"

definition mr_seek :: "seek_from \<Rightarrow> MultiReader \<Rightarrow> u64 result \<times> MultiReader" where
  "mr_seek pos r =
     (let r = r\<lparr>mr_offset :=
          (case pos of
             FromStart off \<Rightarrow> off
           | FromEnd off \<Rightarrow> seek_by (mr_file_size r) off
           | FromCurrent off \<Rightarrow> seek_by (mr_offset r) off)\<rparr>
      in (Inr (mr_offset r), r))"

section \<open>Rate limits\<close>

text \<open>
  \<open>allowed\<close> is \<open>(elapsed * bytes_per_second) as u64\<close> on the elapsed nanoseconds,
  \<open>over_time\<close> the time \<open>bytes_over\<close> bytes take at the given rate.
\<close>

record limit_arith =
  la_allowed :: "nat \<Rightarrow> u64 \<Rightarrow> u64"
  la_over_time :: "u64 \<Rightarrow> u64 \<Rightarrow> nat"

abbreviation second :: nat where
  "second \<equiv> 1000000000"

record limiter =
  bytes_per_second :: u64
  last_time :: nat
  since_last_check :: u64

definition limiter_new :: "u64 \<Rightarrow> nat \<Rightarrow> limiter" where
  "limiter_new bps now = \<lparr>bytes_per_second = bps, last_time = now, since_last_check = 0\<rparr>"

definition calculate_delay :: "limit_arith \<Rightarrow> nat \<Rightarrow> 'a limiter_scheme \<Rightarrow> nat option" where
  "calculate_delay la now l =
     (let elapsed = now - last_time l;
          bytes_allowed = la_allowed la elapsed (bytes_per_second l)
      in if bytes_allowed < since_last_check l \<and> elapsed < second then
           (let bytes_over = since_last_check l - bytes_allowed;
                sleep_duration = la_over_time la bytes_over (bytes_per_second l);
                max_sleep = second - elapsed;
                actual_sleep = min sleep_duration max_sleep
            in if actual_sleep \<noteq> 0 then Some actual_sleep else None)
         else None)"

definition check_reset_counters :: "nat \<Rightarrow> 'a limiter_scheme \<Rightarrow> 'a limiter_scheme" where
  "check_reset_counters now l =
     (if second \<le> now - last_time l then l\<lparr>last_time := now, since_last_check := 0\<rparr> else l)"

definition count_bytes :: "nat \<Rightarrow> 'a limiter_scheme \<Rightarrow> 'a limiter_scheme" where
  "count_bytes n l = l\<lparr>since_last_check := since_last_check l + of_nat n\<rparr>"

text \<open>\<open>LimitedReader::read\<close> at time \<open>now\<close>: also the time it sleeps before reading.\<close>

definition limited_read ::
  "limit_arith \<Rightarrow> nat \<Rightarrow> 's reader \<Rightarrow> nat \<Rightarrow> 's \<times> limiter \<Rightarrow> nat \<times> byte list result \<times> 's \<times> limiter" where
  "limited_read la now rd n sl =
     (case sl of (s, l) \<Rightarrow>
        if n = 0 then (0, Inr [], s, l)
        else if bytes_per_second l = 0 then (case rd n s of (r, s) \<Rightarrow> (0, r, s, l))
        else
          (let elapsed = now - last_time l;
               bytes_allowed = la_allowed la elapsed (bytes_per_second l);
               sleep =
                 (if bytes_allowed \<le> since_last_check l \<and> elapsed < second then
                    min (la_over_time la (since_last_check l - bytes_allowed) (bytes_per_second l))
                        (second - elapsed)
                  else 0)
           in case rd n s of
                (Inl err, s) \<Rightarrow> (sleep, Inl err, s, l)
              | (Inr bs, s) \<Rightarrow>
                  (sleep, Inr bs, s, check_reset_counters now (count_bytes (length bs) l))))"

text \<open>\<open>LimitedWriter::write\<close>, likewise.\<close>

definition limited_write ::
  "limit_arith \<Rightarrow> nat \<Rightarrow> (byte list \<Rightarrow> 'w \<Rightarrow> nat result \<times> 'w) \<Rightarrow> byte list \<Rightarrow> 'w \<times> limiter
     \<Rightarrow> nat \<times> nat result \<times> 'w \<times> limiter" where
  "limited_write la now wr buf wl =
     (case wl of (w, l) \<Rightarrow>
        if buf = [] then (0, Inr 0, w, l)
        else if bytes_per_second l = 0 then (case wr buf w of (r, w) \<Rightarrow> (0, r, w, l))
        else
          (let elapsed = now - last_time l;
               bytes_allowed = la_allowed la elapsed (bytes_per_second l);
               sleep =
                 (if bytes_allowed \<le> since_last_check l \<and> elapsed < second then
                    min (la_over_time la (since_last_check l - bytes_allowed) (bytes_per_second l))
                        (second - elapsed)
                  else 0)
           in case wr buf w of
                (Inl err, w) \<Rightarrow> (sleep, Inl err, w, l)
              | (Inr n, w) \<Rightarrow>
                  (sleep, Inr n, w, check_reset_counters now (count_bytes n l))))"

text \<open>
  The asynchronous adaptors. A poll that answers \<open>Pending\<close> is resumed by the timers
  still alive when it returns or by the inner stream; the third result is the set
  of timers (by due time) this poll leaves behind. Dropping a \<open>Sleep\<close> cancels it.
\<close>

record async_limiter = limiter +
  delay_future :: "nat option"

definition async_limited_poll_read ::
  "limit_arith \<Rightarrow> nat \<Rightarrow> nat \<Rightarrow> nat poll \<Rightarrow> async_limiter \<Rightarrow> nat result poll \<times> async_limiter \<times> nat set" where
  "async_limited_poll_read la now buf_len io l =
     (let inner = (\<lambda>l. case io of
            Pending \<Rightarrow> (Pending, l, {})
          | Ready n \<Rightarrow> (Ready (Inr n), check_reset_counters now (count_bytes n l), {}))
      in if buf_len = 0 then (Ready (Inr 0), l, {})
         else if bytes_per_second l = 0 then (map_poll Inr io, l, {})
         else case delay_future l of
           Some due \<Rightarrow>
             if now < due then (Pending, l, {due})
             else (let l = l\<lparr>delay_future := None\<rparr> in
                   case calculate_delay la now l of
                     Some d \<Rightarrow> (Pending, l\<lparr>delay_future := Some (now + d)\<rparr>, {now + d})
                   | None \<Rightarrow> inner l)
         | None \<Rightarrow>
             (case calculate_delay la now l of
                Some d \<Rightarrow> (Pending, l\<lparr>delay_future := Some (now + d)\<rparr>, {now + d})
              | None \<Rightarrow> inner l))"

text \<open>
  \<open>AsyncLimitedWriter::poll_write\<close> keeps its \<open>Sleep\<close> in a local variable, which is
  dropped when the poll returns: a positive delay is pending on its first poll.
\<close>

definition async_limited_poll_write ::
  "limit_arith \<Rightarrow> nat \<Rightarrow> nat \<Rightarrow> nat poll \<Rightarrow> limiter \<Rightarrow> nat result poll \<times> limiter \<times> nat set" where
  "async_limited_poll_write la now buf_len io l =
     (if buf_len = 0 then (Ready (Inr 0), l, {})
      else if bytes_per_second l = 0 then (map_poll Inr io, l, {})
      else case calculate_delay la now l of
             Some d \<Rightarrow> (Pending, l, {})
           | None \<Rightarrow>
               (case io of
                  Pending \<Rightarrow> (Pending, l, {})
                | Ready n \<Rightarrow> (Ready (Inr n), check_reset_counters now (count_bytes n l), {})))"

section \<open>Contracts\<close>

locale read_source =
  fixes rd :: "'s reader"
  assumes rd_length: "rd n s = (Inr bs, s') \<Longrightarrow> length bs \<le> n"
begin

lemma fixed_read_length:
  assumes "fixed_read rd n r = (Inr bs, r')" and "fr_bytes_read r \<le> fr_size r"
  shows "length bs = min n (fr_size r - fr_bytes_read r) \<and> fr_size r' = fr_size r \<and>
     fr_bytes_read r' = fr_bytes_read r + length bs"
  using assms
  by (auto simp: fixed_read_def Let_def dest!: rd_length split: if_splits prod.splits sum.splits)

lemma drain_fixed_length:
  assumes "drain (fixed_read rd) ns r = (Inr out, r')" and "fr_bytes_read r \<le> fr_size r"
  shows "length out = min (sum_list ns) (fr_size r - fr_bytes_read r)"
  using assms
proof (induction ns arbitrary: r out)
  case (Cons n ns)
  obtain bs r1 where s: "fixed_read rd n r = (Inr bs, r1)"
    using Cons.prems(1) by (auto split: prod.splits sum.splits)
  obtain out1 where d: "drain (fixed_read rd) ns r1 = (Inr out1, r')" "out = bs @ out1"
    using Cons.prems(1) s by (auto split: prod.splits sum.splits)
  have f: "length bs = min n (fr_size r - fr_bytes_read r)" "fr_size r1 = fr_size r"
    "fr_bytes_read r1 = fr_bytes_read r + length bs"
    using fixed_read_length [OF s Cons.prems(2)] by auto
  have "length out1 = min (sum_list ns) (fr_size r1 - fr_bytes_read r1)"
    using f Cons.prems(2) by (intro Cons.IH [OF d(1)]) (auto simp: min_def)
  then show ?case using d(2) f by (auto simp: min_def)
qed simp

end

locale data_source = read_source rd for rd :: "'s reader" +
  fixes ok :: "'s \<Rightarrow> bool" and rest :: "'s \<Rightarrow> byte list"
  assumes rd_rest: "ok s \<Longrightarrow> \<exists>bs s'. rd n s = (Inr bs, s') \<and> rest s = bs @ rest s' \<and> ok s'"
    and rd_progress: "ok s \<Longrightarrow> 0 < n \<Longrightarrow> rest s \<noteq> [] \<Longrightarrow> rd n s \<noteq> (Inr [], s')"
begin

lemma copy_collects:
  assumes "0 < n" and "ok s"
  shows "\<exists>s'. copy_shared rd (\<lambda>bs w. (Inr (), w @ bs)) n s w = Some (Inr (), s', w @ rest s) \<and> rest s' = []"
  using assms(2)
proof (induction "length (rest s)" arbitrary: s w rule: less_induct)
  case less
  obtain bs s' where r: "rd n s = (Inr bs, s')" "rest s = bs @ rest s'" "ok s'"
    using rd_rest [OF less.prems] by blast
  show ?case
  proof (cases "bs = []")
    case True
    then have "rest s = []" using rd_progress [OF less.prems assms(1), of s'] r(1) by blast
    then show ?thesis
      using True r by (subst copy_shared.simps) simp
  next
    case False
    then have "length (rest s') < length (rest s)" using r(2) by simp
    from less.hyps [OF this r(3), of "w @ bs"] obtain s'' where
      "copy_shared rd (\<lambda>bs w. (Inr (), w @ bs)) n s' (w @ bs) = Some (Inr (), s'', w @ bs @ rest s')"
      "rest s'' = []" by auto
    then show ?thesis
      using False r by (subst copy_shared.simps) simp
  qed
qed

end

section \<open>The multi reader meets the contracts\<close>

lemma mr_read_length: "mr_read cap n r = (Inr bs, r') \<Longrightarrow> length bs \<le> n"
  by (auto simp: mr_read_def Let_def)

text \<open>A multi reader of a file below \<open>2^64\<close> bytes that has not been moved past its end.\<close>

definition mr_rest :: "MultiReader \<Rightarrow> byte list" where
  "mr_rest r = drop (unat (mr_offset r)) (mr_file r)"

definition mr_ok :: "MultiReader \<Rightarrow> bool" where
  "mr_ok r \<longleftrightarrow> length (mr_file r) \<le> u64_max \<and> unat (mr_offset r) \<le> length (mr_file r)"

lemma unat_of_nat_small: "n \<le> u64_max \<Longrightarrow> unat (of_nat n :: u64) = n"
  by (simp add: unsigned_of_nat take_bit_nat_eq_self)

lemma mr_read_rest:
  assumes "mr_ok r"
  shows "\<exists>bs r'. mr_read cap n r = (Inr bs, r') \<and> mr_rest r = bs @ mr_rest r' \<and> mr_ok r' \<and>
     bs = take (min n (cap n)) (mr_rest r)"
proof -
  let ?bs = "take (min n (cap n)) (mr_rest r)"
  let ?o = "mr_offset r" and ?m = "of_nat (length ?bs) :: u64"
  have len: "length ?bs \<le> length (mr_file r) - unat ?o" by (simp add: mr_rest_def)
  have "length ?bs \<le> u64_max" using len assms unfolding mr_ok_def by linarith
  then have m: "unat ?m = length ?bs" by (intro unat_of_nat_small) simp
  have "unat ?o + length ?bs \<le> u64_max" using len assms unfolding mr_ok_def by linarith
  then have o: "unat (?o + ?m) = unat ?o + length ?bs"
    using m unat_plus_small [of ?o ?m] by simp
  have "mr_rest r = ?bs @ drop (length ?bs) (mr_rest r)"
    by (metis append_take_drop_id append_eq_conv_conj)
  then show ?thesis
    using o len assms
    by (auto simp: mr_read_def Let_def mr_ok_def mr_rest_def add.commute)
qed

interpretation multi: read_source "mr_read cap" for cap
  by unfold_locales (rule mr_read_length)

interpretation multi_data: data_source "mr_read (\<lambda>n. Suc (cap n))" mr_ok mr_rest for cap
proof unfold_locales
  fix r and n :: nat assume "mr_ok r"
  then show "\<exists>bs r'. mr_read (\<lambda>n. Suc (cap n)) n r = (Inr bs, r') \<and> mr_rest r = bs @ mr_rest r' \<and> mr_ok r'"
    using mr_read_rest [of r "\<lambda>n. Suc (cap n)" n] by blast
next
  fix r r' and n :: nat assume "mr_ok r" "0 < n" "mr_rest r \<noteq> []"
  then show "mr_read (\<lambda>n. Suc (cap n)) n r \<noteq> (Inr [], r')"
    using mr_read_rest [of r "\<lambda>n. Suc (cap n)" n] by auto
qed

section \<open>Properties\<close>



text \<open>
  A fixed reader over any file yields exactly the announced number of bytes (as
  many as the buffers hold), however short the reads below it; and zeros stand for
  what a short read leaves out, also in the middle of the file, so contents are
  only right when every read fills its buffer until the end.
\<close>

theorem fixed_reader_length:
  assumes "drain (fixed_read (mr_read cap)) ns (fixed_new r sz) = (Inr out, r')"
  shows "length out = min (sum_list ns) sz \<and>
     fst (drain (fixed_read (mr_read (\<lambda>_. 1))) [2, 2] (fixed_new (mr_new [7, 8, 9]) 3)) = Inr [7, 0, 8]"
proof -
  have "length out = min (sum_list ns) (fr_size (fixed_new r sz) - fr_bytes_read (fixed_new r sz))"
    using assms by (intro multi.drain_fixed_length) (simp_all add: fixed_new_def)
  moreover have "fst (drain (fixed_read (mr_read (\<lambda>_. 1))) [2, 2] (fixed_new (mr_new [7, 8, 9]) 3))
      = Inr [7, 0, 8]"
    by (simp add: fixed_new_def fixed_read_def mr_read_def mr_new_def Let_def)
  ultimately show ?thesis by (simp add: fixed_new_def)
qed

theorem fixed_reader_length_witness:
  "\<exists>out r'. drain (fixed_read (mr_read id)) [4, 4] (fixed_new (mr_new [7, 8, 9]) 5) = (Inr out, r')
     \<and> length out = 5"
proof -
  obtain out r' where
    "drain (fixed_read (mr_read id)) [4, 4] (fixed_new (mr_new [7, 8, 9]) 5) = (Inr out, r')"
    by (simp add: fixed_new_def fixed_read_def mr_read_def mr_new_def Let_def)
  with fixed_reader_length [OF this] show ?thesis by simp
qed

text \<open>
  A lost wake-up. The asynchronous limited reader keeps the timer of a delay in
  its state, so a poll that it delays leaves that timer alive; the writer drops its
  timer as it returns, so the same delay leaves nothing that would resume it, and
  it makes no progress however often it is polled within that second.
\<close>

theorem limited_writer_lost_wakeup:
  assumes "calculate_delay la now l = Some d" and "bytes_per_second l \<noteq> 0" and "0 < n"
  shows "async_limited_poll_write la now n io l = (Pending, l, {}) \<and>
     (\<forall>io rd. rd = limiter.extend l \<lparr>delay_future = None\<rparr> \<longrightarrow>
        (\<exists>rd'. async_limited_poll_read la now n io rd = (Pending, rd', {now + d}) \<and>
           delay_future rd' = Some (now + d)))"
  using assms
  by (auto simp: async_limited_poll_write_def async_limited_poll_read_def calculate_delay_def
      limiter.defs Let_def split: if_splits)

theorem limited_writer_lost_wakeup_witness:
  "async_limited_poll_write \<lparr>la_allowed = \<lambda>_ _. 0, la_over_time = \<lambda>_ _. 5\<rparr> 10 4 (Ready 4)
      \<lparr>bytes_per_second = 1000, last_time = 0, since_last_check = 3\<rparr>
     = (Pending, \<lparr>bytes_per_second = 1000, last_time = 0, since_last_check = 3\<rparr>, {})"
  using limited_writer_lost_wakeup
    [of "\<lparr>la_allowed = \<lambda>_ _. 0, la_over_time = \<lambda>_ _. 5\<rparr>" 10
        "\<lparr>bytes_per_second = 1000, last_time = 0, since_last_check = 3\<rparr>" 5 4 "Ready 4"]
  by (simp add: calculate_delay_def)

lemma counting_read_counts:
  "drain (counting_read rd) ns r = (Inr out, r') \<Longrightarrow>
   cr_bytes_read r' = cr_bytes_read r + of_nat (length out)"
proof (induction ns arbitrary: r out)
  case (Cons n ns)
  obtain bs r1 where s: "counting_read rd n r = (Inr bs, r1)"
    using Cons.prems by (auto split: prod.splits sum.splits)
  obtain out1 where d: "drain (counting_read rd) ns r1 = (Inr out1, r')" "out = bs @ out1"
    using Cons.prems s by (auto split: prod.splits sum.splits)
  have "cr_bytes_read r1 = cr_bytes_read r + of_nat (length bs)"
    using s by (auto simp: counting_read_def split: prod.splits sum.splits)
  then show ?case using Cons.IH [OF d(1)] d(2) by (simp add: add.assoc)
qed simp

text \<open>The asynchronous fixed reader is the synchronous one whenever the inner poll is ready.\<close>

lemma async_fixed_eq:
  "rd (min n (fr_size r - fr_bytes_read r)) (fr_inner r) = (res, fr_inner r) \<Longrightarrow>
   async_fixed_poll_read (\<lambda>k. Ready res) n r
     = (Ready (fst (fixed_read rd n r)), snd (fixed_read rd n r))"
  by (cases res) (simp_all add: async_fixed_poll_read_def fixed_read_def Let_def)

lemma abort_read_drain:
  "ns \<noteq> [] \<Longrightarrow> drain (abort_read (guard_drop b) rd) ns s = (Inl ''Operation aborted'', s)"
  "drain (abort_read guard_new rd) ns s = drain rd ns s"
proof -
  have "abort_read guard_new rd = rd" by (simp add: fun_eq_iff abort_read_def guard_new_def)
  then show "drain (abort_read guard_new rd) ns s = drain rd ns s" by simp
  show "ns \<noteq> [] \<Longrightarrow> drain (abort_read (guard_drop b) rd) ns s = (Inl ''Operation aborted'', s)"
    by (cases ns) (simp_all add: abort_read_def guard_drop_def)
qed

end
