(* ===== verification/Server_State.thy ===== *)
theory Server_State
  imports Effects
begin

text \<open>
  \<open>server/state.rs\<close>: the state of a server, its change notifications, and
  \<open>execute_action\<close>, which runs a power action under the \<open>locked\<close> flag.

  The \<open>AtomicU8\<close> is written only through \<open>From<ServerState> for u8\<close>, so the record
  holds it typed; \<open>u8_of_state\<close> and \<open>state_of_u8\<close> of theory \<open>Effects\<close> are the two
  conversions and cancel. \<open>trace\<close> collects the schedule trigger and the broadcast
  \<open>set_state\<close> makes, in that order. The server record extends this one.
\<close>

record ServerStateLock =
  sl_state :: ServerState
  sl_locked :: bool
  trace :: "effect list"

definition new_lock :: ServerStateLock where
  "new_lock = \<lparr>sl_state = Offline, sl_locked = False, trace = []\<rparr>"

definition emit :: "effect list \<Rightarrow> 'a ServerStateLock_scheme \<Rightarrow> 'a ServerStateLock_scheme" where
  "emit es s = s\<lparr>trace := trace s @ es\<rparr>"

definition get_state :: "'a ServerStateLock_scheme \<Rightarrow> ServerState" where
  "get_state s = sl_state s"

definition set_state :: "ServerState \<Rightarrow> 'a ServerStateLock_scheme \<Rightarrow> 'a ServerStateLock_scheme" where
  "set_state st s =
     (if get_state s = st then s
      else emit [StateTrigger st, Broadcast (new_message ServerStatus [to_str st])]
             (s\<lparr>sl_state := st\<rparr>))"

text \<open>
  The acquisition loop. \<open>n\<close> is the number of iterations that begin before the
  timeout has elapsed, and \<open>interfere i\<close> what the other tasks do to the state
  during the \<open>i\<close>-th sleep of 100 ms.
\<close>

fun acquire_loop ::
  "nat \<Rightarrow> (nat \<Rightarrow> 'a ServerStateLock_scheme \<Rightarrow> 'a ServerStateLock_scheme) \<Rightarrow> nat
     \<Rightarrow> 'a ServerStateLock_scheme \<Rightarrow> bool \<times> 'a ServerStateLock_scheme" where
  "acquire_loop 0 interfere i s = (False, s)"
| "acquire_loop (Suc n) interfere i s =
     (if \<not> sl_locked s then (True, s)
      else acquire_loop n interfere (Suc i) (interfere i s))"

type_synonym 's timeout_run = "(nat \<times> (nat \<Rightarrow> 's \<Rightarrow> 's)) option"

text \<open>
  \<open>execute_action\<close>, with the acquisition as above and the action a state
  transformer with a result. The result is \<open>Inr True\<close> for an executed action,
  \<open>Inr False\<close> for a lock not acquired and \<open>Inl\<close> for a failed action.
\<close>

definition execute_action ::
  "ServerState
     \<Rightarrow> (bool \<Rightarrow> 'a ServerStateLock_scheme \<Rightarrow> unit result \<times> 'a ServerStateLock_scheme)
     \<Rightarrow> 'a ServerStateLock_scheme timeout_run
     \<Rightarrow> 'a ServerStateLock_scheme \<Rightarrow> bool result \<times> 'a ServerStateLock_scheme" where
  "execute_action st action aquire_timeout s =
     (let old_state = get_state s;
          run = (\<lambda>aquired s.
            let s = s\<lparr>sl_locked := True\<rparr>;
                s = set_state st s
            in case action aquired s of
                 (Inl err, s) \<Rightarrow> (Inl err, (set_state old_state s)\<lparr>sl_locked := False\<rparr>)
               | (Inr _, s) \<Rightarrow> (Inr True, s\<lparr>sl_locked := False\<rparr>))
      in case aquire_timeout of
           Some (n, interfere) \<Rightarrow>
             (case acquire_loop n interfere 0 s of (aquired, s) \<Rightarrow> run aquired s)
         | None \<Rightarrow> if sl_locked s then (Inr False, s) else run False s)"

subsection \<open>Lemmas\<close>

lemma get_set_state [simp]: "get_state (set_state st s) = st"
  by (simp add: set_state_def get_state_def emit_def)

lemma set_state_locked [simp]: "sl_locked (set_state st s) = sl_locked s"
  by (simp add: set_state_def emit_def)

lemma set_state_idem [simp]: "set_state st (set_state st s) = set_state st s"
  by (simp add: set_state_def [of st "set_state st s"])

lemma sl_state_set_state [simp]: "sl_state (set_state st s) = st"
  using get_set_state [of st s] by (simp only: get_state_def)

lemma trace_set_state:
  "trace (set_state st s) = trace s @
     (if get_state s = st then []
      else [StateTrigger st, Broadcast (new_message ServerStatus [to_str st])])"
  by (simp add: set_state_def emit_def)

lemma get_state_locked_update [simp]: "get_state (s\<lparr>sl_locked := b\<rparr>) = get_state s"
  by (simp add: get_state_def)

lemma acquire_loop_True:
  "acquire_loop n f i s = (True, s') \<Longrightarrow> \<not> sl_locked s'"
  by (induction n f i s rule: acquire_loop.induct) (auto split: if_splits)

lemma acquire_loop_locked_forever:
  "(\<And>i s. sl_locked s \<Longrightarrow> sl_locked (f i s)) \<Longrightarrow> sl_locked s \<Longrightarrow>
     fst (acquire_loop n f i s) = False"
  by (induction n f i s rule: acquire_loop.induct) auto

lemma execute_action_None:
  "execute_action st action None s =
     (if sl_locked s then (Inr False, s)
      else case action False (set_state st (s\<lparr>sl_locked := True\<rparr>)) of
             (Inl err, s') \<Rightarrow> (Inl err, (set_state (get_state s) s')\<lparr>sl_locked := False\<rparr>)
           | (Inr _, s') \<Rightarrow> (Inr True, s'\<lparr>sl_locked := False\<rparr>))"
  by (simp add: execute_action_def Let_def)

lemma execute_action_Some:
  "execute_action st action (Some (n, f)) s =
     (case acquire_loop n f 0 s of (aquired, s1) \<Rightarrow>
        case action aquired (set_state st (s1\<lparr>sl_locked := True\<rparr>)) of
          (Inl err, s') \<Rightarrow> (Inl err, (set_state (get_state s) s')\<lparr>sl_locked := False\<rparr>)
        | (Inr _, s') \<Rightarrow> (Inr True, s'\<lparr>sl_locked := False\<rparr>))"
  by (simp add: execute_action_def Let_def)

section \<open>Interleaved acquisition\<close>

text \<open>
  \<open>execute_action\<close> loads \<open>locked\<close> and stores it in two separate atomic accesses.
  The step relation interleaves tasks at that grain: each task loads the flag
  (and gives up if it is set), stores it, runs its action, and clears the flag.
\<close>

datatype task_pc = Idle | Loaded | InAction | Done | GaveUp

type_synonym lock_config = "bool \<times> (nat \<Rightarrow> task_pc)"

inductive lock_step :: "lock_config \<Rightarrow> lock_config \<Rightarrow> bool" where
  load_free: "pc t = Idle \<Longrightarrow> lock_step (False, pc) (False, pc(t := Loaded))"
| load_held: "pc t = Idle \<Longrightarrow> lock_step (True, pc) (True, pc(t := GaveUp))"
| store: "pc t = Loaded \<Longrightarrow> lock_step (b, pc) (True, pc(t := InAction))"
| release: "pc t = InAction \<Longrightarrow> lock_step (b, pc) (False, pc(t := Done))"

inductive_cases lock_stepE: "lock_step c c'"

definition lock_reach :: "lock_config \<Rightarrow> bool" where
  "lock_reach = lock_step\<^sup>*\<^sup>* (False, \<lambda>_. Idle)"

section \<open>Properties\<close>

text \<open>
  Without a timeout, an action is refused exactly when the lock is held, and
  then nothing changes; otherwise it runs with the state already switched and the
  lock held, the lock is free afterwards, and a failed action puts the state it
  found back.
\<close>

theorem execute_action_without_timeout:
  "(sl_locked s \<longrightarrow> execute_action st action None s = (Inr False, s)) \<and>
   (\<not> sl_locked s \<longrightarrow>
     (\<exists>s1 res s2 s3. s1 = set_state st (s\<lparr>sl_locked := True\<rparr>) \<and>
        action False s1 = (res, s2) \<and>
        execute_action st action None s = (map_sum id (\<lambda>_. True) res, s3) \<and>
        get_state s1 = st \<and> sl_locked s1 \<and> \<not> sl_locked s3 \<and>
        get_state s3 = (if isl res then get_state s else get_state s2)))"
proof (intro conjI impI)
  assume free: "\<not> sl_locked s"
  obtain res s2 where a: "action False (set_state st (s\<lparr>sl_locked := True\<rparr>)) = (res, s2)"
    by fastforce
  show "\<exists>s1 res s2 s3. s1 = set_state st (s\<lparr>sl_locked := True\<rparr>) \<and>
        action False s1 = (res, s2) \<and>
        execute_action st action None s = (map_sum id (\<lambda>_. True) res, s3) \<and>
        get_state s1 = st \<and> sl_locked s1 \<and> \<not> sl_locked s3 \<and>
        get_state s3 = (if isl res then get_state s else get_state s2)"
    using free a by (cases res) (simp_all add: execute_action_None)
qed (simp add: execute_action_None)

theorem execute_action_without_timeout_witness:
  "fst (execute_action Starting (\<lambda>_ s. (Inl ''no'', s)) None new_lock) = Inl ''no''"
  using execute_action_without_timeout
    [of new_lock Starting "\<lambda>_ s. (Inl ''no'', s)"]
  by (auto simp: new_lock_def)

text \<open>
  With a timeout the action always runs, also when the lock was held until the
  timeout: the result is never the \<open>Ok(false)\<close> the documentation promises, the
  action is only told that the lock was not acquired. A failed action restores
  the state read before the wait, even if another task changed it in between.
\<close>

theorem execute_action_timeout_never_refuses:
  "fst (execute_action st action (Some (n, f)) s) \<noteq> Inr False \<and>
   (\<exists>aquired s1. acquire_loop n f 0 s = (aquired, s1) \<and>
      (isl (fst (action aquired (set_state st (s1\<lparr>sl_locked := True\<rparr>)))) \<longrightarrow>
        get_state (snd (execute_action st action (Some (n, f)) s)) = get_state s)) \<and>
   \<not> sl_locked (snd (execute_action st action (Some (n, f)) s))"
  by (auto simp: execute_action_Some split: prod.splits sum.splits)

theorem execute_action_timeout_never_refuses_witness:
  "fst (execute_action Stopping (\<lambda>aquired s. (if aquired then Inr () else Inl ''held'', s))
      (Some (3, \<lambda>_ s. s)) (new_lock\<lparr>sl_locked := True\<rparr>)) \<noteq> Inr False"
  using execute_action_timeout_never_refuses by blast

text \<open>
  A state change is announced exactly once, to the schedules first and then to
  the websocket clients, and setting the current state announces nothing.
\<close>

theorem set_state_announces:
  "trace (set_state b (set_state a s)) =
     trace s @
     (if get_state s = a then []
      else [StateTrigger a, Broadcast (new_message ServerStatus [to_str a])]) @
     (if a = b then []
      else [StateTrigger b, Broadcast (new_message ServerStatus [to_str b])])"
  by (simp add: trace_set_state)

text \<open>
  The flag is not a mutual exclusion: two tasks can both load it before either
  stores it, so two power actions can be in progress at once.
\<close>

theorem lock_not_exclusive:
  "\<exists>pc. lock_reach (True, pc) \<and> pc 0 = InAction \<and> pc 1 = InAction"
proof -
  let ?a = "(\<lambda>_. Idle)(0 := Loaded)"
  let ?b = "?a(1 := Loaded)"
  let ?c = "?b(0 := InAction)"
  let ?d = "?c(1 := InAction)"
  have "lock_step (False, \<lambda>_. Idle) (False, ?a)" by (rule load_free) simp
  moreover have "lock_step (False, ?a) (False, ?b)" by (rule load_free) simp
  moreover have "lock_step (False, ?b) (True, ?c)" by (rule store) simp
  moreover have "lock_step (True, ?c) (True, ?d)" by (rule store) simp
  ultimately have "lock_reach (True, ?d)"
    unfolding lock_reach_def by (meson rtranclp.rtrancl_into_rtrancl rtranclp.rtrancl_refl)
  then show ?thesis by (intro exI [of _ ?d]) simp
qed

end
