(* ===== verification/Power_Actions.thy ===== *)
theory Power_Actions
  imports Server_State Filesystem
begin

text \<open>
  \<open>server/mod.rs\<close>: the power actions of a server (start, stop, kill, restart), the
  task that follows the container's state and handles crashes, the image pull and
  the set-up and removal of the container.

  The server record extends the state lock. What the outside answers in one run of
  an action (Docker, the panel, the disk) is the record \<open>world\<close>; what is done to
  it is appended to the trace. Tasks spawned and not awaited (a restart's start, a
  stop with kill timeout) are effects of the trace. \<open>paint\<close> stands for the ANSI
  rendering of daemon messages. Errors made from a literal are \<open>Inl\<close> their text.
\<close>

section \<open>The server and its world\<close>

record InnerServer = ServerStateLock +
  container :: "string option"
  suspended :: bool
  installing :: bool
  restoring :: bool
  transferring :: bool
  restarting :: bool
  stopping :: bool
  last_crash :: "nat option"
  crash_handled :: bool
  websocket_sender :: bool

record pull_status =
  ps_id :: "string option"
  ps_status :: "string option"
  ps_progress :: "string option"
  ps_detail :: "(int option \<times> int option) option"

record world =
  w_uuid :: string
  w_server_name :: string
  w_name_in_container :: bool
  w_full :: bool
  w_image :: string
  w_registries :: "string list"
  w_pull :: "(string + pull_status) list"
  w_local_images :: "nat option"
  w_create :: "string result"
  w_attach :: "unit result"
  w_start :: "unit result"
  w_kill :: "unit result"
  w_stop_type :: string
  w_stop_value :: "string option"
  w_check_permissions :: bool
  w_chown :: "unit result"
  w_settings :: "bool option"
  w_containers :: "string option list option"
  w_delete_on_stop :: bool
  w_crash_enabled :: bool
  w_crash_timeout :: nat
  w_clean_exit_is_crash :: bool
  w_paint :: "string \<Rightarrow> string"
  w_paint_error :: "string \<Rightarrow> string"
  w_progress_json :: "bool \<Rightarrow> int \<Rightarrow> int \<Rightarrow> string"

definition new_server :: InnerServer where
  "new_server = ServerStateLock.extend new_lock
     \<lparr>container = None, suspended = False, installing = False, restoring = False,
      transferring = False, restarting = False, stopping = False, last_crash = None,
      crash_handled = False, websocket_sender = False\<rparr>"

type_synonym server = InnerServer

definition is_locked_state :: "server \<Rightarrow> bool" where
  "is_locked_state s \<longleftrightarrow> suspended s \<or> installing s \<or> restoring s \<or> transferring s"

definition reset_state :: "server \<Rightarrow> server" where
  "reset_state s = set_state Offline s"

definition log_daemon :: "string \<Rightarrow> server \<Rightarrow> server" where
  "log_daemon message s = emit [Broadcast (new_message ServerDaemonMessage [message])] s"

definition log_daemon_install :: "string \<Rightarrow> server \<Rightarrow> server" where
  "log_daemon_install message s = emit [Broadcast (new_message ServerInstallOutput [message])] s"

definition log_daemon_with_prelude :: "world \<Rightarrow> string \<Rightarrow> server \<Rightarrow> server" where
  "log_daemon_with_prelude w message s =
     emit [Broadcast (new_message ServerConsoleOutput [w_paint w message])] s"

definition log_daemon_error :: "world \<Rightarrow> string \<Rightarrow> server \<Rightarrow> server" where
  "log_daemon_error w message s = log_daemon (w_paint_error w message) s"

definition get_daemon_error :: "world \<Rightarrow> string \<Rightarrow> WebsocketMessage" where
  "get_daemon_error w message = new_message ServerDaemonMessage [w_paint_error w message]"

section \<open>The container\<close>

definition is_name_char :: "char \<Rightarrow> bool" where
  "is_name_char c \<longleftrightarrow>
     (let n = of_char c :: nat in
      48 \<le> n \<and> n \<le> 57 \<or> 65 \<le> n \<and> n \<le> 90 \<or> 97 \<le> n \<and> n \<le> 122) \<or> c = CHR ''-'' \<or> c = CHR ''_''"

definition container_name :: "world \<Rightarrow> string" where
  "container_name w =
     (if w_name_in_container w then
        take (63 - 1 - 36) (filter is_name_char (w_server_name w)) @ ''.'' @ w_uuid w
      else w_uuid w)"

definition setup_websocket_sender :: "server \<Rightarrow> server" where
  "setup_websocket_sender s = s\<lparr>websocket_sender := True\<rparr>"

definition setup_container :: "world \<Rightarrow> server \<Rightarrow> unit result \<times> server" where
  "setup_container w s =
     (let s = s\<lparr>crash_handled := False\<rparr> in
      if container s \<noteq> None then (Inr (), s)
      else let s = emit [DockerCreate (container_name w)] s in
           case w_create w of
             Inl err \<Rightarrow> (Inl err, s)
           | Inr docker_id \<Rightarrow>
               (case w_attach w of
                  Inl err \<Rightarrow> (Inl err, s)
                | Inr _ \<Rightarrow> (Inr (), (setup_websocket_sender s)\<lparr>container := Some docker_id\<rparr>)))"

text \<open>
  \<open>attach_container\<close> over the listed containers: their names, state and id. The
  task it spawns clears \<open>crash_handled\<close> after five seconds unless the server is
  offline then (\<open>attach_task\<close>).
\<close>

record listed =
  li_names :: "string list option"
  li_state :: "string option"
  li_id :: "string option"

definition str_lower :: "string \<Rightarrow> string" where
  "str_lower = map (\<lambda>c. if 65 \<le> (of_char c :: nat) \<and> (of_char c :: nat) \<le> 90 then char_of (of_char c + 32 :: nat) else c)"

definition str_upper :: "string \<Rightarrow> string" where
  "str_upper = map (\<lambda>c. if 97 \<le> (of_char c :: nat) \<and> (of_char c :: nat) \<le> 122 then char_of (of_char c - 32 :: nat) else c)"

fun attach_loop :: "(string \<Rightarrow> unit result) \<Rightarrow> listed list \<Rightarrow> server \<Rightarrow> unit result \<times> server" where
  "attach_loop attach [] s = (Inr (), s)"
| "attach_loop attach (c # cs) s =
     (if (case li_names c of Some ns \<Rightarrow> \<exists>n \<in> set ns. str_contains n ''installer'' | None \<Rightarrow> False)
      then attach_loop attach cs s
      else if (case li_state c of Some st \<Rightarrow> str_lower st \<noteq> ''running'' | None \<Rightarrow> True)
      then attach_loop attach cs s
      else case li_id c of
             None \<Rightarrow> attach_loop attach cs s
           | Some docker_id \<Rightarrow>
               (case attach docker_id of
                  Inl err \<Rightarrow> (Inl err, s)
                | Inr _ \<Rightarrow>
                    attach_loop attach cs
                      ((setup_websocket_sender (s\<lparr>crash_handled := True\<rparr>))
                         \<lparr>container := Some docker_id\<rparr>)))"

definition attach_container ::
  "(string \<Rightarrow> unit result) \<Rightarrow> listed list result \<Rightarrow> server \<Rightarrow> unit result \<times> server" where
  "attach_container attach listing s =
     (if container s \<noteq> None then (Inr (), s)
      else case listing of Inr cs \<Rightarrow> attach_loop attach cs s | Inl _ \<Rightarrow> (Inr (), s))"

definition attach_task :: "server \<Rightarrow> server" where
  "attach_task s = (if get_state s \<noteq> Offline then s\<lparr>crash_handled := False\<rparr> else s)"

definition destroy_container :: "world \<Rightarrow> server \<Rightarrow> server" where
  "destroy_container w s =
     (let s = (case w_containers w of
                 Some ids \<Rightarrow> emit (map DockerRemove (concat (map (case_option [] (\<lambda>i. [i])) ids))) s
               | None \<Rightarrow> s)
      in s\<lparr>container := None, websocket_sender := False\<rparr>)"

definition sync_container :: "u64 \<Rightarrow> unit result \<Rightarrow> server \<Rightarrow> unit result \<times> server" where
  "sync_container disk_space update s =
     (let s = emit [UpdateDiskLimit (disk_space * 1024 * 1024)] s in
      case container s of
        Some docker_id \<Rightarrow> (update, emit [DockerUpdate docker_id] s)
      | None \<Rightarrow> (Inr (), s))"

text \<open>A fetched configuration is its \<open>suspended\<close> flag; its disk limit is \<open>disk_space\<close>.\<close>

definition update_configuration :: "bool \<Rightarrow> u64 \<Rightarrow> unit result \<Rightarrow> server \<Rightarrow> server" where
  "update_configuration susp disk_space update s =
     snd (sync_container disk_space update (emit [UpdateSchedules] (s\<lparr>suspended := susp\<rparr>)))"

definition sync_configuration :: "world \<Rightarrow> u64 \<Rightarrow> unit result \<Rightarrow> server \<Rightarrow> server" where
  "sync_configuration w disk_space update s =
     (case w_settings w of
        Some susp \<Rightarrow> update_configuration susp disk_space update s
      | None \<Rightarrow> s)"

section \<open>Pulling the image\<close>

definition image_and_tag :: "string \<Rightarrow> string \<times> string" where
  "image_and_tag img =
     (case str_split_once CHR '':'' img of Some p \<Rightarrow> p | None \<Rightarrow> (img, ''latest''))"

definition registry_auth :: "string list \<Rightarrow> string \<Rightarrow> string option" where
  "registry_auth registries img = List.find (\<lambda>r. starts_with img r) registries"

definition pull_ok :: "world \<Rightarrow> pull_status \<Rightarrow> server \<Rightarrow> server" where
  "pull_ok w st s =
     (let s = (case ps_id st of
            None \<Rightarrow> s
          | Some i \<Rightarrow>
              (let kind = map_option str_lower (ps_status st);
                   progress = (\<lambda>pulling s. case ps_detail st of
                       Some (cur, tot) \<Rightarrow>
                         emit [Broadcast (new_message ServerImagePullProgress
                           [i, w_progress_json w pulling (case_option 0 id cur) (case_option 0 id tot)])] s
                     | None \<Rightarrow> s)
               in if kind = Some ''downloading'' then progress True s
                  else if kind = Some ''extracting'' then progress False s
                  else if kind = Some ''pull complete'' then
                    emit [Broadcast (new_message ServerImagePullCompleted [i])] s
                  else s))
      in case ps_status st of
           None \<Rightarrow> s
         | Some text \<Rightarrow>
             (case ps_progress st of
                Some p \<Rightarrow> log_daemon_install (text @ '' '' @ p) s
              | None \<Rightarrow> log_daemon_install text s))"

fun pull_loop :: "world \<Rightarrow> bool \<Rightarrow> (string + pull_status) list \<Rightarrow> server \<Rightarrow> unit result \<times> server" where
  "pull_loop w quiet [] s = (Inr (), s)"
| "pull_loop w quiet (Inr st # sts) s = pull_loop w quiet sts (pull_ok w st s)"
| "pull_loop w quiet (Inl err # sts) s =
     (let s = (if quiet then s else log_daemon_error w (''failed to pull image: '' @ err) s)
      in case w_local_images w of
           None \<Rightarrow> (Inl err, s)
         | Some n \<Rightarrow> if n = 0 then (Inl err, s) else pull_loop w quiet sts s)"

definition pull_image :: "world \<Rightarrow> string \<Rightarrow> bool \<Rightarrow> server \<Rightarrow> unit result \<times> server" where
  "pull_image w img quiet s =
     (let s = (if quiet then s else log_daemon_with_prelude w
            ''Pulling Docker container image, this could take a few minutes to complete...'' s);
          (r, s) =
            (if ends_with img ''~'' then (Inr (), s)
             else let (from_image, tag) = image_and_tag img
                  in pull_loop w quiet (w_pull w)
                       (emit [DockerPull from_image tag (registry_auth (w_registries w) img)] s))
      in case r of
           Inl err \<Rightarrow> (Inl err, s)
         | Inr _ \<Rightarrow>
             (Inr (), if quiet then s
                      else log_daemon_with_prelude w ''Finished pulling Docker container image'' s))"

section \<open>Power actions\<close>

abbreviation busy :: string where
  "busy \<equiv> ''Another power action is currently being processed for this server, please try again later.''"

text \<open>The action of \<open>start\<close>, run under the lock.\<close>

definition start_action :: "world \<Rightarrow> u64 \<Rightarrow> unit result \<Rightarrow> server \<Rightarrow> unit result \<times> server" where
  "start_action w disk_space update s =
     (let s = emit [SetupFilesystem] s;
          s = destroy_container w s;
          s = sync_configuration w disk_space update s;
          s = log_daemon_with_prelude w ''Updating process configuration files...'' s;
          s = emit [UpdateFiles] s;
          (r, s) =
            (if w_check_permissions w then
               (w_chown w, emit [ChownBase]
                  (log_daemon_with_prelude w
                     ''Ensuring file permissions are set correctly, this could take a few seconds...'' s))
             else (Inr (), s))
      in case r of
           Inl err \<Rightarrow> (Inl err, s)
         | Inr _ \<Rightarrow>
      (case pull_image w (w_image w) False s of
         (Inl err, s) \<Rightarrow> (Inl err, s)
       | (Inr _, s) \<Rightarrow>
      (case setup_container w s of
         (Inl err, s) \<Rightarrow> (Inl err, s)
       | (Inr _, s) \<Rightarrow>
      (case container s of
         None \<Rightarrow> (Inr (), s)
       | Some docker_id \<Rightarrow> (w_start w, emit [DockerStart docker_id] s)))))"

definition finish_action ::
  "ServerPowerAction \<Rightarrow> bool \<Rightarrow> (server \<Rightarrow> server) \<Rightarrow> bool result \<times> server \<Rightarrow> unit result \<times> server" where
  "finish_action act skip_schedules on_failure rs =
     (case rs of
        (Inr True, s) \<Rightarrow> (Inr (), if skip_schedules then s else emit [PowerTrigger act] s)
      | (Inr False, s) \<Rightarrow> (Inl busy, on_failure s)
      | (Inl err, s) \<Rightarrow> (Inl err, on_failure s))"

definition start ::
  "world \<Rightarrow> u64 \<Rightarrow> unit result \<Rightarrow> server timeout_run \<Rightarrow> bool \<Rightarrow> server \<Rightarrow> unit result \<times> server" where
  "start w disk_space update aquire_timeout skip_schedules s =
     (if is_locked_state s then (Inl ''Server is in a locked state, cannot start the server.'', s)
      else if get_state s \<noteq> Offline then (Inl ''Server is already running.'', s)
      else if w_full w then (Inl ''Disk space is full, cannot start the server.'', s)
      else finish_action Start skip_schedules id
             (execute_action Starting (\<lambda>_. start_action w disk_space update) aquire_timeout s))"

definition kill :: "world \<Rightarrow> bool \<Rightarrow> server \<Rightarrow> unit result \<times> server" where
  "kill w skip_schedules s =
     (if get_state s = Offline then (Inr (), s)
      else case container s of
             None \<Rightarrow> (Inr (), s)
           | Some docker_id \<Rightarrow>
               (let s = emit [DockerKill docker_id ''SIGKILL''] (s\<lparr>stopping := True\<rparr>) in
                if isl (w_kill w) then (Inr (), s)
                else (Inr (), reset_state (if skip_schedules then s else emit [PowerTrigger Kill] s))))"

definition stop_signal :: "string option \<Rightarrow> string" where
  "stop_signal value =
     (case value of
        Some signal \<Rightarrow>
          (if str_upper signal \<in> {''SIGABRT'', ''SIGINT'', ''SIGTERM'', ''SIGQUIT'', ''SIGKILL''}
           then str_upper signal else ''SIGKILL'')
      | None \<Rightarrow> ''SIGKILL'')"

definition stop_action :: "world \<Rightarrow> string \<Rightarrow> server \<Rightarrow> unit result \<times> server" where
  "stop_action w docker_id s =
     (let s = s\<lparr>stopping := True\<rparr> in
      if w_stop_type w = ''signal'' then (Inr (), emit [DockerKill docker_id (stop_signal (w_stop_value w))] s)
      else if w_stop_type w = ''command'' then
        (Inr (), case container s of
                   Some c \<Rightarrow> emit [Stdin c (case_option [] id (w_stop_value w) @ newline)] s
                 | None \<Rightarrow> s)
      else (Inr (), emit [DockerStop docker_id (- 1)] s))"

definition stop :: "world \<Rightarrow> server timeout_run \<Rightarrow> bool \<Rightarrow> server \<Rightarrow> unit result \<times> server" where
  "stop w aquire_timeout skip_schedules s =
     (if get_state s = Offline then (Inl ''Server is already stopped.'', s)
      else if get_state s = Stopping then (Inl ''Server is already stopping.'', s)
      else case container s of
             None \<Rightarrow> (Inr (), s)
           | Some docker_id \<Rightarrow>
               finish_action Stop skip_schedules (\<lambda>s. s\<lparr>stopping := False\<rparr>)
                 (execute_action Stopping (\<lambda>_. stop_action w docker_id) aquire_timeout s))"

text \<open>
  \<open>restart\<close>; \<open>between\<close> is what the other tasks do to the server between the end of
  \<open>stop\<close> and the store of \<open>restarting\<close>.
\<close>

definition restart ::
  "world \<Rightarrow> u64 \<Rightarrow> unit result \<Rightarrow> (server \<Rightarrow> server) \<Rightarrow> server timeout_run \<Rightarrow> server \<Rightarrow> unit result \<times> server" where
  "restart w disk_space update between aquire_timeout s =
     (if restarting s then (Inl ''Server is already restarting.'', s)
      else if get_state s \<noteq> Offline then
        (case (if get_state s \<noteq> Stopping then stop w aquire_timeout True s else (Inr (), s)) of
           (Inl err, s) \<Rightarrow> (Inl err, s)
         | (Inr _, s) \<Rightarrow> (Inr (), emit [PowerTrigger Restart] ((between s)\<lparr>restarting := True\<rparr>)))
      else
        (case start w disk_space update aquire_timeout True s of
           (Inl err, s) \<Rightarrow> (Inl err, s)
         | (Inr _, s) \<Rightarrow> (Inr (), emit [PowerTrigger Restart] s)))"

text \<open>
  \<open>stop_with_kill_timeout\<close>: \<open>waited\<close> is what happens to the server while it waits
  for the container, \<open>exited\<close> whether the container exits before the timeout.
\<close>

definition stop_with_kill_timeout ::
  "world \<Rightarrow> (server \<Rightarrow> server) \<Rightarrow> bool \<Rightarrow> nat \<Rightarrow> bool \<Rightarrow> server \<Rightarrow> unit result \<times> server" where
  "stop_with_kill_timeout w waited exited timeout skip_schedules s =
     (if get_state s = Offline then (Inr (), s)
      else
        (let s = log_daemon (''Killing server after '' @ nat_to_string timeout @ '' seconds...'') s in
         case container s of
           None \<Rightarrow> (Inr (), s)
         | Some _ \<Rightarrow>
             (case (if get_state s \<noteq> Stopping then stop w None skip_schedules s else (Inr (), s)) of
                (Inl err, s) \<Rightarrow> (Inl err, s)
              | (Inr _, s) \<Rightarrow>
                  (let s = waited s in
                   if exited then (Inr (), s) else kill w skip_schedules s))))"

definition restart_with_kill_timeout ::
  "world \<Rightarrow> u64 \<Rightarrow> unit result \<Rightarrow> (server \<Rightarrow> server) \<Rightarrow> bool \<Rightarrow> server timeout_run \<Rightarrow> nat
     \<Rightarrow> server \<Rightarrow> unit result \<times> server" where
  "restart_with_kill_timeout w disk_space update waited exited aquire_timeout timeout s =
     (if restarting s then (Inl ''Server is already restarting.'', s)
      else if get_state s \<noteq> Offline then
        (case (if get_state s \<noteq> Stopping then stop_with_kill_timeout w waited exited timeout True s
               else (Inr (), s)) of
           (Inl err, s) \<Rightarrow> (Inl err, s)
         | (Inr _, s) \<Rightarrow> (Inr (), emit [PowerTrigger Restart] (s\<lparr>restarting := True\<rparr>)))
      else
        (case start w disk_space update aquire_timeout True s of
           (Inl err, s) \<Rightarrow> (Inl err, s)
         | (Inr _, s) \<Rightarrow> (Inr (), emit [PowerTrigger Restart] s)))"

definition destroy :: "world \<Rightarrow> server \<Rightarrow> server" where
  "destroy w s =
     emit [DestroyFilesystem]
       (destroy_container w (snd (kill w True (s\<lparr>suspended := True\<rparr>))))"

text \<open>The errors of the power actions made from a literal, which \<open>downcast::<&str>\<close> finds.\<close>

definition literal_errors :: "string list" where
  "literal_errors =
     [''Server is in a locked state, cannot start the server.'', ''Server is already running.'',
      ''Disk space is full, cannot start the server.'', busy, ''Server is already stopped.'',
      ''Server is already stopping.'', ''Server is already restarting.'']"

text \<open>A world in which every call of the outside succeeds, for the concrete runs.\<close>

definition sample_world :: world where
  "sample_world =
     \<lparr>w_uuid = ''u'', w_server_name = ''s'', w_name_in_container = False, w_full = False,
      w_image = ''i'', w_registries = [], w_pull = [], w_local_images = None, w_create = Inr ''c'',
      w_attach = Inr (), w_start = Inr (), w_kill = Inr (), w_stop_type = ''signal'',
      w_stop_value = None, w_check_permissions = False, w_chown = Inr (), w_settings = None,
      w_containers = None, w_delete_on_stop = True, w_crash_enabled = True, w_crash_timeout = 60,
      w_clean_exit_is_crash = False, w_paint = id, w_paint_error = id,
      w_progress_json = \<lambda>_ _ _. []\<rparr>"

section \<open>Following the container\<close>

datatype ContainerStatus = StatusEmpty | StatusRunning | StatusDead | StatusExited | StatusOther

record ContainerState =
  status :: "ContainerStatus option"
  exit_code :: "int option"
  oom_killed :: "bool option"

definition bool_text :: "bool \<Rightarrow> string" where
  "bool_text b = (if b then ''true'' else ''false'')"

text \<open>The container has stopped: restart, stop and crash handling, at time \<open>now\<close> (in seconds).\<close>

definition handle_exit :: "world \<Rightarrow> nat \<Rightarrow> ContainerState \<Rightarrow> server \<Rightarrow> server" where
  "handle_exit w now cs s =
     (let s = set_state Offline s;
          delete = (\<lambda>s. if w_delete_on_stop w then destroy_container w s else s)
      in if restarting s then
           emit [SpawnStart 5 False] (s\<lparr>crash_handled := True, restarting := False, stopping := False\<rparr>)
         else if stopping s then
           delete (s\<lparr>crash_handled := True, stopping := False\<rparr>)
         else if w_crash_enabled w \<and> \<not> crash_handled s then
           (let s = s\<lparr>crash_handled := True\<rparr> in
            if exit_code cs = Some 0 \<and> oom_killed cs \<noteq> Some True \<and> \<not> w_clean_exit_is_crash w then
              delete s
            else
              (let s = emit [CrashTrigger] s;
                   s = log_daemon_with_prelude w ''---------- Detected server process in a crashed state! ----------'' s;
                   s = log_daemon_with_prelude w (''Exit code: '' @ int_to_string (case_option 0 id (exit_code cs))) s;
                   s = log_daemon_with_prelude w (''Out of memory: '' @ bool_text (oom_killed cs = Some True)) s
               in case last_crash s of
                    Some t \<Rightarrow>
                      if now - t < w_crash_timeout w then
                        delete (log_daemon_with_prelude w
                          (''Aborting automatic restart, last crash occurred less than ''
                             @ nat_to_string (w_crash_timeout w) @ '' seconds ago.'') s)
                      else emit [SpawnStart 5 False] (s\<lparr>last_crash := Some now\<rparr>)
                  | None \<Rightarrow> emit [SpawnStart 5 False] (s\<lparr>last_crash := Some now\<rparr>)))
         else s)"

text \<open>
  One update of the container: its state and usage. \<open>full\<close> is \<open>is_full\<close> at that
  time. The result tells whether the loop goes on, with the usage last sent.
\<close>

definition sender_step ::
  "world \<Rightarrow> ('u \<Rightarrow> string) \<Rightarrow> nat \<Rightarrow> bool \<Rightarrow> ContainerState \<Rightarrow> 'u \<Rightarrow> 'u \<times> server \<Rightarrow> bool \<times> 'u \<times> server" where
  "sender_step w usage_json now full cs usage prev =
     (case prev of (prev_usage, s) \<Rightarrow>
        let s = (if usage \<noteq> prev_usage then
                   emit [Broadcast (new_message ServerStats [usage_json usage])] s else s);
            s = (if full \<and> get_state s \<noteq> Offline \<and> \<not> stopping s then
                   emit [SpawnStopWithKill 30 False]
                     (log_daemon_with_prelude w
                        ''Server is exceeding the assigned disk space limit, stopping process now.'' s)
                 else s)
        in case status cs of
             Some StatusRunning \<Rightarrow>
               (True, usage, if get_state s = Offline then set_state Running s else s)
           | Some StatusOther \<Rightarrow> (True, usage, s)
           | _ \<Rightarrow> (False, usage, handle_exit w now cs s))"

text \<open>The loop over the updates of one container.\<close>

fun sender_loop ::
  "world \<Rightarrow> ('u \<Rightarrow> string) \<Rightarrow> (nat \<times> bool \<times> ContainerState \<times> 'u) list \<Rightarrow> 'u \<times> server \<Rightarrow> 'u \<times> server" where
  "sender_loop w usage_json [] us = us"
| "sender_loop w usage_json ((now, full, cs, usage) # updates) us =
     (case sender_step w usage_json now full cs usage us of
        (go_on, us) \<Rightarrow> if go_on then sender_loop w usage_json updates us else us)"

end
