(* ===== verification/Power_Safety.thy ===== *)
theory Power_Safety
  imports Power_Actions
begin

text \<open>
  What the power actions of theory \<open>Power_Actions\<close> promise: the guards of a start and
  the state it leaves, the stop of a running server, the handling of an exited
  container and the limit on automatic restarts, and the two ways a restart or an
  exit can be misjudged.
\<close>

section \<open>Lemmas\<close>

lemma emit_simps [simp]:
  "get_state (emit es s) = get_state s" "sl_state (emit es s) = sl_state s"
  "sl_locked (emit es s) = sl_locked s" "trace (emit es s) = trace s @ es"
  by (simp_all add: emit_def get_state_def)

lemma emit_fields [simp]:
  "container (emit es s) = container s" "restarting (emit es s) = restarting s"
  "stopping (emit es s) = stopping s" "crash_handled (emit es s) = crash_handled s"
  "last_crash (emit es s) = last_crash s" "suspended (emit es s) = suspended s"
  by (simp_all add: emit_def)

lemma set_state_fields [simp]:
  "container (set_state st s) = container s" "restarting (set_state st s) = restarting s"
  "stopping (set_state st s) = stopping s" "crash_handled (set_state st s) = crash_handled s"
  "last_crash (set_state st s) = last_crash s"
  by (simp_all add: set_state_def emit_def)

lemma get_state_updates [simp]:
  "get_state (s\<lparr>container := c\<rparr>) = get_state s" "get_state (s\<lparr>restarting := b\<rparr>) = get_state s"
  "get_state (s\<lparr>stopping := b\<rparr>) = get_state s" "get_state (s\<lparr>crash_handled := b\<rparr>) = get_state s"
  "get_state (s\<lparr>last_crash := t\<rparr>) = get_state s" "get_state (s\<lparr>suspended := b\<rparr>) = get_state s"
  "get_state (s\<lparr>websocket_sender := b\<rparr>) = get_state s" "get_state (s\<lparr>trace := es\<rparr>) = get_state s"
  by (simp_all add: get_state_def)

text \<open>A step that only adds to the trace and keeps the state and the lock.\<close>

definition quiet_step :: "server \<Rightarrow> server \<Rightarrow> bool" where
  "quiet_step s s' \<longleftrightarrow> sl_state s' = sl_state s \<and> sl_locked s' = sl_locked s"

lemma quiet_step_refl [simp]: "quiet_step s s"
  by (simp add: quiet_step_def)

lemma quiet_step_trans: "quiet_step s t \<Longrightarrow> quiet_step t u \<Longrightarrow> quiet_step s u"
  by (simp add: quiet_step_def)

lemma quiet_emit [simp]: "quiet_step s (emit es t) = quiet_step s t"
  by (simp add: quiet_step_def)

lemma quiet_updates [simp]:
  "quiet_step s (t\<lparr>container := c\<rparr>) = quiet_step s t"
  "quiet_step s (t\<lparr>websocket_sender := b\<rparr>) = quiet_step s t"
  "quiet_step s (t\<lparr>crash_handled := b\<rparr>) = quiet_step s t"
  "quiet_step s (t\<lparr>suspended := b\<rparr>) = quiet_step s t"
  by (simp_all add: quiet_step_def)

lemma quiet_logs [simp]:
  "quiet_step s (log_daemon_with_prelude w m t) = quiet_step s t"
  "quiet_step s (log_daemon_install m t) = quiet_step s t"
  "quiet_step s (log_daemon_error w m t) = quiet_step s t"
  by (simp_all add: log_daemon_with_prelude_def log_daemon_install_def log_daemon_error_def log_daemon_def)

lemma log_fields [simp]:
  "container (log_daemon_with_prelude w m t) = container t"
  "container (log_daemon_install m t) = container t"
  "container (log_daemon_error w m t) = container t"
  "container (log_daemon m t) = container t" "get_state (log_daemon m t) = get_state t"
  "sl_locked (log_daemon m t) = sl_locked t" "stopping (log_daemon m t) = stopping t"
  "restarting (log_daemon m t) = restarting t"
  "crash_handled (log_daemon_with_prelude w m t) = crash_handled t"
  "last_crash (log_daemon_with_prelude w m t) = last_crash t"
  "restarting (log_daemon_with_prelude w m t) = restarting t"
  "stopping (log_daemon_with_prelude w m t) = stopping t"
  "get_state (log_daemon_with_prelude w m t) = get_state t"
  by (simp_all add: log_daemon_with_prelude_def log_daemon_install_def log_daemon_error_def log_daemon_def)

lemma quiet_destroy_container [simp]: "quiet_step s (destroy_container w t) = quiet_step s t"
  by (simp add: destroy_container_def Let_def split: option.splits)

lemma destroy_container_fields [simp]:
  "container (destroy_container w t) = None" "get_state (destroy_container w t) = get_state t"
  "restarting (destroy_container w t) = restarting t" "stopping (destroy_container w t) = stopping t"
  "crash_handled (destroy_container w t) = crash_handled t"
  "last_crash (destroy_container w t) = last_crash t"
  by (simp_all add: destroy_container_def Let_def split: option.splits)

lemma quiet_sync_configuration [simp]:
  "quiet_step s (sync_configuration w d u t) = quiet_step s t"
  by (simp add: sync_configuration_def update_configuration_def sync_container_def Let_def
      split: option.splits)

lemma container_sync_configuration [simp]:
  "container (sync_configuration w d u t) = container t"
  by (simp add: sync_configuration_def update_configuration_def sync_container_def Let_def
      split: option.splits)

lemma quiet_pull_ok [simp]: "quiet_step s (pull_ok w st t) = quiet_step s t"
  by (simp add: pull_ok_def Let_def split: option.splits)

lemma container_pull_ok [simp]: "container (pull_ok w st t) = container t"
  by (simp add: pull_ok_def Let_def split: option.splits)

lemma quiet_from [simp]:
  "quiet_step (log_daemon_error w m s) t = quiet_step s t"
  "quiet_step (pull_ok w st s) t = quiet_step s t"
proof -
  have "quiet_step s (log_daemon_error w m s)" "quiet_step s (pull_ok w st s)" by simp_all
  then show "quiet_step (log_daemon_error w m s) t = quiet_step s t"
    "quiet_step (pull_ok w st s) t = quiet_step s t"
    by (auto simp: quiet_step_def)
qed

lemma quiet_pull_loop: "pull_loop w q sts t = (r, t') \<Longrightarrow> quiet_step t t' \<and> container t' = container t"
proof (induction w q sts t rule: pull_loop.induct)
  case (3 w quiet err sts s)
  then show ?case by (cases quiet) (auto simp: Let_def split: option.splits if_splits)
qed auto

lemma quiet_pull_image: "pull_image w img q t = (r, t') \<Longrightarrow> quiet_step t t' \<and> container t' = container t"
  by (auto simp: pull_image_def Let_def quiet_step_def log_daemon_with_prelude_def
      split: prod.splits sum.splits if_splits dest!: quiet_pull_loop)

lemma quiet_setup_container: "setup_container w t = (r, t') \<Longrightarrow> quiet_step t t'"
  by (auto simp: setup_container_def setup_websocket_sender_def Let_def split: sum.splits if_splits)

lemma setup_container_ok:
  "setup_container w t = (Inr (), t') \<Longrightarrow> container t = None \<Longrightarrow>
     \<not> crash_handled t' \<and> (\<exists>i. w_create w = Inr i \<and> container t' = Some i)"
  by (auto simp: setup_container_def setup_websocket_sender_def Let_def split: sum.splits if_splits)

lemma start_action_quiet:
  assumes "start_action w d u s = (r, s')"
  shows "quiet_step s s' \<and>
     (r = Inr () \<longrightarrow> \<not> crash_handled s' \<and>
        (\<exists>i. w_create w = Inr i \<and> container s' = Some i \<and> DockerStart i \<in> set (trace s')))"
proof -
  define t where "t =
    (let s1 = emit [UpdateFiles] (log_daemon_with_prelude w ''Updating process configuration files...''
           (sync_configuration w d u (destroy_container w (emit [SetupFilesystem] s))))
     in if w_check_permissions w then
          (w_chown w, emit [ChownBase] (log_daemon_with_prelude w
             ''Ensuring file permissions are set correctly, this could take a few seconds...'' s1))
        else (Inr (), s1))"
  have t: "quiet_step s (snd t)" "container (snd t) = None"
    by (simp_all add: t_def Let_def)
  have eq: "start_action w d u s =
      (case t of (Inl err, s) \<Rightarrow> (Inl err, s)
       | (Inr _, s) \<Rightarrow>
          (case pull_image w (w_image w) False s of
             (Inl err, s) \<Rightarrow> (Inl err, s)
           | (Inr _, s) \<Rightarrow>
              (case setup_container w s of
                 (Inl err, s) \<Rightarrow> (Inl err, s)
               | (Inr _, s) \<Rightarrow>
                  (case container s of
                     None \<Rightarrow> (Inr (), s)
                   | Some docker_id \<Rightarrow> (w_start w, emit [DockerStart docker_id] s)))))"
    unfolding start_action_def t_def Let_def by (simp split: prod.split sum.split)
  obtain r0 s0 where rs: "t = (r0, s0)" by fastforce
  show ?thesis
  proof (cases r0)
    case (Inl e)
    then show ?thesis using assms t rs unfolding eq by auto
  next
    case (Inr x)
    obtain r1 s1 where p: "pull_image w (w_image w) False s0 = (r1, s1)" by fastforce
    have q1: "quiet_step s s1" "container s1 = None"
      using quiet_pull_image [OF p] t rs by (auto intro: quiet_step_trans)
    obtain r2 s2 where c: "setup_container w s1 = (r2, s2)" by fastforce
    have q2: "quiet_step s s2"
      using quiet_setup_container [OF c] q1 by (blast intro: quiet_step_trans)
    show ?thesis
      using assms q1 q2 p c rs Inr setup_container_ok [of w s1 s2] unfolding eq
      by (auto split: sum.splits option.splits)
  qed
qed

lemma quiet_get_state: "quiet_step s s' \<Longrightarrow> get_state s' = get_state s"
  by (simp add: quiet_step_def get_state_def)

text \<open>The effects an exit adds to the trace.\<close>

definition spawns :: "effect list \<Rightarrow> nat" where
  "spawns es = length (filter (\<lambda>e. \<exists>t b. e = SpawnStart t b) es)"

lemma spawns_append [simp]: "spawns (a @ b) = spawns a + spawns b"
  by (simp add: spawns_def)

lemma spawns_simps [simp]:
  "spawns [] = 0" "spawns (SpawnStart t b # es) = Suc (spawns es)"
  "spawns (Broadcast m # es) = spawns es" "spawns (CrashTrigger # es) = spawns es"
  "spawns (StateTrigger st # es) = spawns es" "spawns (PowerTrigger a # es) = spawns es"
  "spawns (map DockerRemove is) = 0"
  by (simp_all add: spawns_def)

lemma spawns_destroy [simp]: "spawns (trace (destroy_container w s)) = spawns (trace s)"
  by (simp add: destroy_container_def Let_def split: option.splits)

lemma spawns_log [simp]: "spawns (trace (log_daemon_with_prelude w m s)) = spawns (trace s)"
  by (simp add: log_daemon_with_prelude_def)

lemma spawns_set_state [simp]: "spawns (trace (set_state st s)) = spawns (trace s)"
  by (simp add: trace_set_state)

definition clean_exit :: "world \<Rightarrow> ContainerState \<Rightarrow> bool" where
  "clean_exit w cs \<longleftrightarrow>
     exit_code cs = Some 0 \<and> oom_killed cs \<noteq> Some True \<and> \<not> w_clean_exit_is_crash w"

definition auto_restarts :: "world \<Rightarrow> nat \<Rightarrow> ContainerState \<Rightarrow> server \<Rightarrow> bool" where
  "auto_restarts w now cs s \<longleftrightarrow>
     w_crash_enabled w \<and> \<not> crash_handled s \<and> \<not> clean_exit w cs \<and>
     (case last_crash s of Some t \<Rightarrow> w_crash_timeout w \<le> now - t | None \<Rightarrow> True)"

lemma handle_exit_facts:
  "get_state (handle_exit w now cs s) = Offline"
  "\<not> restarting (handle_exit w now cs s)" "\<not> stopping (handle_exit w now cs s)"
  "spawns (trace (handle_exit w now cs s)) = spawns (trace s) +
     (if restarting s \<or> (\<not> stopping s \<and> auto_restarts w now cs s) then 1 else 0)"
  "last_crash (handle_exit w now cs s) =
     (if \<not> restarting s \<and> \<not> stopping s \<and> auto_restarts w now cs s then Some now else last_crash s)"
  by (auto simp: handle_exit_def Let_def auto_restarts_def clean_exit_def split: option.splits)

section \<open>Properties\<close>



text \<open>
  C13: Stopping a running server sends the configured signal, command or Docker stop
  to its container exactly once, marks the stop as requested and leaves the server
  stopping and unlocked; an offline or stopping server is refused unchanged.
\<close>

theorem stop_spec:
  assumes "container s = Some c" and "\<not> sl_locked s"
  shows "(get_state s \<in> {Offline, Stopping} \<longrightarrow> isl (fst (stop w None skip s)) \<and> snd (stop w None skip s) = s) \<and>
     (get_state s \<in> {Starting, Running} \<longrightarrow>
       (\<exists>s'. stop w None skip s = (Inr (), s') \<and> get_state s' = Stopping \<and> stopping s' \<and> \<not> sl_locked s' \<and>
         trace s' = trace s @
           [StateTrigger Stopping, Broadcast (new_message ServerStatus [''stopping'']),
            (if w_stop_type w = ''signal'' then DockerKill c (stop_signal (w_stop_value w))
             else if w_stop_type w = ''command'' then Stdin c (case_option [] id (w_stop_value w) @ newline)
             else DockerStop c (- 1))] @
           (if skip then [] else [PowerTrigger Stop])))"
  using assms
  by (auto simp: stop_def execute_action_None stop_action_def finish_action_def Let_def trace_set_state)

theorem stop_spec_witness:
  "isl (fst (stop sample_world None True (new_server\<lparr>container := Some ''c''\<rparr>)))"
proof -
  have n: "get_state (new_server\<lparr>container := Some ''c''\<rparr>) = Offline"
    "container (new_server\<lparr>container := Some ''c''\<rparr>) = Some ''c''"
    "\<not> sl_locked (new_server\<lparr>container := Some ''c''\<rparr>)"
    by (simp_all add: new_server_def new_lock_def ServerStateLock.defs get_state_def)
  show ?thesis using stop_spec [OF n(2,3), of sample_world True] n(1) by simp
qed

text \<open>
  C14: When its container exits, the server is offline and no stop or restart stays
  requested; exactly one start is spawned if a restart was requested, or if no
  stop was and crash detection is on, this container's crash is not handled yet,
  the exit was not a clean one and the last crash lies the timeout back; in every
  other case none is.
\<close>

theorem handle_exit_spec:
  "get_state (handle_exit w now cs s) = Offline \<and>
   \<not> restarting (handle_exit w now cs s) \<and> \<not> stopping (handle_exit w now cs s) \<and>
   spawns (trace (handle_exit w now cs s)) = spawns (trace s) +
     (if restarting s \<or>
         (\<not> stopping s \<and> w_crash_enabled w \<and> \<not> crash_handled s \<and>
          \<not> (exit_code cs = Some 0 \<and> oom_killed cs \<noteq> Some True \<and> \<not> w_clean_exit_is_crash w) \<and>
          (\<forall>t. last_crash s = Some t \<longrightarrow> w_crash_timeout w \<le> now - t))
      then 1 else 0)"
  by (auto simp: handle_exit_facts auto_restarts_def clean_exit_def split: option.splits)

theorem handle_exit_spec_witness:
  "spawns (trace (handle_exit sample_world 9 \<lparr>status = None, exit_code = Some 1, oom_killed = None\<rparr>
      (new_server\<lparr>restarting := True\<rparr>))) = 1"
  using handle_exit_spec
    [of sample_world 9 "\<lparr>status = None, exit_code = Some 1, oom_killed = None\<rparr>" "new_server\<lparr>restarting := True\<rparr>"]
  by (simp add: new_server_def new_lock_def ServerStateLock.defs)

text \<open>The times of the automatic restarts in a run of exits, each of a freshly started container.\<close>

fun crash_run :: "world \<Rightarrow> (nat \<times> ContainerState) list \<Rightarrow> server \<Rightarrow> nat list" where
  "crash_run w [] s = []"
| "crash_run w ((now, cs) # es) s =
     (let s0 = s\<lparr>crash_handled := False\<rparr>; s' = handle_exit w now cs s0
      in (if spawns (trace s') = spawns (trace s) then [] else [now]) @ crash_run w es s')"

definition spaced :: "nat \<Rightarrow> nat option \<Rightarrow> nat list \<Rightarrow> bool" where
  "spaced gap prev ts \<longleftrightarrow>
     successively (\<lambda>a b. gap \<le> b - a) ((case prev of Some t \<Rightarrow> [t] | None \<Rightarrow> []) @ ts)"

lemma crash_run_spaced:
  "\<not> restarting s \<Longrightarrow> \<not> stopping s \<Longrightarrow> spaced (w_crash_timeout w) (last_crash s) (crash_run w es s)"
proof (induction es arbitrary: s)
  case Nil
  show ?case by (simp add: spaced_def split: option.splits)
next
  case (Cons e es)
  obtain now cs where e: "e = (now, cs)" by (cases e)
  let ?fresh = "s\<lparr>crash_handled := False\<rparr>"
  let ?s = "handle_exit w now cs ?fresh"
  have IH: "spaced (w_crash_timeout w) (last_crash ?s) (crash_run w es ?s)"
    by (rule Cons.IH) (simp_all add: handle_exit_facts)
  have sp: "spawns (trace ?s) = spawns (trace s) + (if auto_restarts w now cs ?fresh then 1 else 0)"
    "last_crash ?s = (if auto_restarts w now cs ?fresh then Some now else last_crash s)"
    using Cons.prems by (simp_all add: handle_exit_facts)
  show ?case
  proof (cases "auto_restarts w now cs ?fresh")
    case True
    then have "\<forall>t. last_crash s = Some t \<longrightarrow> w_crash_timeout w \<le> now - t"
      by (auto simp: auto_restarts_def)
    then show ?thesis
      using IH sp True by (auto simp: e spaced_def Let_def split: option.splits)
  next
    case False
    then show ?thesis using IH sp by (simp add: e Let_def)
  qed
qed

text \<open>
  C15: Crash loops are broken: however often a container crashes, two consecutive
  automatic restarts are at least the configured timeout apart.
\<close>

theorem crash_restarts_spaced:
  assumes "\<not> restarting s" and "\<not> stopping s"
  shows "successively (\<lambda>a b. w_crash_timeout w \<le> b - a) (crash_run w es s)"
  using crash_run_spaced [OF assms, of w es]
  by (cases "crash_run w es s") (auto simp: spaced_def split: option.splits)

theorem crash_restarts_spaced_witness:
  "successively (\<lambda>a b. w_crash_timeout sample_world \<le> b - a)
     (crash_run sample_world [(5, \<lparr>status = None, exit_code = Some 1, oom_killed = None\<rparr>),
                   (7, \<lparr>status = None, exit_code = Some 1, oom_killed = None\<rparr>)] new_server)"
  by (rule crash_restarts_spaced)
     (simp_all add: new_server_def ServerStateLock.defs)

text \<open>
  A lost restart. \<open>restart\<close> sets its flag only after the stop has returned: if the
  container's exit is handled in between, it counts as a plain stop, no start is
  spawned, and the flag set afterwards makes every later restart fail although
  the server is offline. Handled after the flag is set, the same exit spawns the
  start.
\<close>

theorem restart_race:
  assumes "get_state s = Running" and "container s = Some c" and "\<not> sl_locked s"
    and "\<not> restarting s"
  shows "(\<exists>s'. restart w d u (handle_exit w now cs) None s = (Inr (), s') \<and>
       get_state s' = Offline \<and> restarting s' \<and> spawns (trace s') = spawns (trace s) \<and>
       restart w d u id None s' = (Inl ''Server is already restarting.'', s')) \<and>
     (\<exists>s'. restart w d u id None s = (Inr (), s') \<and>
       spawns (trace (handle_exit w now cs s')) = spawns (trace s) + 1)"
proof -
  have "\<exists>s1. stop w None True s = (Inr (), s1) \<and> stopping s1 \<and> \<not> restarting s1 \<and>
      spawns (trace s1) = spawns (trace s)"
    using assms
    by (simp add: stop_def execute_action_None stop_action_def finish_action_def Let_def
        trace_set_state spawns_def)
  then obtain s1 where s1: "stop w None True s = (Inr (), s1)" "stopping s1" "\<not> restarting s1"
    "spawns (trace s1) = spawns (trace s)" by blast
  have r: "restart w d u b None s = (Inr (), emit [PowerTrigger Restart] ((b s1)\<lparr>restarting := True\<rparr>))" for b
    using assms s1(1) by (simp add: restart_def)
  show ?thesis
    unfolding r using s1 by (simp add: handle_exit_facts restart_def)
qed

theorem restart_race_witness:
  "\<exists>s'. restart sample_world 0 (Inr ()) (handle_exit sample_world 9 \<lparr>status = None, exit_code = Some 0, oom_killed = None\<rparr>) None
      (new_server\<lparr>sl_state := Running, container := Some ''c''\<rparr>) = (Inr (), s') \<and>
    get_state s' = Offline \<and> restarting s'"
proof -
  let ?s = "new_server\<lparr>sl_state := Running, container := Some ''c''\<rparr>"
  have "get_state ?s = Running" "container ?s = Some ''c''" "\<not> sl_locked ?s" "\<not> restarting ?s"
    by (simp_all add: new_server_def new_lock_def ServerStateLock.defs get_state_def)
  from restart_race [OF this, of sample_world 0 "Inr ()" 9 "\<lparr>status = None, exit_code = Some 0, oom_killed = None\<rparr>"]
  show ?thesis by blast
qed

text \<open>
  A failed inspection is a crash. The state reader replaces a container state it
  cannot read by the default one, whose status is missing, and a missing status is
  handled as an exit: with crash detection on, a running server whose crash is not
  handled is announced offline and a new start is spawned.
\<close>

theorem failed_inspection_is_crash:
  assumes "get_state s = Running" and "\<not> restarting s" and "\<not> stopping s" and "\<not> crash_handled s"
    and "last_crash s = None" and "w_crash_enabled w"
  shows "\<exists>s'. sender_step w js now False \<lparr>status = None, exit_code = None, oom_killed = None\<rparr> usg (usg, s)
       = (False, usg, s') \<and> get_state s' = Offline \<and> spawns (trace s') = spawns (trace s) + 1"
  using assms handle_exit_facts [of w now "\<lparr>status = None, exit_code = None, oom_killed = None\<rparr>" s]
  by (auto simp: sender_step_def Let_def auto_restarts_def clean_exit_def)

theorem failed_inspection_is_crash_witness:
  "\<exists>s'. sender_step
      sample_world
      (\<lambda>_. []) 9 False \<lparr>status = None, exit_code = None, oom_killed = None\<rparr> ()
      ((), new_server\<lparr>sl_state := Running\<rparr>) = (False, (), s') \<and> get_state s' = Offline"
proof -
  let ?s = "new_server\<lparr>sl_state := Running\<rparr>"
  have s: "get_state ?s = Running" "\<not> restarting ?s" "\<not> stopping ?s" "\<not> crash_handled ?s"
    "last_crash ?s = None"
    by (simp_all add: new_server_def new_lock_def ServerStateLock.defs get_state_def)
  have "w_crash_enabled sample_world" by (simp add: sample_world_def)
  from failed_inspection_is_crash [OF s this, of "\<lambda>_. []" 9 "()"] show ?thesis by blast
qed

lemma stop_signal_allowed:
  "stop_signal v \<in> {''SIGABRT'', ''SIGINT'', ''SIGTERM'', ''SIGQUIT'', ''SIGKILL''}"
  by (auto simp: stop_signal_def split: option.splits)

lemma filter_length_le: "length (take n (filter P xs)) \<le> n"
  by simp

text \<open>
  The image reference is split at its first colon. Without one the tag is
  \<open>latest\<close>; a registry with a port loses everything after the host, so the pull
  asks for the wrong image.
\<close>

theorem image_reference_split:
  "(CHR '':'' \<notin> set name \<longrightarrow> image_and_tag name = (name, ''latest'') \<and>
      image_and_tag (name @ '':'' @ tag) = (name, tag)) \<and>
   image_and_tag ''registry:5000/game:v1'' = (''registry'', ''5000/game:v1'')"
  by (auto simp: image_and_tag_def str_split_once_append str_split_once_None [THEN iffD2])

theorem image_reference_split_witness: "image_and_tag ''game'' = (''game'', ''latest'')"
  using image_reference_split [of "''game''" "[]"] by simp

end
