(* ===== verification/Jwt.thy ===== *)
theory Jwt
  imports Permissions Effects
begin

text \<open>
  \<open>remote/jwt.rs\<close>: the claims of a token, their validation, the denied tokens and
  the identifiers of one-time tokens. A \<open>DateTime\<close> is its number of nanoseconds
  and \<open>timestamp()\<close> its seconds. Signatures are checked by the \<open>jwt\<close> crate, whose
  answer is an argument where a token is read.
\<close>

record BasePayload =
  issuer :: string
  subject :: "string option"
  audience :: "string list"
  expiration_time :: "int option"
  not_before :: "int option"
  issued_at :: "int option"
  jwt_id :: string

record JwtClient =
  boot_time :: int
  denied_jtokens :: "string \<Rightarrow> int option"
  seen_jtoken_ids :: "string \<Rightarrow> (u8 \<times> int) option"

definition timestamp :: "int \<Rightarrow> int" where
  "timestamp t = t div 1000000000"

definition new_client :: "int \<Rightarrow> JwtClient" where
  "new_client now = \<lparr>boot_time = now, denied_jtokens = \<lambda>_. None, seen_jtoken_ids = \<lambda>_. None\<rparr>"

definition validate :: "int \<Rightarrow> JwtClient \<Rightarrow> 'a BasePayload_scheme \<Rightarrow> bool" where
  "validate clock client p =
     (let now = timestamp clock in
      case expiration_time p of
        None \<Rightarrow> False
      | Some e \<Rightarrow>
          if e < now then False
          else if (case not_before p of Some nbf \<Rightarrow> now < nbf | None \<Rightarrow> False) then False
          else case issued_at p of
                 None \<Rightarrow> False
               | Some iat \<Rightarrow>
                   if now < iat \<or> iat < timestamp (boot_time client) then False
                   else case denied_jtokens client (jwt_id p) of
                          Some expired_until \<Rightarrow> \<not> iat < timestamp expired_until
                        | None \<Rightarrow> True)"

abbreviation hour :: int where
  "hour \<equiv> 3600000000000"

text \<open>One round of the clean-up task.\<close>

definition jwt_cleanup :: "int \<Rightarrow> JwtClient \<Rightarrow> JwtClient" where
  "jwt_cleanup now client =
     client\<lparr>denied_jtokens := (\<lambda>i. case denied_jtokens client i of
                Some t \<Rightarrow> if t > now - hour then Some t else None | None \<Rightarrow> None),
            seen_jtoken_ids := (\<lambda>i. case seen_jtoken_ids client i of
                Some (c, t) \<Rightarrow> if t > now - hour then Some (c, t) else None | None \<Rightarrow> None)\<rparr>"

definition one_time_id :: "int \<Rightarrow> string \<Rightarrow> JwtClient \<Rightarrow> bool \<times> JwtClient" where
  "one_time_id now i client =
     (case seen_jtoken_ids client i of
        Some (count, t) \<Rightarrow>
          if 2 \<le> count then (False, client)
          else (True, client\<lparr>seen_jtoken_ids := (seen_jtoken_ids client)(i \<mapsto> (count + 1, t))\<rparr>)
      | None \<Rightarrow> (True, client\<lparr>seen_jtoken_ids := (seen_jtoken_ids client)(i \<mapsto> (1, now))\<rparr>))"

definition deny :: "int \<Rightarrow> string \<Rightarrow> JwtClient \<Rightarrow> JwtClient" where
  "deny now i client = client\<lparr>denied_jtokens := (denied_jtokens client)(i \<mapsto> now)\<rparr>"

section \<open>Runs of the client\<close>

datatype jwt_op = JCleanup int | JOneTime int string | JDeny int string

fun jwt_step :: "jwt_op \<Rightarrow> JwtClient \<Rightarrow> JwtClient" where
  "jwt_step (JCleanup now) c = jwt_cleanup now c"
| "jwt_step (JOneTime now i) c = snd (one_time_id now i c)"
| "jwt_step (JDeny now i) c = deny now i c"

fun op_time :: "jwt_op \<Rightarrow> int" where
  "op_time (JCleanup now) = now"
| "op_time (JOneTime now i) = now"
| "op_time (JDeny now i) = now"

lemma boot_time_step [simp]: "boot_time (jwt_step op c) = boot_time c"
  by (cases op) (auto simp: jwt_cleanup_def one_time_id_def deny_def split: option.splits)

lemma denied_step:
  assumes "denied_jtokens c i = Some t" and "t0 \<le> t" and "t0 \<le> op_time op" and "op_time op < t0 + hour"
  shows "\<exists>t'. denied_jtokens (jwt_step op c) i = Some t' \<and> t0 \<le> t'"
  using assms by (cases op) (auto simp: jwt_cleanup_def one_time_id_def deny_def split: option.splits)

lemma denied_run:
  assumes "denied_jtokens c i = Some t" and "t0 \<le> t"
    and "\<forall>op \<in> set ops. t0 \<le> op_time op \<and> op_time op < t0 + hour"
  shows "\<exists>t'. denied_jtokens (fold jwt_step ops c) i = Some t' \<and> t0 \<le> t'"
  using assms
proof (induction ops arbitrary: c t)
  case (Cons op ops)
  then obtain t' where "denied_jtokens (jwt_step op c) i = Some t'" "t0 \<le> t'"
    using denied_step [of c i t t0 op] by auto
  then show ?case using Cons by auto
qed simp

lemma timestamp_mono: "a \<le> b \<Longrightarrow> timestamp a \<le> timestamp b"
  by (simp add: timestamp_def zdiv_mono1)

lemma validate_iff:
  "validate clock c p \<longleftrightarrow>
     (\<exists>e iat. expiration_time p = Some e \<and> issued_at p = Some iat \<and>
        timestamp clock \<le> e \<and> iat \<le> timestamp clock \<and> timestamp (boot_time c) \<le> iat \<and>
        (\<forall>nbf. not_before p = Some nbf \<longrightarrow> nbf \<le> timestamp clock) \<and>
        (\<forall>t. denied_jtokens c (jwt_id p) = Some t \<longrightarrow> timestamp t \<le> iat))"
  by (auto simp: validate_def Let_def not_less split: option.splits)

section \<open>Properties\<close>




fun ids_run :: "(int \<times> string) list \<Rightarrow> JwtClient \<Rightarrow> bool list" where
  "ids_run [] c = []"
| "ids_run ((now, i) # is) c =
     (case one_time_id now i c of (ok, c) \<Rightarrow> ok # ids_run is c)"

definition uses_left :: "JwtClient \<Rightarrow> string \<Rightarrow> nat" where
  "uses_left c i = (case seen_jtoken_ids c i of Some (n, t) \<Rightarrow> 2 - unat n | None \<Rightarrow> 2)"

lemma one_time_id_uses:
  "fst (one_time_id now i c) = (0 < uses_left c i) \<and>
   uses_left (snd (one_time_id now i c)) j = (if i = j then uses_left c j - 1 else uses_left c j)"
proof (cases "seen_jtoken_ids c i")
  case (Some p)
  obtain n t where p: "p = (n, t)" by (cases p)
  have "unat (n + 1) = unat n + 1" if "\<not> 2 \<le> n"
  proof -
    have "unat n = 0 \<or> unat n = 1" using that by (simp add: word_le_nat_alt) linarith
    then have "n = 0 \<or> n = 1" by (auto simp: word_unat_eq_iff)
    then show ?thesis by auto
  qed
  then show ?thesis
    using Some p by (auto simp: one_time_id_def uses_left_def word_le_nat_alt)
qed (auto simp: one_time_id_def uses_left_def)

text \<open>The uses of one identifier that a run accepts.\<close>

definition accepted :: "string \<Rightarrow> (int \<times> string) list \<Rightarrow> JwtClient \<Rightarrow> nat" where
  "accepted i is c = length (filter (\<lambda>(ok, _, j). ok \<and> j = i) (zip (ids_run is c) is))"

lemma accepted_eq: "accepted i is c = min (uses_left c i) (length (filter (\<lambda>(_, j). j = i) is))"
proof (induction "is" arbitrary: c)
  case (Cons x "is")
  obtain t j where x: "x = (t, j)" by (cases x)
  obtain ok c' where o: "one_time_id t j c = (ok, c')" by fastforce
  have u: "ok = (0 < uses_left c j)" "uses_left c' i = (if j = i then uses_left c i - 1 else uses_left c i)"
    using one_time_id_uses [of t j c] o by (metis fst_conv, metis o one_time_id_uses snd_conv)
  have "accepted i (x # is) c = (if ok \<and> j = i then 1 else 0) + accepted i is c'"
    using x o by (simp add: accepted_def)
  then show ?case using Cons u x by (auto simp: min_def)
qed (simp add: accepted_def)

text \<open>
  A one-time identifier is accepted twice: of any sequence of requests without a
  clean-up between them, the first two uses of a fresh identifier are accepted and
  every later one is refused.
\<close>

theorem one_time_id_twice:
  assumes "seen_jtoken_ids c i = None"
  shows "accepted i is c = min 2 (length (filter (\<lambda>(_, j). j = i) is))"
  using assms by (simp add: accepted_eq uses_left_def)

theorem one_time_id_twice_witness:
  "accepted ''a'' [(0, ''a''), (1, ''b''), (2, ''a''), (3, ''a'')] (new_client 0) = 2"
  using one_time_id_twice [of "new_client 0" "''a''" "[(0, ''a''), (1, ''b''), (2, ''a''), (3, ''a'')]"]
  by (simp add: new_client_def)

end
