(* ===== verification/Activity_Log.thy ===== *)
theory Activity_Log
  imports Json Effects "HOL-Library.Multiset"
begin

text \<open>
  \<open>server/activity.rs\<close>: the queue of a server's activities and the task that merges
  and sends them. Grouped activities are kept in hash maps, whose iteration order
  is unspecified; here they are association lists, and nothing proved depends on
  their order. A timestamp is a number of nanoseconds.
\<close>

datatype ActivityEvent =
    AE_PowerStart | AE_PowerStop | AE_PowerRestart | AE_PowerKill
  | AE_ConsoleCommand
  | AE_SftpWrite | AE_SftpCreate | AE_SftpCreateDirectory | AE_SftpRename | AE_SftpDelete
  | AE_FileUploaded | AE_FileCompress | AE_FileDecompress | AE_FileCreateDirectory
  | AE_FileWrite | AE_FileCopy | AE_FileDelete | AE_FileRename | AE_FilePull

fun is_sftp_event :: "ActivityEvent \<Rightarrow> bool" where
  "is_sftp_event AE_SftpWrite = True"
| "is_sftp_event AE_SftpCreate = True"
| "is_sftp_event AE_SftpCreateDirectory = True"
| "is_sftp_event AE_SftpRename = True"
| "is_sftp_event AE_SftpDelete = True"
| "is_sftp_event _ = False"

record Activity =
  act_user :: "uuid option"
  act_event :: ActivityEvent
  act_metadata :: "json option"
  act_ip :: "string option"
  act_timestamp :: int

record ApiActivity =
  api_user :: "uuid option"
  api_server :: uuid
  api_event :: ActivityEvent
  api_metadata :: "json option"
  api_ip :: "string option"
  api_timestamp :: int

definition log_activity :: "Activity \<Rightarrow> Activity list \<Rightarrow> Activity list" where
  "log_activity a q = q @ [a]"

section \<open>Grouping\<close>

type_synonym 'k groups = "('k \<times> Activity \<times> nat list) list"

text \<open>\<open>duration.num_seconds().abs() <= 60\<close>, the seconds cut off towards zero.\<close>

definition close_in_time :: "Activity \<Rightarrow> Activity \<Rightarrow> bool" where
  "close_in_time a existing \<longleftrightarrow>
     \<bar>act_timestamp a - act_timestamp existing\<bar> div 1000000000 \<le> 60"

text \<open>The first group that matches gets the index; \<open>None\<close> when none does.\<close>

fun group_push :: "('k \<Rightarrow> Activity \<Rightarrow> bool) \<Rightarrow> nat \<Rightarrow> 'k groups \<Rightarrow> 'k groups option" where
  "group_push match idx [] = None"
| "group_push match idx ((k, existing, indices) # gs) =
     (if match k existing then Some ((k, existing, indices @ [idx]) # gs)
      else map_option ((#) (k, existing, indices)) (group_push match idx gs))"

definition group_add :: "'k \<Rightarrow> Activity \<Rightarrow> nat \<Rightarrow> 'k groups \<Rightarrow> 'k groups" where
  "group_add key a idx gs =
     (case group_push (\<lambda>k existing. k = key \<and> close_in_time a existing) idx gs of
        Some gs' \<Rightarrow> gs'
      | None \<Rightarrow> obj_insert key (a, [idx]) gs)"

definition files_of :: "Activity \<Rightarrow> json option" where
  "files_of a = (case act_metadata a of Some m \<Rightarrow> json_get m ''files'' | None \<Rightarrow> None)"

definition directory_of :: "Activity \<Rightarrow> string option" where
  "directory_of a =
     (case act_metadata a of
        Some m \<Rightarrow> (case json_get m ''directory'' of Some d \<Rightarrow> json_as_str d | None \<Rightarrow> None)
      | None \<Rightarrow> None)"

type_synonym merge_state =
  "Activity list \<times> (ActivityEvent \<times> uuid option) groups \<times> (uuid option \<times> string) groups"

definition merge_step :: "nat \<times> Activity \<Rightarrow> merge_state \<Rightarrow> merge_state" where
  "merge_step ia st =
     (case (ia, st) of ((idx, a), (merged, sftp, uploads)) \<Rightarrow>
        if is_sftp_event (act_event a) \<and> files_of a \<noteq> None then
          (merged, group_add (act_event a, act_user a) a idx sftp, uploads)
        else if act_event a = AE_FileUploaded \<and> files_of a \<noteq> None \<and> directory_of a \<noteq> None then
          (merged, sftp, group_add (act_user a, the (directory_of a)) a idx uploads)
        else (merged @ [a], sftp, uploads))"

definition files_array :: "Activity \<Rightarrow> json list" where
  "files_array a =
     (case files_of a of Some v \<Rightarrow> (case json_as_array v of Some fs \<Rightarrow> fs | None \<Rightarrow> []) | None \<Rightarrow> [])"

definition set_files :: "json list \<Rightarrow> Activity \<Rightarrow> Activity" where
  "set_files fs a =
     (case act_metadata a of
        Some (JObject m) \<Rightarrow>
          if map_of m ''files'' = None then a
          else a\<lparr>act_metadata := Some (JObject (obj_insert ''files'' (JArray fs) m))\<rparr>
      | _ \<Rightarrow> a)"

definition merge_group :: "Activity list \<Rightarrow> Activity \<times> nat list \<Rightarrow> Activity" where
  "merge_group q g =
     (case g of (base_activity, indices) \<Rightarrow>
        if 1 < length indices then
          set_files (concat (map (\<lambda>idx. if idx < length q then files_array (q ! idx) else []) indices))
            base_activity
        else base_activity)"

definition merge_activities :: "Activity list \<Rightarrow> Activity list" where
  "merge_activities q =
     (case fold merge_step (zip [0..<length q] q) ([], [], []) of
        (merged, sftp, uploads) \<Rightarrow>
          merged @ map (merge_group q \<circ> snd) sftp @ map (merge_group q \<circ> snd) uploads)"

section \<open>Sending\<close>

definition to_api :: "uuid \<Rightarrow> Activity \<Rightarrow> ApiActivity" where
  "to_api server a =
     \<lparr>api_user = act_user a, api_server = server, api_event = act_event a,
      api_metadata = act_metadata a, api_ip = act_ip a, api_timestamp = act_timestamp a\<rparr>"

text \<open>
  One round of the task: the batch sent and the queue left. \<open>send\<close> is the panel's
  answer, which the code only logs.
\<close>

definition flush_round ::
  "uuid \<Rightarrow> nat \<Rightarrow> (ApiActivity list \<Rightarrow> unit result) \<Rightarrow> Activity list \<Rightarrow> ApiActivity list option \<times> Activity list" where
  "flush_round server send_count send q =
     (if q = [] then (None, q)
      else let q = merge_activities q;
               n = min send_count (length q);
               batch = take n q;
               q = drop n q
           in if batch = [] then (None, q)
              else (case send (map (to_api server) batch) of
                      Inl err \<Rightarrow> (Some (map (to_api server) batch), q)
                    | Inr _ \<Rightarrow> (Some (map (to_api server) batch), q)))"

section \<open>Lemmas\<close>

definition group_files :: "Activity list \<Rightarrow> nat list \<Rightarrow> json list" where
  "group_files q is = concat (map (\<lambda>idx. if idx < length q then files_array (q ! idx) else []) is)"

text \<open>A group's representative carries files, and stands for its indices if it is alone.\<close>

definition group_ok :: "Activity list \<Rightarrow> Activity \<times> nat list \<Rightarrow> bool" where
  "group_ok q g \<longleftrightarrow>
     fst g \<in> set q \<and> files_of (fst g) \<noteq> None \<and> snd g \<noteq> [] \<and>
     (length (snd g) = 1 \<longrightarrow> group_files q (snd g) = files_array (fst g))"

definition groups_files :: "Activity list \<Rightarrow> 'k groups \<Rightarrow> json multiset" where
  "groups_files q gs = mset (concat (map (\<lambda>g. group_files q (snd (snd g))) gs))"

lemma files_array_set_files:
  "files_of a \<noteq> None \<Longrightarrow> files_array (set_files fs a) = fs"
proof -
  assume "files_of a \<noteq> None"
  then obtain m where m: "act_metadata a = Some (JObject m)" "map_of m ''files'' \<noteq> None"
    by (cases "act_metadata a"; cases "the (act_metadata a)") (auto simp: files_of_def)
  then show ?thesis by (auto simp: set_files_def files_array_def files_of_def)
qed

lemma merge_group_files: "group_ok q g \<Longrightarrow> files_array (merge_group q g) = group_files q (snd g)"
proof -
  assume ok: "group_ok q g"
  obtain a "is" where g: "g = (a, is)" by (cases g)
  show ?thesis
  proof (cases "1 < length is")
    case True
    then show ?thesis
      using ok g by (simp add: merge_group_def group_files_def group_ok_def files_array_set_files)
  next
    case False
    then have "length is = 1" using ok g by (cases "is") (auto simp: group_ok_def)
    then show ?thesis using ok g by (simp add: merge_group_def group_ok_def)
  qed
qed

lemma group_push_ok:
  assumes "group_push P i gs = Some gs'" and "\<forall>g \<in> set gs. group_ok q (snd g)" and "i < length q"
  shows "(\<forall>g \<in> set gs'. group_ok q (snd g)) \<and>
     groups_files q gs' = groups_files q gs + mset (files_array (q ! i)) \<and> map fst gs' = map fst gs"
  using assms
proof (induction gs arbitrary: gs')
  case (Cons g gs)
  obtain k a "is" where g: "g = (k, a, is)" by (cases g)
  show ?case
  proof (cases "P k a")
    case True
    then have gs': "gs' = (k, a, is @ [i]) # gs" using Cons.prems(1) g by simp
    have "group_ok q (a, is @ [i])"
      using Cons.prems(2) g by (auto simp: group_ok_def)
    then show ?thesis
      using gs' Cons.prems g by (auto simp: groups_files_def group_files_def)
  next
    case False
    then obtain gs1 where gs1: "group_push P i gs = Some gs1" "gs' = g # gs1"
      using Cons.prems(1) g by auto
    then show ?thesis using Cons.IH [OF gs1(1)] Cons.prems(2,3) by (auto simp: groups_files_def)
  qed
qed simp

lemma group_push_None:
  "group_push P i gs = None \<Longrightarrow> \<forall>(k, a, is) \<in> set gs. \<not> P k a"
  by (induction P i gs rule: group_push.induct) (auto split: if_splits)

lemma obj_insert_new: "k \<notin> set (map fst m) \<Longrightarrow> obj_insert k v m = m @ [(k, v)]"
  by (induction m) auto

lemma group_add_ok:
  assumes "\<forall>g \<in> set gs. group_ok q (snd g)" and "i < length q" and "files_of (q ! i) \<noteq> None"
    and "\<forall>a \<in> set q. close_in_time (q ! i) a"
  shows "(\<forall>g \<in> set (group_add key (q ! i) i gs). group_ok q (snd g)) \<and>
     groups_files q (group_add key (q ! i) i gs) = groups_files q gs + mset (files_array (q ! i))"
proof (cases "group_push (\<lambda>k existing. k = key \<and> close_in_time (q ! i) existing) i gs")
  case (Some gs')
  then show ?thesis using group_push_ok [OF Some assms(1,2)] by (simp add: group_add_def)
next
  case None
  have "key \<notin> set (map fst gs)"
  proof
    assume "key \<in> set (map fst gs)"
    then obtain a "is" where g: "(key, a, is) \<in> set gs" by auto
    then have "a \<in> set q" using assms(1) by (auto simp: group_ok_def)
    then show False using group_push_None [OF None] g assms(4) by auto
  qed
  then have "group_add key (q ! i) i gs = gs @ [(key, q ! i, [i])]"
    using None by (simp add: group_add_def obj_insert_new)
  moreover have "group_ok q (q ! i, [i])"
    using assms(2,3) by (simp add: group_ok_def group_files_def)
  ultimately show ?thesis
    using assms(1,2) by (auto simp: groups_files_def group_files_def)
qed

definition queue_files :: "Activity list \<Rightarrow> json multiset" where
  "queue_files q = mset (concat (map files_array q))"

lemma merge_run_files:
  assumes "\<forall>a \<in> set q. \<forall>b \<in> set q. close_in_time a b"
    and "\<forall>(i, a) \<in> set ias. i < length q \<and> a = q ! i"
    and "\<forall>g \<in> set sftp. group_ok q (snd g)" and "\<forall>g \<in> set uploads. group_ok q (snd g)"
    and "fold merge_step ias (merged, sftp, uploads) = (merged', sftp', uploads')"
  shows "(\<forall>g \<in> set sftp'. group_ok q (snd g)) \<and> (\<forall>g \<in> set uploads'. group_ok q (snd g)) \<and>
     queue_files merged' + groups_files q sftp' + groups_files q uploads' =
     queue_files merged + groups_files q sftp + groups_files q uploads + queue_files (map snd ias)"
  using assms(2-)
proof (induction ias arbitrary: merged sftp uploads)
  case Nil
  then show ?case by (simp add: queue_files_def)
next
  case (Cons x ias)
  obtain i a where x: "x = (i, a)" by (cases x)
  have i: "i < length q" "a = q ! i" using Cons.prems(1) x by auto
  then have cl: "\<forall>b \<in> set q. close_in_time (q ! i) b" using assms(1) by simp
  have r: "\<forall>(i, a) \<in> set ias. i < length q \<and> a = q ! i" using Cons.prems(1) by simp
  consider (sftp) "is_sftp_event (act_event a) \<and> files_of a \<noteq> None"
    | (up) "\<not> (is_sftp_event (act_event a) \<and> files_of a \<noteq> None)"
        "act_event a = AE_FileUploaded \<and> files_of a \<noteq> None \<and> directory_of a \<noteq> None"
    | (other) "\<not> (is_sftp_event (act_event a) \<and> files_of a \<noteq> None)"
        "\<not> (act_event a = AE_FileUploaded \<and> files_of a \<noteq> None \<and> directory_of a \<noteq> None)"
    by blast
  then show ?case
  proof cases
    case sftp
    let ?g = "group_add (act_event a, act_user a) a i sftp"
    have g: "(\<forall>g \<in> set ?g. group_ok q (snd g))"
      "groups_files q ?g = groups_files q sftp + mset (files_array a)"
      using group_add_ok [OF Cons.prems(2) i(1) _ cl] sftp i(2) by auto
    have s: "merge_step x (merged, sftp, uploads) = (merged, ?g, uploads)"
      using sftp x by (simp add: merge_step_def)
    show ?thesis
      using Cons.IH [OF r g(1) Cons.prems(3), of merged] Cons.prems(4) s g(2) x
      by (simp add: queue_files_def ac_simps)
  next
    case up
    let ?g = "group_add (act_user a, the (directory_of a)) a i uploads"
    have g: "(\<forall>g \<in> set ?g. group_ok q (snd g))"
      "groups_files q ?g = groups_files q uploads + mset (files_array a)"
      using group_add_ok [OF Cons.prems(3) i(1) _ cl] up i(2) by auto
    have s: "merge_step x (merged, sftp, uploads) = (merged, sftp, ?g)"
      using up x by (auto simp: merge_step_def)
    show ?thesis
      using Cons.IH [OF r Cons.prems(2) g(1), of merged] Cons.prems(4) s g(2) x
      by (simp add: queue_files_def ac_simps)
  next
    case other
    have s: "merge_step x (merged, sftp, uploads) = (merged @ [a], sftp, uploads)"
      using other x by (auto simp: merge_step_def)
    show ?thesis
      using Cons.IH [OF r Cons.prems(2,3), of "merged @ [a]"] Cons.prems(4) s x
      by (simp add: queue_files_def ac_simps)
  qed
qed

lemma queue_files_groups:
  "\<forall>g \<in> set gs. group_ok q (snd g) \<Longrightarrow>
   queue_files (map (merge_group q \<circ> snd) gs) = groups_files q gs"
  by (induction gs) (auto simp: queue_files_def groups_files_def merge_group_files)

section \<open>Properties\<close>

text \<open>
  Merging loses no file: when the queued activities lie within a minute of each
  other, the merged ones name exactly the files the queued ones named, as often.
\<close>

theorem merge_keeps_files:
  assumes "\<forall>a \<in> set q. \<forall>b \<in> set q. close_in_time a b"
  shows "queue_files (merge_activities q) = queue_files q"
proof -
  obtain merged sftp uploads where r:
    "fold merge_step (zip [0..<length q] q) ([], [], []) = (merged, sftp, uploads)"
    by (metis prod_cases3)
  have z: "\<forall>(i, a) \<in> set (zip [0..<length q] q). i < length q \<and> a = q ! i"
    by (auto simp: set_zip)
  have "map snd (zip [0..<length q] q) = q" by simp
  then show ?thesis
    using merge_run_files [OF assms z _ _ r] queue_files_groups [of sftp q] queue_files_groups [of uploads q]
    by (auto simp: merge_activities_def r queue_files_def groups_files_def ac_simps)
qed

theorem merge_keeps_files_witness:
  "queue_files (merge_activities
      [\<lparr>act_user = Some 1, act_event = AE_SftpWrite, act_metadata = Some (JObject [(''files'', JArray [JString ''a''])]), act_ip = None, act_timestamp = 0\<rparr>,
       \<lparr>act_user = Some 1, act_event = AE_SftpWrite, act_metadata = Some (JObject [(''files'', JArray [JString ''b''])]), act_ip = None, act_timestamp = 5000000000\<rparr>])
   = {#JString ''a'', JString ''b''#}"
  using merge_keeps_files
    [of "[\<lparr>act_user = Some 1, act_event = AE_SftpWrite, act_metadata = Some (JObject [(''files'', JArray [JString ''a''])]), act_ip = None, act_timestamp = 0\<rparr>,
       \<lparr>act_user = Some 1, act_event = AE_SftpWrite, act_metadata = Some (JObject [(''files'', JArray [JString ''b''])]), act_ip = None, act_timestamp = 5000000000\<rparr>]"]
  by (simp add: close_in_time_def queue_files_def files_array_def files_of_def)

text \<open>
  Two uploads of one user and event more than a minute apart: the second group
  replaces the first in the map, so the first activity is never sent.
\<close>

theorem merge_loses_distant:
  assumes "is_sftp_event e" and "t1 + 61000000000 \<le> t2"
  shows "merge_activities
      [\<lparr>act_user = u, act_event = e, act_metadata = Some (JObject [(''files'', v)]), act_ip = ip, act_timestamp = t1\<rparr>,
       \<lparr>act_user = u, act_event = e, act_metadata = Some (JObject [(''files'', w)]), act_ip = ip, act_timestamp = t2\<rparr>]
   = [\<lparr>act_user = u, act_event = e, act_metadata = Some (JObject [(''files'', w)]), act_ip = ip, act_timestamp = t2\<rparr>]"
proof -
  have "\<not> (t2 - t1) div 1000000000 \<le> 60" using assms(2) by linarith
  moreover have "\<bar>t2 - t1\<bar> = t2 - t1" using assms(2) by simp
  ultimately show ?thesis
    using assms(1)
    by (simp add: merge_activities_def merge_step_def files_of_def group_add_def close_in_time_def
        merge_group_def numeral_2_eq_2)
qed

theorem merge_loses_distant_witness:
  "length (merge_activities
      [\<lparr>act_user = None, act_event = AE_SftpDelete, act_metadata = Some (JObject [(''files'', JArray [JString ''a''])]), act_ip = None, act_timestamp = 0\<rparr>,
       \<lparr>act_user = None, act_event = AE_SftpDelete, act_metadata = Some (JObject [(''files'', JArray [JString ''b''])]), act_ip = None, act_timestamp = 100000000000\<rparr>]) = 1"
  using merge_loses_distant [of AE_SftpDelete 0 100000000000 None "JArray [JString ''a'']" None "JArray [JString ''b'']"]
  by simp

text \<open>
  A round sends the first activities of the merged queue, at most the configured
  number, and takes them off the queue whether or not the panel accepted them.
\<close>

theorem flush_round_spec:
  assumes "q \<noteq> []" and "0 < n"
  shows "flush_round server n send q =
     (if take n (merge_activities q) = [] then None
      else Some (map (to_api server) (take n (merge_activities q))),
      drop n (merge_activities q))"
  using assms by (auto simp: flush_round_def Let_def min_def split: sum.splits)

theorem flush_round_spec_witness:
  "flush_round 7 5 (\<lambda>_. Inl ''down'')
      [\<lparr>act_user = None, act_event = AE_PowerStart, act_metadata = None, act_ip = None, act_timestamp = 0\<rparr>]
    = (Some [\<lparr>api_user = None, api_server = 7, api_event = AE_PowerStart, api_metadata = None,
         api_ip = None, api_timestamp = 0\<rparr>], [])"
  using flush_round_spec
    [of "[\<lparr>act_user = None, act_event = AE_PowerStart, act_metadata = None, act_ip = None, act_timestamp = 0\<rparr>]"
        5 7 "\<lambda>_. Inl ''down''"]
  by (simp add: merge_activities_def merge_step_def to_api_def)

end
