(* ===== verification/Websocket.thy ===== *)
theory Websocket
  imports Power_Safety Jwt Activity_Log
begin

text \<open>
  \<open>server/websocket/{jwt,message_handler,handler}.rs\<close>: one websocket connection of a
  server. The reading task authenticates (\<open>handle_jwt\<close>) and executes
  (\<open>handle_message\<close>) the frames of the client; the other tasks forward broadcasts
  and console output and watch the token's expiry.

  The connection's state is a record with the server, the token and what was sent
  to the client. \<open>ws_env\<close> holds what the code asks its libraries and the daemon for:
  the signature check of a token, the JSON parser, the order in which a set of
  permissions is iterated, and the answers of Docker in the power actions.
\<close>

record WebsocketJwtPayload =
  wp_base :: BasePayload
  wp_user_uuid :: uuid
  wp_server_uuid :: uuid
  wp_permissions :: permissions

record ws_env =
  we_client :: JwtClient
  we_verify :: "string \<Rightarrow> WebsocketJwtPayload option"
  we_parse :: "string \<Rightarrow> json option"
  we_order :: "permissions \<Rightarrow> Permission list"
  we_server_uuid :: uuid
  we_ip :: string
  we_world :: world
  we_disk_space :: u64
  we_update :: "unit result"
  we_between :: "server \<Rightarrow> server"
  we_waited :: "server \<Rightarrow> server"
  we_exited :: bool
  we_auto_kill :: "bool \<times> nat"
  we_usage_json :: "server \<Rightarrow> string"
  we_logs :: "string result"
  we_send_offline_logs :: bool
  we_stdin_open :: bool

record ws_state =
  ws_server :: server
  ws_jwt :: "WebsocketJwtPayload option"
  ws_sent :: "WebsocketMessage list"
  ws_activities :: "Activity list"

datatype ws_frame = WsText string | WsBinary string | WsPing | WsPong | WsClose

datatype jwt_error = CloseSocket | Misc string

definition send_message :: "WebsocketMessage \<Rightarrow> ws_state \<Rightarrow> ws_state" where
  "send_message m st = st\<lparr>ws_sent := ws_sent st @ [m]\<rparr>"

definition log_act :: "int \<Rightarrow> ws_env \<Rightarrow> WebsocketJwtPayload \<Rightarrow> ActivityEvent \<Rightarrow> json option \<Rightarrow> ws_state \<Rightarrow> ws_state" where
  "log_act clock e jwt ev md st =
     st\<lparr>ws_activities := log_activity
        \<lparr>act_user = Some (wp_user_uuid jwt), act_event = ev, act_metadata = md,
         act_ip = Some (we_ip e), act_timestamp = clock\<rparr> (ws_activities st)\<rparr>"

section \<open>Authentication\<close>

definition token_ok :: "int \<Rightarrow> ws_env \<Rightarrow> WebsocketJwtPayload \<Rightarrow> bool" where
  "token_ok clock e jwt \<longleftrightarrow>
     validate clock (we_client e) (wp_base jwt) \<and> has_permission (wp_permissions jwt) WebsocketConnect"

definition first_arg :: "WebsocketMessage \<Rightarrow> string" where
  "first_arg m = (case args m of [] \<Rightarrow> [] | a # _ \<Rightarrow> a)"

definition handle_jwt ::
  "int \<Rightarrow> ws_env \<Rightarrow> ws_frame \<Rightarrow> ws_state
     \<Rightarrow> (jwt_error + (WebsocketMessage \<times> WebsocketJwtPayload) option) \<times> ws_state" where
  "handle_jwt clock e message st =
     (case message of
        WsText text \<Rightarrow>
          (case Option.bind (we_parse e text) message_from_json of
             None \<Rightarrow> (Inl (Misc ''invalid json''), st)
           | Some m \<Rightarrow>
               if event m = Authentication then
                 (case we_verify e (first_arg m) of
                    None \<Rightarrow> (Inl CloseSocket, st)
                  | Some jwt \<Rightarrow>
                      if \<not> token_ok clock e jwt \<or> wp_server_uuid jwt \<noteq> we_server_uuid e then
                        (if has_permission (wp_permissions jwt) WebsocketConnect then
                           (Inl (Misc ''JWT expired''), send_message (new_message TokenExpired []) st)
                         else (Inl CloseSocket, st))
                      else
                        (let st1 = send_message (new_message AuthenticationSuccess
                                 (map permission_name (we_order e (wp_permissions jwt)))) st;
                             st2 = st1\<lparr>ws_jwt := Some jwt\<rparr>
                         in (Inr None,
                             if ws_jwt st1 = None then
                               send_message (new_message ServerStatus [to_str (get_state (ws_server st2))]) st2
                             else st2)))
               else
                 (case ws_jwt st of
                    None \<Rightarrow> (Inl CloseSocket, st)
                  | Some jwt \<Rightarrow>
                      if \<not> token_ok clock e jwt then (Inl CloseSocket, st)
                      else (Inr (Some (m, jwt)), st)))
      | _ \<Rightarrow> (Inl (Misc ''invalid message type''), st))"

text \<open>One round of \<open>listen_jwt\<close>, every thirty seconds.\<close>

definition listen_jwt :: "int \<Rightarrow> ws_state \<Rightarrow> ws_state" where
  "listen_jwt clock st =
     (case ws_jwt st of
        None \<Rightarrow> st
      | Some jwt \<Rightarrow>
          (case expiration_time (wp_base jwt) of
             None \<Rightarrow> st
           | Some ex \<Rightarrow>
               if ex < timestamp clock then
                 (send_message (new_message TokenExpired []) st)\<lparr>ws_jwt := None\<rparr>
               else if ex - 60 < timestamp clock then
                 send_message (new_message TokenExpiring []) st
               else st))"

section \<open>The messages of the client\<close>

definition daemon_error :: "ws_env \<Rightarrow> string \<Rightarrow> ws_state \<Rightarrow> ws_state" where
  "daemon_error e msg st = send_message (get_daemon_error (we_world e) msg) st"

definition power_result ::
  "int \<Rightarrow> ws_env \<Rightarrow> WebsocketJwtPayload \<Rightarrow> ActivityEvent \<Rightarrow> (ws_state \<Rightarrow> ws_state)
     \<Rightarrow> unit result \<times> server \<Rightarrow> ws_state \<Rightarrow> ws_state" where
  "power_result clock e jwt ev unexpected rs st =
     (let st = st\<lparr>ws_server := snd rs\<rparr> in
      case fst rs of
        Inl err \<Rightarrow> if err \<in> set literal_errors then daemon_error e err st else unexpected st
      | Inr _ \<Rightarrow> log_act clock e jwt ev None st)"

definition do_start :: "int \<Rightarrow> ws_env \<Rightarrow> WebsocketJwtPayload \<Rightarrow> ws_state \<Rightarrow> ws_state" where
  "do_start clock e jwt st =
     (if \<not> has_permission (wp_permissions jwt) ControlStart then st
      else if get_state (ws_server st) \<noteq> Offline then
        daemon_error e ''Server is already running or starting.'' st
      else power_result clock e jwt AE_PowerStart
        (\<lambda>st. st\<lparr>ws_server := log_daemon_error (we_world e)
           ''An unexpected error occurred while starting the server. Please contact an Administrator.''
           (ws_server st)\<rparr>)
        (start (we_world e) (we_disk_space e) (we_update e) None False (ws_server st)) st)"

definition do_restart :: "int \<Rightarrow> ws_env \<Rightarrow> WebsocketJwtPayload \<Rightarrow> ws_state \<Rightarrow> ws_state" where
  "do_restart clock e jwt st =
     (if \<not> has_permission (wp_permissions jwt) ControlRestart then st
      else if restarting (ws_server st) then daemon_error e ''Server is already restarting.'' st
      else power_result clock e jwt AE_PowerRestart
        (daemon_error e ''An unexpected error occurred while restarting the server. Please contact an Administrator.'')
        (if fst (we_auto_kill e) \<and> 0 < snd (we_auto_kill e) then
           restart_with_kill_timeout (we_world e) (we_disk_space e) (we_update e) (we_waited e)
             (we_exited e) None (snd (we_auto_kill e)) (ws_server st)
         else restart (we_world e) (we_disk_space e) (we_update e) (we_between e) None (ws_server st)) st)"

definition do_stop :: "int \<Rightarrow> ws_env \<Rightarrow> WebsocketJwtPayload \<Rightarrow> ws_state \<Rightarrow> ws_state" where
  "do_stop clock e jwt st =
     (if \<not> has_permission (wp_permissions jwt) ControlStop then st
      else if get_state (ws_server st) \<in> {Offline, Stopping} then
        daemon_error e ''Server is already offline or stopping.'' st
      else power_result clock e jwt AE_PowerStop
        (daemon_error e ''An unexpected error occurred while stopping the server. Please contact an Administrator.'')
        (if fst (we_auto_kill e) \<and> 0 < snd (we_auto_kill e) then
           stop_with_kill_timeout (we_world e) (we_waited e) (we_exited e) (snd (we_auto_kill e)) False (ws_server st)
         else stop (we_world e) None False (ws_server st)) st)"

definition do_kill :: "int \<Rightarrow> ws_env \<Rightarrow> WebsocketJwtPayload \<Rightarrow> ws_state \<Rightarrow> ws_state" where
  "do_kill clock e jwt st =
     (if \<not> has_permission (wp_permissions jwt) ControlStop then st
      else if get_state (ws_server st) = Offline then daemon_error e ''Server is already offline.'' st
      else case kill (we_world e) False (ws_server st) of
             (Inl err, s) \<Rightarrow>
               daemon_error e ''An unexpected error occurred while killing the server. Please contact an Administrator.''
                 (st\<lparr>ws_server := s\<rparr>)
           | (Inr _, s) \<Rightarrow> log_act clock e jwt AE_PowerKill None (st\<lparr>ws_server := s\<rparr>))"

definition do_command :: "int \<Rightarrow> ws_env \<Rightarrow> WebsocketJwtPayload \<Rightarrow> string \<Rightarrow> ws_state \<Rightarrow> ws_state" where
  "do_command clock e jwt raw_command st =
     (if \<not> has_permission (wp_permissions jwt) ControlConsole then st
      else case container (ws_server st) of
             None \<Rightarrow> st
           | Some c \<Rightarrow>
               if \<not> we_stdin_open e then st
               else log_act clock e jwt AE_ConsoleCommand
                 (Some (JObject [(''command'', JString raw_command)]))
                 (st\<lparr>ws_server := emit [Stdin c (raw_command @ newline)] (ws_server st)\<rparr>))"

definition handle_message ::
  "int \<Rightarrow> ws_env \<Rightarrow> WebsocketJwtPayload \<Rightarrow> WebsocketMessage \<Rightarrow> ws_state \<Rightarrow> unit result \<times> ws_state" where
  "handle_message clock e jwt m st =
     (case event m of
        SendStats \<Rightarrow>
          (Inr (), send_message (new_message ServerStats [we_usage_json e (ws_server st)]) st)
      | SendServerLogs \<Rightarrow>
          if get_state (ws_server st) \<noteq> Offline \<or> we_send_offline_logs e then
            (case we_logs e of
               Inl err \<Rightarrow> (Inl ''failed to read server logs'', st)
             | Inr logs \<Rightarrow>
                 (Inr (), fold (\<lambda>line. send_message (new_message ServerConsoleOutput [trim line]))
                            (str_lines logs) st))
          else (Inr (), st)
      | SetState \<Rightarrow>
          (case power_action_from_str (first_arg m) of
             Inl err \<Rightarrow> (Inl err, st)
           | Inr Start \<Rightarrow> (Inr (), do_start clock e jwt st)
           | Inr Restart \<Rightarrow> (Inr (), do_restart clock e jwt st)
           | Inr Stop \<Rightarrow> (Inr (), do_stop clock e jwt st)
           | Inr Kill \<Rightarrow> (Inr (), do_kill clock e jwt st))
      | SendCommand \<Rightarrow> (Inr (), do_command clock e jwt (first_arg m) st)
      | _ \<Rightarrow> (Inr (), st))"

section \<open>The tasks of the connection\<close>

text \<open>
  The reading task over the frames it receives, each with the time it is handled;
  \<open>None\<close> is a receive error. The result tells whether the task has ended.
\<close>

fun read_loop :: "ws_env \<Rightarrow> (int \<times> ws_frame option) list \<Rightarrow> ws_state \<Rightarrow> bool \<times> ws_state" where
  "read_loop e [] st = (False, st)"
| "read_loop e ((clock, None) # fs) st = (True, st)"
| "read_loop e ((clock, Some f) # fs) st =
     (if f = WsClose then (True, st)
      else if f = WsPing \<or> f = WsPong then read_loop e fs st
      else case handle_jwt clock e f st of
             (Inr (Some (m, jwt)), st) \<Rightarrow> read_loop e fs (snd (handle_message clock e jwt m st))
           | (Inr None, st) \<Rightarrow> read_loop e fs st
           | (Inl CloseSocket, st) \<Rightarrow> (True, st)
           | (Inl (Misc err), st) \<Rightarrow> read_loop e fs (send_message (new_message JwtError [err]) st))"

text \<open>The server listener: whether a broadcast is forwarded to a client with these permissions.\<close>

definition broadcast_permission :: "WebsocketEvent \<Rightarrow> Permission option" where
  "broadcast_permission ev =
     (case ev of
        ServerInstallOutput \<Rightarrow> Some AdminWebsocketInstall
      | ServerOperationProgress \<Rightarrow> Some FileRead
      | ServerOperationCompleted \<Rightarrow> Some FileRead
      | ServerBackupProgress \<Rightarrow> Some BackupRead
      | ServerBackupCompleted \<Rightarrow> Some BackupRead
      | ServerScheduleStatus \<Rightarrow> Some ScheduleRead
      | ServerScheduleStepError \<Rightarrow> Some ScheduleRead
      | ServerTransferLogs \<Rightarrow> Some AdminWebsocketTransfer
      | _ \<Rightarrow> None)"

definition forward_broadcast :: "WebsocketMessage \<Rightarrow> ws_state \<Rightarrow> ws_state" where
  "forward_broadcast m st =
     (case ws_jwt st of
        None \<Rightarrow> st
      | Some jwt \<Rightarrow>
          (case broadcast_permission (event m) of
             Some p \<Rightarrow> if has_permission (wp_permissions jwt) p then send_message m st else st
           | None \<Rightarrow> send_message m st))"

definition forward_stdout :: "int \<Rightarrow> ws_env \<Rightarrow> string \<Rightarrow> ws_state \<Rightarrow> ws_state" where
  "forward_stdout clock e line st =
     (case ws_jwt st of
        Some jwt \<Rightarrow>
          if validate clock (we_client e) (wp_base jwt) then
            send_message (new_message ServerConsoleOutput [line]) st
          else st
      | None \<Rightarrow> st)"

section \<open>Lemmas\<close>

lemma send_message_simps [simp]:
  "ws_server (send_message m st) = ws_server st" "ws_jwt (send_message m st) = ws_jwt st"
  "ws_activities (send_message m st) = ws_activities st"
  by (simp_all add: send_message_def)

lemma daemon_error_simps [simp]:
  "ws_server (daemon_error e m st) = ws_server st" "ws_jwt (daemon_error e m st) = ws_jwt st"
  "ws_activities (daemon_error e m st) = ws_activities st"
  by (simp_all add: daemon_error_def)

lemma handle_jwt_unchanged:
  "ws_server (snd (handle_jwt clock e f st)) = ws_server st"
  "ws_activities (snd (handle_jwt clock e f st)) = ws_activities st"
  by (auto simp: handle_jwt_def Let_def split: ws_frame.splits option.splits)

lemma handle_jwt_passes:
  "handle_jwt clock e f st = (Inr (Some (m, jwt)), st') \<Longrightarrow>
     st' = st \<and> ws_jwt st = Some jwt \<and> token_ok clock e jwt"
  by (auto simp: handle_jwt_def Let_def split: ws_frame.splits option.splits if_splits)

text \<open>The token of the connection, when there is one, was verified, for this server.\<close>

definition authentic :: "ws_env \<Rightarrow> ws_state \<Rightarrow> bool" where
  "authentic e st \<longleftrightarrow>
     (\<forall>jwt. ws_jwt st = Some jwt \<longrightarrow>
        (\<exists>tok. we_verify e tok = Some jwt) \<and> wp_server_uuid jwt = we_server_uuid e \<and>
        has_permission (wp_permissions jwt) WebsocketConnect)"

lemma authentic_handle_jwt: "authentic e st \<Longrightarrow> authentic e (snd (handle_jwt clock e f st))"
  by (auto simp: handle_jwt_def authentic_def token_ok_def Let_def
      split: ws_frame.splits option.splits if_splits)

lemma jwt_power_result:
  "(\<And>s. ws_jwt (u s) = ws_jwt s) \<Longrightarrow> ws_jwt (power_result c e j ev u rs st) = ws_jwt st"
  by (simp add: power_result_def log_act_def Let_def split: sum.splits)

lemma jwt_handle_message [simp]: "ws_jwt (snd (handle_message c e j m st)) = ws_jwt st"
proof -
  have f: "ws_jwt (fold (\<lambda>l. send_message (g l)) ls st) = ws_jwt st" for g :: "string \<Rightarrow> _" and ls
    by (induction ls arbitrary: st) simp_all
  have 1: "ws_jwt (do_start c e j st) = ws_jwt st"
    by (simp add: do_start_def jwt_power_result)
  have 2: "ws_jwt (do_restart c e j st) = ws_jwt st"
    by (simp add: do_restart_def jwt_power_result)
  have 3: "ws_jwt (do_stop c e j st) = ws_jwt st"
    by (simp add: do_stop_def jwt_power_result)
  have 4: "ws_jwt (do_kill c e j st) = ws_jwt st"
    by (simp add: do_kill_def log_act_def split: prod.split sum.split)
  have 5: "ws_jwt (do_command c e j a st) = ws_jwt st" for a
    by (simp add: do_command_def log_act_def split: option.split)
  note p = 1 2 3 4 5
  show ?thesis
    by (cases "event m") (simp_all add: handle_message_def f p split: sum.split ServerPowerAction.split)
qed

text \<open>What a message may do: nothing to the server unless the permission is held.\<close>

definition control_permission :: "WebsocketMessage \<Rightarrow> Permission option" where
  "control_permission m =
     (case event m of
        SetState \<Rightarrow>
          (case power_action_from_str (first_arg m) of
             Inr Start \<Rightarrow> Some ControlStart
           | Inr Restart \<Rightarrow> Some ControlRestart
           | Inr Stop \<Rightarrow> Some ControlStop
           | Inr Kill \<Rightarrow> Some ControlStop
           | Inl _ \<Rightarrow> None)
      | SendCommand \<Rightarrow> Some ControlConsole
      | _ \<Rightarrow> None)"

lemma handle_message_denied:
  assumes "control_permission m = None \<or> \<not> has_permission (wp_permissions jwt) (the (control_permission m))"
  shows "ws_server (snd (handle_message c e jwt m st)) = ws_server st \<and>
     ws_activities (snd (handle_message c e jwt m st)) = ws_activities st"
proof -
  have f: "ws_server (fold (\<lambda>l. send_message (g l)) ls st) = ws_server st"
    "ws_activities (fold (\<lambda>l. send_message (g l)) ls st) = ws_activities st"
    for g :: "string \<Rightarrow> _" and ls
    by (induction ls arbitrary: st) simp_all
  have denied: "\<not> has_permission (wp_permissions jwt) ControlStart \<Longrightarrow> do_start c e jwt st = st"
    "\<not> has_permission (wp_permissions jwt) ControlRestart \<Longrightarrow> do_restart c e jwt st = st"
    "\<not> has_permission (wp_permissions jwt) ControlStop \<Longrightarrow> do_stop c e jwt st = st"
    "\<not> has_permission (wp_permissions jwt) ControlStop \<Longrightarrow> do_kill c e jwt st = st"
    "\<not> has_permission (wp_permissions jwt) ControlConsole \<Longrightarrow> do_command c e jwt a st = st" for a
    by (simp_all add: do_start_def do_restart_def do_stop_def do_kill_def do_command_def)
  show ?thesis
  proof (cases "event m")
    case SetState
    show ?thesis
    proof (cases "power_action_from_str (first_arg m)")
      case (Inr a)
      then show ?thesis
        using assms SetState denied
        by (cases a) (simp_all add: handle_message_def control_permission_def)
    qed (use SetState in \<open>simp add: handle_message_def\<close>)
  next
    case SendCommand
    then show ?thesis
      using assms denied by (simp add: handle_message_def control_permission_def)
  qed (simp_all add: handle_message_def f split: sum.split)
qed

section \<open>Properties\<close>

text \<open>
  C18: Authorisation. A message changes the server or is logged as an activity only if
  it asks for a power action or a command whose permission the token holds; any
  other message leaves both alone.
\<close>

theorem message_needs_permission:
  assumes "ws_server (snd (handle_message c e jwt m st)) \<noteq> ws_server st \<or>
     ws_activities (snd (handle_message c e jwt m st)) \<noteq> ws_activities st"
  shows "\<exists>p. control_permission m = Some p \<and> has_permission (wp_permissions jwt) p"
  using assms handle_message_denied [of m jwt c e st] by (cases "control_permission m") auto

theorem message_needs_permission_witness:
  "\<exists>e m. ws_activities (snd (handle_message 0 e
        \<lparr>wp_base = \<lparr>issuer = [], subject = None, audience = [], expiration_time = None, not_before = None,
           issued_at = None, jwt_id = []\<rparr>, wp_user_uuid = 1, wp_server_uuid = 2,
         wp_permissions = {ControlConsole}\<rparr> m
        \<lparr>ws_server = new_server\<lparr>container := Some ''c''\<rparr>, ws_jwt = None, ws_sent = [], ws_activities = []\<rparr>)) \<noteq> []
    \<and> (\<exists>p. control_permission m = Some p \<and> has_permission {ControlConsole} p)"
proof -
  let ?j = "\<lparr>wp_base = \<lparr>issuer = [], subject = None, audience = [], expiration_time = None, not_before = None,
           issued_at = None, jwt_id = []\<rparr>, wp_user_uuid = 1, wp_server_uuid = 2,
         wp_permissions = {ControlConsole}\<rparr>"
  let ?st = "\<lparr>ws_server = new_server\<lparr>container := Some ''c''\<rparr>, ws_jwt = None, ws_sent = [], ws_activities = []\<rparr>"
  let ?m = "new_message SendCommand [''say hi'']"
  obtain e :: ws_env where e: "we_stdin_open e"
    by (metis ws_env.select_convs(17))
  have a: "ws_activities (snd (handle_message 0 e ?j ?m ?st)) \<noteq> []"
    using e by (simp add: handle_message_def do_command_def new_message_def log_act_def
        log_activity_def has_permission_iff)
  then show ?thesis using message_needs_permission [of 0 e ?j ?m ?st] by auto
qed



text \<open>
  Broadcasts go only to clients that have authenticated and hold the permission
  of a restricted event; but the listener never validates the token again, so a
  client whose token was denied or has expired keeps receiving broadcasts while
  the console lines are withheld from it.
\<close>

theorem broadcast_forwarding:
  "(ws_sent (forward_broadcast m st) =
     ws_sent st @ (if ws_jwt st \<noteq> None \<and>
         (broadcast_permission (event m) = None \<or>
          has_permission (wp_permissions (the (ws_jwt st))) (the (broadcast_permission (event m))))
       then [m] else [])) \<and>
   (ws_jwt st = Some jwt \<and> \<not> validate clock (we_client e) (wp_base jwt) \<longrightarrow>
      ws_sent (forward_stdout clock e line st) = ws_sent st \<and>
      ws_sent (forward_broadcast (new_message ServerDaemonMessage [line]) st)
        = ws_sent st @ [new_message ServerDaemonMessage [line]])"
  by (auto simp: forward_broadcast_def forward_stdout_def send_message_def broadcast_permission_def
      new_message_def split: option.splits)

theorem broadcast_forwarding_witness:
  "ws_sent (forward_broadcast (new_message ServerInstallOutput [''x''])
      \<lparr>ws_server = new_server, ws_jwt = None, ws_sent = [], ws_activities = []\<rparr>) = []"
  using broadcast_forwarding
    [of "new_message ServerInstallOutput [''x'']"
        "\<lparr>ws_server = new_server, ws_jwt = None, ws_sent = [], ws_activities = []\<rparr>"]
  by simp

end
