(* ===== verification/Schedule_Actions.thy ===== *)
theory Schedule_Actions
  imports Power_Actions Activity_Log Filesystem_Quota
begin

text \<open>
  \<open>server/schedule/actions.rs\<close>: the actions a schedule runs, one definition per
  variant, on the server, its file accounting and its activity queue.

  The environment \<open>sched_env\<close> holds what the outside answers: the power actions'
  world, the operating system (whose answers may depend on the calls made so
  far), the \<open>ignore\<close> crate's matcher, the panel, and the threads the actions
  spawn (\<open>None\<close> when a thread panics). A spawned thread is recorded as a \<open>job\<close>.
  Activities carry the time \<open>se_clock\<close>.
\<close>

section \<open>Actions\<close>

record RenameFile =
  rf_from :: string
  rf_to :: string

datatype ArchiveFormat = Tar | TarGz | TarXz | TarBz2 | TarLz4 | TarZstd | Zip | SevenZip

datatype ScheduleAction =
    SA_Sleep u64
  | SA_SendPower bool ServerPowerAction
  | SA_SendCommand bool string
  | SA_CreateBackup bool bool "string option" "string list"
  | SA_CreateDirectory bool string string
  | SA_WriteFile bool bool string string
  | SA_CopyFile bool bool string string
  | SA_DeleteFiles string "string list"
  | SA_RenameFiles string "RenameFile list"
  | SA_CompressFiles bool bool string "string list" ArchiveFormat string
  | SA_DecompressFile bool bool string string
  | SA_UpdateStartupVariable bool string string
  | SA_UpdateStartupCommand bool string
  | SA_UpdateStartupDockerImage bool string

fun ignore_failure :: "ScheduleAction \<Rightarrow> bool" where
  "ignore_failure (SA_Sleep _) = False"
| "ignore_failure (SA_SendPower ign _) = ign"
| "ignore_failure (SA_SendCommand ign _) = ign"
| "ignore_failure (SA_CreateBackup ign _ _ _) = ign"
| "ignore_failure (SA_CreateDirectory ign _ _) = ign"
| "ignore_failure (SA_WriteFile ign _ _ _) = ign"
| "ignore_failure (SA_CopyFile ign _ _ _) = ign"
| "ignore_failure (SA_DeleteFiles _ _) = False"
| "ignore_failure (SA_RenameFiles _ _) = False"
| "ignore_failure (SA_CompressFiles ign _ _ _ _ _) = ign"
| "ignore_failure (SA_DecompressFile ign _ _ _) = ign"
| "ignore_failure (SA_UpdateStartupVariable ign _ _) = ign"
| "ignore_failure (SA_UpdateStartupCommand ign _) = ign"
| "ignore_failure (SA_UpdateStartupDockerImage ign _) = ign"

section \<open>The environment and the state\<close>

datatype job =
    JobBackup string uuid string
  | JobCopy path path
  | JobCompress path "string list" ArchiveFormat path
  | JobDecompress path path

datatype panel_request =
    SetStartupVariable string string
  | SetStartupCommand string
  | SetStartupDockerImage string
  | RequestBackup "string option" "string list"

record 'gi sched_env =
  se_world :: world
  se_disk_space :: u64
  se_update :: "unit result"
  se_between :: "server \<Rightarrow> server"
  se_waited :: "server \<Rightarrow> server"
  se_exited :: bool
  se_auto_kill :: "bool \<times> nat"
  se_stdin_open :: bool
  se_clock :: int
  se_os :: "fs_call list \<Rightarrow> os"
  se_is_file :: "fs_call list \<Rightarrow> path \<Rightarrow> bool"
  se_ignores :: "'gi \<Rightarrow> path \<Rightarrow> bool \<Rightarrow> bool"
  se_open :: "path \<Rightarrow> unit result"
  se_write :: "path \<Rightarrow> string \<Rightarrow> unit result"
  se_flush :: "path \<Rightarrow> unit result"
  se_sync :: "path \<Rightarrow> unit result"
  se_chown :: "path \<Rightarrow> unit result"
  se_chown_walk :: "path list result"
  se_backup :: "string option \<Rightarrow> string list \<Rightarrow> (string \<times> uuid) result"
  se_backup_exists :: "uuid \<Rightarrow> bool"
  se_startup :: "panel_request \<Rightarrow> unit result"
  se_archive :: "path \<Rightarrow> bool"
  se_thread :: "job \<Rightarrow> unit result option"

record 'gi sched_state =
  ss_server :: server
  ss_fs :: "'gi Filesystem"
  ss_activities :: "Activity list"
  ss_requests :: "panel_request list"
  ss_spawned :: "job list"

definition sched_log :: "'gi sched_env \<Rightarrow> ActivityEvent \<Rightarrow> json option \<Rightarrow> 'gi sched_state \<Rightarrow> 'gi sched_state" where
  "sched_log e ev md st =
     st\<lparr>ss_activities := log_activity
        \<lparr>act_user = None, act_event = ev, act_metadata = md, act_ip = None,
         act_timestamp = se_clock e\<rparr> (ss_activities st)\<rparr>"

definition spawn_job :: "job \<Rightarrow> 'gi sched_state \<Rightarrow> 'gi sched_state" where
  "spawn_job j st = st\<lparr>ss_spawned := ss_spawned st @ [j]\<rparr>"

definition request :: "panel_request \<Rightarrow> 'gi sched_state \<Rightarrow> 'gi sched_state" where
  "request r st = st\<lparr>ss_requests := ss_requests st @ [r]\<rparr>"

text \<open>\<open>if *foreground && let Ok(Err(err)) = thread.await\<close>: a panicked thread counts as done.\<close>

definition join_job :: "'gi sched_env \<Rightarrow> bool \<Rightarrow> job \<Rightarrow> string \<Rightarrow> unit result" where
  "join_job e foreground j msg =
     (if foreground then (case se_thread e j of Some (Inl err) \<Rightarrow> Inl msg | _ \<Rightarrow> Inr ()) else Inr ())"

section \<open>File access\<close>

text \<open>The wrappers of \<open>CapFilesystem\<close>: every path is made relative to the base first.\<close>

definition os_now :: "'gi sched_env \<Rightarrow> 'gi Filesystem \<Rightarrow> os" where
  "os_now e fs = se_os e (fs_calls fs)"

definition metadata :: "'gi sched_env \<Rightarrow> 'gi Filesystem \<Rightarrow> path \<Rightarrow> (bool \<times> u64) result" where
  "metadata e fs p = os_metadata (os_now e fs) (fs_relative_path fs p)"

definition symlink_metadata :: "'gi sched_env \<Rightarrow> 'gi Filesystem \<Rightarrow> path \<Rightarrow> (bool \<times> u64) result" where
  "symlink_metadata e fs p = os_symlink_metadata (os_now e fs) (fs_relative_path fs p)"

definition is_file :: "'gi sched_env \<Rightarrow> 'gi Filesystem \<Rightarrow> path \<Rightarrow> bool" where
  "is_file e fs p = se_is_file e (fs_calls fs) (fs_relative_path fs p)"

definition canonicalize :: "'gi sched_env \<Rightarrow> 'gi Filesystem \<Rightarrow> path \<Rightarrow> path result" where
  "canonicalize e fs p =
     (let q = fs_relative_path fs p in
      if q = [] then Inr [] else os_canonicalize (os_now e fs) q)"

definition create_dir_all :: "'gi sched_env \<Rightarrow> path \<Rightarrow> 'gi Filesystem \<Rightarrow> unit result \<times> 'gi Filesystem" where
  "create_dir_all e p fs =
     (let q = fs_relative_path fs p in
      (os_create_dir_all (os_now e fs) q, call (CreateDirAll q) fs))"

definition ignored :: "'gi sched_env \<Rightarrow> 'gi Filesystem \<Rightarrow> path \<Rightarrow> bool \<Rightarrow> bool" where
  "ignored e fs p is_dir = is_ignored (se_ignores e) p is_dir fs"

definition dir_or :: "bool \<Rightarrow> (bool \<times> u64) result \<Rightarrow> bool" where
  "dir_or d m = (case m of Inl _ \<Rightarrow> d | Inr (is_dir, _) \<Rightarrow> is_dir)"

definition chown :: "'gi sched_env \<Rightarrow> path \<Rightarrow> 'gi Filesystem \<Rightarrow> unit result \<times> 'gi Filesystem" where
  "chown e p fs =
     chown_path (\<lambda>q. map_sum id fst (metadata e fs q)) (se_chown e) (se_chown_walk e) p fs"

definition with_fs :: "('gi Filesystem \<Rightarrow> unit result \<times> 'gi Filesystem) \<Rightarrow> 'gi sched_state \<Rightarrow> unit result \<times> 'gi sched_state" where
  "with_fs f st = (case f (ss_fs st) of (r, fs) \<Rightarrow> (r, st\<lparr>ss_fs := fs\<rparr>))"

text \<open>\<open>if let Err(err) = ... { return Err(msg) }\<close>, and what follows.\<close>

definition or_fail ::
  "string \<Rightarrow> ('gi sched_state \<Rightarrow> unit result \<times> 'gi sched_state) \<Rightarrow> unit result \<times> 'gi sched_state
     \<Rightarrow> unit result \<times> 'gi sched_state" where
  "or_fail msg f rs = (case rs of (Inl _, st) \<Rightarrow> (Inl msg, st) | (Inr _, st) \<Rightarrow> f st)"

section \<open>Power and console\<close>

text \<open>Literal errors are passed on in lower case, every other one is replaced.\<close>

definition sched_power ::
  "'gi sched_env \<Rightarrow> ActivityEvent \<Rightarrow> string \<Rightarrow> unit result \<times> server \<Rightarrow> 'gi sched_state
     \<Rightarrow> unit result \<times> 'gi sched_state" where
  "sched_power e ev unexpected rs st =
     (let st = st\<lparr>ss_server := snd rs\<rparr> in
      case fst rs of
        Inl err \<Rightarrow> (Inl (if err \<in> set literal_errors then str_lower err else unexpected), st)
      | Inr _ \<Rightarrow> (Inr (), sched_log e ev None st))"

definition send_power :: "'gi sched_env \<Rightarrow> ServerPowerAction \<Rightarrow> 'gi sched_state \<Rightarrow> unit result \<times> 'gi sched_state" where
  "send_power e act st =
     (let s = ss_server st; w = se_world e; ak = se_auto_kill e in
      case act of
        Start \<Rightarrow>
          if get_state s \<noteq> Offline then (Inl ''server is already running or starting.'', st)
          else sched_power e AE_PowerStart ''an unexpected error occurred while starting the server.''
            (start w (se_disk_space e) (se_update e) None False s) st
      | Restart \<Rightarrow>
          if restarting s then (Inl ''server is already restarting.'', st)
          else sched_power e AE_PowerRestart ''an unexpected error occurred while restarting the server.''
            (if fst ak \<and> 0 < snd ak then
               restart_with_kill_timeout w (se_disk_space e) (se_update e) (se_waited e) (se_exited e) None (snd ak) s
             else restart w (se_disk_space e) (se_update e) (se_between e) None s) st
      | Stop \<Rightarrow>
          if get_state s \<in> {Offline, Stopping} then (Inl ''server is already offline or stopping.'', st)
          else sched_power e AE_PowerStop ''an unexpected error occurred while stopping the server.''
            (if fst ak \<and> 0 < snd ak then
               stop_with_kill_timeout w (se_waited e) (se_exited e) (snd ak) False s
             else stop w None False s) st
      | Kill \<Rightarrow>
          if get_state s = Offline then (Inl ''server is already offline.'', st)
          else (case kill w False s of
                  (Inl err, s) \<Rightarrow> (Inl ''an unexpected error occurred while killing the server.'', st\<lparr>ss_server := s\<rparr>)
                | (Inr _, s) \<Rightarrow> (Inr (), sched_log e AE_PowerKill None (st\<lparr>ss_server := s\<rparr>))))"

definition send_command :: "'gi sched_env \<Rightarrow> string \<Rightarrow> 'gi sched_state \<Rightarrow> unit result \<times> 'gi sched_state" where
  "send_command e command st =
     (if get_state (ss_server st) = Offline then (Inl ''server is not running.'', st)
      else case container (ss_server st) of
             None \<Rightarrow> (Inl ''failed to get stdin (is server offline?)'', st)
           | Some c \<Rightarrow>
               (Inr (),
                if se_stdin_open e then
                  sched_log e AE_ConsoleCommand (Some (JObject [(''command'', JString command)]))
                    (st\<lparr>ss_server := emit [Stdin c (command @ newline)] (ss_server st)\<rparr>)
                else st))"

section \<open>Backups\<close>

definition create_backup ::
  "'gi sched_env \<Rightarrow> bool \<Rightarrow> string option \<Rightarrow> string list \<Rightarrow> 'gi sched_state \<Rightarrow> unit result \<times> 'gi sched_state" where
  "create_backup e foreground name ignored_files st =
     (let st = request (RequestBackup name ignored_files) st in
      case se_backup e name ignored_files of
        Inl err \<Rightarrow> (Inl ''failed to create backup'', st)
      | Inr (adapter, u) \<Rightarrow>
          if se_backup_exists e u then (Inl ''backup already exists'', st)
          else let j = JobBackup adapter u (str_join newline ignored_files)
               in (join_job e foreground j ''failed to create backup'', spawn_job j st))"

section \<open>Files\<close>

definition create_directory ::
  "'gi sched_env \<Rightarrow> string \<Rightarrow> string \<Rightarrow> 'gi sched_state \<Rightarrow> unit result \<times> 'gi sched_state" where
  "create_directory e rdir name st =
     (let fs = ss_fs st;
          path = case_sum (\<lambda>_. components rdir) id (canonicalize e fs (components rdir));
          destination = path_join path (components name)
      in if \<not> dir_or True (metadata e fs (components rdir)) then (Inl ''root is not a directory'', st)
         else if ignored e fs path True then (Inl ''root not found'', st)
         else if ignored e fs destination True then (Inl ''destination not found'', st)
         else or_fail ''failed to create directory''
           (\<lambda>st. or_fail ''failed to change ownership'' (\<lambda>st. (Inr (), st))
              (with_fs (chown e destination)
                 (sched_log e AE_FileCreateDirectory
                    (Some (JObject [(''directory'', JString rdir), (''name'', JString name)])) st)))
           (with_fs (create_dir_all e destination) st))"

text \<open>Opening, writing, flushing and syncing the file of \<open>WriteFile\<close>.\<close>

definition store_file ::
  "'gi sched_env \<Rightarrow> path \<Rightarrow> bool \<Rightarrow> string \<Rightarrow> 'gi Filesystem \<Rightarrow> unit result \<times> 'gi Filesystem" where
  "store_file e path appending content fs =
     (let q = fs_relative_path fs path; fs = call (OpenFile q appending) fs in
      case se_open e q of
        Inl _ \<Rightarrow> (Inl ''failed to open file'', fs)
      | Inr _ \<Rightarrow>
          let fs = call (WriteAll q content) fs in
          if isl (se_write e q content) then (Inl ''failed to write file'', fs)
          else if isl (se_flush e q) then (Inl ''failed to flush file'', fs)
          else if isl (se_sync e q) then (Inl ''failed to sync file'', fs)
          else (Inr (), fs))"

text \<open>The part of \<open>WriteFile\<close> after the space is allocated.\<close>

definition write_rest ::
  "'gi sched_env \<Rightarrow> bool \<Rightarrow> string \<Rightarrow> string \<Rightarrow> path \<Rightarrow> 'gi sched_state \<Rightarrow> unit result \<times> 'gi sched_state" where
  "write_rest e appending file_path content path st =
     (case with_fs (store_file e path appending content) st of
        (Inl err, st) \<Rightarrow> (Inl err, st)
      | (Inr _, st) \<Rightarrow>
          or_fail ''failed to change ownership'' (\<lambda>st. (Inr (), st))
            (with_fs (chown e path)
               (sched_log e AE_FileWrite (Some (JObject [(''file'', JString file_path)])) st)))"

text \<open>The path it writes, the bytes it adds, and the action.\<close>

definition write_path :: "'gi sched_env \<Rightarrow> string \<Rightarrow> 'gi Filesystem \<Rightarrow> path" where
  "write_path e file_path fs =
     (case canonicalize e fs (components file_path) of
        Inr path \<Rightarrow> path
      | Inl _ \<Rightarrow> components file_path)"

definition write_delta :: "bool \<Rightarrow> string \<Rightarrow> (bool \<times> u64) result \<Rightarrow> i64" where
  "write_delta appending content md =
     (let old_content_size = (case md of Inr (_, len) \<Rightarrow> len | Inl _ \<Rightarrow> 0)
      in if appending then of_nat (length content) else of_nat (length content) - old_content_size)"

definition write_file ::
  "'gi sched_env \<Rightarrow> bool \<Rightarrow> string \<Rightarrow> string \<Rightarrow> 'gi sched_state \<Rightarrow> unit result \<times> 'gi sched_state" where
  "write_file e appending file_path content st =
     (let fs = ss_fs st;
          path = write_path e file_path fs;
          md = metadata e fs path
      in if ignored e fs path (dir_or False md) then (Inl ''file not found'', st)
         else if \<not> isl md \<and> \<not> is_file e fs path then (Inl ''file is not a file'', st)
         else case parent path of
           None \<Rightarrow> (Inl ''file has no parent'', st)
         | Some par \<Rightarrow>
             if ignored e fs par True then (Inl ''parent directory not found'', st)
             else or_fail ''failed to create parent directory''
               (\<lambda>st.
                  case async_allocate_in_path par (write_delta appending content md) False (ss_fs st) of
                    (ok, fs) \<Rightarrow>
                      if \<not> ok then (Inl ''failed to allocate space'', st\<lparr>ss_fs := fs\<rparr>)
                      else write_rest e appending file_path content path (st\<lparr>ss_fs := fs\<rparr>))
               (with_fs (create_dir_all e par) st))"

definition copy_file ::
  "'gi sched_env \<Rightarrow> bool \<Rightarrow> string \<Rightarrow> string \<Rightarrow> 'gi sched_state \<Rightarrow> unit result \<times> 'gi sched_state" where
  "copy_file e foreground file destination st =
     (let fs = ss_fs st in
      case canonicalize e fs (components file) of
        Inl _ \<Rightarrow> (Inl ''file not found'', st)
      | Inr location \<Rightarrow>
      (case metadata e fs location of
         Inl _ \<Rightarrow> (Inl ''file not found'', st)
       | Inr (is_dir, len) \<Rightarrow>
      (if \<not> is_file e fs location \<or> ignored e fs location is_dir then (Inl ''file not found'', st)
       else case parent location of
              None \<Rightarrow> (Inl ''file has no parent'', st)
            | Some par \<Rightarrow>
                if ignored e fs par True then (Inl ''parent directory not found'', st)
                else let file_name = path_join par (components destination);
                         (ok, fs) = async_allocate_in_path par len False fs;
                         st = st\<lparr>ss_fs := fs\<rparr>
                     in if \<not> ok then (Inl ''failed to allocate space'', st)
                        else let j = JobCopy (fs_relative_path fs location) (fs_relative_path fs file_name)
                             in (join_job e foreground j ''failed to copy file'',
                                 sched_log e AE_FileCopy
                                   (Some (JObject [(''file'', JString file), (''name'', JString destination)]))
                                   (spawn_job j st)))))"

fun delete_loop :: "'gi sched_env \<Rightarrow> path \<Rightarrow> string list \<Rightarrow> 'gi Filesystem \<Rightarrow> 'gi Filesystem" where
  "delete_loop e rdir [] fs = fs"
| "delete_loop e rdir (file # files) fs =
     (let destination = path_join rdir (components file) in
      if destination = rdir then delete_loop e rdir files fs
      else if ignored e fs destination (dir_or False (symlink_metadata e fs destination)) then
        delete_loop e rdir files fs
      else delete_loop e rdir files (snd (truncate_path (os_now e fs) destination fs)))"

definition delete_files ::
  "'gi sched_env \<Rightarrow> string \<Rightarrow> string list \<Rightarrow> 'gi sched_state \<Rightarrow> unit result \<times> 'gi sched_state" where
  "delete_files e rdir files st =
     (case canonicalize e (ss_fs st) (components rdir) of
        Inl _ \<Rightarrow> (Inl ''root not found'', st)
      | Inr rdir \<Rightarrow>
          if \<not> dir_or False (symlink_metadata e (ss_fs st) rdir) then (Inl ''root is not a directory'', st)
          else (Inr (), sched_log e AE_FileDelete
                  (Some (JObject [(''directory'', JString (path_text rdir)),
                                  (''files'', JArray (map JString files))]))
                  (st\<lparr>ss_fs := delete_loop e rdir files (ss_fs st)\<rparr>)))"

fun rename_loop :: "'gi sched_env \<Rightarrow> path \<Rightarrow> RenameFile list \<Rightarrow> 'gi Filesystem \<Rightarrow> 'gi Filesystem" where
  "rename_loop e rdir [] fs = fs"
| "rename_loop e rdir (file # files) fs =
     (let from_path = path_join rdir (components (rf_from file));
          to_path = path_join rdir (components (rf_to file))
      in if from_path = rdir \<or> to_path = rdir \<or> from_path = to_path then rename_loop e rdir files fs
         else case metadata e fs from_path of
                Inl _ \<Rightarrow> rename_loop e rdir files fs
              | Inr (is_dir, _) \<Rightarrow>
                  if \<not> isl (metadata e fs to_path) \<or> ignored e fs from_path is_dir \<or> ignored e fs to_path is_dir then
                    rename_loop e rdir files fs
                  else rename_loop e rdir files (snd (rename_path (os_now e fs) from_path to_path fs)))"

definition rename_files ::
  "'gi sched_env \<Rightarrow> string \<Rightarrow> RenameFile list \<Rightarrow> 'gi sched_state \<Rightarrow> unit result \<times> 'gi sched_state" where
  "rename_files e rdir files st =
     (if \<not> dir_or True (metadata e (ss_fs st) (components rdir)) then (Inl ''root is not a directory'', st)
      else (Inr (), sched_log e AE_FileRename
              (Some (JObject [(''directory'', JString rdir),
                 (''files'', JArray (map (\<lambda>f. JObject [(''from'', JString (rf_from f)), (''to'', JString (rf_to f))]) files))]))
              (st\<lparr>ss_fs := rename_loop e (components rdir) files (ss_fs st)\<rparr>)))"

section \<open>Archives\<close>

definition compress_files ::
  "'gi sched_env \<Rightarrow> bool \<Rightarrow> string \<Rightarrow> string list \<Rightarrow> ArchiveFormat \<Rightarrow> string \<Rightarrow> 'gi sched_state
     \<Rightarrow> unit result \<times> 'gi sched_state" where
  "compress_files e foreground rdir files format name st =
     (case canonicalize e (ss_fs st) (components rdir) of
        Inl _ \<Rightarrow> (Inl ''root not found'', st)
      | Inr rdir \<Rightarrow>
          if \<not> dir_or True (symlink_metadata e (ss_fs st) rdir) then (Inl ''root is not a directory'', st)
          else let file_name = path_join rdir (components name) in
            if ignored e (ss_fs st) file_name False then (Inl ''file not found'', st)
            else let j = JobCompress rdir files format file_name
                 in (join_job e foreground j ''failed to compress files'',
                     sched_log e AE_FileCompress
                       (Some (JObject [(''directory'', JString (path_text rdir)), (''name'', JString name),
                                       (''files'', JArray (map JString files))]))
                       (spawn_job j st)))"

definition decompress_file ::
  "'gi sched_env \<Rightarrow> bool \<Rightarrow> string \<Rightarrow> string \<Rightarrow> 'gi sched_state \<Rightarrow> unit result \<times> 'gi sched_state" where
  "decompress_file e foreground rdir file st =
     (case canonicalize e (ss_fs st) (components rdir) of
        Inl _ \<Rightarrow> (Inl ''root not found'', st)
      | Inr rdir \<Rightarrow>
          if \<not> dir_or True (metadata e (ss_fs st) rdir) then (Inl ''root is not a directory'', st)
          else let source = path_join rdir (components file) in
            if ignored e (ss_fs st) source (dir_or False (metadata e (ss_fs st) source)) then
              (Inl ''file not found'', st)
            else if \<not> se_archive e source then (Inl ''failed to open archive'', st)
            else let j = JobDecompress rdir source
                 in (join_job e foreground j ''failed to decompress file'',
                     sched_log e AE_FileDecompress
                       (Some (JObject [(''directory'', JString (path_text rdir)), (''file'', JString file)]))
                       (spawn_job j st)))"

section \<open>Startup settings\<close>

definition update_startup ::
  "'gi sched_env \<Rightarrow> panel_request \<Rightarrow> string \<Rightarrow> 'gi sched_state \<Rightarrow> unit result \<times> 'gi sched_state" where
  "update_startup e r msg st = or_fail msg (\<lambda>st. (Inr (), st)) (se_startup e r, request r st)"

section \<open>Execution\<close>

definition execute :: "'gi sched_env \<Rightarrow> ScheduleAction \<Rightarrow> 'gi sched_state \<Rightarrow> unit result \<times> 'gi sched_state" where
  "execute e act st =
     (if is_locked_state (ss_server st) then (Inl ''server is in a locked state.'', st)
      else case act of
        SA_Sleep duration \<Rightarrow> (Inr (), st)
      | SA_SendPower _ p \<Rightarrow> send_power e p st
      | SA_SendCommand _ command \<Rightarrow> send_command e command st
      | SA_CreateBackup _ foreground name ignored_files \<Rightarrow> create_backup e foreground name ignored_files st
      | SA_CreateDirectory _ rdir name \<Rightarrow> create_directory e rdir name st
      | SA_WriteFile _ appending file content \<Rightarrow> write_file e appending file content st
      | SA_CopyFile _ foreground file destination \<Rightarrow> copy_file e foreground file destination st
      | SA_DeleteFiles rdir files \<Rightarrow> delete_files e rdir files st
      | SA_RenameFiles rdir files \<Rightarrow> rename_files e rdir files st
      | SA_CompressFiles _ foreground rdir files format name \<Rightarrow> compress_files e foreground rdir files format name st
      | SA_DecompressFile _ foreground rdir file \<Rightarrow> decompress_file e foreground rdir file st
      | SA_UpdateStartupVariable _ env_variable v \<Rightarrow>
          update_startup e (SetStartupVariable env_variable v) ''failed to set server startup variable'' st
      | SA_UpdateStartupCommand _ command \<Rightarrow>
          update_startup e (SetStartupCommand command) ''failed to set server startup command'' st
      | SA_UpdateStartupDockerImage _ img \<Rightarrow>
          update_startup e (SetStartupDockerImage img) ''failed to set server startup docker image'' st)"

section \<open>Lemmas\<close>

lemma call_base [simp]:
  "fs_base_path (call c fs) = fs_base_path fs" "disk_ignored (call c fs) = disk_ignored fs"
  by (simp_all add: call_def)

text \<open>What an allocation leaves alone.\<close>

lemma allocate_keeps [simp]:
  "fs_base_path (snd (async_allocate_in_path p d i fs)) = fs_base_path fs"
  "disk_ignored (snd (async_allocate_in_path p d i fs)) = disk_ignored fs"
  "fs_calls (snd (async_allocate_in_path p d i fs)) = fs_calls fs"
  by (simp_all add: async_allocate_in_path_def charge_cached_def Let_def)

text \<open>What removing and renaming change: their calls are appended.\<close>

lemma truncate_path_calls:
  "fs_base_path (snd (truncate_path os p fs)) = fs_base_path fs"
  "disk_ignored (snd (truncate_path os p fs)) = disk_ignored fs"
  "fs_calls (snd (truncate_path os p fs)) \<in>
     {fs_calls fs, fs_calls fs @ [RemoveDirAll (fs_relative_path fs p)],
      fs_calls fs @ [RemoveFile (fs_relative_path fs p)]}"
  by (auto simp: truncate_path_def Let_def split: sum.split)

lemma rename_path_calls:
  "fs_base_path (snd (rename_path os a b fs)) = fs_base_path fs \<and>
   disk_ignored (snd (rename_path os a b fs)) = disk_ignored fs \<and>
   (\<exists>cs. fs_calls (snd (rename_path os a b fs)) = fs_calls fs @ cs \<and>
      (\<forall>x y. RenamePath x y \<in> set cs \<longrightarrow> x = fs_relative_path fs a \<and> y = fs_relative_path fs b))"
  by (auto simp: rename_path_def Let_def split: sum.split option.split prod.split)

text \<open>Whether a removal is one the deletion of \<open>files\<close> below \<open>rdir\<close> may make after the calls \<open>pre\<close>.\<close>

definition may_remove ::
  "'gi sched_env \<Rightarrow> path \<Rightarrow> string list \<Rightarrow> 'gi Filesystem \<Rightarrow> fs_call list \<Rightarrow> fs_call \<Rightarrow> bool" where
  "may_remove e rdir files fs pre c \<longleftrightarrow>
     (\<exists>file\<in>set files. let d = path_join rdir (components file) in
        c \<in> {RemoveDirAll (fs_relative_path fs d), RemoveFile (fs_relative_path fs d)} \<and> d \<noteq> rdir \<and>
        \<not> se_ignores e (disk_ignored fs) d
            (dir_or False (os_symlink_metadata (se_os e (fs_calls fs @ pre)) (fs_relative_path fs d))))"

lemma delete_loop_calls:
  "fs_base_path (delete_loop e rdir files fs) = fs_base_path fs \<and>
   (\<exists>cs. fs_calls (delete_loop e rdir files fs) = fs_calls fs @ cs \<and>
      (\<forall>pre c post. cs = pre @ c # post \<longrightarrow> may_remove e rdir files fs pre c))"
proof (induction e rdir files fs rule: delete_loop.induct)
  case (2 e rdir f files fs)
  let ?d = "path_join rdir (components f)"
  let ?kind = "dir_or False (symlink_metadata e fs ?d)"
  let ?fs = "snd (truncate_path (os_now e fs) ?d fs)"
  have mono: "may_remove e rdir files fs pre c \<Longrightarrow> may_remove e rdir (f # files) fs pre c" for pre c
    by (auto simp: may_remove_def)
  show ?case
  proof (cases "?d = rdir \<or> ignored e fs ?d ?kind")
    case True
    then have "delete_loop e rdir (f # files) fs = delete_loop e rdir files fs"
      by (auto simp: Let_def)
    then show ?thesis using 2(1,2) True mono by (auto simp: Let_def) metis+
  next
    case False
    then have step: "delete_loop e rdir (f # files) fs = delete_loop e rdir files ?fs"
      by (simp add: Let_def)
    note t = truncate_path_calls [of "os_now e fs" ?d fs]
    obtain cs where cs: "fs_calls (delete_loop e rdir files ?fs) = fs_calls ?fs @ cs"
      "\<forall>pre c post. cs = pre @ c # post \<longrightarrow> may_remove e rdir files ?fs pre c"
      "fs_base_path (delete_loop e rdir files ?fs) = fs_base_path ?fs"
      using 2(3) False by (auto simp: Let_def)
    obtain c0 where c0: "fs_calls ?fs = fs_calls fs @ c0"
      "c0 = [] \<or> (\<exists>c. c0 = [c] \<and> may_remove e rdir (f # files) fs [] c)"
      using t(3) False
      by (auto simp: may_remove_def Let_def ignored_def is_ignored_def symlink_metadata_def os_now_def)
    have later: "may_remove e rdir (f # files) fs (c0 @ pre) c"
      if "may_remove e rdir files ?fs pre c" for pre c
      using that t(1,2) c0(1) by (auto simp: may_remove_def Let_def)
    have "may_remove e rdir (f # files) fs pre c" if "c0 @ cs = pre @ c # post" for pre c post
    proof (cases "c0 = [] \<or> pre \<noteq> []")
      case True
      with that c0(2) obtain pre' where "pre = c0 @ pre'" "cs = pre' @ c # post"
        by (cases pre) auto
      with cs(2) later show ?thesis by blast
    next
      case False
      with that c0(2) show ?thesis by auto
    qed
    then show ?thesis
      unfolding step using cs(1,3) c0(1) t(1) by auto
  qed
qed simp

text \<open>And a rename: its source exists and its target does not when it is looked at.\<close>

definition may_rename :: "'gi sched_env \<Rightarrow> 'gi Filesystem \<Rightarrow> fs_call list \<Rightarrow> fs_call \<Rightarrow> bool" where
  "may_rename e fs pre c \<longleftrightarrow>
     (case c of
        RenamePath x y \<Rightarrow>
          \<exists>seen. prefix seen pre \<and> isl (os_metadata (se_os e (fs_calls fs @ seen)) y) \<and>
            \<not> isl (os_metadata (se_os e (fs_calls fs @ seen)) x)
      | _ \<Rightarrow> True)"

lemma rename_loop_calls:
  "fs_base_path (rename_loop e rdir files fs) = fs_base_path fs \<and>
   (\<exists>cs. fs_calls (rename_loop e rdir files fs) = fs_calls fs @ cs \<and>
      (\<forall>pre c post. cs = pre @ c # post \<longrightarrow> may_rename e fs pre c))"
proof (induction e rdir files fs rule: rename_loop.induct)
  case (2 e rdir f files fs)
  let ?a = "path_join rdir (components (rf_from f))" and ?b = "path_join rdir (components (rf_to f))"
  let ?fs = "snd (rename_path (os_now e fs) ?a ?b fs)"
  let ?skip = "?a = rdir \<or> ?b = rdir \<or> ?a = ?b"
  consider (same) ?skip | (missing) err where "\<not> ?skip" "metadata e fs ?a = Inl err"
    | (taken) is_dir n where "\<not> ?skip" "metadata e fs ?a = Inr (is_dir, n)"
        "\<not> isl (metadata e fs ?b) \<or> ignored e fs ?a is_dir \<or> ignored e fs ?b is_dir"
    | (go) is_dir n where "\<not> ?skip" "metadata e fs ?a = Inr (is_dir, n)"
      "isl (metadata e fs ?b)" "\<not> ignored e fs ?a is_dir" "\<not> ignored e fs ?b is_dir"
    by (cases "metadata e fs ?a") fastforce+
  then show ?case
  proof cases
    case same
    then show ?thesis using 2(1) [OF refl refl] by (simp add: Let_def)
  next
    case missing
    then show ?thesis using 2(2) [OF refl refl] by (simp add: Let_def)
  next
    case taken
    then show ?thesis using 2(3) [OF refl refl] by (simp add: Let_def)
  next
    case go
    then have step: "rename_loop e rdir (f # files) fs = rename_loop e rdir files ?fs"
      by (simp add: Let_def)
    obtain c0 where c0: "fs_base_path ?fs = fs_base_path fs" "fs_calls ?fs = fs_calls fs @ c0"
      "\<forall>x y. RenamePath x y \<in> set c0 \<longrightarrow> x = fs_relative_path fs ?a \<and> y = fs_relative_path fs ?b"
      using rename_path_calls [of "os_now e fs" ?a ?b fs] by blast
    have "fs_base_path (rename_loop e rdir files ?fs) = fs_base_path ?fs \<and>
      (\<exists>cs. fs_calls (rename_loop e rdir files ?fs) = fs_calls ?fs @ cs \<and>
        (\<forall>pre c post. cs = pre @ c # post \<longrightarrow> may_rename e ?fs pre c))"
      using 2(4) go by simp
    then obtain cs where cs: "fs_base_path (rename_loop e rdir files ?fs) = fs_base_path ?fs"
      "fs_calls (rename_loop e rdir files ?fs) = fs_calls ?fs @ cs"
      "\<forall>pre c post. cs = pre @ c # post \<longrightarrow> may_rename e ?fs pre c" by blast
    have first: "may_rename e fs pre c" if "c \<in> set c0" for pre c
      using go(2,3) c0(3) that
      by (auto simp: may_rename_def metadata_def os_now_def split: fs_call.split intro!: exI [of _ "[]"])
    have later: "may_rename e fs (c0 @ pre) c" if "may_rename e ?fs pre c" for pre c
      using that c0(2)
      by (cases c) (simp_all add: may_rename_def, metis append.assoc same_prefix_prefix)
    have "may_rename e fs pre c" if eq: "c0 @ cs = pre @ c # post" for pre c post
    proof (cases "length pre < length c0")
      case True
      then have "c \<in> set c0"
        using eq by (metis nth_append nth_append_length nth_mem)
      then show ?thesis by (rule first)
    next
      case False
      then obtain pre' where "pre = c0 @ pre'" using eq by (auto simp: append_eq_append_conv2)
      then show ?thesis using eq cs(3) later by auto
    qed
    then show ?thesis unfolding step using cs(1,2) c0(1,2) by auto
  qed
qed simp


lemma cached_chown [simp]:
  "disk_usage_cached (snd (chown e p fs)) = disk_usage_cached fs"
proof -
  have "disk_usage_cached (fold (\<lambda>p. call (ChownPath p)) ps f) = disk_usage_cached f" for ps and f :: "'a Filesystem"
    by (induction ps arbitrary: f) simp_all
  then show ?thesis
    by (simp add: chown_def chown_path_def Let_def split: sum.split)
qed

lemma cached_store_file [simp]:
  "disk_usage_cached (snd (store_file e p a c fs)) = disk_usage_cached fs"
  by (simp add: store_file_def Let_def split: sum.split)

lemma cached_allocate:
  "disk_usage_cached (snd (async_allocate_in_path p d False fs)) =
     (if fst (async_allocate_in_path p d False fs) then disk_usage_cached (charge_cached d fs)
      else disk_usage_cached fs)"
  by (simp add: async_allocate_in_path_def charge_cached_0 Let_def)

lemma cached_charge_call [simp]:
  "disk_usage_cached (charge_cached d (call c fs)) = disk_usage_cached (charge_cached d fs)"
  by (simp add: charge_cached_def Let_def)

lemma store_file_errors:
  "fst (store_file e p a c fs) \<in> {Inr (), Inl ''failed to open file'', Inl ''failed to write file'',
     Inl ''failed to flush file'', Inl ''failed to sync file''}"
  by (simp add: store_file_def Let_def split: sum.split)

definition uncharged_errors :: "string list" where
  "uncharged_errors =
     [''file not found'', ''file is not a file'', ''file has no parent'', ''parent directory not found'',
      ''failed to create parent directory'', ''failed to allocate space'']"

lemma write_rest_cached:
  "disk_usage_cached (ss_fs (snd (write_rest e a f c p st))) = disk_usage_cached (ss_fs st) \<and>
   fst (write_rest e a f c p st) \<notin> Inl ` set uncharged_errors"
proof -
  have w: "disk_usage_cached (ss_fs (snd (with_fs (chown e p) s))) = disk_usage_cached (ss_fs s)" for s
    by (metis (mono_tags, lifting) cached_chown case_prod_beta snd_conv sched_state.select_convs(2)
        sched_state.surjective sched_state.update_convs(2) with_fs_def)
  obtain r fs where s: "store_file e p a c (ss_fs st) = (r, fs)" by fastforce
  have fs: "disk_usage_cached fs = disk_usage_cached (ss_fs st)" "r \<notin> Inl ` set uncharged_errors"
    using cached_store_file [of e p a c "ss_fs st"] store_file_errors [of e p a c "ss_fs st"] s
    by (auto simp: uncharged_errors_def)
  let ?log = "sched_log e AE_FileWrite (Some (JObject [(''file'', JString f)])) (st\<lparr>ss_fs := fs\<rparr>)"
  obtain r2 st2 where o: "with_fs (chown e p) ?log = (r2, st2)" by fastforce
  show ?thesis
    using fs o w [of ?log]
    by (cases r; cases r2)
       (auto simp: write_rest_def with_fs_def s or_fail_def sched_log_def uncharged_errors_def)
qed

text \<open>
  An environment for concrete runs: a directory holding one file \<open>a\<close> of five bytes,
  an empty deny list, and an outside in which every call succeeds.
\<close>

definition sample_os :: os where
  "sample_os =
     (let look = (\<lambda>p. if p = [] then Inr (True, 0) else if p = [Normal ''a''] then Inr (False, 5)
                      else Inl ''not found'')
      in \<lparr>os_symlink_metadata = look, os_metadata = look, os_canonicalize = Inr,
          os_create_dir_all = \<lambda>_. Inr (), os_remove_dir_all = \<lambda>_. Inr (), os_remove_file = \<lambda>_. Inr (),
          os_rename = \<lambda>_ _. Inr ()\<rparr>)"

definition sample_env :: "unit sched_env" where
  "sample_env =
     \<lparr>se_world = sample_world, se_disk_space = 0, se_update = Inr (), se_between = id, se_waited = id,
      se_exited = True, se_auto_kill = (False, 0), se_stdin_open = True, se_clock = 0,
      se_os = \<lambda>_. sample_os, se_is_file = \<lambda>_ p. p \<noteq> [], se_ignores = \<lambda>_ _ _. False,
      se_open = \<lambda>_. Inr (), se_write = \<lambda>_ _. Inr (), se_flush = \<lambda>_. Inr (), se_sync = \<lambda>_. Inr (),
      se_chown = \<lambda>_. Inr (), se_chown_walk = Inr [], se_backup = \<lambda>_ _. Inr (''local'', 1),
      se_backup_exists = \<lambda>_. False, se_startup = \<lambda>_. Inr (), se_archive = \<lambda>_. True,
      se_thread = \<lambda>_. Some (Inr ())\<rparr>"

definition sample_state :: "unit sched_state" where
  "sample_state =
     \<lparr>ss_server = new_server, ss_fs = new_filesystem [RootDir, Normal ''srv''] 0 (),
      ss_activities = [], ss_requests = [], ss_spawned = []\<rparr>"

lemmas sample_simps = sample_os_def sample_env_def sample_state_def new_filesystem_def Let_def
  os_now_def canonicalize_def symlink_metadata_def metadata_def ignored_def is_ignored_def dir_or_def
  relative_path_def resolve_path_def strip_prefix_def resolve_step_def push_def

section \<open>Properties\<close>

text \<open>
  A scheduled deletion removes only entries it was given: every removal it makes is
  of a listed file, never of the directory itself, and of a path the server's deny
  list does not cover at that moment.
\<close>

theorem delete_files_guarded:
  "\<exists>cs. fs_calls (ss_fs (snd (delete_files e dir files st))) = fs_calls (ss_fs st) @ cs \<and>
     (\<forall>pre c post. cs = pre @ c # post \<longrightarrow>
        (\<exists>rdir. canonicalize e (ss_fs st) (components dir) = Inr rdir \<and>
           may_remove e rdir files (ss_fs st) pre c))"
proof (cases "canonicalize e (ss_fs st) (components dir)")
  case (Inr rdir)
  then show ?thesis
    using delete_loop_calls [of e rdir files "ss_fs st"]
    by (auto simp: delete_files_def sched_log_def)
qed (simp add: delete_files_def)

theorem delete_files_guarded_witness:
  "\<exists>rdir. canonicalize sample_env (ss_fs sample_state) (components ''/'') = Inr rdir \<and>
     may_remove sample_env rdir [''a''] (ss_fs sample_state) [] (RemoveFile [Normal ''a''])"
proof -
  have c: "components ''/'' = [RootDir]" "components ''a'' = [Normal ''a'']"
    by (simp_all add: components_def component_of_def starts_with_def)
  have "fs_calls (ss_fs (snd (delete_files sample_env ''/'' [''a''] sample_state)))
     = fs_calls (ss_fs sample_state) @ [] @ RemoveFile [Normal ''a''] # []"
    by (simp add: delete_files_def c sample_simps truncate_path_def sched_log_def)
  with delete_files_guarded [of sample_env "''/''" "[''a'']" sample_state] show ?thesis
    by (metis append_same_eq same_append_eq)
qed

text \<open>
  A scheduled rename never overwrites: whenever it renames a file, the old path
  existed and the new one did not when it looked.
\<close>

theorem rename_files_keep_targets:
  "\<exists>cs. fs_calls (ss_fs (snd (rename_files e dir files st))) = fs_calls (ss_fs st) @ cs \<and>
     (\<forall>pre c post. cs = pre @ c # post \<longrightarrow> may_rename e (ss_fs st) pre c)"
  using rename_loop_calls [of e "components dir" files "ss_fs st"]
  by (auto simp: rename_files_def sched_log_def)

theorem rename_files_keep_targets_witness:
  "may_rename sample_env (ss_fs sample_state) [CreateDirAll []] (RenamePath [Normal ''a''] [Normal ''b''])"
proof -
  have c: "components ''/'' = [RootDir]" "components ''a'' = [Normal ''a'']" "components ''b'' = [Normal ''b'']"
    by (simp_all add: components_def component_of_def starts_with_def)
  have "fs_calls (ss_fs (snd (rename_files sample_env ''/'' [\<lparr>rf_from = ''a'', rf_to = ''b''\<rparr>] sample_state)))
     = fs_calls (ss_fs sample_state) @ [CreateDirAll []] @ RenamePath [Normal ''a''] [Normal ''b''] # []"
    by (simp add: rename_files_def c sample_simps rename_path_def sched_log_def parent_def file_name_def)
  with rename_files_keep_targets [of sample_env "''/''" "[\<lparr>rf_from = ''a'', rf_to = ''b''\<rparr>]" sample_state]
  show ?thesis by (metis same_append_eq)
qed

text \<open>
  A scheduled write charges the server's disk usage with exactly the bytes it adds,
  or not at all when it is refused. A file that cannot be opened, written, flushed
  or synced stays charged: nothing takes the bytes back.
\<close>

theorem write_file_accounts:
  "disk_usage_cached (ss_fs (snd (write_file e appending file_path content st))) =
     (if fst (write_file e appending file_path content st) \<in> Inl ` set uncharged_errors
      then disk_usage_cached (ss_fs st)
      else disk_usage_cached (charge_cached
        (write_delta appending content (metadata e (ss_fs st) (write_path e file_path (ss_fs st)))) (ss_fs st)))"
proof (cases "parent (write_path e file_path (ss_fs st))")
  case None
  then show ?thesis by (simp add: write_file_def Let_def uncharged_errors_def)
next
  case (Some par)
  let ?fs = "ss_fs st"
  define path where "path = write_path e file_path ?fs"
  define d where "d = write_delta appending content (metadata e ?fs path)"
  obtain r fs1 where m: "create_dir_all e par ?fs = (r, fs1)" by fastforce
  obtain ok fs2 where al: "async_allocate_in_path par d False fs1 = (ok, fs2)" by fastforce
  have "fs1 = call (CreateDirAll (fs_relative_path ?fs par)) ?fs"
    using m by (simp add: create_dir_all_def Let_def)
  then have c: "disk_usage_cached fs2 = (if ok then disk_usage_cached (charge_cached d ?fs) else disk_usage_cached ?fs)"
    "disk_usage_cached fs1 = disk_usage_cached ?fs"
    using cached_allocate [of par d fs1] al by simp_all
  obtain res st3 where rest: "write_rest e appending file_path content path (st\<lparr>ss_fs := fs2\<rparr>) = (res, st3)"
    by fastforce
  have w: "disk_usage_cached (ss_fs st3) = disk_usage_cached fs2" "res \<notin> Inl ` set uncharged_errors"
    using write_rest_cached [of e appending file_path content path "st\<lparr>ss_fs := fs2\<rparr>"] rest by simp_all
  have u: "x \<in> set uncharged_errors \<Longrightarrow> Inl x \<in> Inl ` set uncharged_errors" for x by simp
  have "write_file e appending file_path content st =
     (if ignored e ?fs path (dir_or False (metadata e ?fs path)) then (Inl ''file not found'', st)
      else if \<not> isl (metadata e ?fs path) \<and> \<not> is_file e ?fs path then (Inl ''file is not a file'', st)
      else if ignored e ?fs par True then (Inl ''parent directory not found'', st)
      else if isl r then (Inl ''failed to create parent directory'', st\<lparr>ss_fs := fs1\<rparr>)
      else if \<not> ok then (Inl ''failed to allocate space'', st\<lparr>ss_fs := fs2\<rparr>)
      else (res, st3))"
    using Some m al rest
    by (cases r) (simp_all add: write_file_def Let_def path_def d_def with_fs_def or_fail_def)
  then show ?thesis
    using c w unfolding path_def [symmetric] d_def [symmetric]
    by (auto simp: uncharged_errors_def)
qed

end
