(* ===== verification/Schedules.thy ===== *)
theory Schedules
  imports Schedule_Actions
begin

text \<open>
  \<open>server/schedule/mod.rs\<close> and \<open>server/schedule/manager.rs\<close>: the schedules of a server.

  A schedule's executor is a task woken by one of two \<open>tokio::sync::Notify\<close>, each
  of which stores at most one permit. A cron trigger is a task of its own; it is
  identified by its source expression, and \<open>next\<close> stands for the \<open>cron\<close> crate's
  next point in time. The environment may differ from one action to the next: it
  is indexed by the number of the action. Times are seconds.
\<close>

section \<open>Triggers and conditions\<close>

datatype ScheduleTrigger =
    ST_Cron string
  | ST_PowerAction ServerPowerAction
  | ST_ServerState ServerState
  | ST_Crash

fun trigger_eq :: "ScheduleTrigger \<Rightarrow> ScheduleTrigger \<Rightarrow> bool" where
  "trigger_eq (ST_Cron s1) (ST_Cron s2) = (s1 = s2)"
| "trigger_eq (ST_PowerAction a1) (ST_PowerAction a2) = (a1 = a2)"
| "trigger_eq (ST_ServerState s1) (ST_ServerState s2) = (s1 = s2)"
| "trigger_eq ST_Crash ST_Crash = True"
| "trigger_eq _ _ = False"

datatype ScheduleComparator =
  SmallerThan | SmallerThanOrEquals | Equal | GreaterThan | GreaterThanOrEquals

datatype ScheduleCondition =
    SC_None
  | SC_And "ScheduleCondition list"
  | SC_Or "ScheduleCondition list"
  | SC_ServerState ServerState
  | SC_Uptime ScheduleComparator u64
  | SC_CpuUsage ScheduleComparator f64
  | SC_MemoryUsage ScheduleComparator u64
  | SC_DiskUsage ScheduleComparator u64
  | SC_FileExists string

fun compare_u64 :: "ScheduleComparator \<Rightarrow> u64 \<Rightarrow> u64 \<Rightarrow> bool" where
  "compare_u64 SmallerThan a b = (a < b)"
| "compare_u64 SmallerThanOrEquals a b = (a \<le> b)"
| "compare_u64 Equal a b = (a = b)"
| "compare_u64 GreaterThan a b = (b < a)"
| "compare_u64 GreaterThanOrEquals a b = (b \<le> a)"

fun compare_f64 :: "ScheduleComparator \<Rightarrow> f64 \<Rightarrow> f64 \<Rightarrow> bool" where
  "compare_f64 SmallerThan a b = f64_lt a b"
| "compare_f64 SmallerThanOrEquals a b = f64_le a b"
| "compare_f64 Equal a b = f64_eq a b"
| "compare_f64 GreaterThan a b = f64_lt b a"
| "compare_f64 GreaterThanOrEquals a b = f64_le b a"

text \<open>What a leaf of a condition looks at.\<close>

record server_view =
  sv_state :: ServerState
  sv_uptime :: u64
  sv_cpu_absolute :: f64
  sv_memory_bytes :: u64
  sv_disk_bytes :: u64
  sv_exists :: "string \<Rightarrow> bool"

text \<open>
  Every leaf awaits its own look at the server, so the server may change between
  two leaves: the \<open>n\<close>-th look sees \<open>view n\<close>. The number of the next look is
  returned with the answer.
\<close>

fun evaluate :: "(nat \<Rightarrow> server_view) \<Rightarrow> ScheduleCondition \<Rightarrow> nat \<Rightarrow> bool \<times> nat"
  and evaluate_all :: "(nat \<Rightarrow> server_view) \<Rightarrow> ScheduleCondition list \<Rightarrow> nat \<Rightarrow> bool \<times> nat"
  and evaluate_any :: "(nat \<Rightarrow> server_view) \<Rightarrow> ScheduleCondition list \<Rightarrow> nat \<Rightarrow> bool \<times> nat" where
  "evaluate view SC_None n = (True, n)"
| "evaluate view (SC_And conditions) n = evaluate_all view conditions n"
| "evaluate view (SC_Or conditions) n = evaluate_any view conditions n"
| "evaluate view (SC_ServerState st) n = (sv_state (view n) = st, Suc n)"
| "evaluate view (SC_Uptime c v) n = (compare_u64 c (sv_uptime (view n)) v, Suc n)"
| "evaluate view (SC_CpuUsage c v) n = (compare_f64 c (sv_cpu_absolute (view n)) v, Suc n)"
| "evaluate view (SC_MemoryUsage c v) n = (compare_u64 c (sv_memory_bytes (view n)) v, Suc n)"
| "evaluate view (SC_DiskUsage c v) n = (compare_u64 c (sv_disk_bytes (view n)) v, Suc n)"
| "evaluate view (SC_FileExists f) n = (sv_exists (view n) f, Suc n)"
| "evaluate_all view [] n = (True, n)"
| "evaluate_all view (c # cs) n =
     (case evaluate view c n of (b, n) \<Rightarrow> if \<not> b then (False, n) else evaluate_all view cs n)"
| "evaluate_any view [] n = (False, n)"
| "evaluate_any view (c # cs) n =
     (case evaluate view c n of (b, n) \<Rightarrow> if b then (True, n) else evaluate_any view cs n)"

section \<open>Schedules\<close>

record raw_schedule =
  rs_uuid :: uuid
  rs_triggers :: "ScheduleTrigger list"
  rs_condition :: ScheduleCondition
  rs_actions :: "(uuid \<times> ScheduleAction) list"

record completion =
  cs_uuid :: uuid
  cs_successful :: bool
  cs_errors :: "uuid \<Rightarrow> string option"
  cs_timestamp :: int

text \<open>
  Where the executor is: waiting for a permit, or with the actions still to run of
  the list it took when it woke up, the number of actions run and their errors.
\<close>

datatype executor = Waiting | Acting nat "(uuid \<times> ScheduleAction) list" "uuid \<Rightarrow> string option"

text \<open>\<open>sc_tasks\<close>: the running cron tasks, each with the time it was spawned.\<close>

record Schedule =
  sc_uuid :: uuid
  sc_triggers :: "ScheduleTrigger list"
  sc_condition :: ScheduleCondition
  sc_actions :: "(uuid \<times> ScheduleAction) list"
  sc_running :: bool
  sc_step :: "uuid option"
  sc_completion :: "completion option"
  sc_tasks :: "(string \<times> int) list"
  sc_notified :: bool
  sc_skip_notified :: bool
  sc_executor :: executor

fun is_cron :: "ScheduleTrigger \<Rightarrow> bool" where
  "is_cron (ST_Cron _) = True"
| "is_cron _ = False"

fun create_trigger_tasks ::
  "int \<Rightarrow> ScheduleTrigger list \<Rightarrow> ScheduleTrigger list \<times> (string \<times> int) list" where
  "create_trigger_tasks now [] = ([], [])"
| "create_trigger_tasks now (t # ts) =
     (case create_trigger_tasks now ts of (triggers, tasks) \<Rightarrow>
        (case t of
           ST_Cron schedule \<Rightarrow> (triggers, (schedule, now) # tasks)
         | _ \<Rightarrow> (t # triggers, tasks)))"

definition schedule_new :: "int \<Rightarrow> raw_schedule \<Rightarrow> Schedule" where
  "schedule_new now raw =
     (case create_trigger_tasks now (rs_triggers raw) of (triggers, tasks) \<Rightarrow>
        \<lparr>sc_uuid = rs_uuid raw, sc_triggers = triggers, sc_condition = rs_condition raw,
         sc_actions = rs_actions raw, sc_running = False, sc_step = None, sc_completion = None,
         sc_tasks = tasks, sc_notified = False, sc_skip_notified = False,
         sc_executor = Waiting\<rparr>)"

definition trigger :: "bool \<Rightarrow> Schedule \<Rightarrow> Schedule" where
  "trigger skip_condition sc =
     (if skip_condition then sc\<lparr>sc_skip_notified := True\<rparr> else sc\<lparr>sc_notified := True\<rparr>)"

definition schedule_update :: "raw_schedule \<Rightarrow> Schedule \<Rightarrow> Schedule" where
  "schedule_update raw sc = sc\<lparr>sc_condition := rs_condition raw, sc_actions := rs_actions raw\<rparr>"

definition recreate_triggers :: "int \<Rightarrow> ScheduleTrigger list \<Rightarrow> Schedule \<Rightarrow> Schedule" where
  "recreate_triggers now triggers sc =
     (case create_trigger_tasks now triggers of (triggers, tasks) \<Rightarrow>
        sc\<lparr>sc_triggers := triggers, sc_tasks := tasks\<rparr>)"

text \<open>
  \<open>recreate_executor\<close> aborts the executor wherever it is and starts a new one on the
  same shared fields: the rest of the actions is dropped, the status, the permits and
  the completion stay as they are.
\<close>

definition recreate_executor :: "Schedule \<Rightarrow> Schedule" where
  "recreate_executor sc = sc\<lparr>sc_executor := Waiting\<rparr>"

text \<open>
  One round of a cron task at time \<open>now\<close>: \<open>None\<close> ends it, otherwise how many seconds
  it sleeps and whether it then notifies the executor.
\<close>

definition cron_round :: "(int \<Rightarrow> int option) \<Rightarrow> int \<Rightarrow> (int \<times> bool) option" where
  "cron_round next now =
     (case next now of
        None \<Rightarrow> None
      | Some target \<Rightarrow>
          let sleep_duration = target - now
          in if sleep_duration \<le> 0 then Some (1, False) else Some (sleep_duration, True))"

section \<open>The executor\<close>

text \<open>
  Waking up: \<open>None\<close> while no permit is stored. When both are, \<open>select!\<close> picks one
  (\<open>skip_first\<close>) and the other stays. The result is \<open>skip_condition\<close>.
\<close>

definition executor_wake :: "bool \<Rightarrow> Schedule \<Rightarrow> (bool \<times> Schedule) option" where
  "executor_wake skip_first sc =
     (if sc_skip_notified sc \<and> (skip_first \<or> \<not> sc_notified sc) then Some (True, sc\<lparr>sc_skip_notified := False\<rparr>)
      else if sc_notified sc then Some (False, sc\<lparr>sc_notified := False\<rparr>)
      else None)"

text \<open>The JSON text of a \<open>ScheduleStatus\<close>; \<open>uuid_text\<close> prints a uuid.\<close>

definition status_text :: "(uuid \<Rightarrow> string) \<Rightarrow> bool \<Rightarrow> uuid option \<Rightarrow> string" where
  "status_text uuid_text running step =
     ''{'' @ [CHR 0x22] @ ''running'' @ [CHR 0x22] @ '':'' @ (if running then ''true'' else ''false'') @ '','' @
     [CHR 0x22] @ ''step'' @ [CHR 0x22] @ '':'' @
     (case step of None \<Rightarrow> ''null'' | Some u \<Rightarrow> [CHR 0x22] @ uuid_text u @ [CHR 0x22]) @ ''}''"

definition broadcast :: "WebsocketMessage \<Rightarrow> 'gi sched_state \<Rightarrow> 'gi sched_state" where
  "broadcast m st = st\<lparr>ss_server := emit [Broadcast m] (ss_server st)\<rparr>"

definition set_status ::
  "(uuid \<Rightarrow> string) \<Rightarrow> bool \<Rightarrow> uuid option \<Rightarrow> Schedule \<times> 'gi sched_state \<Rightarrow> Schedule \<times> 'gi sched_state" where
  "set_status uuid_text running step p =
     (case p of (sc, st) \<Rightarrow>
        (sc\<lparr>sc_running := running, sc_step := step\<rparr>,
         broadcast (new_message ServerScheduleStatus
           [uuid_text (sc_uuid sc), status_text uuid_text running step]) st))"

text \<open>The end of a run: the status is reset and the completion stored.\<close>

definition finish_run ::
  "(uuid \<Rightarrow> string) \<Rightarrow> int \<Rightarrow> bool \<Rightarrow> (uuid \<Rightarrow> string option) \<Rightarrow> Schedule \<times> 'gi sched_state
     \<Rightarrow> Schedule \<times> 'gi sched_state" where
  "finish_run uuid_text now successful errors p =
     (case set_status uuid_text False None p of (sc, st) \<Rightarrow>
        (sc\<lparr>sc_completion := Some \<lparr>cs_uuid = sc_uuid sc, cs_successful = successful,
              cs_errors = errors, cs_timestamp = now\<rparr>,
            sc_executor := Waiting\<rparr>, st))"

text \<open>One action, with its status before and its error after: whether the loop goes on.\<close>

definition run_action ::
  "(uuid \<Rightarrow> string) \<Rightarrow> 'gi sched_env \<Rightarrow> uuid \<times> ScheduleAction \<Rightarrow> (uuid \<Rightarrow> string option)
     \<Rightarrow> Schedule \<times> 'gi sched_state \<Rightarrow> bool \<times> (uuid \<Rightarrow> string option) \<times> Schedule \<times> 'gi sched_state" where
  "run_action uuid_text e a errors p =
     (case set_status uuid_text True (Some (fst a)) p of (sc, st) \<Rightarrow>
        (case execute e (snd a) st of
           (Inr _, st) \<Rightarrow> (True, errors, sc, st)
         | (Inl err, st) \<Rightarrow>
             (ignore_failure (snd a), errors(fst a \<mapsto> err), sc,
              broadcast (new_message ServerScheduleStepError [uuid_text (fst a), err]) st)))"

text \<open>
  One step of the task: waking up and checking the condition, one action, or the end
  of the run. Between two steps the rest of the program may change the schedule.
\<close>

definition executor_step ::
  "(uuid \<Rightarrow> string) \<Rightarrow> (nat \<Rightarrow> server_view) \<Rightarrow> (nat \<Rightarrow> 'gi sched_env) \<Rightarrow> int \<Rightarrow> bool
     \<Rightarrow> Schedule \<times> 'gi sched_state \<Rightarrow> Schedule \<times> 'gi sched_state" where
  "executor_step uuid_text view env now skip_first p =
     (case p of (sc, st) \<Rightarrow>
      (case sc_executor sc of
         Waiting \<Rightarrow>
           (case executor_wake skip_first sc of
              None \<Rightarrow> (sc, st)
            | Some (skip_condition, sc) \<Rightarrow>
                if \<not> skip_condition \<and> \<not> fst (evaluate view (sc_condition sc) 0) then (sc, st)
                else (sc\<lparr>sc_executor := Acting 0 (sc_actions sc) Map.empty\<rparr>, st))
       | Acting i [] errors \<Rightarrow> finish_run uuid_text now True errors (sc, st)
       | Acting i (a # acts) errors \<Rightarrow>
           (case run_action uuid_text (env i) a errors (sc, st) of
              (goes_on, errors, sc, st) \<Rightarrow>
                if goes_on then (sc\<lparr>sc_executor := Acting (Suc i) acts errors\<rparr>, st)
                else finish_run uuid_text now False errors (sc, st))))"

section \<open>The manager\<close>

text \<open>
  One round of the reporting task: the completions it takes, and the schedules.
  They are gone whether or not the panel accepts them.
\<close>

definition collect_completions :: "Schedule list \<Rightarrow> completion list \<times> Schedule list" where
  "collect_completions schedules =
     (List.map_filter sc_completion schedules, map (\<lambda>sc. sc\<lparr>sc_completion := None\<rparr>) schedules)"

definition refresh :: "int \<Rightarrow> raw_schedule \<Rightarrow> Schedule \<Rightarrow> Schedule" where
  "refresh now raw sc =
     schedule_update raw
       (if \<not> list_all2 trigger_eq (sc_triggers sc) (rs_triggers raw)
        then recreate_triggers now (rs_triggers raw) sc else sc)"

fun update_first :: "('a \<Rightarrow> bool) \<Rightarrow> ('a \<Rightarrow> 'a) \<Rightarrow> 'a list \<Rightarrow> 'a list option" where
  "update_first P f [] = None"
| "update_first P f (x # xs) = (if P x then Some (f x # xs) else map_option ((#) x) (update_first P f xs))"

definition merge_schedule :: "int \<Rightarrow> raw_schedule \<Rightarrow> Schedule list \<Rightarrow> Schedule list" where
  "merge_schedule now raw schedules =
     (case update_first (\<lambda>s. sc_uuid s = rs_uuid raw) (refresh now raw) schedules of
        Some schedules \<Rightarrow> schedules
      | None \<Rightarrow> schedules @ [schedule_new now raw])"

definition update_schedules :: "int \<Rightarrow> raw_schedule list \<Rightarrow> Schedule list \<Rightarrow> Schedule list" where
  "update_schedules now raw_schedules schedules =
     fold (merge_schedule now) raw_schedules
       (filter (\<lambda>s. list_ex (\<lambda>raw. rs_uuid raw = sc_uuid s) raw_schedules) schedules)"

definition trigger_matching :: "(ScheduleTrigger \<Rightarrow> bool) \<Rightarrow> Schedule list \<Rightarrow> Schedule list" where
  "trigger_matching P schedules =
     map (\<lambda>sc. fold (\<lambda>t sc. if P t then trigger False sc else sc) (sc_triggers sc) sc) schedules"

definition execute_server_state_trigger :: "ServerState \<Rightarrow> Schedule list \<Rightarrow> Schedule list" where
  "execute_server_state_trigger st = trigger_matching (\<lambda>t. t = ST_ServerState st)"

definition execute_power_action_trigger :: "ServerPowerAction \<Rightarrow> Schedule list \<Rightarrow> Schedule list" where
  "execute_power_action_trigger act = trigger_matching (\<lambda>t. t = ST_PowerAction act)"

definition execute_crash_trigger :: "Schedule list \<Rightarrow> Schedule list" where
  "execute_crash_trigger = trigger_matching (\<lambda>t. t = ST_Crash)"

end
