(* ===== verification/Schedule_Runs.thy ===== *)
theory Schedule_Runs
  imports Schedules
begin

text \<open>
  What the schedules of theory \<open>Schedules\<close> promise: the run of an executor as one
  function of its actions, the value of a condition, how triggers turn into runs,
  and what an update of the configuration leaves.
\<close>

section \<open>A run of the executor\<close>

text \<open>The whole loop over the actions as one function: success, errors and final state.\<close>

fun run_actions ::
  "(uuid \<Rightarrow> string) \<Rightarrow> (nat \<Rightarrow> 'gi sched_env) \<Rightarrow> nat \<Rightarrow> (uuid \<times> ScheduleAction) list \<Rightarrow> (uuid \<Rightarrow> string option)
     \<Rightarrow> Schedule \<times> 'gi sched_state \<Rightarrow> bool \<times> (uuid \<Rightarrow> string option) \<times> Schedule \<times> 'gi sched_state" where
  "run_actions uuid_text env i [] errors p = (True, errors, p)"
| "run_actions uuid_text env i (a # acts) errors p =
     (case run_action uuid_text (env i) a errors p of
        (goes_on, errors, p) \<Rightarrow>
          if goes_on then run_actions uuid_text env (Suc i) acts errors p else (False, errors, p))"

abbreviation with_executor :: "executor \<Rightarrow> Schedule \<times> 'gi sched_state \<Rightarrow> Schedule \<times> 'gi sched_state" where
  "with_executor x p \<equiv> (fst p\<lparr>sc_executor := x\<rparr>, snd p)"

lemma run_action_executor:
  "run_action ut e a errors (with_executor x p) =
     (case run_action ut e a errors p of (b, errs, q) \<Rightarrow> (b, errs, with_executor x q))"
  by (cases p) (simp add: run_action_def set_status_def split: prod.split sum.split)

lemma finish_run_executor: "finish_run ut now b errs (with_executor x p) = finish_run ut now b errs p"
  by (cases p) (simp add: finish_run_def set_status_def)

lemma steps_run_actions:
  "\<exists>n \<le> Suc (length acts). (executor_step ut view env now f ^^ n) (with_executor (Acting i acts errors) p)
     = (case run_actions ut env i acts errors p of (ok, errs, q) \<Rightarrow> finish_run ut now ok errs q)"
proof (induction acts arbitrary: i errors p)
  case Nil
  have "executor_step ut view env now f (with_executor (Acting i [] errors) p)
      = finish_run ut now True errors p"
    using finish_run_executor [of ut now True errors _ p] by (simp add: executor_step_def)
  then show ?case by (intro exI [of _ 1]) simp
next
  case (Cons a acts)
  obtain b errs q where r: "run_action ut (env i) a errors p = (b, errs, q)" by (cases rule: prod_cases3)
  have step: "executor_step ut view env now f (with_executor (Acting i (a # acts) errors) p) =
      (if b then with_executor (Acting (Suc i) acts errs) q else finish_run ut now False errs q)"
    using run_action_executor [of ut "env i" a errors "Acting i (a # acts) errors" p]
      finish_run_executor [of ut now False errs "Acting i (a # acts) errors" q]
    by (simp add: executor_step_def r)
  show ?case
  proof (cases b)
    case True
    obtain n where n: "n \<le> Suc (length acts)"
      "(executor_step ut view env now f ^^ n) (with_executor (Acting (Suc i) acts errs) q)
        = (case run_actions ut env (Suc i) acts errs q of (ok, errs, q) \<Rightarrow> finish_run ut now ok errs q)"
      using Cons.IH by blast
    show ?thesis
      using n step True by (intro exI [of _ "Suc n"]) (simp add: funpow_Suc_right r del: funpow.simps)
  next
    case False
    show ?thesis
      using step False by (intro exI [of _ "Suc 0"]) (simp add: r)
  qed
qed

lemma run_action_outcome:
  "run_action ut e a errors p = (b, errs, q) \<Longrightarrow>
     (errs = errors \<and> b) \<or> (\<exists>err. errs = errors(fst a \<mapsto> err) \<and> b = ignore_failure (snd a))"
  by (auto simp: run_action_def split: prod.splits sum.splits)

lemma run_actions_outcome:
  assumes "run_actions ut env i acts errors p = (ok, errs, q)"
  shows "(ok \<and> (\<forall>u. errs u \<noteq> errors u \<longrightarrow> (\<exists>act. (u, act) \<in> set acts \<and> ignore_failure act))) \<or>
     (\<not> ok \<and> (\<exists>pre u act post err. acts = pre @ (u, act) # post \<and> \<not> ignore_failure act \<and> errs u = Some err \<and>
        (\<forall>v. errs v \<noteq> errors v \<longrightarrow> v = u \<or> (\<exists>act. (v, act) \<in> set pre \<and> ignore_failure act))))"
  using assms
proof (induction acts arbitrary: i errors p)
  case (Cons a acts)
  obtain b errs1 q1 where r: "run_action ut (env i) a errors p = (b, errs1, q1)" by (cases rule: prod_cases3)
  obtain u act where a: "a = (u, act)" by (cases a)
  have o: "(errs1 = errors \<and> b) \<or> (\<exists>err. errs1 = errors(u \<mapsto> err) \<and> b = ignore_failure act)"
    using run_action_outcome [OF r] by (simp add: a)
  show ?case
  proof (cases b)
    case True
    then have "run_actions ut env (Suc i) acts errs1 q1 = (ok, errs, q)" using Cons.prems by (simp add: r)
    note IH = Cons.IH [OF this]
    have ch: "v = u \<and> ignore_failure act" if "errs1 v \<noteq> errors v" for v
      using o that True by (auto split: if_splits)
    show ?thesis
    proof (cases ok)
      case ok: True
      show ?thesis using IH ok ch a by (metis list.set_intros(1,2))
    next
      case False
      then obtain pre v b2 post err where
        "acts = pre @ (v, b2) # post" "\<not> ignore_failure b2" "errs v = Some err"
        "\<forall>x. errs x \<noteq> errs1 x \<longrightarrow> x = v \<or> (\<exists>act. (x, act) \<in> set pre \<and> ignore_failure act)"
        using IH by blast
      then show ?thesis
        using False ch a by (intro disjI2 conjI exI [of _ "a # pre"] exI) (simp, simp, assumption+, metis list.set_intros)
    qed
  next
    case False
    then have f: "ok = False" "errs = errs1" using Cons.prems by (simp_all add: r)
    obtain err where e: "errs1 = errors(u \<mapsto> err)" "\<not> ignore_failure act" using o False by auto
    have "a # acts = [] @ (u, act) # acts" "errs u = Some err"
      "\<forall>v. errs v \<noteq> errors v \<longrightarrow> v = u" using f e a by auto
    then show ?thesis using f(1) e(2) by blast
  qed
qed simp


section \<open>Updates\<close>

lemma trigger_eq_iff [simp]: "trigger_eq a b \<longleftrightarrow> a = b"
  by (cases a; cases b) simp_all

lemma list_all2_trigger_eq [simp]: "list_all2 trigger_eq xs ys \<longleftrightarrow> xs = ys"
  by (simp add: list.rel_eq trigger_eq_iff [abs_def] ext)

lemma create_trigger_tasks_eq:
  "create_trigger_tasks now ts =
     (filter (\<lambda>t. \<not> is_cron t) ts, List.map_filter (\<lambda>t. case t of ST_Cron c \<Rightarrow> Some (c, now) | _ \<Rightarrow> None) ts)"
  by (induction ts) (auto simp: map_filter_simps split: ScheduleTrigger.split)

lemma refresh_fields:
  "sc_uuid (refresh now raw sc) = sc_uuid sc" "sc_condition (refresh now raw sc) = rs_condition raw"
  "sc_actions (refresh now raw sc) = rs_actions raw"
  "sc_executor (refresh now raw sc) = sc_executor sc" "sc_notified (refresh now raw sc) = sc_notified sc"
  "sc_skip_notified (refresh now raw sc) = sc_skip_notified sc"
  "sc_completion (refresh now raw sc) = sc_completion sc"
  by (simp_all add: refresh_def schedule_update_def recreate_triggers_def split: prod.split)

lemma refresh_triggers:
  "sc_triggers (refresh now raw sc) =
     (if sc_triggers sc = rs_triggers raw then sc_triggers sc else filter (\<lambda>t. \<not> is_cron t) (rs_triggers raw))"
  "sc_tasks (refresh now raw sc) =
     (if sc_triggers sc = rs_triggers raw then sc_tasks sc
      else List.map_filter (\<lambda>t. case t of ST_Cron c \<Rightarrow> Some (c, now) | _ \<Rightarrow> None) (rs_triggers raw))"
  by (simp_all add: refresh_def schedule_update_def recreate_triggers_def create_trigger_tasks_eq)

lemma schedule_new_fields:
  "sc_uuid (schedule_new now raw) = rs_uuid raw" "sc_condition (schedule_new now raw) = rs_condition raw"
  "sc_actions (schedule_new now raw) = rs_actions raw"
  "sc_triggers (schedule_new now raw) = filter (\<lambda>t. \<not> is_cron t) (rs_triggers raw)"
  by (simp_all add: schedule_new_def create_trigger_tasks_eq)

text \<open>A schedule that carries what its configuration says; the executor listens to no cron trigger itself.\<close>

definition in_sync :: "raw_schedule \<Rightarrow> Schedule \<Rightarrow> bool" where
  "in_sync raw sc \<longleftrightarrow> sc_uuid sc = rs_uuid raw \<and> sc_condition sc = rs_condition raw \<and>
     sc_actions sc = rs_actions raw \<and> sc_triggers sc = filter (\<lambda>t. \<not> is_cron t) (rs_triggers raw)"

definition no_cron :: "Schedule \<Rightarrow> bool" where
  "no_cron sc \<longleftrightarrow> (\<forall>t\<in>set (sc_triggers sc). \<not> is_cron t)"

lemma in_sync_refresh: "no_cron sc \<Longrightarrow> sc_uuid sc = rs_uuid raw \<Longrightarrow> in_sync raw (refresh now raw sc)"
proof -
  assume "no_cron sc" "sc_uuid sc = rs_uuid raw"
  moreover have "filter (\<lambda>t. \<not> is_cron t) (sc_triggers sc) = sc_triggers sc"
    using \<open>no_cron sc\<close> by (simp add: no_cron_def filter_True)
  ultimately show ?thesis by (simp add: in_sync_def refresh_fields refresh_triggers) metis
qed

lemma in_sync_no_cron: "in_sync raw sc \<Longrightarrow> no_cron sc"
  by (simp add: in_sync_def no_cron_def)

lemma in_sync_new: "in_sync raw (schedule_new now raw)"
  by (simp add: in_sync_def schedule_new_fields)

lemma update_first_None: "update_first P f xs = None \<longleftrightarrow> (\<forall>x\<in>set xs. \<not> P x)"
  by (induction xs) auto

lemma update_first_Some:
  "update_first P f xs = Some ys \<Longrightarrow> \<exists>as x bs. xs = as @ x # bs \<and> ys = as @ f x # bs \<and> P x \<and> (\<forall>a\<in>set as. \<not> P a)"
proof (induction xs arbitrary: ys)
  case (Cons x xs)
  show ?case
  proof (cases "P x")
    case True
    then show ?thesis using Cons.prems by (intro exI [of _ "[]"]) auto
  next
    case False
    then obtain zs where z: "update_first P f xs = Some zs" "ys = x # zs" using Cons.prems by auto
    from Cons.IH [OF z(1)] obtain as y bs where
      "xs = as @ y # bs" "zs = as @ f y # bs" "P y" "\<forall>a\<in>set as. \<not> P a" by blast
    then show ?thesis using z(2) False by (intro exI [of _ "x # as"] exI [of _ y] exI [of _ bs]) auto
  qed
qed simp

lemma merge_schedule_spec:
  assumes "distinct (map sc_uuid scs)" and "\<forall>sc\<in>set scs. no_cron sc"
  shows "distinct (map sc_uuid (merge_schedule now raw scs)) \<and>
     (\<forall>sc\<in>set (merge_schedule now raw scs). no_cron sc) \<and>
     sc_uuid ` set (merge_schedule now raw scs) = insert (rs_uuid raw) (sc_uuid ` set scs) \<and>
     (\<forall>sc\<in>set (merge_schedule now raw scs).
        if sc_uuid sc = rs_uuid raw then in_sync raw sc else sc \<in> set scs)"
proof (cases "update_first (\<lambda>s. sc_uuid s = rs_uuid raw) (refresh now raw) scs")
  case None
  then have n: "\<forall>s\<in>set scs. sc_uuid s \<noteq> rs_uuid raw" by (simp add: update_first_None)
  then show ?thesis
    using assms None in_sync_new in_sync_no_cron [OF in_sync_new]
    by (auto simp: merge_schedule_def schedule_new_fields)
next
  case (Some ys)
  from update_first_Some [OF this] obtain as x bs where
    s: "scs = as @ x # bs" "ys = as @ refresh now raw x # bs" "sc_uuid x = rs_uuid raw" by blast
  have i: "in_sync raw (refresh now raw x)" using s assms(2) by (intro in_sync_refresh) auto
  have "\<forall>s\<in>set as \<union> set bs. sc_uuid s \<noteq> rs_uuid raw"
    using assms(1) s(1,3) by (auto simp: rev_image_eqI)
  then show ?thesis
    using assms s i in_sync_no_cron [OF i] Some
    by (auto simp: merge_schedule_def refresh_fields)
qed

lemma fold_merge_schedule:
  assumes "distinct (map rs_uuid raws)" and "distinct (map sc_uuid scs)" and "\<forall>sc\<in>set scs. no_cron sc"
  shows "distinct (map sc_uuid (fold (merge_schedule now) raws scs)) \<and>
     (\<forall>sc\<in>set (fold (merge_schedule now) raws scs). no_cron sc) \<and>
     sc_uuid ` set (fold (merge_schedule now) raws scs) = rs_uuid ` set raws \<union> sc_uuid ` set scs \<and>
     (\<forall>sc\<in>set (fold (merge_schedule now) raws scs).
        (\<exists>raw\<in>set raws. in_sync raw sc) \<or> (sc \<in> set scs \<and> sc_uuid sc \<notin> rs_uuid ` set raws))"
  using assms
proof (induction raws arbitrary: scs)
  case (Cons raw raws)
  note m = merge_schedule_spec [OF Cons.prems(2,3), of now raw]
  have "distinct (map rs_uuid raws)" using Cons.prems(1) by simp
  note IH = Cons.IH [OF this, of "merge_schedule now raw scs"]
  have "(\<exists>r\<in>set (raw # raws). in_sync r sc) \<or> (sc \<in> set scs \<and> sc_uuid sc \<notin> rs_uuid ` set (raw # raws))"
    if sc: "sc \<in> set (fold (merge_schedule now) raws (merge_schedule now raw scs))" for sc
  proof -
    consider "\<exists>r\<in>set raws. in_sync r sc"
      | "sc \<in> set (merge_schedule now raw scs)" "sc_uuid sc \<notin> rs_uuid ` set raws"
      using IH m sc by blast
    then show ?thesis
    proof cases
      case 2
      then show ?thesis using m by (cases "sc_uuid sc = rs_uuid raw") auto
    qed simp
  qed
  then show ?case using m IH by auto
qed simp


section \<open>Runs and triggers\<close>

text \<open>
  What may happen to a schedule besides the executor's own steps, and how many runs
  of it wake up in a sequence of both. A step carries the environment it meets.
\<close>

datatype 'gi sched_op =
    OpTrigger bool
  | OpUpdate raw_schedule
  | OpAbort
  | OpStep "nat \<Rightarrow> server_view" "nat \<Rightarrow> 'gi sched_env" int bool

fun is_trigger :: "'gi sched_op \<Rightarrow> bool" where
  "is_trigger (OpTrigger _) = True"
| "is_trigger _ = False"

fun sched_op_run ::
  "(uuid \<Rightarrow> string) \<Rightarrow> 'gi sched_op \<Rightarrow> Schedule \<times> 'gi sched_state \<Rightarrow> Schedule \<times> 'gi sched_state" where
  "sched_op_run ut (OpTrigger skip) (sc, st) = (trigger skip sc, st)"
| "sched_op_run ut (OpUpdate raw) (sc, st) = (schedule_update raw sc, st)"
| "sched_op_run ut OpAbort (sc, st) = (recreate_executor sc, st)"
| "sched_op_run ut (OpStep view env now f) p = executor_step ut view env now f p"

definition starts_run :: "(uuid \<Rightarrow> string) \<Rightarrow> 'gi sched_op \<Rightarrow> Schedule \<times> 'gi sched_state \<Rightarrow> bool" where
  "starts_run ut op p \<longleftrightarrow>
     sc_executor (fst p) = Waiting \<and> sc_executor (fst (sched_op_run ut op p)) \<noteq> Waiting"

fun runs_started :: "(uuid \<Rightarrow> string) \<Rightarrow> 'gi sched_op list \<Rightarrow> Schedule \<times> 'gi sched_state \<Rightarrow> nat" where
  "runs_started ut [] p = 0"
| "runs_started ut (op # ops) p =
     (if starts_run ut op p then 1 else 0) + runs_started ut ops (sched_op_run ut op p)"

definition permits :: "Schedule \<Rightarrow> nat" where
  "permits sc = (if sc_notified sc then 1 else 0) + (if sc_skip_notified sc then 1 else 0)"

lemma permits_executor [simp]: "permits (sc\<lparr>sc_executor := x\<rparr>) = permits sc"
  by (simp add: permits_def)

lemma finish_run_fields:
  "sc_executor (fst (finish_run ut now b errs p)) = Waiting"
  "permits (fst (finish_run ut now b errs p)) = permits (fst p)"
  by (simp_all add: finish_run_def set_status_def permits_def split: prod.split)

lemma run_action_fields:
  "run_action ut e a errors (sc, st) = (b, errs, sc', st') \<Longrightarrow> permits sc' = permits sc"
  by (auto simp: run_action_def set_status_def permits_def split: prod.splits sum.splits)

lemma executor_step_permits:
  "(if starts_run ut (OpStep view env now f) p then 1 else 0) +
     permits (fst (executor_step ut view env now f p)) \<le> permits (fst p)"
proof (cases "sc_executor (fst p)")
  case Waiting
  then show ?thesis
    by (cases p) (auto simp: starts_run_def executor_step_def executor_wake_def permits_def)
next
  case (Acting i acts errors)
  obtain sc st where p: "p = (sc, st)" by (cases p)
  show ?thesis
  proof (cases acts)
    case Nil
    then show ?thesis using Acting p
      by (simp add: starts_run_def executor_step_def finish_run_fields)
  next
    case (Cons a acts')
    obtain b errs sc' st' where r: "run_action ut (env i) a errors (sc, st) = (b, errs, sc', st')"
      by (metis prod_cases4)
    show ?thesis
      using Acting p Cons run_action_fields [OF r] r
      by (auto simp: starts_run_def executor_step_def finish_run_fields)
  qed
qed

lemma runs_started_permits:
  "runs_started ut ops p \<le> length (filter is_trigger ops) + permits (fst p)"
proof (induction ops arbitrary: p)
  case (Cons op ops)
  have "(if starts_run ut op p then 1 else 0) + permits (fst (sched_op_run ut op p))
      \<le> (if is_trigger op then 1 else 0) + permits (fst p)"
  proof (cases op)
    case (OpStep view env now f)
    then show ?thesis using executor_step_permits [of ut view env now f p] by simp
  qed (cases p; auto simp: starts_run_def permits_def trigger_def schedule_update_def recreate_executor_def)+
  then show ?case using Cons.IH [of "sched_op_run ut op p"] by (auto split: if_splits)
qed simp


text \<open>The meaning of a condition at one moment.\<close>

fun holds :: "server_view \<Rightarrow> ScheduleCondition \<Rightarrow> bool" where
  "holds v SC_None = True"
| "holds v (SC_And cs) = list_all (holds v) cs"
| "holds v (SC_Or cs) = list_ex (holds v) cs"
| "holds v (SC_ServerState st) = (sv_state v = st)"
| "holds v (SC_Uptime c x) = compare_u64 c (sv_uptime v) x"
| "holds v (SC_CpuUsage c x) = compare_f64 c (sv_cpu_absolute v) x"
| "holds v (SC_MemoryUsage c x) = compare_u64 c (sv_memory_bytes v) x"
| "holds v (SC_DiskUsage c x) = compare_u64 c (sv_disk_bytes v) x"
| "holds v (SC_FileExists f) = sv_exists v f"

lemma evaluate_holds:
  "(\<And>i. view i = v) \<Longrightarrow> fst (evaluate view c n) = holds v c"
  "(\<And>i. view i = v) \<Longrightarrow> fst (evaluate_all view cs n) = list_all (holds v) cs"
  "(\<And>i. view i = v) \<Longrightarrow> fst (evaluate_any view cs n) = list_ex (holds v) cs"
  by (induction view c n and view cs n and view cs n rule: evaluate_evaluate_all_evaluate_any.induct)
     (auto split: prod.splits)

section \<open>Properties\<close>

text \<open>
  C29: A woken executor whose condition holds runs its actions in order, announces each,
  and stops at the first failing one that does not ignore failures: within one step
  per action it is back waiting with a completion that is unsuccessful exactly then,
  and whose other errors are of earlier actions that ignore failures.
\<close>

theorem executor_runs_actions:
  assumes "sc_executor sc = Waiting" and "executor_wake f sc = Some (skip, sc1)"
    and "skip \<or> fst (evaluate view (sc_condition sc) 0)"
    and "run_actions ut env 0 (sc_actions sc) Map.empty (sc1, st) = (ok, errs, q)"
  shows "(\<exists>n \<le> length (sc_actions sc) + 2.
       (executor_step ut view env now f ^^ n) (sc, st) = finish_run ut now ok errs q) \<and>
     (if ok then \<forall>u\<in>dom errs. \<exists>act. (u, act) \<in> set (sc_actions sc) \<and> ignore_failure act
      else \<exists>pre u act post. sc_actions sc = pre @ (u, act) # post \<and> \<not> ignore_failure act \<and>
        u \<in> dom errs \<and> (\<forall>v\<in>dom errs - {u}. \<exists>act. (v, act) \<in> set pre \<and> ignore_failure act))"
proof
  have sc1: "sc_actions sc1 = sc_actions sc" "sc_condition sc1 = sc_condition sc"
    using assms(2) by (auto simp: executor_wake_def split: if_splits)
  have step: "executor_step ut view env now f (sc, st)
      = with_executor (Acting 0 (sc_actions sc) Map.empty) (sc1, st)"
    using assms(1-3) sc1 by (auto simp: executor_step_def)
  obtain n where "n \<le> Suc (length (sc_actions sc))"
    "(executor_step ut view env now f ^^ n) (with_executor (Acting 0 (sc_actions sc) Map.empty) (sc1, st))
       = finish_run ut now ok errs q"
    using steps_run_actions [of "sc_actions sc" ut view env now f 0 Map.empty "(sc1, st)"] assms(4) by auto
  then show "\<exists>n \<le> length (sc_actions sc) + 2.
       (executor_step ut view env now f ^^ n) (sc, st) = finish_run ut now ok errs q"
    by (intro exI [of _ "Suc n"]) (simp add: funpow_Suc_right step del: funpow.simps)
  have "sc_actions sc = pre @ (u, act) # post \<Longrightarrow> errs u = Some err \<Longrightarrow> u \<in> dom errs" for pre u act post err
    by auto
  then show "if ok then \<forall>u\<in>dom errs. \<exists>act. (u, act) \<in> set (sc_actions sc) \<and> ignore_failure act
      else \<exists>pre u act post. sc_actions sc = pre @ (u, act) # post \<and> \<not> ignore_failure act \<and>
        u \<in> dom errs \<and> (\<forall>v\<in>dom errs - {u}. \<exists>act. (v, act) \<in> set pre \<and> ignore_failure act)"
    using run_actions_outcome [OF assms(4)] by (cases ok) (auto simp: dom_def, blast)
qed

theorem executor_runs_actions_witness:
  "\<exists>n q. n \<le> 3 \<and> (executor_step (\<lambda>_. []) (\<lambda>_. undefined) (\<lambda>_. sample_env) 7 True ^^ n)
      (trigger True (schedule_new 0 \<lparr>rs_uuid = 1, rs_triggers = [], rs_condition = SC_Or [],
         rs_actions = [(2, SA_Sleep 5)]\<rparr>), sample_state)
     = finish_run (\<lambda>_. []) 7 True Map.empty q"
proof -
  let ?sc = "schedule_new 0 \<lparr>rs_uuid = 1, rs_triggers = [], rs_condition = SC_Or [], rs_actions = [(2, SA_Sleep 5)]\<rparr>"
  have w: "sc_executor (trigger True ?sc) = Waiting" "executor_wake True (trigger True ?sc) = Some (True, ?sc)"
    "sc_actions (trigger True ?sc) = [(2, SA_Sleep 5)]"
    by (simp_all add: schedule_new_def trigger_def executor_wake_def)
  have "\<exists>q. run_actions (\<lambda>_. []) (\<lambda>_. sample_env) 0 (sc_actions (trigger True ?sc)) Map.empty
      (?sc, sample_state) = (True, Map.empty, q)"
    unfolding w(3)
    by (simp add: run_action_def set_status_def execute_def is_locked_state_def broadcast_def emit_def
        sample_state_def new_server_def new_lock_def ServerStateLock.defs)
  then obtain q where "run_actions (\<lambda>_. []) (\<lambda>_. sample_env) 0 (sc_actions (trigger True ?sc)) Map.empty
      (?sc, sample_state) = (True, Map.empty, q)" by blast
  from executor_runs_actions [OF w(1,2) _ this, of "\<lambda>_. undefined" 7]
  obtain n where "n \<le> 3" "(executor_step (\<lambda>_. []) (\<lambda>_. undefined) (\<lambda>_. sample_env) 7 True ^^ n)
      (trigger True ?sc, sample_state) = finish_run (\<lambda>_. []) 7 True Map.empty q"
    unfolding w(3) by (auto simp: numeral_3_eq_3)
  then show ?thesis by blast
qed

text \<open>
  If the server does not change while a condition is evaluated, the condition has
  its logical value then: a conjunction (true when empty), a disjunction (false when
  empty), and comparisons that are false on a NaN.
\<close>

theorem evaluate_spec:
  "fst (evaluate (\<lambda>_. v) c n) = holds v c \<and> holds v (SC_And []) \<and> \<not> holds v (SC_Or []) \<and>
   \<not> holds v (SC_CpuUsage cmp NaN)"
  using evaluate_holds(1) [of "\<lambda>_. v" v c n] 
  by (cases cmp; cases "sv_cpu_absolute v") (auto simp: f64_le_def f64_eq_def)

text \<open>
  Triggers coalesce: whatever triggers, updates, aborts and executor steps happen to a
  schedule, it never runs more often than it was triggered.
\<close>

theorem runs_need_triggers:
  "runs_started ut ops (schedule_new now raw, st) \<le> length (filter is_trigger ops)"
  using runs_started_permits [of ut ops "(schedule_new now raw, st)"]
  by (simp add: permits_def schedule_new_def split: prod.splits)

text \<open>
  After an update the server's schedules are exactly the configured ones, each once,
  with the condition, the actions and the event triggers of its configuration.
\<close>

theorem update_schedules_spec:
  assumes "distinct (map rs_uuid raws)" and "distinct (map sc_uuid scs)" and "\<forall>sc\<in>set scs. no_cron sc"
  shows "distinct (map sc_uuid (update_schedules now raws scs)) \<and>
     sc_uuid ` set (update_schedules now raws scs) = rs_uuid ` set raws \<and>
     (\<forall>sc\<in>set (update_schedules now raws scs). no_cron sc \<and> (\<exists>raw\<in>set raws. in_sync raw sc))"
proof -
  let ?kept = "filter (\<lambda>s. list_ex (\<lambda>raw. rs_uuid raw = sc_uuid s) raws) scs"
  have k: "distinct (map sc_uuid ?kept)" "\<forall>sc\<in>set ?kept. no_cron sc"
    using assms(2,3) by (auto simp: distinct_map_filter)
  have sub: "sc_uuid ` set ?kept \<subseteq> rs_uuid ` set raws"
    by (auto simp: list_ex_iff) (metis imageI)
  show ?thesis
    using fold_merge_schedule [OF assms(1) k, of now] sub
    unfolding update_schedules_def by blast
qed

theorem update_schedules_spec_witness:
  "sc_uuid ` set (update_schedules 9 [\<lparr>rs_uuid = 2, rs_triggers = [], rs_condition = SC_None, rs_actions = []\<rparr>]
      [schedule_new 0 \<lparr>rs_uuid = 1, rs_triggers = [ST_Crash], rs_condition = SC_None, rs_actions = []\<rparr>]) = {2}"
proof -
  have "\<forall>sc\<in>set [schedule_new 0 \<lparr>rs_uuid = 1, rs_triggers = [ST_Crash], rs_condition = SC_None, rs_actions = []\<rparr>]. no_cron sc"
    by (simp add: no_cron_def schedule_new_fields)
  from update_schedules_spec [OF _ _ this, of "[\<lparr>rs_uuid = 2, rs_triggers = [], rs_condition = SC_None, rs_actions = []\<rparr>]" 9]
  show ?thesis by simp
qed

text \<open>
  Changes of cron triggers are misjudged. The stored triggers never contain a cron
  trigger, so an update that removes the cron triggers of a schedule finds them
  unchanged and leaves their tasks running, and an update that changes nothing
  restarts the tasks of every schedule that has one.
\<close>

theorem cron_changes_missed:
  assumes "rs_uuid raw' = rs_uuid raw" and "rs_triggers raw = [ST_Cron c]" and "rs_triggers raw' = []"
  shows "map sc_tasks (update_schedules t1 [raw'] [schedule_new t0 raw]) = [[(c, t0)]] \<and>
     map sc_tasks (update_schedules t1 [raw] [schedule_new t0 raw]) = [[(c, t1)]]"
  using assms
  by (simp add: update_schedules_def merge_schedule_def schedule_new_def create_trigger_tasks_eq
      refresh_def schedule_update_def recreate_triggers_def map_filter_simps)

theorem cron_changes_missed_witness:
  "map sc_tasks (update_schedules 9 [\<lparr>rs_uuid = 1, rs_triggers = [], rs_condition = SC_None, rs_actions = []\<rparr>]
      [schedule_new 4 \<lparr>rs_uuid = 1, rs_triggers = [ST_Cron ''* * * * * *''], rs_condition = SC_None, rs_actions = []\<rparr>])
     = [[(''* * * * * *'', 4)]]"
  using cron_changes_missed
    [of "\<lparr>rs_uuid = 1, rs_triggers = [], rs_condition = SC_None, rs_actions = []\<rparr>"
        "\<lparr>rs_uuid = 1, rs_triggers = [ST_Cron ''* * * * * *''], rs_condition = SC_None, rs_actions = []\<rparr>"]
  by simp

text \<open>
  Aborting a run leaves the schedule marked as running: the executor is replaced while
  an action is under way, the status still names that action, no completion is
  stored, and it stays so until the next trigger.
\<close>

theorem abort_leaves_running:
  assumes "sc_executor sc = Acting i (a # acts) errors" and "permits sc = 0"
    and "run_action ut (env i) a errors (sc, st) = (True, errs, sc', st')"
    and "aborted = recreate_executor (fst (executor_step ut view env now f (sc, st)))"
  shows "sc_running aborted \<and> sc_step aborted = Some (fst a) \<and> sc_completion aborted = sc_completion sc \<and>
     (executor_step ut view' env' now' f' ^^ n) (aborted, st') = (aborted, st')"
proof -
  have s: "sc_running sc'" "sc_step sc' = Some (fst a)" "sc_completion sc' = sc_completion sc"
    "permits sc' = 0"
    using assms(2,3) by (auto simp: run_action_def set_status_def permits_def split: prod.splits sum.splits if_splits)
  have a: "aborted = sc'\<lparr>sc_executor := Waiting\<rparr>"
    using assms(1,3,4) by (simp add: executor_step_def recreate_executor_def)
  have "executor_step ut view' env' now' f' (aborted, st') = (aborted, st')"
    using s(4) a by (auto simp: executor_step_def executor_wake_def permits_def split: if_splits)
  then have "(executor_step ut view' env' now' f' ^^ n) (aborted, st') = (aborted, st')"
    by (induction n) simp_all
  then show ?thesis using s a by simp
qed

theorem abort_leaves_running_witness:
  "\<exists>sc st. sc_executor sc = Waiting \<and> sc_running sc \<and>
     (executor_step (\<lambda>_. []) (\<lambda>_. undefined) (\<lambda>_. sample_env) 7 True ^^ 5) (sc, st) = (sc, st)"
proof -
  let ?a = "(2, SA_Sleep 5) :: uuid \<times> ScheduleAction"
  let ?sc = "schedule_new 0 \<lparr>rs_uuid = 1, rs_triggers = [], rs_condition = SC_None, rs_actions = [?a, ?a]\<rparr>
      \<lparr>sc_executor := Acting 0 [?a, ?a] Map.empty\<rparr>"
  have p: "sc_executor ?sc = Acting 0 [?a, ?a] Map.empty" "permits ?sc = 0"
    by (simp_all add: schedule_new_def permits_def)
  have "\<exists>sc' st'. run_action (\<lambda>_. []) sample_env ?a Map.empty (?sc, sample_state) = (True, Map.empty, sc', st')"
    by (simp add: run_action_def set_status_def execute_def is_locked_state_def broadcast_def emit_def
        sample_state_def new_server_def new_lock_def ServerStateLock.defs)
  then obtain sc' st' where
    "run_action (\<lambda>_. []) sample_env ?a Map.empty (?sc, sample_state) = (True, Map.empty, sc', st')" by blast
  note ab = abort_leaves_running [OF p, where env = "\<lambda>_. sample_env", OF this refl,
      where n = 5 and view = "\<lambda>_. undefined" and now = 7 and f = True and view' = "\<lambda>_. undefined"
        and env' = "\<lambda>_. sample_env" and now' = 7 and f' = True]
  show ?thesis
    using ab by (intro exI [of _ "recreate_executor (fst (executor_step (\<lambda>_. []) (\<lambda>_. undefined)
        (\<lambda>_. sample_env) 7 True (?sc, sample_state)))"] exI [of _ st'] conjI)
      (auto simp: recreate_executor_def)
qed

end
