(* ===== verification/Cap_Filesystem.thy ===== *)
theory Cap_Filesystem
  imports Filesystem
begin

text \<open>
  \<open>server/filesystem/cap/mod.rs\<close>: the operations of \<open>CapFilesystem\<close>. Each makes its
  paths relative to the server's directory and hands them to \<open>cap_std\<close>'s handle of
  that directory; a few use the directory's own absolute path when the relative
  path is empty. The asynchronous and the synchronous variant of an operation are
  the same function unless said otherwise.

  An operation returns its result and the calls it makes. \<open>run\<close> is the operating
  system: the result of a call.
\<close>

section \<open>Calls\<close>

record OpenOptions =
  oo_read :: bool
  oo_write :: bool
  oo_append :: bool
  oo_create :: bool
  oo_truncate :: bool

datatype dir_op =
    D_CreateDirAll | D_CreateDir | D_RemoveDir | D_RemoveDirAll | D_RemoveFile | D_Rename
  | D_Metadata | D_SymlinkMetadata | D_Canonicalize | D_ReadLink | D_ReadLinkContents
  | D_ReadToString | D_Open | D_OpenWith OpenOptions | D_Write string | D_Create | D_Copy
  | D_SetPermissions nat | D_ChmodAt nat | D_UtimensAt int int | D_Symlink | D_HardLink | D_ReadDir

datatype base_op = B_Metadata | B_SymlinkMetadata | B_SetPermissions nat | B_ReadDir

datatype cap_call = InDir dir_op "path list" | OnBase base_op path

type_synonym 'r cap_run = "cap_call \<Rightarrow> 'r result"

record CapFilesystem =
  base_path :: path
  inner :: bool

definition rel :: "CapFilesystem \<Rightarrow> path \<Rightarrow> path" where
  "rel self p = relative_path (base_path self) p"

text \<open>\<open>get_inner\<close>, then the call.\<close>

definition in_dir :: "'r cap_run \<Rightarrow> dir_op \<Rightarrow> path list \<Rightarrow> CapFilesystem \<Rightarrow> 'r result \<times> cap_call list" where
  "in_dir run op paths self =
     (if inner self then (run (InDir op paths), [InDir op paths])
      else (Inl ''filesystem not initialized'', []))"

text \<open>The operations with a special case for the directory itself.\<close>

definition in_dir_or_base ::
  "'r cap_run \<Rightarrow> base_op \<Rightarrow> dir_op \<Rightarrow> path \<Rightarrow> CapFilesystem \<Rightarrow> 'r result \<times> cap_call list" where
  "in_dir_or_base run bop op p self =
     (if rel self p = [] then (run (OnBase bop (base_path self)), [OnBase bop (base_path self)])
      else in_dir run op [rel self p] self)"

section \<open>Operations\<close>

definition cap_create_dir_all :: "'r cap_run \<Rightarrow> path \<Rightarrow> CapFilesystem \<Rightarrow> 'r result \<times> cap_call list" where
  "cap_create_dir_all run p self = in_dir run D_CreateDirAll [rel self p] self"

definition cap_create_dir :: "'r cap_run \<Rightarrow> path \<Rightarrow> CapFilesystem \<Rightarrow> 'r result \<times> cap_call list" where
  "cap_create_dir run p self = in_dir run D_CreateDir [rel self p] self"

definition cap_remove_dir :: "'r cap_run \<Rightarrow> path \<Rightarrow> CapFilesystem \<Rightarrow> 'r result \<times> cap_call list" where
  "cap_remove_dir run p self = in_dir run D_RemoveDir [rel self p] self"

definition cap_remove_dir_all :: "'r cap_run \<Rightarrow> path \<Rightarrow> CapFilesystem \<Rightarrow> 'r result \<times> cap_call list" where
  "cap_remove_dir_all run p self = in_dir run D_RemoveDirAll [rel self p] self"

definition cap_remove_file :: "'r cap_run \<Rightarrow> path \<Rightarrow> CapFilesystem \<Rightarrow> 'r result \<times> cap_call list" where
  "cap_remove_file run p self = in_dir run D_RemoveFile [rel self p] self"

text \<open>
  The operations on two directories. Both paths are made relative to this one's base;
  the destination's handle is taken after this one's.
\<close>

definition in_two_dirs ::
  "'r cap_run \<Rightarrow> dir_op \<Rightarrow> path \<Rightarrow> CapFilesystem \<Rightarrow> path \<Rightarrow> CapFilesystem \<Rightarrow> 'r result \<times> cap_call list" where
  "in_two_dirs run op a to_dir b self =
     (if inner self \<and> \<not> inner to_dir then (Inl ''filesystem not initialized'', [])
      else in_dir run op [rel self a, rel self b] self)"

definition cap_rename ::
  "'r cap_run \<Rightarrow> path \<Rightarrow> CapFilesystem \<Rightarrow> path \<Rightarrow> CapFilesystem \<Rightarrow> 'r result \<times> cap_call list" where
  "cap_rename run from_path to_dir to_path self = in_two_dirs run D_Rename from_path to_dir to_path self"

definition cap_metadata :: "'r cap_run \<Rightarrow> path \<Rightarrow> CapFilesystem \<Rightarrow> 'r result \<times> cap_call list" where
  "cap_metadata run p self = in_dir_or_base run B_Metadata D_Metadata p self"

definition cap_symlink_metadata :: "'r cap_run \<Rightarrow> path \<Rightarrow> CapFilesystem \<Rightarrow> 'r result \<times> cap_call list" where
  "cap_symlink_metadata run p self = in_dir_or_base run B_SymlinkMetadata D_SymlinkMetadata p self"

definition cap_canonicalize :: "path cap_run \<Rightarrow> path \<Rightarrow> CapFilesystem \<Rightarrow> path result \<times> cap_call list" where
  "cap_canonicalize run p self =
     (if rel self p = [] then (Inr [], []) else in_dir run D_Canonicalize [rel self p] self)"

definition cap_read_link :: "'r cap_run \<Rightarrow> path \<Rightarrow> CapFilesystem \<Rightarrow> 'r result \<times> cap_call list" where
  "cap_read_link run p self = in_dir run D_ReadLink [rel self p] self"

definition cap_read_link_contents :: "'r cap_run \<Rightarrow> path \<Rightarrow> CapFilesystem \<Rightarrow> 'r result \<times> cap_call list" where
  "cap_read_link_contents run p self = in_dir run D_ReadLinkContents [rel self p] self"

definition cap_read_to_string :: "'r cap_run \<Rightarrow> path \<Rightarrow> CapFilesystem \<Rightarrow> 'r result \<times> cap_call list" where
  "cap_read_to_string run p self = in_dir run D_ReadToString [rel self p] self"

definition cap_open :: "'r cap_run \<Rightarrow> path \<Rightarrow> CapFilesystem \<Rightarrow> 'r result \<times> cap_call list" where
  "cap_open run p self = in_dir run D_Open [rel self p] self"

definition cap_open_with ::
  "'r cap_run \<Rightarrow> path \<Rightarrow> OpenOptions \<Rightarrow> CapFilesystem \<Rightarrow> 'r result \<times> cap_call list" where
  "cap_open_with run p options self = in_dir run (D_OpenWith options) [rel self p] self"

definition cap_write :: "'r cap_run \<Rightarrow> path \<Rightarrow> string \<Rightarrow> CapFilesystem \<Rightarrow> 'r result \<times> cap_call list" where
  "cap_write run p d self = in_dir run (D_Write d) [rel self p] self"

definition cap_create :: "'r cap_run \<Rightarrow> path \<Rightarrow> CapFilesystem \<Rightarrow> 'r result \<times> cap_call list" where
  "cap_create run p self = in_dir run D_Create [rel self p] self"

definition cap_copy ::
  "'r cap_run \<Rightarrow> path \<Rightarrow> CapFilesystem \<Rightarrow> path \<Rightarrow> CapFilesystem \<Rightarrow> 'r result \<times> cap_call list" where
  "cap_copy run from_path to_dir to_path self = in_two_dirs run D_Copy from_path to_dir to_path self"

text \<open>The synchronous variant of \<open>set_permissions\<close> has no special case.\<close>

definition cap_async_set_permissions :: "'r cap_run \<Rightarrow> path \<Rightarrow> nat \<Rightarrow> CapFilesystem \<Rightarrow> 'r result \<times> cap_call list" where
  "cap_async_set_permissions run p mode self =
     in_dir_or_base run (B_SetPermissions mode) (D_SetPermissions mode) p self"

definition cap_set_permissions :: "'r cap_run \<Rightarrow> path \<Rightarrow> nat \<Rightarrow> CapFilesystem \<Rightarrow> 'r result \<times> cap_call list" where
  "cap_set_permissions run p mode self = in_dir run (D_SetPermissions mode) [rel self p] self"

definition cap_set_symlink_permissions :: "'r cap_run \<Rightarrow> path \<Rightarrow> nat \<Rightarrow> CapFilesystem \<Rightarrow> 'r result \<times> cap_call list" where
  "cap_set_symlink_permissions run p mode self =
     in_dir_or_base run (B_SetPermissions mode) (D_ChmodAt mode) p self"

text \<open>Times are nanoseconds from the epoch; one before it is an error.\<close>

definition cap_set_times ::
  "'r cap_run \<Rightarrow> path \<Rightarrow> int \<Rightarrow> int option \<Rightarrow> int \<Rightarrow> CapFilesystem \<Rightarrow> 'r result \<times> cap_call list" where
  "cap_set_times run p modification_time access_time now self =
     (let access = case_option now id access_time in
      if \<not> inner self then (Inl ''filesystem not initialized'', [])
      else if modification_time < 0 \<or> access < 0 then (Inl ''second time provided was later than self'', [])
      else in_dir run (D_UtimensAt modification_time access) [rel self p] self)"

definition cap_symlink :: "'r cap_run \<Rightarrow> path \<Rightarrow> path \<Rightarrow> CapFilesystem \<Rightarrow> 'r result \<times> cap_call list" where
  "cap_symlink run target link self = in_dir run D_Symlink [rel self target, rel self link] self"

definition cap_hard_link ::
  "'r cap_run \<Rightarrow> path \<Rightarrow> CapFilesystem \<Rightarrow> path \<Rightarrow> CapFilesystem \<Rightarrow> 'r result \<times> cap_call list" where
  "cap_hard_link run target dst_dir link self = in_two_dirs run D_HardLink target dst_dir link self"

definition cap_read_dir :: "'r cap_run \<Rightarrow> path \<Rightarrow> CapFilesystem \<Rightarrow> 'r result \<times> cap_call list" where
  "cap_read_dir run p self = in_dir_or_base run B_ReadDir D_ReadDir p self"

text \<open>The names of the entries up to the first one that cannot be read.\<close>

fun read_dir_all :: "(string + bool \<times> string) list \<Rightarrow> string list" where
  "read_dir_all [] = []"
| "read_dir_all (Inl err # es) = []"
| "read_dir_all (Inr (is_dir, name) # es) = name # read_dir_all es"

section \<open>All operations as one\<close>

datatype cap_request =
    RqCreateDirAll path | RqCreateDir path | RqRemoveDir path | RqRemoveDirAll path | RqRemoveFile path
  | RqRename path CapFilesystem path | RqMetadata path | RqSymlinkMetadata path | RqReadLink path
  | RqReadLinkContents path | RqReadToString path | RqOpen path | RqOpenWith path OpenOptions | RqWrite path string
  | RqCreate path | RqCopy path CapFilesystem path | RqAsyncSetPermissions path nat
  | RqSetPermissions path nat | RqSetSymlinkPermissions path nat | RqSetTimes path int "int option" int
  | RqSymlink path path | RqHardLink path CapFilesystem path | RqReadDir path

fun cap_exec :: "'r cap_run \<Rightarrow> cap_request \<Rightarrow> CapFilesystem \<Rightarrow> 'r result \<times> cap_call list" where
  "cap_exec run (RqCreateDirAll p) = cap_create_dir_all run p"
| "cap_exec run (RqCreateDir p) = cap_create_dir run p"
| "cap_exec run (RqRemoveDir p) = cap_remove_dir run p"
| "cap_exec run (RqRemoveDirAll p) = cap_remove_dir_all run p"
| "cap_exec run (RqRemoveFile p) = cap_remove_file run p"
| "cap_exec run (RqRename p d q) = cap_rename run p d q"
| "cap_exec run (RqMetadata p) = cap_metadata run p"
| "cap_exec run (RqSymlinkMetadata p) = cap_symlink_metadata run p"
| "cap_exec run (RqReadLink p) = cap_read_link run p"
| "cap_exec run (RqReadLinkContents p) = cap_read_link_contents run p"
| "cap_exec run (RqReadToString p) = cap_read_to_string run p"
| "cap_exec run (RqOpen p) = cap_open run p"
| "cap_exec run (RqOpenWith p opts) = cap_open_with run p opts"
| "cap_exec run (RqWrite p d) = cap_write run p d"
| "cap_exec run (RqCreate p) = cap_create run p"
| "cap_exec run (RqCopy p d q) = cap_copy run p d q"
| "cap_exec run (RqAsyncSetPermissions p m) = cap_async_set_permissions run p m"
| "cap_exec run (RqSetPermissions p m) = cap_set_permissions run p m"
| "cap_exec run (RqSetSymlinkPermissions p m) = cap_set_symlink_permissions run p m"
| "cap_exec run (RqSetTimes p m a now) = cap_set_times run p m a now"
| "cap_exec run (RqSymlink p q) = cap_symlink run p q"
| "cap_exec run (RqHardLink p d q) = cap_hard_link run p d q"
| "cap_exec run (RqReadDir p) = cap_read_dir run p"

fun request_paths :: "cap_request \<Rightarrow> path list" where
  "request_paths (RqRename p d q) = [p, q]"
| "request_paths (RqCopy p d q) = [p, q]"
| "request_paths (RqHardLink p d q) = [p, q]"
| "request_paths (RqSymlink p q) = [p, q]"
| "request_paths (RqCreateDirAll p) = [p]"
| "request_paths (RqCreateDir p) = [p]"
| "request_paths (RqRemoveDir p) = [p]"
| "request_paths (RqRemoveDirAll p) = [p]"
| "request_paths (RqRemoveFile p) = [p]"
| "request_paths (RqMetadata p) = [p]"
| "request_paths (RqSymlinkMetadata p) = [p]"
| "request_paths (RqReadLink p) = [p]"
| "request_paths (RqReadLinkContents p) = [p]"
| "request_paths (RqReadToString p) = [p]"
| "request_paths (RqOpen p) = [p]"
| "request_paths (RqOpenWith p opts) = [p]"
| "request_paths (RqWrite p d) = [p]"
| "request_paths (RqCreate p) = [p]"
| "request_paths (RqAsyncSetPermissions p m) = [p]"
| "request_paths (RqSetPermissions p m) = [p]"
| "request_paths (RqSetSymlinkPermissions p m) = [p]"
| "request_paths (RqSetTimes p m a now) = [p]"
| "request_paths (RqReadDir p) = [p]"

text \<open>A call that stays inside the server's directory.\<close>

fun confined :: "CapFilesystem \<Rightarrow> cap_call \<Rightarrow> bool" where
  "confined self (InDir op ps) \<longleftrightarrow> inner self \<and> list_all (\<lambda>p. ParentDir \<notin> set p \<and> RootDir \<notin> set p) ps"
| "confined self (OnBase bop p) \<longleftrightarrow> p = base_path self"

lemmas cap_defs =
  cap_create_dir_all_def cap_create_dir_def cap_remove_dir_def cap_remove_dir_all_def cap_remove_file_def
  cap_rename_def cap_metadata_def cap_symlink_metadata_def cap_read_link_def cap_read_link_contents_def
  cap_read_to_string_def cap_open_def cap_open_with_def cap_write_def cap_create_def cap_copy_def
  cap_async_set_permissions_def cap_set_permissions_def cap_set_symlink_permissions_def cap_set_times_def
  cap_symlink_def cap_hard_link_def cap_read_dir_def

lemma rel_confined:
  assumes "wf_path p" and "base_path self \<noteq> []"
  shows "ParentDir \<notin> set (rel self p) \<and> RootDir \<notin> set (rel self p)"
  using resolved_no_root [OF relative_path_resolved [OF assms]] by (simp add: rel_def)

lemma in_dir_confined:
  "list_all (\<lambda>p. ParentDir \<notin> set p \<and> RootDir \<notin> set p) ps \<Longrightarrow>
     list_all (confined self) (snd (in_dir run op ps self))"
  by (simp add: in_dir_def)

lemma in_dir_or_base_confined:
  "ParentDir \<notin> set (rel self p) \<and> RootDir \<notin> set (rel self p) \<Longrightarrow>
     list_all (confined self) (snd (in_dir_or_base run bop op p self))"
  by (simp add: in_dir_or_base_def in_dir_def)

lemma in_two_dirs_confined:
  "ParentDir \<notin> set (rel self p) \<and> RootDir \<notin> set (rel self p) \<Longrightarrow>
   ParentDir \<notin> set (rel self q) \<and> RootDir \<notin> set (rel self q) \<Longrightarrow>
     list_all (confined self) (snd (in_two_dirs run op p d q self))"
  by (simp add: in_two_dirs_def in_dir_def)

section \<open>Properties\<close>



text \<open>
  A symbolic link does not point where it was asked to. Its target is turned into a
  path relative to the server's directory, but is stored as the link's contents,
  which are read relative to the link's own directory: for a link in a
  subdirectory, the stored target names a different file than the requested one,
  and the leading \<open>..\<close> of a relative target are lost.
\<close>

theorem symlink_target_misread:
  assumes "inner self" and "base_path self = RootDir # b" and "\<not> prefix b t"
    and "list_all is_normal d" and "d \<noteq> []" and "list_all is_normal t"
  shows "snd (cap_symlink run (RootDir # t) (d @ [Normal l]) self) = [InDir D_Symlink [t, d @ [Normal l]]] \<and>
     snd (cap_symlink run (ParentDir # t) (d @ [Normal l]) self) = [InDir D_Symlink [t, d @ [Normal l]]] \<and>
     rel self (d @ t) \<noteq> rel self (RootDir # t)"
proof -
  have normal: "rel self q = q" if "list_all is_normal q" for q
  proof -
    have "resolved q" using that by (cases q) (simp_all add: resolved_def)
    then show ?thesis by (simp add: rel_def assms(2) relative_path_of_resolved)
  qed
  have "take (length b) t \<noteq> b" using assms(3) take_is_prefix by metis
  then have root: "rel self (RootDir # t) = t"
    using normal [OF assms(6)] assms(6)
    by (auto simp: rel_def relative_path_def strip_prefix_def assms(2) resolve_path_def fold_resolve_normal)
  have up: "rel self (ParentDir # t) = t"
    using assms(6) by (simp add: rel_def relative_path_def strip_prefix_def assms(2) resolve_path_def
        resolve_step_def fold_resolve_normal)
  show ?thesis
    using assms(1,4,5,6) root up normal [of "d @ [Normal l]"] normal [of "d @ t"]
    by (simp add: cap_symlink_def in_dir_def)
qed

theorem symlink_target_misread_witness:
  "snd (cap_symlink Inr [RootDir, Normal ''a''] [Normal ''d'', Normal ''l'']
      \<lparr>base_path = [RootDir, Normal ''srv''], inner = True\<rparr>)
     = [InDir D_Symlink [[Normal ''a''], [Normal ''d'', Normal ''l'']]]"
  using symlink_target_misread [of "\<lparr>base_path = [RootDir, Normal ''srv''], inner = True\<rparr>"
      "[Normal ''srv'']" "[Normal ''a'']" "[Normal ''d'']" Inr "''l''"]
  by simp

end
