(* ===== verification/Dir_Walk.thy ===== *)
theory Dir_Walk
  imports Filesystem
begin

text \<open>
  \<open>server/filesystem/cap/utils.rs\<close>: reading a directory in batches and walking a
  directory tree. A directory entry is an error or whether it is a directory and its
  name. \<open>rd\<close> is \<open>read_dir\<close>: the entries of the directory at a path. The asynchronous
  and the synchronous walk are the same function.
\<close>

type_synonym dir_entry = "string + bool \<times> string"

section \<open>Batched reading\<close>

text \<open>The source and the buffer; both are taken out while a batch is read.\<close>

record AsyncCapReadDir =
  rd_source :: "dir_entry list option"
  rd_buffer :: "dir_entry list option"

definition cap_read_dir_new :: "dir_entry list \<Rightarrow> AsyncCapReadDir" where
  "cap_read_dir_new es = \<lparr>rd_source = Some es, rd_buffer = Some []\<rparr>"

text \<open>\<open>joined\<close>: whether the blocking task returns (it does not when it panics).\<close>

definition cap_next_entry :: "bool \<Rightarrow> AsyncCapReadDir \<Rightarrow> dir_entry option \<times> AsyncCapReadDir" where
  "cap_next_entry joined self =
     (case rd_buffer self of
        Some (e # es) \<Rightarrow> (Some e, self\<lparr>rd_buffer := Some es\<rparr>)
      | buffer \<Rightarrow>
          (case rd_source self of
             None \<Rightarrow> (None, self)
           | Some read_dir \<Rightarrow>
               (let self = self\<lparr>rd_source := None\<rparr> in
                case buffer of
                  None \<Rightarrow> (None, self)
                | Some b \<Rightarrow>
                    (let self = self\<lparr>rd_buffer := None\<rparr> in
                     if \<not> joined then (None, self)
                     else case b @ take 32 read_dir of
                       [] \<Rightarrow> (None, self\<lparr>rd_source := Some (drop 32 read_dir), rd_buffer := Some []\<rparr>)
                     | e # es \<Rightarrow>
                         (Some e, self\<lparr>rd_source := Some (drop 32 read_dir), rd_buffer := Some es\<rparr>)))))"

fun cap_entries :: "nat \<Rightarrow> AsyncCapReadDir \<Rightarrow> dir_entry option list" where
  "cap_entries 0 self = []"
| "cap_entries (Suc n) self =
     (case cap_next_entry True self of (e, self) \<Rightarrow> e # cap_entries n self)"

section \<open>The walk\<close>

type_synonym walk_stack = "(path \<times> dir_entry list) list"

definition any_ignored :: "(path \<Rightarrow> bool \<Rightarrow> bool) list \<Rightarrow> path \<Rightarrow> bool \<Rightarrow> bool" where
  "any_ignored ignored p is_dir = list_ex (\<lambda>m. m p is_dir) ignored"

definition walk_new :: "(path \<Rightarrow> dir_entry list result) \<Rightarrow> path \<Rightarrow> walk_stack result" where
  "walk_new rd p = map_sum id (\<lambda>es. [(p, es)]) (rd p)"

text \<open>One call: the entry, \<open>None\<close> at the end. The top of the stack is the head of the list.\<close>

fun walk_next ::
  "(path \<Rightarrow> dir_entry list result) \<Rightarrow> (path \<Rightarrow> bool \<Rightarrow> bool) list \<Rightarrow> walk_stack
     \<Rightarrow> (bool \<times> path) result option \<times> walk_stack" where
  "walk_next rd ignored [] = (None, [])"
| "walk_next rd ignored ((parent_path, []) # stack) = walk_next rd ignored stack"
| "walk_next rd ignored ((parent_path, Inl err # es) # stack) = (Some (Inl err), (parent_path, es) # stack)"
| "walk_next rd ignored ((parent_path, Inr (is_dir, name) # es) # stack) =
     (let full_path = parent_path @ [Normal name] in
      if any_ignored ignored full_path is_dir then walk_next rd ignored ((parent_path, es) # stack)
      else if is_dir then
        (case rd full_path of
           Inr dir \<Rightarrow> (Some (Inr (is_dir, full_path)), (full_path, dir) # (parent_path, es) # stack)
         | Inl e \<Rightarrow> (Some (Inl e), (parent_path, es) # stack))
      else (Some (Inr (is_dir, full_path)), (parent_path, es) # stack))"

text \<open>The results of a number of calls, up to the first \<open>None\<close>.\<close>

fun walk_run ::
  "(path \<Rightarrow> dir_entry list result) \<Rightarrow> (path \<Rightarrow> bool \<Rightarrow> bool) list \<Rightarrow> nat \<Rightarrow> walk_stack
     \<Rightarrow> (bool \<times> path) result list" where
  "walk_run rd ignored 0 stack = []"
| "walk_run rd ignored (Suc n) stack =
     (case walk_next rd ignored stack of
        (None, stack) \<Rightarrow> []
      | (Some r, stack) \<Rightarrow> r # walk_run rd ignored n stack)"

text \<open>
  \<open>run_multithreaded\<close> over the results of a walk: the result, and the entries handed
  to a task. \<open>err\<close> is the shared error; \<open>noticed i\<close> tells whether the task that set
  it has finished by the time the \<open>i\<close>-th entry is looked at. When several tasks fail,
  the error is that of one of them; here the last one started.
\<close>

fun run_multithreaded ::
  "(nat \<Rightarrow> bool) \<Rightarrow> (bool \<times> path \<Rightarrow> unit result) \<Rightarrow> nat \<Rightarrow> (bool \<times> path) result list \<Rightarrow> string option
     \<Rightarrow> unit result \<times> (bool \<times> path) list" where
  "run_multithreaded noticed func i [] err = (case err of None \<Rightarrow> Inr () | Some e \<Rightarrow> Inl e, [])"
| "run_multithreaded noticed func i (Inl e # rs) err = (Inl e, [])"
| "run_multithreaded noticed func i (Inr entry # rs) err =
     (case err of
        Some e \<Rightarrow>
          if noticed i then (Inl e, [])
          else apsnd ((#) entry) (run_multithreaded noticed func (Suc i) rs
                 (case func entry of Inl e' \<Rightarrow> Some e' | Inr _ \<Rightarrow> Some e))
      | None \<Rightarrow>
          apsnd ((#) entry) (run_multithreaded noticed func (Suc i) rs
            (case func entry of Inl e' \<Rightarrow> Some e' | Inr _ \<Rightarrow> None)))"

section \<open>The tree that is walked\<close>

datatype tree = File | Dir "(string \<times> tree) list"

fun is_dir :: "tree \<Rightarrow> bool" where
  "is_dir File = False"
| "is_dir (Dir cs) = True"

definition entries_of :: "(string \<times> tree) list \<Rightarrow> dir_entry list" where
  "entries_of cs = map (\<lambda>(name, t). Inr (is_dir t, name)) cs"

text \<open>\<open>rd\<close> shows the children \<open>cs\<close> of the directory at \<open>p\<close>, and those of every directory below.\<close>

fun displays :: "(path \<Rightarrow> dir_entry list result) \<Rightarrow> path \<Rightarrow> tree \<Rightarrow> bool" where
  "displays rd p File = True"
| "displays rd p (Dir cs) \<longleftrightarrow>
     rd p = Inr (entries_of cs) \<and> (\<forall>(name, t)\<in>set cs. displays rd (p @ [Normal name]) t)"

text \<open>The entries below a directory in the order of a recursive traversal; an ignored one hides what is below it.\<close>

fun preorder :: "(path \<Rightarrow> bool \<Rightarrow> bool) list \<Rightarrow> path \<Rightarrow> tree \<Rightarrow> (bool \<times> path) list" where
  "preorder ignored p File = []"
| "preorder ignored p (Dir cs) =
     concat (map (\<lambda>(name, t).
       let q = p @ [Normal name] in
       if any_ignored ignored q (is_dir t) then [] else (is_dir t, q) # preorder ignored q t) cs)"

section \<open>Lemmas\<close>

lemma cap_next_entry_stored:
  assumes "rd_buffer self = Some b" and "rd_source self = Some s"
  shows "\<exists>b' s'. cap_next_entry True self =
      (case b @ s of [] \<Rightarrow> None | e # _ \<Rightarrow> Some e, \<lparr>rd_source = Some s', rd_buffer = Some b', \<dots> = ()\<rparr>) \<and>
      b' @ s' = tl (b @ s)"
proof (cases b)
  case Nil
  show ?thesis
  proof (cases s)
    case (Cons e es)
    then show ?thesis
      using assms Nil by (intro exI [of _ "take 31 es"] exI [of _ "drop 31 es"]) (simp add: cap_next_entry_def Let_def)
  qed (use assms Nil in \<open>simp add: cap_next_entry_def Let_def\<close>)
next
  case (Cons e es)
  then show ?thesis
    using assms by (intro exI [of _ es] exI [of _ s]) (cases self; simp add: cap_next_entry_def)
qed

lemma cap_entries_stored:
  "rd_buffer self = Some b \<Longrightarrow> rd_source self = Some s \<Longrightarrow>
     cap_entries n self = map Some (take n (b @ s)) @ replicate (n - length (b @ s)) None"
proof (induction n arbitrary: self b s)
  case (Suc n)
  from cap_next_entry_stored [OF Suc.prems] obtain b' s' where
    n: "cap_next_entry True self =
      (case b @ s of [] \<Rightarrow> None | e # _ \<Rightarrow> Some e, \<lparr>rd_source = Some s', rd_buffer = Some b'\<rparr>)"
    "b' @ s' = tl (b @ s)" by blast
  have "cap_entries n \<lparr>rd_source = Some s', rd_buffer = Some b'\<rparr> =
      map Some (take n (tl (b @ s))) @ replicate (n - length (tl (b @ s))) None"
    using Suc.IH [of "\<lparr>rd_source = Some s', rd_buffer = Some b'\<rparr>" b' s'] n(2) by simp
  then show ?case using n(1) by (cases "b @ s") simp_all
qed simp

text \<open>A stack of directories still to visit, and what the walk is yet to report.\<close>

abbreviation to_stack :: "(path \<times> (string \<times> tree) list) list \<Rightarrow> walk_stack" where
  "to_stack fs \<equiv> map (\<lambda>(p, cs). (p, entries_of cs)) fs"

definition pending :: "(path \<Rightarrow> bool \<Rightarrow> bool) list \<Rightarrow> (path \<times> (string \<times> tree) list) list \<Rightarrow> (bool \<times> path) list" where
  "pending ignored fs = concat (map (\<lambda>(p, cs). preorder ignored p (Dir cs)) fs)"

definition shown :: "(path \<Rightarrow> dir_entry list result) \<Rightarrow> (path \<times> (string \<times> tree) list) list \<Rightarrow> bool" where
  "shown rd fs \<longleftrightarrow> (\<forall>(p, cs)\<in>set fs. \<forall>(name, t)\<in>set cs. displays rd (p @ [Normal name]) t)"

lemma pending_simps [simp]:
  "pending ignored [] = []"
  "pending ignored ((p, []) # fs) = pending ignored fs"
  "pending ignored ((p, (name, t) # cs) # fs) =
     (let q = p @ [Normal name] in
      if any_ignored ignored q (is_dir t) then pending ignored ((p, cs) # fs)
      else (is_dir t, q) # preorder ignored q t @ pending ignored ((p, cs) # fs))"
  by (simp_all add: pending_def Let_def)

lemma preorder_Dir_pending:
  "preorder ignored q (Dir ds) @ pending ignored fs = pending ignored ((q, ds) # fs)"
  by (simp add: pending_def)

definition walk_ok ::
  "(path \<Rightarrow> dir_entry list result) \<Rightarrow> (path \<Rightarrow> bool \<Rightarrow> bool) list \<Rightarrow> (path \<times> (string \<times> tree) list) list \<Rightarrow> bool" where
  "walk_ok rd ignored fs \<longleftrightarrow>
     (case pending ignored fs of
        [] \<Rightarrow> fst (walk_next rd ignored (to_stack fs)) = None
      | e # es \<Rightarrow> \<exists>fs'. walk_next rd ignored (to_stack fs) = (Some (Inr e), to_stack fs') \<and>
          shown rd fs' \<and> pending ignored fs' = es)"

lemma walk_ok_skip:
  "walk_next rd ignored (to_stack fs) = walk_next rd ignored (to_stack gs) \<Longrightarrow>
   pending ignored fs = pending ignored gs \<Longrightarrow> walk_ok rd ignored gs \<Longrightarrow> walk_ok rd ignored fs"
  unfolding walk_ok_def by (auto split: list.splits)

lemma walk_ok_step:
  "walk_next rd ignored (to_stack fs) = (Some (Inr e), to_stack gs) \<Longrightarrow>
   pending ignored fs = e # pending ignored gs \<Longrightarrow> shown rd gs \<Longrightarrow> walk_ok rd ignored fs"
  unfolding walk_ok_def by auto

lemma walk_next_pending: "shown rd fs \<Longrightarrow> walk_ok rd ignored fs"
proof (induction "length fs + sum_list (map (length \<circ> snd) fs)" arbitrary: fs rule: less_induct)
  case less
  show ?case
  proof (cases fs)
    case Nil
    then show ?thesis by (simp add: walk_ok_def)
  next
    case (Cons f rest)
    obtain p cs where f: "f = (p, cs)" by (cases f)
    show ?thesis
    proof (cases cs)
      case Nil
      have "walk_ok rd ignored rest"
        using less.prems Cons f Nil by (intro less.hyps) (auto simp: shown_def)
      then show ?thesis
        by (rule walk_ok_skip [rotated 2]) (simp_all add: Cons f Nil entries_of_def)
    next
      case cons: (Cons c cs')
      obtain name t where c: "c = (name, t)" by (cases c)
      let ?q = "p @ [Normal name]" and ?gs = "(p, cs') # rest"
      have sh: "shown rd ?gs" "displays rd ?q t"
        using less.prems Cons c f cons by (auto simp: shown_def)
      note fs = Cons f cons c
      show ?thesis
      proof (cases "any_ignored ignored ?q (is_dir t)")
        case True
        have "walk_ok rd ignored ?gs" using sh(1) by (intro less.hyps) (auto simp: fs)
        then show ?thesis
          by (rule walk_ok_skip [rotated 2]) (simp_all add: fs True entries_of_def Let_def)
      next
        case False
        show ?thesis
        proof (cases t)
          case File
          show ?thesis
            by (rule walk_ok_step [OF _ _ sh(1), of _ _ "(False, ?q)"])
               (use False File in \<open>simp_all add: fs entries_of_def Let_def\<close>)
        next
          case (Dir ds)
          have "rd ?q = Inr (entries_of ds)" "shown rd ((?q, ds) # ?gs)"
            using sh Dir by (auto simp: shown_def)
          then show ?thesis
            by (intro walk_ok_step [of _ _ _ "(True, ?q)" "(?q, ds) # ?gs"])
               (use False Dir in \<open>simp_all add: fs entries_of_def Let_def preorder_Dir_pending del: preorder.simps\<close>)
        qed
      qed
    qed
  qed
qed

lemma walk_run_pending:
  "shown rd fs \<Longrightarrow> walk_run rd ignored n (to_stack fs) = map Inr (take n (pending ignored fs))"
proof (induction n arbitrary: fs)
  case (Suc n)
  note w = walk_next_pending [OF Suc.prems, of ignored, unfolded walk_ok_def]
  show ?case
  proof (cases "pending ignored fs")
    case Nil
    then show ?thesis using w by (cases "walk_next rd ignored (to_stack fs)") simp
  next
    case (Cons e es)
    then obtain fs' where "walk_next rd ignored (to_stack fs) = (Some (Inr e), to_stack fs')"
      "shown rd fs'" "pending ignored fs' = es" using w by auto
    then show ?thesis using Suc.IH [of fs'] Cons by simp
  qed
qed simp

lemma run_multithreaded_ok:
  "run_multithreaded noticed func i rs err = (Inr (), finished) \<Longrightarrow>
     err = None \<and> rs = map Inr finished \<and> (\<forall>entry\<in>set finished. func entry = Inr ())"
proof (induction rs arbitrary: i err finished)
  case Nil
  then show ?case by (simp split: option.splits)
next
  case (Cons r rs)
  show ?case
  proof (cases r)
    case (Inl e)
    then show ?thesis using Cons.prems by simp
  next
    case (Inr entry)
    define err' where "err' = (case func entry of Inl e' \<Rightarrow> Some e' | Inr _ \<Rightarrow> err)"
    obtain res fin where r: "run_multithreaded noticed func (Suc i) rs err' = (res, fin)" by fastforce
    have "res = Inr () \<and> finished = entry # fin"
      using Cons.prems Inr r by (cases err) (auto simp: err'_def split: if_splits)
    then show ?thesis
      using Cons.IH [of "Suc i" err' fin] r Inr by (cases "func entry") (simp_all add: err'_def)
  qed
qed

section \<open>Properties\<close>

text \<open>
  Reading in batches of 32 is reading: a directory handle yields its entries in order,
  each once, and then \<open>None\<close> forever.
\<close>

theorem cap_entries_spec:
  "cap_entries n (cap_read_dir_new es) = map Some (take n es) @ replicate (n - length es) None"
  using cap_entries_stored [of "cap_read_dir_new es" "[]" es n] by (simp add: cap_read_dir_new_def)

text \<open>
  C35: The walk with an explicit stack is the recursive traversal: over a directory tree
  that can be read, it reports every entry that is not ignored and lies in no ignored
  directory, parents before children, each once, and ends after the last.
\<close>

theorem walk_is_preorder:
  assumes "displays rd p (Dir cs)"
  shows "\<exists>stack. walk_new rd p = Inr stack \<and>
     (\<forall>n. walk_run rd ignored n stack = map Inr (take n (preorder ignored p (Dir cs))))"
proof -
  have "shown rd [(p, cs)]" using assms by (auto simp: shown_def)
  from walk_run_pending [OF this] show ?thesis
    using assms by (simp add: walk_new_def pending_def)
qed

theorem walk_is_preorder_witness:
  "walk_run (\<lambda>p. if p = [] then Inr [Inr (True, ''d''), Inr (False, ''f'')]
               else if p = [Normal ''d''] then Inr [Inr (False, ''x'')] else Inl ''not found'')
     [] 9 [([], [Inr (True, ''d''), Inr (False, ''f'')])]
   = [Inr (True, [Normal ''d'']), Inr (False, [Normal ''d'', Normal ''x'']), Inr (False, [Normal ''f''])]"
proof -
  let ?rd = "\<lambda>p. if p = [] then Inr [Inr (True, ''d''), Inr (False, ''f'')]
               else if p = [Normal ''d''] then Inr [Inr (False, ''x'')] else Inl ''not found''"
  have "displays ?rd [] (Dir [(''d'', Dir [(''x'', File)]), (''f'', File)])"
    by (simp add: entries_of_def)
  from walk_is_preorder [OF this, of "[]"] show ?thesis
    by (simp add: walk_new_def any_ignored_def)
qed

text \<open>
  \<open>run_multithreaded\<close> reports success only if the walk met no error and every entry was
  handled successfully, however late the failure of a task is noticed.
\<close>

theorem run_multithreaded_success:
  assumes "run_multithreaded noticed func 0 rs None = (Inr (), finished)"
  shows "rs = map Inr finished \<and> (\<forall>entry\<in>set finished. func entry = Inr ())"
  using run_multithreaded_ok [OF assms] by simp

theorem run_multithreaded_success_witness:
  "\<forall>entry\<in>set [(False, [Normal ''f'']), (True, [Normal ''d''])]. (\<lambda>_ :: bool \<times> path. Inr () :: unit result) entry = Inr ()"
proof -
  have "run_multithreaded (\<lambda>_. False) (\<lambda>_. Inr ()) 0 [Inr (False, [Normal ''f'']), Inr (True, [Normal ''d''])] None
      = (Inr (), [(False, [Normal ''f'']), (True, [Normal ''d''])])" by simp
  from run_multithreaded_success [OF this] show ?thesis by blast
qed

end
