(* ===== verification/Handlers.thy ===== *)
theory Handlers
  imports Main
begin

text \<open>
  Handlers that change a state and may fail: the shape of an \<open>async fn\<close> with early
  returns. A handler returns an error or a value with the state it leaves; the state
  changes made before an early return stay. The rules say when a handler preserves a
  property of the state.
\<close>

type_synonym ('s, 'e, 'a) handler = "'s \<Rightarrow> ('e + 'a) \<times> 's"

definition succeed :: "'a \<Rightarrow> ('s, 'e, 'a) handler" where
  "succeed x s = (Inr x, s)"

definition fail :: "'e \<Rightarrow> ('s, 'e, 'a) handler" where
  "fail e s = (Inl e, s)"

definition and_then :: "('s, 'e, 'a) handler \<Rightarrow> ('a \<Rightarrow> ('s, 'e, 'b) handler) \<Rightarrow> ('s, 'e, 'b) handler" where
  "and_then m f s = (case m s of (Inl e, s) \<Rightarrow> (Inl e, s) | (Inr x, s) \<Rightarrow> f x s)"

text \<open>\<open>if !c { return Err(e) }\<close> for a pure and for an effectful condition.\<close>

definition ensure :: "('s \<Rightarrow> bool) \<Rightarrow> 'e \<Rightarrow> ('s, 'e, unit) handler" where
  "ensure c e s = (if c s then (Inr (), s) else (Inl e, s))"

definition ensure_run :: "('s \<Rightarrow> bool \<times> 's) \<Rightarrow> 'e \<Rightarrow> ('s, 'e, unit) handler" where
  "ensure_run c e s = (case c s of (b, s) \<Rightarrow> if b then (Inr (), s) else (Inl e, s))"

text \<open>A fallible call whose error is replaced; one whose error is a value; an effect.\<close>

definition attempt :: "('s \<Rightarrow> ('x + 'a) \<times> 's) \<Rightarrow> 'e \<Rightarrow> ('s, 'e, 'a) handler" where
  "attempt m e s = (case m s of (Inl _, s) \<Rightarrow> (Inl e, s) | (Inr x, s) \<Rightarrow> (Inr x, s))"

definition perform :: "('s \<Rightarrow> 'a \<times> 's) \<Rightarrow> ('s, 'e, 'a) handler" where
  "perform m s = (case m s of (x, s) \<Rightarrow> (Inr x, s))"

definition update :: "('s \<Rightarrow> 's) \<Rightarrow> ('s, 'e, unit) handler" where
  "update f s = (Inr (), f s)"

definition inspect :: "('s \<Rightarrow> 'a) \<Rightarrow> ('s, 'e, 'a) handler" where
  "inspect f s = (Inr (f s), s)"

definition from_option :: "'a option \<Rightarrow> 'e \<Rightarrow> ('s, 'e, 'a) handler" where
  "from_option x e s = (case x of Some v \<Rightarrow> (Inr v, s) | None \<Rightarrow> (Inl e, s))"

text \<open>A handler behind a sequence of early returns.\<close>

fun guarded :: "('s, 'e, unit) handler list \<Rightarrow> ('s, 'e, 'a) handler \<Rightarrow> ('s, 'e, 'a) handler" where
  "guarded [] m = m"
| "guarded (g # gs) m = and_then g (\<lambda>_. guarded gs m)"

lemmas handler_defs =
  succeed_def fail_def and_then_def ensure_def ensure_run_def attempt_def perform_def update_def
  inspect_def from_option_def

text \<open>\<open>if m.is_ok() { continue }\<close>\<close>

definition refute :: "('s \<Rightarrow> ('x + 'a) \<times> 's) \<Rightarrow> 'e \<Rightarrow> ('s, 'e, unit) handler" where
  "refute m e s = (case m s of (Inr _, s) \<Rightarrow> (Inl e, s) | (Inl _, s) \<Rightarrow> (Inr (), s))"

fun count_ok :: "('x \<Rightarrow> ('s, unit, unit) handler) \<Rightarrow> 'x list \<Rightarrow> 's \<Rightarrow> nat \<times> 's" where
  "count_ok f [] s = (0, s)"
| "count_ok f (x # xs) s =
     (case f x s of (r, s) \<Rightarrow> apfst (\<lambda>n. if isl r then n else Suc n) (count_ok f xs s))"

section \<open>What a handler may do\<close>

text \<open>
  From a state with \<open>I\<close> the handler makes finitely many steps of \<open>r\<close>, keeps \<open>I\<close> and
  returns a result with \<open>A\<close>; \<open>on_ok\<close> speaks only about success.
\<close>

definition confines ::
  "('s \<Rightarrow> 's \<Rightarrow> bool) \<Rightarrow> ('s \<Rightarrow> bool) \<Rightarrow> ('s \<Rightarrow> 'r \<times> 's) \<Rightarrow> ('r \<Rightarrow> bool) \<Rightarrow> bool" where
  "confines r I m A \<longleftrightarrow> (\<forall>s. I s \<longrightarrow> r\<^sup>*\<^sup>* s (snd (m s)) \<and> I (snd (m s)) \<and> A (fst (m s)))"

fun on_ok :: "('a \<Rightarrow> bool) \<Rightarrow> 'e + 'a \<Rightarrow> bool" where
  "on_ok A (Inl e) = True"
| "on_ok A (Inr x) = A x"

abbreviation anything :: "'a \<Rightarrow> bool" where "anything \<equiv> (\<lambda>_. True)"

lemma confinesI:
  "(\<And>s. I s \<Longrightarrow> r\<^sup>*\<^sup>* s (snd (m s)) \<and> I (snd (m s)) \<and> A (fst (m s))) \<Longrightarrow> confines r I m A"
  by (simp add: confines_def)

lemma confinesD:
  assumes "confines r I m A" and "I s"
  shows "r\<^sup>*\<^sup>* s (snd (m s))" and "I (snd (m s))" and "A (fst (m s))"
  using assms by (simp_all add: confines_def)

lemma confines_weaken: "confines r I m A \<Longrightarrow> (\<And>x. A x \<Longrightarrow> B x) \<Longrightarrow> confines r I m B"
  by (simp add: confines_def)

lemma confines_mono: "confines r I m A \<Longrightarrow> r \<le> q \<Longrightarrow> confines q I m A"
  using rtranclp_mono [of r q] by (auto simp: confines_def)

named_theorems stays

lemma on_ok_anything: "on_ok anything r"
  by (cases r) simp_all

lemma confines_pure [stays]:
  "confines r I (succeed x) (on_ok anything)" "confines r I (fail e) (on_ok A)"
  "confines r I (ensure c e) (on_ok anything)" "confines r I (inspect f) (on_ok anything)"
  "confines r I (from_option y e) (on_ok anything)"
  by (auto simp: confines_def handler_defs on_ok_anything split: option.split)

lemma confines_and_then [stays]:
  assumes "confines r I m (on_ok A)" and "\<And>x. A x \<Longrightarrow> confines r I (f x) (on_ok B)"
  shows "confines r I (and_then m f) (on_ok B)"
proof (rule confinesI)
  fix s assume s: "I s"
  obtain x s1 where m: "m s = (x, s1)" by fastforce
  note first = confinesD [OF assms(1) s]
  show "r\<^sup>*\<^sup>* s (snd (and_then m f s)) \<and> I (snd (and_then m f s)) \<and> on_ok B (fst (and_then m f s))"
  proof (cases x)
    case (Inl e)
    then show ?thesis using m first by (simp add: and_then_def)
  next
    case (Inr v)
    then show ?thesis
      using m first confinesD [OF assms(2), of v s1] by (auto simp: and_then_def)
  qed
qed

lemma confines_guarded [stays]:
  "list_all (\<lambda>g. confines r I g (on_ok anything)) gs \<Longrightarrow> confines r I m (on_ok A) \<Longrightarrow> confines r I (guarded gs m) (on_ok A)"
  by (induction gs) (auto intro: confines_and_then)

lemma confines_ensure_run [stays]: "confines r I c anything \<Longrightarrow> confines r I (ensure_run c e) (on_ok anything)"
  by (fastforce simp: confines_def handler_defs on_ok_anything split: prod.split)

lemma confines_attempt [stays]: "confines r I c (on_ok A) \<Longrightarrow> confines r I (attempt c e) (on_ok A)"
  by (fastforce simp: confines_def handler_defs split: prod.split sum.split)

lemma confines_perform [stays]: "confines r I c A \<Longrightarrow> confines r I (perform c) (on_ok A)"
  by (fastforce simp: confines_def handler_defs split: prod.split)

lemma confines_apfst: "confines r I m A \<Longrightarrow> confines r I (\<lambda>s. apfst f (m s)) anything"
  by (simp add: confines_def)

lemma confines_if [stays]: "confines r I m A \<Longrightarrow> confines r I n A \<Longrightarrow> confines r I (if b then m else n) A"
  by simp

lemma confines_choice [stays]:
  "confines r I m A \<Longrightarrow> confines r I n A \<Longrightarrow> confines r I (\<lambda>s. if c s then m s else n s) A"
  by (simp add: confines_def)

lemma confines_case_option [stays]:
  "(v = None \<Longrightarrow> confines r I m A) \<Longrightarrow> (\<And>x. v = Some x \<Longrightarrow> confines r I (f x) A) \<Longrightarrow>
     confines r I (case v of None \<Rightarrow> m | Some x \<Rightarrow> f x) A"
  by (cases v) simp_all

lemma confines_case_sum [stays]:
  "(\<And>x. v = Inl x \<Longrightarrow> confines r I (f x) A) \<Longrightarrow> (\<And>y. v = Inr y \<Longrightarrow> confines r I (g y) A) \<Longrightarrow>
     confines r I (case v of Inl x \<Rightarrow> f x | Inr y \<Rightarrow> g y) A"
  by (cases v) simp_all

lemma confines_case_prod [stays]:
  "(\<And>x y. v = (x, y) \<Longrightarrow> confines r I (f x y) A) \<Longrightarrow> confines r I (case v of (x, y) \<Rightarrow> f x y) A"
  by (cases v) simp

lemma list_all_intros [stays]: "list_all P []" "P x \<Longrightarrow> list_all P xs \<Longrightarrow> list_all P (x # xs)"
  by simp_all

text \<open>A guard that fails ends the handler in the state it was asked in.\<close>

lemma and_then_ensure [simp]:
  "and_then (ensure c e) f s = (if c s then f () s else (Inl e, s))"
  by (simp add: handler_defs)

lemma confines_seq:
  assumes "confines r I m B" and "\<And>x. B x \<Longrightarrow> confines r I (f x) A"
  shows "confines r I (\<lambda>s. case m s of (x, s) \<Rightarrow> f x s) A"
proof (rule confinesI)
  fix s assume "I s"
  obtain x t where m: "m s = (x, t)" by fastforce
  show "r\<^sup>*\<^sup>* s (snd (case m s of (x, s) \<Rightarrow> f x s)) \<and> I (snd (case m s of (x, s) \<Rightarrow> f x s)) \<and>
      A (fst (case m s of (x, s) \<Rightarrow> f x s))"
    using confinesD [OF assms(1) \<open>I s\<close>] confinesD [OF assms(2), of x t] by (auto simp: m)
qed

lemma confines_case_sum_at:
  "(\<And>x. v = Inl x \<Longrightarrow> confines r I (f x) A) \<Longrightarrow> (\<And>y. v = Inr y \<Longrightarrow> confines r I (g y) A) \<Longrightarrow>
     confines r I (\<lambda>s. case v of Inl x \<Rightarrow> f x s | Inr y \<Rightarrow> g y s) A"
  by (cases v) simp_all

lemma confines_case_option_at:
  "(v = None \<Longrightarrow> confines r I m A) \<Longrightarrow> (\<And>x. v = Some x \<Longrightarrow> confines r I (f x) A) \<Longrightarrow>
     confines r I (\<lambda>s. case v of None \<Rightarrow> m s | Some x \<Rightarrow> f x s) A"
  by (cases v) simp_all

lemma confines_if_at: "confines r I m A \<Longrightarrow> confines r I n A \<Longrightarrow> confines r I (\<lambda>s. if b then m s else n s) A"
  by (cases b) simp_all

lemma confines_refute [stays]: "confines r I m A \<Longrightarrow> confines r I (refute m e) (on_ok anything)"
  by (fastforce simp: confines_def refute_def split: prod.split sum.split)

lemma confines_count_ok [stays]:
  assumes "\<And>x. confines r I (f x) (on_ok anything)"
  shows "confines r I (count_ok f xs) anything"
proof (induction xs)
  case Nil
  show ?case by (simp add: confines_def)
next
  case (Cons x xs)
  show ?case
    unfolding count_ok.simps
    by (rule confines_seq [OF assms], rule confines_apfst [OF Cons])
qed

text \<open>The successful runs of handlers.\<close>

lemma ok_simps:
  "and_then m f s = (Inr y, u) \<longleftrightarrow> (\<exists>x t. m s = (Inr x, t) \<and> f x t = (Inr y, u))"
  "attempt n e s = (Inr x, t) \<longleftrightarrow> n s = (Inr x, t)"
  "ensure_run c e s = (Inr w, t) \<longleftrightarrow> c s = (True, t)"
  "perform p s = (Inr z, t) \<longleftrightarrow> p s = (z, t)"
  "from_option q e s = (Inr v, t) \<longleftrightarrow> q = Some v \<and> t = s"
  "succeed v s = (Inr v', t) \<longleftrightarrow> v' = v \<and> t = s"
  "ensure b e s = (Inr w, t) \<longleftrightarrow> b s \<and> t = s"
  by (auto simp: handler_defs split: prod.splits sum.splits option.splits)

end
