(* ===== verification/File_Access.thy ===== *)
theory File_Access
  imports Cap_Filesystem Handlers
begin

unbundle bit_operations_syntax

text \<open>
  What the callers of \<open>CapFilesystem\<close> share: the attributes of a file, the values its
  operations return, and the operations as \<open>truncate_path\<close> and \<open>rename_path\<close> see them.
\<close>

section \<open>Attributes\<close>

datatype FileType =
    RegularFile | Directory | Symlink | BlockDevice | CharacterDevice | Fifo | Socket | OtherType

text \<open>\<open>rustix::fs::FileType::from_raw_mode\<close> and the file type of a \<open>Metadata\<close>.\<close>

definition file_type :: "u32 \<Rightarrow> FileType" where
  "file_type mode =
     (let t = mode AND 61440 in
      if t = 32768 then RegularFile
      else if t = 16384 then Directory
      else if t = 40960 then Symlink
      else if t = 24576 then BlockDevice
      else if t = 8192 then CharacterDevice
      else if t = 4096 then Fifo
      else if t = 49152 then Socket
      else OtherType)"

text \<open>Times are seconds from the epoch, \<open>None\<close> when they are not available.\<close>

record Metadata =
  md_mode :: u32
  md_len :: u64
  md_modified :: "int option"
  md_created :: "int option"

definition md_is_dir :: "Metadata \<Rightarrow> bool" where "md_is_dir m \<longleftrightarrow> file_type (md_mode m) = Directory"
definition md_is_file :: "Metadata \<Rightarrow> bool" where "md_is_file m \<longleftrightarrow> file_type (md_mode m) = RegularFile"
definition md_is_symlink :: "Metadata \<Rightarrow> bool" where "md_is_symlink m \<longleftrightarrow> file_type (md_mode m) = Symlink"

section \<open>Values of calls\<close>

datatype cap_value =
    VUnit | VMeta Metadata | VPath path | VFile nat | VEntries "(string + bool \<times> string) list"

definition cap_of :: "'gi Filesystem \<Rightarrow> CapFilesystem" where
  "cap_of fs = \<lparr>base_path = fs_base_path fs, inner = initialized fs\<rparr>"

text \<open>The value of a call as the type its operation returns.\<close>

definition typed :: "(cap_value \<Rightarrow> 'a option) \<Rightarrow> cap_value result \<Rightarrow> 'a result" where
  "typed f r = (case r of Inl err \<Rightarrow> Inl err
     | Inr v \<Rightarrow> (case f v of Some x \<Rightarrow> Inr x | None \<Rightarrow> Inl ''unexpected value''))"

fun the_meta :: "cap_value \<Rightarrow> Metadata option" where
  "the_meta (VMeta m) = Some m" | "the_meta _ = None"
fun the_path :: "cap_value \<Rightarrow> path option" where
  "the_path (VPath p) = Some p" | "the_path _ = None"
fun the_file :: "cap_value \<Rightarrow> nat option" where
  "the_file (VFile n) = Some n" | "the_file _ = None"
fun the_entries :: "cap_value \<Rightarrow> (string + bool \<times> string) list option" where
  "the_entries (VEntries es) = Some es" | "the_entries _ = None"
fun the_unit :: "cap_value \<Rightarrow> unit option" where
  "the_unit VUnit = Some ()" | "the_unit _ = None"

text \<open>The calls \<open>truncate_path\<close> and \<open>rename_path\<close> make, answered by the same system.\<close>

definition os_of :: "cap_value cap_run \<Rightarrow> CapFilesystem \<Rightarrow> os" where
  "os_of run self =
     (let meta = (\<lambda>m. map_sum id (\<lambda>m. (md_is_dir m, md_len m)) (typed the_meta m));
          unit = typed the_unit
      in \<lparr>os_symlink_metadata = \<lambda>p. meta (fst (cap_symlink_metadata run p self)),
          os_metadata = \<lambda>p. meta (fst (cap_metadata run p self)),
          os_canonicalize = \<lambda>p. fst (cap_canonicalize (\<lambda>c. typed the_path (run c)) p self),
          os_create_dir_all = \<lambda>p. unit (fst (cap_create_dir_all run p self)),
          os_remove_dir_all = \<lambda>p. unit (fst (cap_remove_dir_all run p self)),
          os_remove_file = \<lambda>p. unit (fst (cap_remove_file run p self)),
          os_rename = \<lambda>p q. unit (fst (cap_rename run p self q self))\<rparr>)"

section \<open>Clients of the file system\<close>

text \<open>
  What every client of a server's files has: the answers of the operating system, which
  may depend on the calls made so far, the matcher of the \<open>ignore\<close> crate and the
  results of \<open>chown\<close>; and, as state, the \<open>Filesystem\<close>, the calls made through
  \<open>CapFilesystem\<close> and the writes to open files (numbers).
\<close>

datatype io_op =
    IoWriteAt nat u64 string | IoSync nat | IoWrite nat string | IoFlush nat | IoSetModified nat int

record 'gi file_env =
  fe_run :: "cap_call list \<Rightarrow> fs_call list \<Rightarrow> cap_call \<Rightarrow> cap_value result"
  fe_ignores :: "'gi \<Rightarrow> path \<Rightarrow> bool \<Rightarrow> bool"
  fe_chown :: "path \<Rightarrow> unit result"
  fe_chown_walk :: "path list result"

record 'gi file_state =
  sf_fs :: "'gi Filesystem"
  sf_calls :: "cap_call list"
  sf_io :: "io_op list"

definition run_now ::
  "('gi, 'e) file_env_scheme \<Rightarrow> ('gi, 's) file_state_scheme \<Rightarrow> cap_value cap_run" where
  "run_now e st = fe_run e (sf_calls st) (fs_calls (sf_fs st))"

definition with_cap ::
  "('gi, 'e) file_env_scheme \<Rightarrow> (cap_value cap_run \<Rightarrow> CapFilesystem \<Rightarrow> 'a result \<times> cap_call list)
     \<Rightarrow> ('gi, 's) file_state_scheme \<Rightarrow> 'a result \<times> ('gi, 's) file_state_scheme" where
  "with_cap e op st =
     (case op (run_now e st) (cap_of (sf_fs st)) of
        (r, cs) \<Rightarrow> (r, st\<lparr>sf_calls := sf_calls st @ cs\<rparr>))"

definition file_metadata ::
  "('gi, 'e) file_env_scheme \<Rightarrow> path \<Rightarrow> ('gi, 's) file_state_scheme \<Rightarrow> Metadata result \<times> ('gi, 's) file_state_scheme" where
  "file_metadata e p = with_cap e (\<lambda>run self. apfst (typed the_meta) (cap_metadata run p self))"

definition file_symlink_metadata ::
  "('gi, 'e) file_env_scheme \<Rightarrow> path \<Rightarrow> ('gi, 's) file_state_scheme \<Rightarrow> Metadata result \<times> ('gi, 's) file_state_scheme" where
  "file_symlink_metadata e p = with_cap e (\<lambda>run self. apfst (typed the_meta) (cap_symlink_metadata run p self))"

definition file_canonicalize ::
  "('gi, 'e) file_env_scheme \<Rightarrow> path \<Rightarrow> ('gi, 's) file_state_scheme \<Rightarrow> path result \<times> ('gi, 's) file_state_scheme" where
  "file_canonicalize e p = with_cap e (\<lambda>run self. cap_canonicalize (\<lambda>c. typed the_path (run c)) p self)"

definition on_fs ::
  "('gi, 'e) file_env_scheme \<Rightarrow> (os \<Rightarrow> 'gi Filesystem \<Rightarrow> 'a \<times> 'gi Filesystem) \<Rightarrow> ('gi, 's) file_state_scheme \<Rightarrow> 'a \<times> ('gi, 's) file_state_scheme" where
  "on_fs e op st =
     (case op (os_of (run_now e st) (cap_of (sf_fs st))) (sf_fs st) of (r, fs) \<Rightarrow> (r, st\<lparr>sf_fs := fs\<rparr>))"

definition file_chown ::
  "('gi, 'e) file_env_scheme \<Rightarrow> path \<Rightarrow> ('gi, 's) file_state_scheme \<Rightarrow> unit result \<times> ('gi, 's) file_state_scheme" where
  "file_chown e p = on_fs e (\<lambda>os. chown_path
     (\<lambda>q. map_sum id fst (os_metadata os q)) (fe_chown e) (fe_chown_walk e) p)"

definition cap_unit ::
  "('gi, 'e) file_env_scheme \<Rightarrow> (cap_value cap_run \<Rightarrow> CapFilesystem \<Rightarrow> cap_value result \<times> cap_call list)
     \<Rightarrow> ('gi, 's) file_state_scheme \<Rightarrow> unit result \<times> ('gi, 's) file_state_scheme" where
  "cap_unit e op = with_cap e (\<lambda>run self. apfst (typed the_unit) (op run self))"

end
