(* ===== verification/Sftp.thy ===== *)
theory Sftp
  imports File_Access Permissions Activity_Log Power_Actions Handlers
begin

unbundle bit_operations_syntax

text \<open>
  \<open>ssh/sftp.rs\<close>: an SFTP session on a server, one handler per request. Every file
  operation goes through \<open>CapFilesystem\<close> (theory \<open>Cap_Filesystem\<close>) or through the
  accounting of theory \<open>Filesystem\<close>.

  The environment \<open>sftp_env\<close> holds what the outside answers: the operating system,
  whose answers may depend on the calls made so far, the matchers of the \<open>ignore\<close>
  crate, the wire decoders of \<open>russh_sftp\<close>, the digests. An open file is a number.
  \<open>fe_dummy\<close> are the attributes of a \<open>File::dummy\<close>. A failed request is a status code;
  a handler that panics is \<open>Panic\<close>. Request ids, which every reply echoes, are left
  out.
\<close>

section \<open>Attributes\<close>

text \<open>\<open>fa_types\<close>: the type setters called, in order.\<close>

record FileAttributes =
  fa_size :: "u64 option"
  fa_mtime :: "u32 option"
  fa_permissions :: "u32 option"
  fa_types :: "FileType list"

type_synonym sftp_file = "string \<times> FileAttributes"

definition convert_entry :: "path \<Rightarrow> Metadata \<Rightarrow> Metadata option \<Rightarrow> sftp_file" where
  "convert_entry path md target =
     ((case file_name path of Some name \<Rightarrow> name | None \<Rightarrow> ''/''),
      \<lparr>fa_size = Some (md_len md),
       fa_mtime = Some (case md_modified md of Some t \<Rightarrow> word_of_int (max 0 t) | None \<Rightarrow> 0),
       fa_permissions = Some (md_mode md),
       fa_types =
         (let t = file_type (md_mode md) in if t \<in> {Socket, OtherType} then [] else [t]) @
         (case target of
            None \<Rightarrow> []
          | Some tm \<Rightarrow> (let t = file_type (md_mode tm) in if t \<in> {Socket, OtherType, Symlink} then [] else [t]))\<rparr>)"

section \<open>The session\<close>

datatype StatusCode = Eof | NoSuchFile | PermissionDenied | Failure | BadMessage | OpUnsupported

text \<open>\<open>Diverges\<close>: the handler does not return.\<close>

datatype sftp_error = Status StatusCode | Panic | Diverges

datatype ServerHandle =
    FileHandle path "string list" nat
  | DirHandle path "(string + bool \<times> string) list" u64

fun handle_path :: "ServerHandle \<Rightarrow> path" where
  "handle_path (FileHandle p _ _) = p"
| "handle_path (DirHandle p _ _) = p"

abbreviation HANDLE_LIMIT :: nat where "HANDLE_LIMIT \<equiv> 32"

record ('gi, 'ov) sftp_env = "'gi file_env" +
  fe_whitelisted :: "'ov \<Rightarrow> path \<Rightarrow> bool \<Rightarrow> bool"
  fe_read_only :: bool
  fe_dummy :: FileAttributes
  fe_entry_limit :: u64
  fe_send_amount :: nat
  fe_user :: uuid
  fe_ip :: "string option"
  fe_now :: nat
  fe_clock :: int
  fe_read_at :: "nat \<Rightarrow> u64 \<Rightarrow> nat \<Rightarrow> string result"
  fe_write_at :: "nat \<Rightarrow> u64 \<Rightarrow> string \<Rightarrow> unit result"
  fe_sync :: "nat \<Rightarrow> unit result"
  fe_seek :: "nat \<Rightarrow> u64 \<Rightarrow> unit result"
  fe_chunks :: "nat \<Rightarrow> u64 \<Rightarrow> string result list"
  fe_digest :: "string \<Rightarrow> string \<Rightarrow> string"
  fe_disks :: "(path \<times> u64 \<times> u64) list"
  fe_mode :: SystemDiskLimiterMode
  fe_backends :: backends
  fe_decode_check :: "string \<Rightarrow> (string \<times> string \<times> u64 \<times> u64) option"
  fe_decode_copy :: "string \<Rightarrow> (string \<times> string \<times> u8) option"
  fe_decode_link :: "string \<Rightarrow> (string \<times> string) option"
  fe_decode_fsync :: "string \<Rightarrow> string option"
  fe_decode_lsetstat :: "string \<Rightarrow> (string \<times> u32 option) option"

record ('gi, 'ov) sftp = "'gi file_state" +
  sf_server :: server
  sf_perms :: "'ov user_permissions_map"
  sf_activities :: "Activity list"
  sf_handle_id :: nat
  sf_handles :: "(string \<times> ServerHandle) list"

type_synonym ('gi, 'ov, 'a) sftp_handler = "(('gi, 'ov) sftp, sftp_error, 'a) handler"

section \<open>Checks\<close>

definition has_perm :: "('gi, 'ov) sftp_env \<Rightarrow> Permission \<Rightarrow> ('gi, 'ov) sftp \<Rightarrow> bool \<times> ('gi, 'ov) sftp" where
  "has_perm e p st =
     (case upm_has_permission (fe_now e) (fe_user e) p (sf_perms st) of (b, m) \<Rightarrow> (b, st\<lparr>sf_perms := m\<rparr>))"

definition ignored_by_server ::
  "('gi, 'ov) sftp_env \<Rightarrow> path \<Rightarrow> bool \<Rightarrow> ('gi, 'ov) sftp \<Rightarrow> bool \<times> ('gi, 'ov) sftp" where
  "ignored_by_server e p is_dir st =
     (if p = [RootDir] \<or> p = [] then (False, st)
      else if is_ignored (fe_ignores e) p is_dir (sf_fs st) then (True, st)
      else case upm_is_ignored (fe_whitelisted e) (fe_now e) 0 p is_dir (sf_perms st) of
             (b, m) \<Rightarrow> (b, st\<lparr>sf_perms := m\<rparr>))"

definition allow_action :: "('gi, 'ov) sftp_env \<Rightarrow> ('gi, 'ov) sftp \<Rightarrow> bool" where
  "allow_action e st \<longleftrightarrow> \<not> is_locked_state (sf_server st) \<and> upm_is_contained (fe_user e) (sf_perms st)"

text \<open>The early returns the handlers share.\<close>

definition allowed :: "('gi, 'ov) sftp_env \<Rightarrow> ('gi, 'ov, unit) sftp_handler" where
  "allowed e = ensure (allow_action e) (Status PermissionDenied)"

definition writable :: "('gi, 'ov) sftp_env \<Rightarrow> ('gi, 'ov, unit) sftp_handler" where
  "writable e = ensure (\<lambda>_. \<not> fe_read_only e) (Status PermissionDenied)"

definition permitted :: "('gi, 'ov) sftp_env \<Rightarrow> Permission \<Rightarrow> ('gi, 'ov, unit) sftp_handler" where
  "permitted e p = ensure_run (has_perm e p) (Status PermissionDenied)"

definition visible :: "('gi, 'ov) sftp_env \<Rightarrow> path \<Rightarrow> bool \<Rightarrow> StatusCode \<Rightarrow> ('gi, 'ov, unit) sftp_handler" where
  "visible e p is_dir code = ensure_run (\<lambda>st. apfst Not (ignored_by_server e p is_dir st)) (Status code)"

definition existing :: "('gi, 'ov) sftp_env \<Rightarrow> string \<Rightarrow> ('gi, 'ov, path) sftp_handler" where
  "existing e p = attempt (file_canonicalize e (components p)) (Status NoSuchFile)"

definition log_sftp ::
  "('gi, 'ov) sftp_env \<Rightarrow> ActivityEvent \<Rightarrow> (('gi, 'ov) sftp \<Rightarrow> json list) \<Rightarrow> ('gi, 'ov, unit) sftp_handler" where
  "log_sftp e ev files = update (\<lambda>st. st\<lparr>sf_activities := log_activity
     \<lparr>act_user = Some (fe_user e), act_event = ev,
      act_metadata = Some (JObject [(''files'', JArray (files st))]),
      act_ip = fe_ip e, act_timestamp = fe_clock e\<rparr> (sf_activities st)\<rparr>)"

definition file_json :: "path \<Rightarrow> ('gi, 'ov) sftp \<Rightarrow> json list" where
  "file_json p st = [JString (path_text (fs_relative_path (sf_fs st) p))]"

section \<open>Handles\<close>

definition hex_digit :: "nat \<Rightarrow> char" where
  "hex_digit n = (if n < 10 then char_of (48 + n) else char_of (87 + n))"

fun hex_rev :: "nat \<Rightarrow> string" where
  "hex_rev n = hex_digit (n mod 16) # (if n < 16 then [] else hex_rev (n div 16))"

definition to_hex :: "nat \<Rightarrow> string" where
  "to_hex n = rev (hex_rev n)"

definition insert_handle :: "ServerHandle \<Rightarrow> ('gi, 'ov, string) sftp_handler" where
  "insert_handle h st =
     (let id = to_hex (sf_handle_id st) in
      (Inr id, st\<lparr>sf_handle_id := sf_handle_id st + 1, sf_handles := obj_insert id h (sf_handles st)\<rparr>))"

definition file_handle :: "string \<Rightarrow> ('gi, 'ov, path \<times> string list \<times> nat) sftp_handler" where
  "file_handle h st =
     (case map_of (sf_handles st) h of
        Some (FileHandle p comps f) \<Rightarrow> (Inr (p, comps, f), st)
      | _ \<Rightarrow> (Inl (Status NoSuchFile), st))"

definition room_for_handle :: "('gi, 'ov, unit) sftp_handler" where
  "room_for_handle = ensure (\<lambda>st. length (sf_handles st) < HANDLE_LIMIT) (Status Failure)"

section \<open>Replies\<close>

datatype sftp_reply =
    ReplyVersion | ReplyOk | ReplyHandle string | ReplyName "sftp_file list" | ReplyAttrs FileAttributes
  | ReplyData string | ReplyHash string string | ReplySpace u64 u64 | ReplyLimits u64 u64 u64 u64
  | ReplyStatVfs u64 u64 bool

type_synonym ('gi, 'ov) sftp_op = "('gi, 'ov, sftp_reply) sftp_handler"

section \<open>Names and directories\<close>

definition sftp_close :: "string \<Rightarrow> ('gi, 'ov) sftp_op" where
  "sftp_close h st =
     (Inr ReplyOk, st\<lparr>sf_handles := filter (\<lambda>(k, _). k \<noteq> h) (sf_handles st)\<rparr>)"

definition sftp_realpath :: "('gi, 'ov) sftp_env \<Rightarrow> string \<Rightarrow> ('gi, 'ov) sftp_op" where
  "sftp_realpath e p =
     (if p \<in> {''/..'', ''.'', ''/''} then succeed (ReplyName [(''/'', fe_dummy e)])
      else and_then (existing e p) (\<lambda>q. succeed (ReplyName [(''/'' @ path_text q, fe_dummy e)])))"

definition sftp_opendir :: "('gi, 'ov) sftp_env \<Rightarrow> string \<Rightarrow> ('gi, 'ov) sftp_op" where
  "sftp_opendir e p =
     guarded [allowed e, room_for_handle, permitted e FileRead]
       (and_then (existing e p) (\<lambda>path.
        and_then (visible e path True NoSuchFile) (\<lambda>_.
        and_then (attempt (with_cap e (\<lambda>run self. apfst (typed the_entries) (cap_read_dir run path self)))
                   (Status NoSuchFile)) (\<lambda>es.
        and_then (insert_handle (DirHandle path es 0)) (\<lambda>h. succeed (ReplyHandle h))))))"

text \<open>
  The loop of \<open>readdir\<close> over the entries the directory stream has left: the files sent
  (\<open>None\<close>: the stream ended before any), what is left and how many were consumed.
\<close>

definition target_of ::
  "('gi, 'ov) sftp_env \<Rightarrow> path \<Rightarrow> Metadata \<Rightarrow> ('gi, 'ov) sftp \<Rightarrow> Metadata option \<times> ('gi, 'ov) sftp" where
  "target_of e p md st =
     (if md_is_symlink md then apfst (case_sum (\<lambda>_. None) Some) (file_metadata e p st) else (None, st))"

fun readdir_loop ::
  "('gi, 'ov) sftp_env \<Rightarrow> path \<Rightarrow> (string + bool \<times> string) list \<Rightarrow> u64 \<Rightarrow> sftp_file list \<Rightarrow> ('gi, 'ov) sftp
     \<Rightarrow> sftp_file list option \<times> (string + bool \<times> string) list \<times> u64 \<times> ('gi, 'ov) sftp" where
  "readdir_loop e dir [] consumed files st = ((if files = [] then None else Some files), [], consumed, st)"
| "readdir_loop e dir (Inl err # es) consumed files st =
     ((if files = [] then None else Some files), es, consumed, st)"
| "readdir_loop e dir (Inr (is_dir, name) # es) consumed files st =
     (let p = path_join dir (components name) in
      case file_symlink_metadata e p st of
        (Inl err, st) \<Rightarrow> readdir_loop e dir es consumed files st
      | (Inr md, st) \<Rightarrow>
          (case ignored_by_server e p (md_is_dir md) st of
             (True, st) \<Rightarrow> readdir_loop e dir es consumed files st
           | (False, st) \<Rightarrow>
               (case target_of e p md st of
                  (target, st) \<Rightarrow>
                    (let files = files @ [convert_entry p md target]; consumed = consumed + 1
                     in if fe_entry_limit e \<le> consumed \<or> fe_send_amount e \<le> length files
                        then (Some files, es, consumed, st)
                        else readdir_loop e dir es consumed files st))))"

definition sftp_readdir :: "('gi, 'ov) sftp_env \<Rightarrow> string \<Rightarrow> ('gi, 'ov) sftp_op" where
  "sftp_readdir e h =
     guarded [allowed e]
       (\<lambda>st. case map_of (sf_handles st) h of
          Some (DirHandle path es consumed) \<Rightarrow>
            if fe_entry_limit e \<le> consumed then (Inl (Status Eof), st)
            else (case readdir_loop e path es consumed [] st of
                    (files, rest, consumed, st) \<Rightarrow>
                      (case files of None \<Rightarrow> Inl (Status Eof) | Some fs \<Rightarrow> Inr (ReplyName fs),
                       st\<lparr>sf_handles := obj_insert h (DirHandle path rest consumed) (sf_handles st)\<rparr>))
        | _ \<Rightarrow> (Inl (Status NoSuchFile), st))"

section \<open>Removing, creating, renaming\<close>

definition sftp_remove :: "('gi, 'ov) sftp_env \<Rightarrow> string \<Rightarrow> ('gi, 'ov) sftp_op" where
  "sftp_remove e filename =
     guarded [allowed e, writable e, permitted e FileDelete]
       (and_then (perform (file_canonicalize e (components filename))) (\<lambda>c.
        let path = (case c of Inr p \<Rightarrow> p | Inl _ \<Rightarrow> components filename) in
        and_then (perform (file_symlink_metadata e path)) (\<lambda>r.
        case r of
          Inl _ \<Rightarrow> succeed ReplyOk
        | Inr md \<Rightarrow>
            guarded [ensure (\<lambda>_. \<not> md_is_dir md) (Status NoSuchFile), visible e path (md_is_dir md) NoSuchFile,
                     attempt (on_fs e (\<lambda>os. truncate_path os path)) (Status NoSuchFile),
                     log_sftp e AE_SftpDelete (file_json path)] (succeed ReplyOk))))"

definition sftp_rmdir :: "('gi, 'ov) sftp_env \<Rightarrow> string \<Rightarrow> ('gi, 'ov) sftp_op" where
  "sftp_rmdir e p =
     guarded [allowed e, writable e, permitted e FileDelete]
       (and_then (existing e p) (\<lambda>path.
        and_then (perform (file_symlink_metadata e path)) (\<lambda>r.
        case r of
          Inl _ \<Rightarrow> succeed ReplyOk
        | Inr md \<Rightarrow>
            guarded [ensure (\<lambda>_. md_is_dir md) (Status NoSuchFile), visible e path True NoSuchFile,
                     (\<lambda>st. if path \<noteq> fs_base_path (sf_fs st)
                           then attempt (on_fs e (\<lambda>os. truncate_path os path)) (Status NoSuchFile) st
                           else (Inr (), st)),
                     log_sftp e AE_SftpDelete (file_json path)] (succeed ReplyOk))))"

text \<open>\<open>Permissions::from_mode(mode & 0o777)\<close>.\<close>

definition chmod_to ::
  "('gi, 'ov) sftp_env \<Rightarrow> (cap_value cap_run \<Rightarrow> path \<Rightarrow> nat \<Rightarrow> CapFilesystem \<Rightarrow> cap_value result \<times> cap_call list)
     \<Rightarrow> path \<Rightarrow> u32 option \<Rightarrow> ('gi, 'ov, unit) sftp_handler" where
  "chmod_to e op path perms =
     (case perms of
        None \<Rightarrow> succeed ()
      | Some mode \<Rightarrow>
          attempt (with_cap e (\<lambda>run self. apfst (typed the_unit) (op run path (unat (mode AND 511)) self)))
            (Status Failure))"

definition sftp_mkdir :: "('gi, 'ov) sftp_env \<Rightarrow> string \<Rightarrow> u32 option \<Rightarrow> ('gi, 'ov) sftp_op" where
  "sftp_mkdir e p perms =
     (let path = components p in
      guarded [allowed e, writable e, permitted e FileCreate, visible e path True NoSuchFile]
        (and_then (perform (file_symlink_metadata e path)) (\<lambda>r.
         case r of
           Inr _ \<Rightarrow> succeed ReplyOk
         | Inl _ \<Rightarrow>
             guarded [attempt (cap_unit e (\<lambda>run. cap_create_dir run path)) (Status NoSuchFile),
                      attempt (file_chown e path) (Status Failure),
                      chmod_to e cap_async_set_permissions path perms,
                      log_sftp e AE_SftpCreateDirectory (file_json path)] (succeed ReplyOk))))"

definition rename_json :: "path \<Rightarrow> path \<Rightarrow> ('gi, 'ov) sftp \<Rightarrow> json list" where
  "rename_json p q st =
     [JObject [(''from'', JString (path_text (fs_relative_path (sf_fs st) p))),
               (''to'', JString (path_text (fs_relative_path (sf_fs st) q)))]]"

definition sftp_rename :: "('gi, 'ov) sftp_env \<Rightarrow> string \<Rightarrow> string \<Rightarrow> ('gi, 'ov) sftp_op" where
  "sftp_rename e old new =
     (let new_path = components new in
      guarded [allowed e, writable e, permitted e FileUpdate]
        (and_then (existing e old) (\<lambda>old_path.
         and_then (attempt (file_symlink_metadata e old_path) (Status NoSuchFile)) (\<lambda>md.
         and_then (perform (file_symlink_metadata e new_path)) (\<lambda>there.
         guarded [ensure (\<lambda>_. isl there) (Status Failure), visible e old_path (md_is_dir md) Failure,
                  visible e new_path (md_is_dir md) Failure,
                  attempt (on_fs e (\<lambda>os. rename_path os old_path new_path)) (Status NoSuchFile),
                  log_sftp e AE_SftpRename (rename_json old_path new_path)] (succeed ReplyOk))))))"

section \<open>Attributes and links\<close>

definition sftp_setstat :: "('gi, 'ov) sftp_env \<Rightarrow> string \<Rightarrow> u32 option \<Rightarrow> ('gi, 'ov) sftp_op" where
  "sftp_setstat e p perms =
     guarded [allowed e, writable e, permitted e FileUpdate]
       (and_then (existing e p) (\<lambda>path.
        and_then (attempt (file_symlink_metadata e path) (Status NoSuchFile)) (\<lambda>md.
        guarded [visible e path (md_is_dir md) NoSuchFile,
                 chmod_to e cap_async_set_permissions path perms] (succeed ReplyOk))))"

definition sftp_fsetstat :: "('gi, 'ov) sftp_env \<Rightarrow> string \<Rightarrow> u32 option \<Rightarrow> ('gi, 'ov) sftp_op" where
  "sftp_fsetstat e h perms =
     guarded [allowed e]
       (and_then (file_handle h) (\<lambda>(path, comps, f). sftp_setstat e (path_text path) perms))"

definition sftp_stat :: "('gi, 'ov) sftp_env \<Rightarrow> string \<Rightarrow> ('gi, 'ov) sftp_op" where
  "sftp_stat e p =
     guarded [allowed e, permitted e FileRead]
       (and_then (existing e p) (\<lambda>path.
        and_then (attempt (file_metadata e path) (Status NoSuchFile)) (\<lambda>md.
        and_then (visible e path (md_is_dir md) NoSuchFile) (\<lambda>_.
        succeed (ReplyAttrs (snd (convert_entry path md None)))))))"

definition sftp_fstat :: "('gi, 'ov) sftp_env \<Rightarrow> string \<Rightarrow> ('gi, 'ov) sftp_op" where
  "sftp_fstat e h =
     guarded [allowed e]
       (\<lambda>st. case map_of (sf_handles st) h of
          None \<Rightarrow> (Inl (Status NoSuchFile), st)
        | Some handle \<Rightarrow> sftp_stat e (path_text (handle_path handle)) st)"

definition sftp_lstat :: "('gi, 'ov) sftp_env \<Rightarrow> string \<Rightarrow> ('gi, 'ov) sftp_op" where
  "sftp_lstat e p =
     (let path = components p in
      guarded [allowed e, permitted e FileRead]
        (and_then (attempt (file_symlink_metadata e path) (Status NoSuchFile)) (\<lambda>md.
         and_then (visible e path (md_is_dir md) NoSuchFile) (\<lambda>_.
         and_then (perform (target_of e path md)) (\<lambda>target.
         succeed (ReplyAttrs (snd (convert_entry path md target))))))))"

definition sftp_readlink :: "('gi, 'ov) sftp_env \<Rightarrow> string \<Rightarrow> ('gi, 'ov) sftp_op" where
  "sftp_readlink e p =
     guarded [allowed e, permitted e FileRead]
       (and_then (attempt (with_cap e (\<lambda>run self. apfst (typed the_path) (cap_read_link run (components p) self)))
                   (Status NoSuchFile)) (\<lambda>path.
        and_then (attempt (file_symlink_metadata e path) (Status NoSuchFile)) (\<lambda>md.
        and_then (visible e path (md_is_dir md) NoSuchFile) (\<lambda>_.
        and_then (perform (target_of e path md)) (\<lambda>target.
        succeed (ReplyName [convert_entry path md target]))))))"

text \<open>What \<open>symlink\<close> and the hard link extension do once the two paths differ.\<close>

definition make_link ::
  "('gi, 'ov) sftp_env \<Rightarrow> (cap_value cap_run \<Rightarrow> path \<Rightarrow> path \<Rightarrow> CapFilesystem \<Rightarrow> cap_value result \<times> cap_call list)
     \<Rightarrow> string \<Rightarrow> string \<Rightarrow> ('gi, 'ov) sftp_op" where
  "make_link e op link target =
     (let linkpath = components link in
      and_then (existing e target) (\<lambda>targetpath.
      and_then (attempt (file_symlink_metadata e targetpath) (Status NoSuchFile)) (\<lambda>md.
      guarded [ensure (\<lambda>_. md_is_file md) (Status NoSuchFile),
               visible e targetpath (md_is_dir md) NoSuchFile, visible e linkpath False NoSuchFile,
               attempt (cap_unit e (\<lambda>run. op run targetpath linkpath)) (Status Failure),
               log_sftp e AE_SftpCreate (file_json linkpath)] (succeed ReplyOk))))"

definition sftp_symlink :: "('gi, 'ov) sftp_env \<Rightarrow> string \<Rightarrow> string \<Rightarrow> ('gi, 'ov) sftp_op" where
  "sftp_symlink e linkpath targetpath =
     guarded [allowed e, writable e, permitted e FileCreate, ensure (\<lambda>_. linkpath \<noteq> targetpath) (Status NoSuchFile)]
       (make_link e cap_symlink linkpath targetpath)"

section \<open>Files\<close>

record OpenFlags =
  of_read :: bool
  of_write :: bool
  of_append :: bool
  of_create :: bool
  of_truncate :: bool

definition open_options :: "OpenFlags \<Rightarrow> OpenOptions" where
  "open_options f =
     \<lparr>oo_read = of_read f, oo_write = of_write f \<or> of_append f, oo_append = False,
      oo_create = of_create f, oo_truncate = of_truncate f\<rparr>"

definition permitted_if :: "('gi, 'ov) sftp_env \<Rightarrow> bool \<Rightarrow> Permission \<Rightarrow> ('gi, 'ov, unit) sftp_handler" where
  "permitted_if e b p = (if b then permitted e p else succeed ())"

definition strip_slash :: "string \<Rightarrow> string" where
  "strip_slash s = (if starts_with s ''/'' then tl s else s)"

definition open_event :: "OpenFlags \<Rightarrow> ActivityEvent option" where
  "open_event f =
     (if of_truncate f \<or> of_create f then Some AE_SftpCreate
      else if of_write f \<or> of_append f then Some AE_SftpWrite
      else None)"

definition sftp_open :: "('gi, 'ov) sftp_env \<Rightarrow> string \<Rightarrow> OpenFlags \<Rightarrow> ('gi, 'ov) sftp_op" where
  "sftp_open e filename f =
     guarded [allowed e, room_for_handle, permitted_if e (of_write f \<or> of_append f) FileUpdate,
              permitted_if e (of_create f) FileCreate, permitted_if e (of_truncate f) FileDelete,
              permitted_if e (of_read f) FileReadContent]
       (and_then (perform (file_canonicalize e (components filename))) (\<lambda>c.
        let path = (case c of Inr p \<Rightarrow> p | Inl _ \<Rightarrow> components (strip_slash filename)) in
        and_then (perform (file_symlink_metadata e path)) (\<lambda>r.
        guarded [ensure (\<lambda>_. case r of Inr md \<Rightarrow> md_is_file md | Inl _ \<Rightarrow> of_create f) (Status NoSuchFile),
                 visible e path False NoSuchFile]
          (and_then (attempt (with_cap e (\<lambda>run self.
                       apfst (typed the_file) (cap_open_with run path (open_options f) self))) (Status Failure))
             (\<lambda>fd.
           and_then (inspect (\<lambda>st. path_to_components (fs_base_path (sf_fs st)) path)) (\<lambda>comps.
           and_then (case open_event f of Some ev \<Rightarrow> log_sftp e ev (file_json path) | None \<Rightarrow> succeed ()) (\<lambda>_.
           and_then (insert_handle (FileHandle path comps fd)) (\<lambda>h. succeed (ReplyHandle h)))))))))"

definition sftp_read :: "('gi, 'ov) sftp_env \<Rightarrow> string \<Rightarrow> u64 \<Rightarrow> u32 \<Rightarrow> ('gi, 'ov) sftp_op" where
  "sftp_read e h offset len =
     guarded [allowed e]
       (and_then (file_handle h) (\<lambda>(path, comps, f).
        let n = min (unat len) (256 * 1024) in
        case fe_read_at e f offset n of
          Inl _ \<Rightarrow> fail (Status Failure)
        | Inr d \<Rightarrow> if take n d = [] then fail (Status Eof) else succeed (ReplyData (take n d))))"

text \<open>The slice of the components without the last one panics for an empty list.\<close>

definition sftp_write :: "('gi, 'ov) sftp_env \<Rightarrow> string \<Rightarrow> u64 \<Rightarrow> string \<Rightarrow> ('gi, 'ov) sftp_op" where
  "sftp_write e h offset d =
     guarded [allowed e]
       (and_then (file_handle h) (\<lambda>(path, comps, f).
        guarded [writable e, ensure (\<lambda>_. comps \<noteq> []) Panic,
                 ensure_run (on_fs e (\<lambda>os. async_allocate_in_path_slice (butlast comps) (word_of_nat (length d)) False))
                   (Status Failure),
                 update (\<lambda>st. st\<lparr>sf_io := sf_io st @ [IoWriteAt f offset d]\<rparr>),
                 attempt (\<lambda>st. (fe_write_at e f offset d, st)) (Status Failure)] (succeed ReplyOk)))"

section \<open>Extensions\<close>

text \<open>
  The inner function \<open>bytes\<close> of the hash command, whose subtraction wraps: the number
  of bytes of a chunk that are hashed. Slicing the buffer there panics (\<open>None\<close>) when
  that is more than the buffer holds.
\<close>

abbreviation BUFFER_SIZE :: nat where "BUFFER_SIZE \<equiv> 32 * 1024"

definition hash_bytes :: "u64 \<Rightarrow> u64 \<Rightarrow> u64 \<Rightarrow> u64" where
  "hash_bytes len bytes_read tot =
     (if len > 0 then (if tot > len then len - (tot - bytes_read) else bytes_read) else bytes_read)"

fun hash_loop :: "u64 \<Rightarrow> u64 \<Rightarrow> string \<Rightarrow> string result list \<Rightarrow> sftp_error + string" where
  "hash_loop len tot acc [] = Inr acc"
| "hash_loop len tot acc (Inl err # cs) = Inl (Status Failure)"
| "hash_loop len tot acc (Inr chunk # cs) =
     (let n = word_of_nat (length chunk); tot = tot + n; k = hash_bytes len n tot in
      if n = 0 then Inr acc
      else if BUFFER_SIZE < unat k then Inl Panic
      else hash_loop len tot (acc @ take (unat k) chunk) cs)"

definition hash_algorithms :: "string list" where
  "hash_algorithms = [''md5'', ''crc32'', ''sha1'', ''sha224'', ''sha256'', ''sha384'', ''sha512'']"

definition sftp_check_file ::
  "('gi, 'ov) sftp_env \<Rightarrow> bool \<Rightarrow> string \<Rightarrow> ('gi, 'ov) sftp_op" where
  "sftp_check_file e by_name d =
     guarded [permitted e FileRead]
       (and_then (from_option (fe_decode_check e d) (Status BadMessage)) (\<lambda>(file_name, hash, start, len).
        and_then (if by_name then succeed file_name
                  else and_then (file_handle file_name) (\<lambda>(path, comps, f). succeed (path_text path))) (\<lambda>name.
        and_then (existing e name) (\<lambda>path.
        and_then (perform (file_symlink_metadata e path)) (\<lambda>r.
        case r of
          Inl _ \<Rightarrow> fail (Status OpUnsupported)
        | Inr md \<Rightarrow>
            guarded [ensure (\<lambda>_. md_is_file md) (Status NoSuchFile), visible e path (md_is_dir md) NoSuchFile]
              (and_then (attempt (with_cap e (\<lambda>run self. apfst (typed the_file) (cap_open run path self)))
                         (Status NoSuchFile)) (\<lambda>f.
               let alg = hd (str_split (CHR '','') hash) in
               if start \<noteq> 0 \<and> isl (fe_seek e f start) then fail (Status Failure)
               else if alg \<notin> set hash_algorithms then fail (Status BadMessage)
               else case hash_loop len 0 [] (fe_chunks e f start) of
                      Inl err \<Rightarrow> fail err
                    | Inr bytes \<Rightarrow> succeed (ReplyHash alg (fe_digest e alg bytes)))))))))"

definition sftp_copy_file :: "('gi, 'ov) sftp_env \<Rightarrow> string \<Rightarrow> ('gi, 'ov) sftp_op" where
  "sftp_copy_file e d =
     guarded [permitted e FileReadContent, permitted e FileCreate]
       (and_then (from_option (fe_decode_copy e d) (Status BadMessage)) (\<lambda>(source, destination, overwrite).
        and_then (existing e source) (\<lambda>source_path.
        and_then (attempt (file_symlink_metadata e source_path) (Status NoSuchFile)) (\<lambda>md.
        guarded [ensure (\<lambda>_. md_is_file md) (Status NoSuchFile), visible e source_path False NoSuchFile]
          (let destination_path = components destination in
           and_then (perform (file_metadata e destination_path)) (\<lambda>there.
           guarded [ensure (\<lambda>_. \<not> (case there of Inr m \<Rightarrow> \<not> md_is_file m \<and> overwrite = 0 | Inl _ \<Rightarrow> False))
                      (Status NoSuchFile)]
             (case parent destination_path of
                None \<Rightarrow> fail Panic
              | Some par \<Rightarrow>
                  guarded [ensure_run (on_fs e (\<lambda>os. async_allocate_in_path par (md_len md) False)) (Status Failure),
                           attempt (cap_unit e (\<lambda>run self. cap_copy run source_path self destination_path self))
                             (Status NoSuchFile),
                           log_sftp e AE_SftpCreate (file_json destination_path)] (succeed ReplyOk))))))))"

text \<open>
  The search for the disk the server's directory is mounted on: \<open>pop\<close> leaves the root
  unchanged, so the loop ends only when it meets a mount point. \<open>None\<close>: it does not end.
\<close>

partial_function (option) find_disk ::
  "(path \<times> u64 \<times> u64) list \<Rightarrow> path \<Rightarrow> (u64 \<times> u64) option" where
  "find_disk disks p =
     (case map_of disks p of
        Some d \<Rightarrow> Some d
      | None \<Rightarrow> find_disk disks (case parent p of Some q \<Rightarrow> q | None \<Rightarrow> p))"

text \<open>\<open>total - usage\<close> wraps.\<close>

definition disk_space :: "('gi, 'ov) sftp_env \<Rightarrow> ('gi, 'ov) sftp \<Rightarrow> (u64 \<times> u64) option" where
  "disk_space e st =
     (if disk_limit (sf_fs st) = 0 then find_disk (fe_disks e) (fs_base_path (sf_fs st))
      else Some (disk_limit (sf_fs st),
                 disk_limit (sf_fs st) - limiter_usage (fe_mode e) (fe_backends e) (sf_fs st)))"

definition sftp_space :: "('gi, 'ov) sftp_env \<Rightarrow> ('gi, 'ov) sftp_op" where
  "sftp_space e =
     and_then (inspect (disk_space e)) (\<lambda>d.
     and_then (from_option d Diverges) (\<lambda>(tot, free). succeed (ReplySpace tot free)))"

definition sftp_statvfs :: "('gi, 'ov) sftp_env \<Rightarrow> ('gi, 'ov) sftp_op" where
  "sftp_statvfs e =
     and_then (inspect (disk_space e)) (\<lambda>d.
     and_then (from_option d Diverges) (\<lambda>(tot, free).
       succeed (ReplyStatVfs (tot div 4096) (free div 4096) (fe_read_only e))))"

definition sftp_limits :: "('gi, 'ov) sftp_op" where
  "sftp_limits = succeed (ReplyLimits (32 * 1024) (128 * 1024) (128 * 1024) (word_of_nat HANDLE_LIMIT))"

definition sftp_hardlink :: "('gi, 'ov) sftp_env \<Rightarrow> string \<Rightarrow> ('gi, 'ov) sftp_op" where
  "sftp_hardlink e d =
     and_then (from_option (fe_decode_link e d) (Status BadMessage)) (\<lambda>(target, link).
       guarded [writable e, permitted e FileCreate,
                ensure (\<lambda>_. components link \<noteq> components target) (Status NoSuchFile)]
         (make_link e (\<lambda>run t l self. cap_hard_link run t self l self) link target))"

definition sftp_fsync :: "('gi, 'ov) sftp_env \<Rightarrow> string \<Rightarrow> ('gi, 'ov) sftp_op" where
  "sftp_fsync e d =
     and_then (from_option (fe_decode_fsync e d) (Status BadMessage)) (\<lambda>h.
       guarded [writable e, permitted e FileUpdate]
         (and_then (file_handle h) (\<lambda>(path, comps, f).
          guarded [update (\<lambda>st. st\<lparr>sf_io := sf_io st @ [IoSync f]\<rparr>),
                   attempt (\<lambda>st. (fe_sync e f, st)) (Status Failure)] (succeed ReplyOk))))"

definition sftp_lsetstat :: "('gi, 'ov) sftp_env \<Rightarrow> string \<Rightarrow> ('gi, 'ov) sftp_op" where
  "sftp_lsetstat e d =
     and_then (from_option (fe_decode_lsetstat e d) (Status BadMessage)) (\<lambda>(h, perms).
       guarded [writable e, permitted e FileUpdate]
         (and_then (file_handle h) (\<lambda>(path, comps, f).
          and_then (chmod_to e cap_set_symlink_permissions path perms) (\<lambda>_. succeed ReplyOk))))"

definition sftp_extended :: "('gi, 'ov) sftp_env \<Rightarrow> string \<Rightarrow> string \<Rightarrow> ('gi, 'ov) sftp_op" where
  "sftp_extended e command d =
     guarded [allowed e]
       (if command \<in> {''check-file'', ''check-file-name''} then sftp_check_file e (command = ''check-file-name'') d
        else if command = ''copy-file'' then sftp_copy_file e d
        else if command = ''space-available'' then sftp_space e
        else if command = ''limits@openssh.com'' then sftp_limits
        else if command \<in> {''fstatvfs@openssh.com'', ''statvfs@openssh.com''} then sftp_statvfs e
        else if command = ''hardlink@openssh.com'' then sftp_hardlink e d
        else if command = ''fsync@openssh.com'' then sftp_fsync e d
        else if command = ''lsetstat@openssh.com'' then sftp_lsetstat e d
        else fail (Status OpUnsupported))"

section \<open>A session\<close>

datatype sftp_request =
    RInit | RClose string | RRealpath string | ROpendir string | RReaddir string | RRemove string
  | RRmdir string | RMkdir string "u32 option" | RRename string string | RSetstat string "u32 option"
  | RFsetstat string "u32 option" | RStat string | RFstat string | RLstat string | RReadlink string
  | RSymlink string string | ROpen string OpenFlags | RRead string u64 u32 | RWrite string u64 string
  | RExtended string string

fun sftp_handle :: "('gi, 'ov) sftp_env \<Rightarrow> sftp_request \<Rightarrow> ('gi, 'ov) sftp_op" where
  "sftp_handle e RInit = succeed ReplyVersion"
| "sftp_handle e (RClose h) = sftp_close h"
| "sftp_handle e (RRealpath p) = sftp_realpath e p"
| "sftp_handle e (ROpendir p) = sftp_opendir e p"
| "sftp_handle e (RReaddir h) = sftp_readdir e h"
| "sftp_handle e (RRemove p) = sftp_remove e p"
| "sftp_handle e (RRmdir p) = sftp_rmdir e p"
| "sftp_handle e (RMkdir p m) = sftp_mkdir e p m"
| "sftp_handle e (RRename p q) = sftp_rename e p q"
| "sftp_handle e (RSetstat p m) = sftp_setstat e p m"
| "sftp_handle e (RFsetstat h m) = sftp_fsetstat e h m"
| "sftp_handle e (RStat p) = sftp_stat e p"
| "sftp_handle e (RFstat h) = sftp_fstat e h"
| "sftp_handle e (RLstat p) = sftp_lstat e p"
| "sftp_handle e (RReadlink p) = sftp_readlink e p"
| "sftp_handle e (RSymlink l t) = sftp_symlink e l t"
| "sftp_handle e (ROpen p f) = sftp_open e p f"
| "sftp_handle e (RRead h off len) = sftp_read e h off len"
| "sftp_handle e (RWrite h off d) = sftp_write e h off d"
| "sftp_handle e (RExtended c d) = sftp_extended e c d"

text \<open>The requests of a session, each with the environment it runs in, until a handler panics or hangs.\<close>

fun sftp_session ::
  "(('gi, 'ov) sftp_env \<times> sftp_request) list \<Rightarrow> ('gi, 'ov) sftp
     \<Rightarrow> (sftp_error + sftp_reply) list \<times> ('gi, 'ov) sftp" where
  "sftp_session [] st = ([], st)"
| "sftp_session ((e, rq) # rqs) st =
     (case sftp_handle e rq st of
        (r, st) \<Rightarrow>
          if r \<in> {Inl Panic, Inl Diverges} then ([r], st)
          else (case sftp_session rqs st of (rs, st) \<Rightarrow> (r # rs, st)))"

end
