(* ===== verification/Labelled_Steps.thy ===== *)
theory Labelled_Steps
  imports Handlers
begin

text \<open>
  Step relations whose steps carry a label: the steps with a label of a given set, what
  handlers may do in terms of them, and the properties all of them keep.
\<close>

section \<open>Steps with labels\<close>

definition steps_of :: "('l \<Rightarrow> 's \<Rightarrow> 's \<Rightarrow> bool) \<Rightarrow> 'l set \<Rightarrow> 's \<Rightarrow> 's \<Rightarrow> bool" where
  "steps_of step L s t \<longleftrightarrow> (\<exists>l\<in>L. step l s t)"

lemma steps_of_mono: "L \<subseteq> K \<Longrightarrow> steps_of step L \<le> steps_of step K"
  by (fastforce simp: steps_of_def)

lemma confines_steps_mono:
  "confines (steps_of step L) I m A \<Longrightarrow> L \<subseteq> K \<Longrightarrow> confines (steps_of step K) I m A"
  using confines_mono steps_of_mono by metis

lemma pure_stays [stays]: "confines r I (Pair x) (on_ok anything)"
  by (simp add: confines_def on_ok_anything)

text \<open>A property that every step with one of the labels keeps.\<close>

locale kept_by_steps =
  fixes step :: "'l \<Rightarrow> 's \<Rightarrow> 's \<Rightarrow> bool" and L :: "'l set" and P :: "'s \<Rightarrow> bool"
  assumes kept: "l \<in> L \<Longrightarrow> step l s t \<Longrightarrow> P s \<Longrightarrow> P t"
begin

lemma always: "(steps_of step L)\<^sup>*\<^sup>* s t \<Longrightarrow> P s \<Longrightarrow> P t"
  by (induction rule: rtranclp_induct) (auto simp: steps_of_def dest: kept)

end

end
