(* ===== verification/File_Steps.thy ===== *)
theory File_Steps
  imports File_Access Labelled_Steps
begin

text \<open>
  What a client of a server's files may do to them: the kinds of step, the accounting
  steps of \<open>Filesystem\<close>, and the contract \<open>file_client\<close> of a client whose step
  relation has these kinds. A client that keeps to the contract makes every file
  operation of theory \<open>File_Access\<close> as such steps.
\<close>

section \<open>Kinds of calls\<close>

definition local_path :: "path \<Rightarrow> bool" where
  "local_path p \<longleftrightarrow> ParentDir \<notin> set p \<and> RootDir \<notin> set p"

fun fs_call_confined :: "path \<Rightarrow> fs_call \<Rightarrow> bool" where
  "fs_call_confined base (RenamePath p q) \<longleftrightarrow> local_path p \<and> local_path q"
| "fs_call_confined base (ChownPath p) \<longleftrightarrow> local_path p \<or> p = base"
| "fs_call_confined base (OpenBase p) \<longleftrightarrow> p = base"
| "fs_call_confined base (CreateDirAll p) \<longleftrightarrow> local_path p"
| "fs_call_confined base (RemoveDirAll p) \<longleftrightarrow> local_path p"
| "fs_call_confined base (RemoveFile p) \<longleftrightarrow> local_path p"
| "fs_call_confined base (OpenFile p b) \<longleftrightarrow> local_path p"
| "fs_call_confined base (WriteAll p d) \<longleftrightarrow> local_path p"

text \<open>The calls that leave the disk as it is.\<close>

fun looks :: "cap_call \<Rightarrow> bool" where
  "looks (InDir op ps) \<longleftrightarrow> op \<in> {D_Metadata, D_SymlinkMetadata, D_Canonicalize, D_ReadLink, D_ReadLinkContents, D_Open, D_ReadDir}"
| "looks (OnBase op p) \<longleftrightarrow> op \<in> {B_Metadata, B_SymlinkMetadata, B_ReadDir}"

definition accounts :: "'gi Filesystem \<Rightarrow> 'gi Filesystem \<Rightarrow> bool" where
  "accounts fs fs' \<longleftrightarrow>
     fs_base_path fs' = fs_base_path fs \<and> initialized fs' = initialized fs \<and> disk_limit fs' = disk_limit fs \<and>
     (\<exists>cs. fs_calls fs' = fs_calls fs @ cs \<and> list_all (fs_call_confined (fs_base_path fs)) cs)"

text \<open>
  What is assumed of the outside: paths it answers are paths, and a walk below a
  directory reports paths below it.
\<close>

definition answers_ok :: "('gi, 'e) file_env_scheme \<Rightarrow> bool" where
  "answers_ok e \<longleftrightarrow>
     (\<forall>cs fs c p. fe_run e cs fs c = Inr (VPath p) \<longrightarrow> wf_path p) \<and>
     (\<forall>ps. fe_chown_walk e = Inr ps \<longrightarrow> list_all local_path ps)"

section \<open>Paths\<close>

lemma wf_path_join: "wf_path p \<Longrightarrow> wf_path q \<Longrightarrow> wf_path (path_join p q)"
  by (induction p q rule: path_join.induct)
     (auto simp: wf_path_def list_all_iff split: list.splits)

section \<open>The accounting\<close>

lemma accounts_same:
  "fs_base_path fs' = fs_base_path fs \<Longrightarrow> initialized fs' = initialized fs \<Longrightarrow> disk_limit fs' = disk_limit fs \<Longrightarrow>
     fs_calls fs' = fs_calls fs @ cs \<Longrightarrow> list_all (fs_call_confined (fs_base_path fs)) cs \<Longrightarrow> accounts fs fs'"
  by (auto simp: accounts_def)

lemma accounts_trans: "accounts a b \<Longrightarrow> accounts b c \<Longrightarrow> accounts a c"
  by (auto simp: accounts_def)

lemma accounts_call: "fs_call_confined (fs_base_path fs) c \<Longrightarrow> accounts fs (call c fs)"
  by (rule accounts_same [where cs = "[c]"]) (simp_all add: call_def)

lemma accounts_usage [simp]:
  "accounts fs fs" "accounts a (b\<lparr>disk_usage := u\<rparr>) = accounts a b" "accounts a (b\<lparr>disk_usage_cached := n\<rparr>) = accounts a b"
  by (simp_all add: accounts_def)

lemma accounts_allocation [simp]:
  "accounts a (snd (async_allocate_in_path p n b fs)) = accounts a fs"
  "accounts a (snd (async_allocate_in_path_slice q n b fs)) = accounts a fs"
  by (simp_all add: async_allocate_in_path_def async_allocate_in_path_slice_def charge_cached_def accounts_def Let_def)

lemma local_relative: "wf_path p \<Longrightarrow> base \<noteq> [] \<Longrightarrow> local_path (relative_path base p)"
  using resolved_no_root [OF relative_path_resolved] by (simp add: local_path_def)

lemma local_parent: "local_path p \<Longrightarrow> parent p = Some q \<Longrightarrow> local_path q"
  by (auto simp: local_path_def parent_def split: if_splits dest: in_set_butlastD)

lemma truncate_accounts:
  assumes "wf_path p" and "fs_base_path fs \<noteq> []"
  shows "accounts fs (snd (truncate_path os p fs))"
proof -
  have base: "fs_base_path (snd (async_allocate_in_path q n b fs)) = fs_base_path fs" for q n b
    using accounts_allocation(1) [of fs q n b fs] by (simp add: accounts_def)
  show ?thesis
    using local_relative [OF assms]
    by (auto simp: truncate_path_def Let_def base split: sum.split prod.split option.split
        intro!: accounts_trans [OF _ accounts_call])
qed

lemma rename_accounts:
  assumes "wf_path p" and "wf_path q" and "fs_base_path fs \<noteq> []"
  shows "accounts fs (snd (rename_path os p q fs))"
proof -
  let ?p = "relative_path (fs_base_path fs) p" and ?q = "relative_path (fs_base_path fs) q"
  have l: "local_path ?p" "local_path ?q" using local_relative assms by blast+
  have base: "fs_base_path (snd (async_allocate_in_path q n b fs)) = fs_base_path fs" for q n b and fs :: "'a Filesystem"
    using accounts_allocation(1) [of fs q n b fs] by (simp add: accounts_def)
  have made: "accounts fs (call (CreateDirAll r) fs)" if "parent ?q = Some r" for r
    by (rule accounts_call) (simp add: local_parent [OF l(2) that])
  have b2: "fs_base_path (call c fs) = fs_base_path fs" for c and fs :: "'a Filesystem"
    by (simp add: call_def)
  show ?thesis
    unfolding rename_path_def Let_def
    using l made
    by (auto simp: base b2 split: option.split sum.split prod.split intro!: accounts_trans [OF _ accounts_call])
qed

lemma fold_chown_accounts:
  "list_all local_path ps \<Longrightarrow> accounts a fs \<Longrightarrow> accounts a (fold (\<lambda>p. call (ChownPath p)) ps fs)"
proof (induction ps arbitrary: fs)
  case (Cons q ps)
  then show ?case using accounts_trans [OF Cons.prems(2) accounts_call [of fs "ChownPath q"]] by simp
qed simp

lemma chown_accounts:
  assumes "wf_path p" and "fs_base_path fs \<noteq> []" and "\<And>ps. walk = Inr ps \<Longrightarrow> list_all local_path ps"
  shows "accounts fs (snd (chown_path d c walk p fs))"
  using local_relative [OF assms(1,2)] assms(3)
  by (auto simp: chown_path_def Let_def accounts_call fold_chown_accounts split: sum.split)

lemma looks_calls [simp]:
  "looks (InDir op []) \<Longrightarrow> list_all looks (snd (in_dir run op ps self))"
  "looks (InDir op []) \<Longrightarrow> looks (OnBase bop []) \<Longrightarrow> list_all looks (snd (in_dir_or_base run bop op p self))"
  by (auto simp: in_dir_def in_dir_or_base_def)

section \<open>The contract of a client\<close>

locale file_client =
  fixes step :: "'l \<Rightarrow> ('gi, 's) file_state_scheme \<Rightarrow> ('gi, 's) file_state_scheme \<Rightarrow> bool"
    and look change account io :: 'l
    and valid :: "('gi, 's) file_state_scheme \<Rightarrow> bool"
  assumes look_step: "list_all (confined (cap_of (sf_fs s))) cs \<Longrightarrow> list_all looks cs \<Longrightarrow>
      step look s (s\<lparr>sf_calls := sf_calls s @ cs\<rparr>)"
    and change_step: "list_all (confined (cap_of (sf_fs s))) cs \<Longrightarrow> step change s (s\<lparr>sf_calls := sf_calls s @ cs\<rparr>)"
    and account_step: "accounts (sf_fs s) fs \<Longrightarrow> step account s (s\<lparr>sf_fs := fs\<rparr>)"
    and io_step: "step io s (s\<lparr>sf_io := sf_io s @ [x]\<rparr>)"
    and wf_calls: "valid s \<Longrightarrow> valid (s\<lparr>sf_calls := cs\<rparr>)"
    and wf_io: "valid s \<Longrightarrow> valid (s\<lparr>sf_io := ops\<rparr>)"
    and wf_fs: "valid s \<Longrightarrow> accounts (sf_fs s) fs \<Longrightarrow> valid (s\<lparr>sf_fs := fs\<rparr>)"
    and wf_base: "valid s \<Longrightarrow> fs_base_path (sf_fs s) \<noteq> []"
begin

abbreviation stays_in where "stays_in L m A \<equiv> confines (steps_of step L) valid m A"

lemma stays_inI:
  assumes "\<And>s. valid s \<Longrightarrow> steps_of step L s (snd (m s)) \<and> valid (snd (m s)) \<and> A (fst (m s))"
  shows "stays_in L m A"
  using assms by (auto intro!: confinesI)

lemma with_cap_stays:
  assumes "\<And>run self. base_path self \<noteq> [] \<Longrightarrow>
      list_all (confined self) (snd (op run self)) \<and> (l = change \<or> list_all looks (snd (op run self)))"
    and "\<And>cs fs self. A (fst (op (fe_run e cs fs) self))" and "l \<in> {look, change}" and "l \<in> L"
  shows "stays_in L (with_cap e op) A"
proof (rule stays_inI)
  fix s
  assume s: "valid s"
  obtain r cs where op: "op (run_now e s) (cap_of (sf_fs s)) = (r, cs)" by fastforce
  have "base_path (cap_of (sf_fs s)) \<noteq> []" using wf_base [OF s] by (simp add: cap_of_def)
  from assms(1) [OF this, of "run_now e s"] have "step l s (s\<lparr>sf_calls := sf_calls s @ cs\<rparr>)"
    using assms(3) op by (auto intro: look_step change_step)
  moreover have "A r" using assms(2) [of "sf_calls s" "fs_calls (sf_fs s)" "cap_of (sf_fs s)"] op by (simp add: run_now_def)
  ultimately show "steps_of step L s (snd (with_cap e op s)) \<and> valid (snd (with_cap e op s)) \<and> A (fst (with_cap e op s))"
    using assms(4) wf_calls [OF s] by (auto simp: with_cap_def op steps_of_def)
qed

lemma lookups_stay [stays]:
  assumes "wf_path p" and "look \<in> L"
  shows "stays_in L (file_metadata e p) (on_ok anything)" and "stays_in L (file_symlink_metadata e p) (on_ok anything)"
    and "stays_in L (with_cap e (\<lambda>run self. apfst (typed the_entries) (cap_read_dir run p self))) (on_ok anything)"
    and "stays_in L (with_cap e (\<lambda>run self. apfst (typed the_file) (cap_open run p self))) (on_ok anything)"
  unfolding file_metadata_def file_symlink_metadata_def
  by (rule with_cap_stays [where l = look];
      use assms rel_confined [OF assms(1)] in \<open>simp add: cap_defs in_dir_confined in_dir_or_base_confined on_ok_anything\<close>)+

lemma canonicalize_stays [stays]:
  assumes "answers_ok e" and "wf_path p" and "look \<in> L"
  shows "stays_in L (file_canonicalize e p) (on_ok wf_path)"
  unfolding file_canonicalize_def
proof (rule with_cap_stays [where l = look])
  fix run :: "cap_value cap_run" and self :: CapFilesystem
  assume "base_path self \<noteq> []"
  then show "list_all (confined self) (snd (cap_canonicalize (\<lambda>c. typed the_path (run c)) p self)) \<and>
      (look = change \<or> list_all looks (snd (cap_canonicalize (\<lambda>c. typed the_path (run c)) p self)))"
    using rel_confined [OF assms(2)] by (simp add: cap_canonicalize_def in_dir_confined)
next
  fix cs fs self
  have "on_ok wf_path (typed the_path (fe_run e cs fs c))" for c
    using assms(1) by (cases "fe_run e cs fs c"; cases "the_path (projr (fe_run e cs fs c))")
      (auto simp: typed_def answers_ok_def elim: the_path.elims)
  then show "on_ok wf_path (fst (cap_canonicalize (\<lambda>c. typed the_path (fe_run e cs fs c)) p self))"
    by (simp add: cap_canonicalize_def in_dir_def wf_path_def)
qed (use assms in simp_all)

lemma read_link_stays [stays]:
  assumes "answers_ok e" and "wf_path p" and "look \<in> L"
  shows "stays_in L (with_cap e (\<lambda>run self. apfst (typed the_path) (cap_read_link run p self))) (on_ok wf_path)"
proof (rule with_cap_stays [where l = look])
  fix cs fs self
  have "on_ok wf_path (typed the_path (fe_run e cs fs c))" for c
    using assms(1) by (cases "fe_run e cs fs c"; cases "the_path (projr (fe_run e cs fs c))")
      (auto simp: typed_def answers_ok_def elim: the_path.elims)
  then show "on_ok wf_path (fst (apfst (typed the_path) (cap_read_link (fe_run e cs fs) p self)))"
    by (simp add: cap_read_link_def in_dir_def typed_def)
qed (use assms rel_confined [OF assms(2)] in \<open>simp_all add: cap_read_link_def in_dir_confined\<close>)

lemma changes_stay [stays]:
  assumes "wf_path p" and "change \<in> L"
  shows "stays_in L (cap_unit e (\<lambda>run. cap_create_dir run p)) (on_ok anything)"
    and "stays_in L (cap_unit e (\<lambda>run. cap_create_dir_all run p)) (on_ok anything)"
    and "stays_in L (with_cap e (\<lambda>run self. apfst (typed the_unit) (cap_async_set_permissions run p n self))) (on_ok anything)"
    and "stays_in L (with_cap e (\<lambda>run self. apfst (typed the_unit) (cap_set_symlink_permissions run p n self))) (on_ok anything)"
    and "stays_in L (cap_unit e (\<lambda>run. cap_async_set_permissions run p n)) (on_ok anything)"
    and "stays_in L (with_cap e (\<lambda>run self. apfst (typed the_file) (cap_open_with run p f self))) (on_ok anything)"
    and "stays_in L (with_cap e (\<lambda>run self. apfst (typed the_file) (cap_create run p self))) (on_ok anything)"
    and "wf_path q \<Longrightarrow> stays_in L (cap_unit e (\<lambda>run self. cap_copy run p self q self)) (on_ok anything)"
    and "wf_path q \<Longrightarrow> stays_in L (cap_unit e (\<lambda>run. cap_symlink run p q)) (on_ok anything)"
    and "wf_path q \<Longrightarrow> stays_in L (cap_unit e (\<lambda>run self. cap_hard_link run p self q self)) (on_ok anything)"
  unfolding cap_unit_def
  by (rule with_cap_stays [where l = change];
      use assms rel_confined in \<open>simp add: cap_defs in_dir_confined in_dir_or_base_confined
        in_two_dirs_confined on_ok_anything\<close>)+

lemma on_fs_stays:
  assumes "\<And>os fs. fs_base_path fs \<noteq> [] \<Longrightarrow> accounts fs (snd (op os fs))" and "account \<in> L" and "\<And>x. A x"
  shows "stays_in L (on_fs e op) A"
proof (rule stays_inI)
  fix s
  assume s: "valid s"
  obtain r fs where op: "op (os_of (run_now e s) (cap_of (sf_fs s))) (sf_fs s) = (r, fs)" by fastforce
  have "accounts (sf_fs s) fs"
    using assms(1) [OF wf_base [OF s], of "os_of (run_now e s) (cap_of (sf_fs s))"] op by simp
  then show "steps_of step L s (snd (on_fs e op s)) \<and> valid (snd (on_fs e op s)) \<and> A (fst (on_fs e op s))"
    using assms(2,3) account_step [of s fs] wf_fs [OF s] by (auto simp: on_fs_def op steps_of_def)
qed

lemma accounting_stays [stays]:
  assumes "wf_path p" and "account \<in> L"
  shows "stays_in L (on_fs e (\<lambda>os. truncate_path os p)) (on_ok anything)"
    and "wf_path q \<Longrightarrow> stays_in L (on_fs e (\<lambda>os. rename_path os p q)) (on_ok anything)"
    and "answers_ok e \<Longrightarrow> stays_in L (file_chown e p) (on_ok anything)"
  unfolding file_chown_def
  by (rule on_fs_stays; use assms in \<open>auto intro: truncate_accounts rename_accounts chown_accounts simp: answers_ok_def on_ok_anything\<close>)+

lemma allocation_stays [stays]:
  assumes "account \<in> L"
  shows "stays_in L (on_fs e (\<lambda>os. async_allocate_in_path r n b)) anything"
    and "stays_in L (on_fs e (\<lambda>os. async_allocate_in_path_slice cs n b)) anything"
  by (rule on_fs_stays; use assms in simp)+

lemma io_stays [stays]:
  assumes "io \<in> L"
  shows "stays_in L (update (\<lambda>st. st\<lparr>sf_io := sf_io st @ [x]\<rparr>)) (on_ok anything)"
  by (rule stays_inI) (use assms io_step wf_io in \<open>auto simp: update_def steps_of_def\<close>)

end

end
