(* ===== verification/Sftp_Session.thy ===== *)
theory Sftp_Session
  imports Sftp File_Steps
begin

text \<open>
  What the requests of an SFTP session (theory \<open>Sftp\<close>) may do: a step relation with
  the kinds of state change the session is allowed, the proof that every handler is a
  sequence of such steps, and the properties that follow.
\<close>

section \<open>The steps of a session\<close>

datatype sftp_label = Touch | Look | Change | Account | Log | Io | OpenHandle | CloseHandle | Advance

inductive sftp_step :: "sftp_label \<Rightarrow> ('gi, 'ov) sftp \<Rightarrow> ('gi, 'ov) sftp \<Rightarrow> bool" where
  touch: "upm_granted m = upm_granted (sf_perms st) \<Longrightarrow> sftp_step Touch st (st\<lparr>sf_perms := m\<rparr>)"
| look: "list_all (confined (cap_of (sf_fs st))) cs \<Longrightarrow> list_all looks cs \<Longrightarrow>
    sftp_step Look st (st\<lparr>sf_calls := sf_calls st @ cs\<rparr>)"
| change: "list_all (confined (cap_of (sf_fs st))) cs \<Longrightarrow>
    sftp_step Change st (st\<lparr>sf_calls := sf_calls st @ cs\<rparr>)"
| account: "accounts (sf_fs st) fs \<Longrightarrow> sftp_step Account st (st\<lparr>sf_fs := fs\<rparr>)"
| log: "is_sftp_event (act_event a) \<Longrightarrow> sftp_step Log st (st\<lparr>sf_activities := sf_activities st @ [a]\<rparr>)"
| io: "sftp_step Io st (st\<lparr>sf_io := sf_io st @ [x]\<rparr>)"
| open_handle: "length (sf_handles st) < HANDLE_LIMIT \<Longrightarrow> wf_path (handle_path h) \<Longrightarrow>
    sftp_step OpenHandle st (snd (insert_handle h st))"
| close_handle: "sftp_step CloseHandle st (st\<lparr>sf_handles := filter (\<lambda>(k, _). k \<noteq> h) (sf_handles st)\<rparr>)"
| advance: "map_of (sf_handles st) h = Some (DirHandle p es n) \<Longrightarrow>
    sftp_step Advance st (st\<lparr>sf_handles := obj_insert h (DirHandle p es' n') (sf_handles st)\<rparr>)"

definition wf_session :: "('gi, 'ov) sftp \<Rightarrow> bool" where
  "wf_session st \<longleftrightarrow> fs_base_path (sf_fs st) \<noteq> [] \<and> list_all (\<lambda>(k, h). wf_path (handle_path h)) (sf_handles st)"

text \<open>The labels of the handlers that change nothing on the disk, and of those that do.\<close>

abbreviation reading :: "sftp_label set" where "reading \<equiv> {Touch, Look}"
abbreviation changing :: "sftp_label set" where "changing \<equiv> {Touch, Look, Change, Account, Log, Io}"

abbreviation steps :: "sftp_label set \<Rightarrow> ('gi, 'ov) sftp \<Rightarrow> ('gi, 'ov) sftp \<Rightarrow> bool" where
  "steps \<equiv> steps_of sftp_step"

abbreviation stays_in ::
  "sftp_label set \<Rightarrow> (('gi, 'ov) sftp \<Rightarrow> 'r \<times> ('gi, 'ov) sftp) \<Rightarrow> ('r \<Rightarrow> bool) \<Rightarrow> bool" where
  "stays_in L m A \<equiv> confines (steps L) wf_session m A"

text \<open>A session is a client of the server's files.\<close>

interpretation session: file_client sftp_step Look Change Account Io wf_session
  by unfold_locales (auto intro: sftp_step.intros simp: wf_session_def accounts_def)

section \<open>The checks\<close>

lemma has_perm_stays [stays]: "Touch \<in> L \<Longrightarrow> stays_in L (has_perm e p) anything"
proof (rule session.stays_inI)
  fix s :: "('a, 'b) sftp"
  assume "Touch \<in> L" and "wf_session s"
  then show "steps L s (snd (has_perm e p s)) \<and> wf_session (snd (has_perm e p s)) \<and> True"
    using touch [of "snd (upm_has_permission (fe_now e) (fe_user e) p (sf_perms s))" s]
    by (auto simp: has_perm_def steps_of_def wf_session_def upm_has_permission_granted split: prod.split)
qed

lemma ignored_stays [stays]: "Touch \<in> L \<Longrightarrow> stays_in L (ignored_by_server e p d) anything"
proof (rule confinesI)
  fix s :: "('a, 'b) sftp"
  assume "Touch \<in> L" and "wf_session s"
  then have "(steps L)\<^sup>*\<^sup>* s (snd (ignored_by_server e p d s)) \<and> wf_session (snd (ignored_by_server e p d s))"
    using touch [of "snd (upm_is_ignored (fe_whitelisted e) (fe_now e) 0 p d (sf_perms s))" s]
    by (auto simp: ignored_by_server_def wf_session_def upm_is_ignored_granted steps_of_def
        intro!: r_into_rtranclp split: prod.split)
  then show "(steps L)\<^sup>*\<^sup>* s (snd (ignored_by_server e p d s)) \<and> wf_session (snd (ignored_by_server e p d s)) \<and> True"
    by simp
qed

lemma guards_stay [stays]:
  "stays_in L (allowed e) (on_ok anything)" "stays_in L (writable e) (on_ok anything)"
  "Touch \<in> L \<Longrightarrow> stays_in L (permitted e p) (on_ok anything)"
  "Touch \<in> L \<Longrightarrow> stays_in L (visible e q d c) (on_ok anything)"
  "Touch \<in> L \<Longrightarrow> stays_in L (permitted_if e b p) (on_ok anything)"
proof -
  show "stays_in L (allowed e) (on_ok anything)" and "stays_in L (writable e) (on_ok anything)"
    unfolding allowed_def writable_def by (rule stays)+
next
  assume L: "Touch \<in> L"
  show perm: "stays_in L (permitted e p) (on_ok anything)"
    unfolding permitted_def by (intro stays L)
  then show "stays_in L (permitted_if e b p) (on_ok anything)"
    by (simp add: permitted_if_def stays)
  show "stays_in L (visible e q d c) (on_ok anything)"
    unfolding visible_def
    by (rule confines_ensure_run, rule confines_apfst, rule ignored_stays, rule L)
qed

lemma existing_stays [stays]:
  "answers_ok e \<Longrightarrow> Look \<in> L \<Longrightarrow> stays_in L (existing e name) (on_ok wf_path)"
  unfolding existing_def by (intro stays) simp_all

lemma chmod_stays [stays]:
  assumes "wf_path p" and "Change \<in> L"
  shows "stays_in L (chmod_to e cap_async_set_permissions p m) (on_ok anything)"
    and "stays_in L (chmod_to e cap_set_symlink_permissions p m) (on_ok anything)"
  unfolding chmod_to_def using assms by (auto intro!: stays split: option.split)

lemma target_stays [stays]:
  assumes "wf_path p" and "Look \<in> L"
  shows "stays_in L (target_of e p md) anything"
proof -
  have "confines (steps L) (wf_session :: ('a, 'b) sftp \<Rightarrow> bool)
      (\<lambda>st. apfst (case_sum (\<lambda>_. None) Some) (file_metadata e p st)) anything"
    by (rule confines_apfst, rule session.lookups_stay) fact+
  then show ?thesis by (auto simp: confines_def target_of_def)
qed

section \<open>The rest\<close>

lemma log_stays [stays]:
  assumes "Log \<in> L" and "is_sftp_event ev"
  shows "stays_in L (log_sftp e ev f) (on_ok anything)"
proof (rule session.stays_inI)
  fix s :: "('a, 'b) sftp"
  assume "wf_session s"
  then show "steps L s (snd (log_sftp e ev f s)) \<and> wf_session (snd (log_sftp e ev f s)) \<and> on_ok anything (fst (log_sftp e ev f s))"
    using assms sftp_step.log [of _ s]
    by (auto simp: log_sftp_def update_def log_activity_def wf_session_def steps_of_def intro!: bexI [of _ Log])
qed

lemma file_handle_stays [stays]: "stays_in L (file_handle h) (on_ok (\<lambda>(p, cs, f). wf_path p))"
proof (rule confinesI)
  fix s :: "('a, 'b) sftp"
  assume "wf_session s"
  then have "wf_path (handle_path x)" if "map_of (sf_handles s) h = Some x" for x
    using map_of_SomeD [OF that] by (auto simp: wf_session_def list_all_iff)
  then show "(steps L)\<^sup>*\<^sup>* s (snd (file_handle h s)) \<and> wf_session (snd (file_handle h s)) \<and>
      on_ok (\<lambda>(p, cs, f). wf_path p) (fst (file_handle h s))"
    using \<open>wf_session s\<close>
    by (fastforce simp: file_handle_def split: option.split ServerHandle.split)
qed

lemma readdir_loop_stays:
  assumes "Touch \<in> L" and "Look \<in> L" and "wf_path dir" and "wf_session st"
    and "readdir_loop e dir es n files st = (r, es', n', st')"
  shows "(steps L)\<^sup>*\<^sup>* st st' \<and> wf_session st'"
  using assms(3,4,5)
proof (induction e dir es n files st rule: readdir_loop.induct)
  case (3 e dir is_dir name es n files st)
  let ?p = "path_join dir (components name)"
  have p: "wf_path ?p" using 3(3) wf_path_join 3 by (metis wf_components)
  obtain a s1 where m: "file_symlink_metadata e ?p st = (a, s1)" by fastforce
  have s1: "(steps L)\<^sup>*\<^sup>* st s1" "wf_session s1"
    using confinesD [OF session.lookups_stay(2) [OF p assms(2), where e = e], of st] m 3 by auto
  show ?case
  proof (cases a)
    case (Inl err)
    then show ?thesis using 3 m s1 by (auto simp: Let_def intro: rtranclp_trans)
  next
    case (Inr md)
    obtain b s2 where i: "ignored_by_server e ?p (md_is_dir md) s1 = (b, s2)" by fastforce
    have s2: "(steps L)\<^sup>*\<^sup>* st s2" "wf_session s2"
      using confinesD [OF ignored_stays [OF assms(1), where e = e and p = ?p and d = "md_is_dir md"] s1(2)] i s1(1) by auto
    obtain t s3 where t: "target_of e ?p md s2 = (t, s3)" by fastforce
    have s3: "(steps L)\<^sup>*\<^sup>* st s3" "wf_session s3"
      using confinesD [OF target_stays [OF p assms(2), where e = e and md = md] s2(2)] t s2(1) by auto
    show ?thesis
      using 3 m Inr i t s2 s3 by (cases b) (auto simp: Let_def intro: rtranclp_trans split: if_splits)
  qed
qed auto

section \<open>Every handler\<close>

lemmas handler_unfolds =
  sftp_realpath_def sftp_remove_def sftp_rmdir_def sftp_mkdir_def sftp_rename_def sftp_setstat_def
  sftp_stat_def sftp_lstat_def sftp_readlink_def sftp_symlink_def make_link_def sftp_read_def sftp_write_def
  sftp_check_file_def sftp_copy_file_def sftp_space_def sftp_statvfs_def sftp_limits_def sftp_hardlink_def
  sftp_fsync_def sftp_lsetstat_def

lemma reading_handlers:
  assumes "answers_ok e"
  shows "stays_in reading (sftp_realpath e p) (on_ok anything)"
    and "stays_in reading (sftp_stat e p) (on_ok anything)"
    and "stays_in reading (sftp_lstat e p) (on_ok anything)"
    and "stays_in reading (sftp_readlink e p) (on_ok anything)"
    and "stays_in reading (sftp_read e h off len) (on_ok anything)"
    and "stays_in reading (sftp_check_file e b d) (on_ok anything)"
    and "stays_in reading (sftp_space e) (on_ok anything)"
    and "stays_in reading (sftp_statvfs e) (on_ok anything)"
    and "stays_in reading sftp_limits (on_ok anything)"
  unfolding handler_unfolds Let_def
  by (rule stays | (use assms in \<open>auto; fail\<close>))+

lemma changing_handlers:
  assumes "answers_ok e"
  shows "stays_in changing (sftp_remove e p) (on_ok anything)"
    and "stays_in changing (sftp_rmdir e p) (on_ok anything)"
    and "stays_in changing (sftp_mkdir e p m) (on_ok anything)"
    and "stays_in changing (sftp_rename e p q) (on_ok anything)"
    and "stays_in changing (sftp_setstat e p m) (on_ok anything)"
    and "stays_in changing (sftp_symlink e p q) (on_ok anything)"
    and "stays_in changing (sftp_write e h off d) (on_ok anything)"
    and "stays_in changing (sftp_copy_file e d) (on_ok anything)"
    and "stays_in changing (sftp_hardlink e d) (on_ok anything)"
    and "stays_in changing (sftp_fsync e d) (on_ok anything)"
    and "stays_in changing (sftp_lsetstat e d) (on_ok anything)"
  unfolding handler_unfolds Let_def
  by (rule stays | (use assms in \<open>auto split: sum.split; fail\<close>))+

lemma delegating_handlers:
  assumes "answers_ok e"
  shows "stays_in changing (sftp_fsetstat e h m) (on_ok anything)"
    and "stays_in reading (sftp_fstat e h) (on_ok anything)"
    and "stays_in changing (sftp_extended e c d) (on_ok anything)"
proof -
  show "stays_in changing (sftp_fsetstat e h m) (on_ok anything)"
    unfolding sftp_fsetstat_def
    by (rule stays changing_handlers [OF assms] | (simp; fail))+
  have at: "stays_in reading (\<lambda>st. case map_of (sf_handles st) h of None \<Rightarrow> (Inl (Status NoSuchFile), st)
      | Some handle \<Rightarrow> sftp_stat e (path_text (handle_path handle)) st) (on_ok anything)"
    using reading_handlers(2) [OF assms] by (auto simp: confines_def on_ok_anything split: option.split)
  show "stays_in reading (sftp_fstat e h) (on_ok anything)"
    unfolding sftp_fstat_def by (rule stays at)+
  have more: "stays_in reading m A \<Longrightarrow> stays_in changing m A"
    for m :: "('a, 'b) sftp \<Rightarrow> 'r \<times> ('a, 'b) sftp" and A
    by (rule confines_steps_mono) auto
  have ext: "stays_in changing (sftp_check_file e b d) (on_ok anything)" "stays_in changing (sftp_space e) (on_ok anything)"
    "stays_in changing (sftp_limits :: ('a, 'b) sftp_op) (on_ok anything)" "stays_in changing (sftp_statvfs e) (on_ok anything)" for b
    by (rule more, rule reading_handlers, rule assms)+
  show "stays_in changing (sftp_extended e c d) (on_ok anything)"
    unfolding sftp_extended_def
    by (rule stays ext changing_handlers [OF assms])+
qed

text \<open>The two handlers that end by opening a handle.\<close>

definition opens :: "sftp_label set \<Rightarrow> ('gi, 'ov) sftp_op \<Rightarrow> bool" where
  "opens L m \<longleftrightarrow> (\<forall>s. wf_session s \<longrightarrow>
     (\<exists>t. (steps L)\<^sup>*\<^sup>* s t \<and> wf_session t \<and>
        (snd (m s) = t \<or> (\<exists>h. wf_path (handle_path h) \<and> snd (m s) = snd (insert_handle h t)))))"

lemma opens_and_then:
  assumes "stays_in L m (on_ok A)" and "\<And>x. A x \<Longrightarrow> opens L (f x)"
  shows "opens L (and_then m f)"
  unfolding opens_def
proof (intro allI impI)
  fix s :: "('a, 'b) sftp"
  assume s: "wf_session s"
  obtain r t where m: "m s = (r, t)" by fastforce
  note t = confinesD [OF assms(1) s, unfolded m fst_conv snd_conv]
  show "\<exists>t. (steps L)\<^sup>*\<^sup>* s t \<and> wf_session t \<and>
      (snd (and_then m f s) = t \<or> (\<exists>h. wf_path (handle_path h) \<and> snd (and_then m f s) = snd (insert_handle h t)))"
  proof (cases r)
    case (Inl err)
    then show ?thesis using t by (auto simp: and_then_def m)
  next
    case (Inr x)
    then have "opens L (f x)" using assms(2) t by simp
    then obtain u where "(steps L)\<^sup>*\<^sup>* t u" "wf_session u"
      "snd (f x t) = u \<or> (\<exists>h. wf_path (handle_path h) \<and> snd (f x t) = snd (insert_handle h u))"
      using t unfolding opens_def by blast
    then show ?thesis using t Inr by (auto simp: and_then_def m intro: rtranclp_trans)
  qed
qed

lemma opens_guarded:
  "list_all (\<lambda>g. stays_in L g (on_ok anything)) gs \<Longrightarrow> opens L m \<Longrightarrow> opens L (guarded gs m)"
  by (induction gs) (auto intro: opens_and_then)

lemma opens_insert:
  "wf_path (handle_path h) \<Longrightarrow> opens L (and_then (insert_handle h) (\<lambda>h. succeed (ReplyHandle h)))"
  by (auto simp: opens_def and_then_def insert_handle_def succeed_def Let_def)

lemmas opens_rules = opens_and_then opens_guarded opens_insert

lemma quiet_step:
  assumes "(steps L)\<^sup>*\<^sup>* s t" and "L \<inter> {OpenHandle, CloseHandle, Advance} = {}"
  shows "sf_handles t = sf_handles s \<and> sf_handle_id t = sf_handle_id s"
  using assms(1)
proof induction
  case (step t u)
  then obtain l where "l \<in> L" "sftp_step l t u" by (auto simp: steps_of_def)
  then show ?case using step.IH assms(2) by (auto elim!: sftp_step.cases)
qed simp

lemma list_all_obj_insert: "P (k, v) \<Longrightarrow> list_all P m \<Longrightarrow> list_all P (obj_insert k v m)"
  by (induction k v m rule: obj_insert.induct) auto

lemma opens_stays:
  assumes "opens L m" and "L \<inter> {OpenHandle, CloseHandle, Advance} = {}"
  shows "stays_in (insert OpenHandle L) (guarded [allowed e, room_for_handle] m) (on_ok anything)"
proof (rule confinesI)
  fix s :: "('a, 'b) sftp"
  assume wf: "wf_session s"
  have "(steps (insert OpenHandle L))\<^sup>*\<^sup>* s (snd (m s)) \<and> wf_session (snd (m s))"
    if "length (sf_handles s) < HANDLE_LIMIT"
  proof -
    obtain t where t: "(steps L)\<^sup>*\<^sup>* s t" "wf_session t"
      and m: "snd (m s) = t \<or> (\<exists>h. wf_path (handle_path h) \<and> snd (m s) = snd (insert_handle h t))"
      using assms(1) wf unfolding opens_def by blast
    have st: "(steps (insert OpenHandle L))\<^sup>*\<^sup>* s t"
      using t(1) rtranclp_mono [OF steps_of_mono [where step = sftp_step and L = L and K = "insert OpenHandle L"]] by blast
    have "steps (insert OpenHandle L) t (snd (insert_handle h t))" if "wf_path (handle_path h)" for h
      using sftp_step.open_handle [OF _ that, of t] quiet_step [OF t(1) assms(2)] \<open>length (sf_handles s) < HANDLE_LIMIT\<close>
      by (auto simp: steps_of_def)
    then show ?thesis
      using m st t(2)
      by (auto simp: wf_session_def insert_handle_def Let_def list_all_obj_insert intro: rtranclp.rtrancl_into_rtrancl)
  qed
  then show "(steps (insert OpenHandle L))\<^sup>*\<^sup>* s (snd (guarded [allowed e, room_for_handle] m s)) \<and>
      wf_session (snd (guarded [allowed e, room_for_handle] m s)) \<and>
      on_ok anything (fst (guarded [allowed e, room_for_handle] m s))"
    using wf by (simp add: allowed_def room_for_handle_def on_ok_anything)
qed

lemma opening_handlers:
  assumes "answers_ok e"
  shows "stays_in (insert OpenHandle reading) (sftp_opendir e p) (on_ok anything)"
    and "stays_in (insert OpenHandle {Touch, Look, Change, Log}) (sftp_open e p f) (on_ok anything)"
proof -
  have "\<exists>m. sftp_opendir e p = guarded [allowed e, room_for_handle] (guarded [permitted e FileRead] m) \<and>
      opens reading (guarded [permitted e FileRead] m)"
    unfolding sftp_opendir_def Let_def guarded.simps
    by (intro exI conjI, rule refl) (rule opens_rules stays | (use assms in \<open>auto; fail\<close>))+
  then show "stays_in (insert OpenHandle reading) (sftp_opendir e p) (on_ok anything)"
    by (auto intro: opens_stays simp del: guarded.simps)
  let ?g = "guarded [permitted_if e (of_write f \<or> of_append f) FileUpdate,
              permitted_if e (of_create f) FileCreate, permitted_if e (of_truncate f) FileDelete,
              permitted_if e (of_read f) FileReadContent]"
  have "\<exists>m. sftp_open e p f = guarded [allowed e, room_for_handle] (?g m) \<and> opens {Touch, Look, Change, Log} (?g m)"
    unfolding sftp_open_def Let_def guarded.simps
    by (intro exI conjI, rule refl)
      (rule opens_rules stays | (use assms in \<open>auto simp: open_event_def split: sum.splits if_splits; fail\<close>))+
  then show "stays_in (insert OpenHandle {Touch, Look, Change, Log}) (sftp_open e p f) (on_ok anything)"
    by (auto intro: opens_stays simp del: guarded.simps)
qed

lemma readdir_stays:
  assumes "answers_ok e"
  shows "stays_in {Touch, Look, Advance} (sftp_readdir e h) (on_ok anything)"
proof (rule confinesI)
  fix s :: "('a, 'b) sftp"
  assume wf: "wf_session s"
  show "(steps {Touch, Look, Advance})\<^sup>*\<^sup>* s (snd (sftp_readdir e h s)) \<and> wf_session (snd (sftp_readdir e h s)) \<and>
      on_ok anything (fst (sftp_readdir e h s))"
  proof (cases "allow_action e s \<and> (\<exists>p es n. map_of (sf_handles s) h = Some (DirHandle p es n) \<and> \<not> fe_entry_limit e \<le> n)")
    case True
    then obtain p es n where h: "map_of (sf_handles s) h = Some (DirHandle p es n)" "\<not> fe_entry_limit e \<le> n"
      and allow: "allow_action e s" by blast
    have p: "wf_path p" using wf map_of_SomeD [OF h(1)] by (auto simp: wf_session_def list_all_iff)
    obtain r es' n' t where loop: "readdir_loop e p es n [] s = (r, es', n', t)" using prod_cases4 by blast
    have t: "(steps reading)\<^sup>*\<^sup>* s t" "wf_session t"
      using readdir_loop_stays [OF _ _ p wf loop, of reading] by auto
    have "sf_handles t = sf_handles s" using quiet_step [OF t(1)] by simp
    then have last: "steps {Touch, Look, Advance} t (t\<lparr>sf_handles := obj_insert h (DirHandle p es' n') (sf_handles t)\<rparr>)"
      using sftp_step.advance [of t h p es n] h(1) by (simp add: steps_of_def)
    have "(steps {Touch, Look, Advance})\<^sup>*\<^sup>* s t"
      using t(1) rtranclp_mono [OF steps_of_mono [where step = sftp_step and L = reading and K = "{Touch, Look, Advance}"]] by blast
    then show ?thesis
      using last t(2) p h allow loop
      by (auto simp: sftp_readdir_def allowed_def wf_session_def list_all_obj_insert on_ok_anything
          intro: rtranclp.rtrancl_into_rtrancl)
  next
    case False
    then have "snd (sftp_readdir e h s) = s"
      by (auto simp: sftp_readdir_def allowed_def split: option.split ServerHandle.split)
    then show ?thesis using wf by (simp add: on_ok_anything)
  qed
qed

lemma close_stays: "stays_in {CloseHandle} (sftp_close h) (on_ok anything)"
proof (rule session.stays_inI)
  fix s :: "('a, 'b) sftp"
  assume "wf_session s"
  then show "steps {CloseHandle} s (snd (sftp_close h s)) \<and> wf_session (snd (sftp_close h s)) \<and> on_ok anything (fst (sftp_close h s))"
    using sftp_step.close_handle [of s h] by (auto simp: sftp_close_def steps_of_def wf_session_def list_all_iff)
qed

text \<open>What each request may do.\<close>

fun allowed_steps :: "sftp_request \<Rightarrow> sftp_label set" where
  "allowed_steps RInit = {}"
| "allowed_steps (RClose h) = {CloseHandle}"
| "allowed_steps (RRealpath p) = reading"
| "allowed_steps (ROpendir p) = insert OpenHandle reading"
| "allowed_steps (RReaddir h) = {Touch, Look, Advance}"
| "allowed_steps (RStat p) = reading"
| "allowed_steps (RFstat h) = reading"
| "allowed_steps (RLstat p) = reading"
| "allowed_steps (RReadlink p) = reading"
| "allowed_steps (RRead h off len) = reading"
| "allowed_steps (ROpen p f) = insert OpenHandle {Touch, Look, Change, Log}"
| "allowed_steps _ = changing"

lemma handle_stays:
  assumes "answers_ok e"
  shows "stays_in (allowed_steps rq) (sftp_handle e rq) (on_ok anything)"
  using reading_handlers [OF assms] changing_handlers [OF assms] delegating_handlers [OF assms]
    opening_handlers [OF assms] readdir_stays [OF assms] close_stays
  by (cases rq) (simp_all add: confines_pure)

end
