(* ===== verification/Sftp_Safety.thy ===== *)
theory Sftp_Safety
  imports Sftp_Session
begin

text \<open>
  Properties of SFTP sessions that follow from the steps their requests make (theory
  \<open>Sftp_Session\<close>), and of the request handlers themselves.
\<close>

section \<open>An environment for concrete runs\<close>

definition sftp_sample_run :: "cap_call \<Rightarrow> cap_value result" where
  "sftp_sample_run c =
     (let look = (\<lambda>p. if p = [] then Inr (VMeta \<lparr>md_mode = 16877, md_len = 0, md_modified = None, md_created = None\<rparr>)
                      else if p = [Normal ''a''] then Inr (VMeta \<lparr>md_mode = 33188, md_len = 5, md_modified = None, md_created = None\<rparr>)
                      else Inl ''not found'')
      in case c of
           InDir D_Metadata [p] \<Rightarrow> look p
         | InDir D_SymlinkMetadata [p] \<Rightarrow> look p
         | InDir D_Canonicalize [p] \<Rightarrow> if p = [Normal ''a''] then Inr (VPath p) else Inl ''not found''
         | InDir D_Open [p] \<Rightarrow> Inr (VFile 7)
         | InDir (D_OpenWith f) [p] \<Rightarrow> Inr (VFile 7)
         | InDir D_ReadDir [p] \<Rightarrow> Inr (VEntries [Inr (False, ''a'')])
         | OnBase B_ReadDir p \<Rightarrow> Inr (VEntries [Inr (False, ''a'')])
         | OnBase b p \<Rightarrow> look []
         | _ \<Rightarrow> Inr VUnit)"

definition sftp_sample_env :: "(unit, unit) sftp_env" where
  "sftp_sample_env =
     \<lparr>fe_run = \<lambda>_ _. sftp_sample_run, fe_ignores = \<lambda>_ _ _. False,
      fe_chown = \<lambda>_. Inr (), fe_chown_walk = Inr [], fe_whitelisted = \<lambda>_ _ _. False,
      fe_read_only = True, fe_dummy = \<lparr>fa_size = None, fa_mtime = None, fa_permissions = None, fa_types = []\<rparr>,
      fe_entry_limit = 100, fe_send_amount = 10, fe_user = 1, fe_ip = None, fe_now = 0, fe_clock = 0,
      fe_read_at = \<lambda>_ _ n. Inr (replicate n CHR ''x''),
      fe_write_at = \<lambda>_ _ _. Inr (), fe_sync = \<lambda>_. Inr (), fe_seek = \<lambda>_ _. Inr (),
      fe_chunks = \<lambda>_ _. [Inr ''abcde''], fe_digest = \<lambda>_ s. s, fe_disks = [], fe_mode = LimitNone,
      fe_backends = \<lambda>_. undefined, fe_decode_check = \<lambda>d. Some (d, ''md5'', 0, 3),
      fe_decode_copy = \<lambda>d. Some (''a'', d, 0), fe_decode_link = \<lambda>d. Some (''a'', d),
      fe_decode_fsync = Some, fe_decode_lsetstat = \<lambda>d. Some (d, Some 420)\<rparr>"

definition sftp_sample_state :: "(unit, unit) sftp" where
  "sftp_sample_state =
     \<lparr>sf_fs = (new_filesystem [RootDir, Normal ''srv''] 0 ())\<lparr>initialized := True\<rparr>, sf_calls = [], sf_io = [],
      sf_server = new_server,
      sf_perms = [1 \<mapsto> ({PAll}, None, 0)], sf_activities = [], sf_handle_id = 0, sf_handles = []\<rparr>"

lemma sample_paths:
  "components ''a'' = [Normal ''a'']" "components ''b'' = [Normal ''b'']" "components ''/'' = [RootDir]"
  by (simp_all add: components_def component_of_def starts_with_def)

lemma sftp_sample_ok: "answers_ok sftp_sample_env" "wf_session sftp_sample_state"
  by (auto simp: answers_ok_def sftp_sample_env_def sftp_sample_run_def wf_session_def sftp_sample_state_def
      new_filesystem_def wf_path_def Let_def
      split: cap_call.splits dir_op.splits base_op.splits list.splits if_splits)

section \<open>Sessions\<close>

lemma session_steps:
  assumes "list_all (\<lambda>(e, rq). answers_ok e) rqs" and "wf_session st"
  shows "(steps UNIV)\<^sup>*\<^sup>* st (snd (sftp_session rqs st)) \<and> wf_session (snd (sftp_session rqs st))"
  using assms
proof (induction rqs arbitrary: st)
  case (Cons x rqs)
  obtain e rq where x: "x = (e, rq)" by fastforce
  obtain r t where h: "sftp_handle e rq st = (r, t)" by fastforce
  have "(steps (allowed_steps rq))\<^sup>*\<^sup>* st t" "wf_session t"
    using confinesD [OF handle_stays [of e rq] Cons.prems(2)] Cons.prems(1) h x by auto
  then have t: "(steps UNIV)\<^sup>*\<^sup>* st t" "wf_session t"
    using rtranclp_mono [OF steps_of_mono [where step = sftp_step and L = "allowed_steps rq" and K = UNIV]] by blast+
  show ?case
    using t Cons.IH [OF _ t(2)] Cons.prems(1) by (auto simp: x h split: prod.split intro: rtranclp_trans)
qed simp

lemma session_invariant:
  assumes "\<And>l s t. sftp_step l s t \<Longrightarrow> Q s \<Longrightarrow> Q t" and "(steps L)\<^sup>*\<^sup>* s t" and "Q s"
  shows "Q t"
  using assms(2,3) by induction (auto simp: steps_of_def intro: assms(1))

definition only_confined :: "('gi, 'ov) sftp \<Rightarrow> ('gi, 'ov) sftp \<Rightarrow> bool" where
  "only_confined s t \<longleftrightarrow> cap_of (sf_fs t) = cap_of (sf_fs s) \<and>
     (\<exists>cs. sf_calls t = sf_calls s @ cs \<and> list_all (confined (cap_of (sf_fs s))) cs) \<and>
     (\<exists>cs. fs_calls (sf_fs t) = fs_calls (sf_fs s) @ cs \<and> list_all (fs_call_confined (fs_base_path (sf_fs s))) cs)"

lemma step_confined: "sftp_step l t u \<Longrightarrow> only_confined s t \<Longrightarrow> only_confined s u"
  by (induction rule: sftp_step.induct)
     (auto simp: only_confined_def insert_handle_def Let_def accounts_def cap_of_def)

text \<open>
  C5: Whatever a session asks for, and whatever the operating system answers, no call
  leaves the server's directory: every path handed to the directory handle is without
  a root and without \<open>..\<close>, every other call is on the directory itself.
\<close>

theorem sftp_session_confined:
  assumes "list_all (\<lambda>(e, rq). answers_ok e) rqs" and "wf_session st"
  shows "only_confined st (snd (sftp_session rqs st))"
proof -
  have "only_confined st st" by (simp add: only_confined_def)
  then show ?thesis
    using session_invariant [where Q = "only_confined st", OF step_confined session_steps [OF assms, THEN conjunct1]] by simp
qed

theorem sftp_session_confined_witness:
  "only_confined sftp_sample_state (snd (sftp_session
     [(sftp_sample_env, RStat ''../../etc/passwd''), (sftp_sample_env, RRename ''a'' ''/../x'')] sftp_sample_state))"
  by (rule sftp_session_confined) (simp_all add: sftp_sample_ok)

text \<open>
  C4: Every request refines the session's step relation: whatever it is and however it
  ends, the state it leaves is reached by steps its kind of request is allowed. In
  particular a reading request changes nothing but access times, \<open>open\<close> never touches
  the accounting of the disk, and only \<open>open\<close> and \<open>opendir\<close> take a handle.
\<close>

theorem sftp_refines_steps:
  assumes "answers_ok e" and "wf_session st"
  shows "(steps (allowed_steps rq))\<^sup>*\<^sup>* st (snd (sftp_handle e rq st)) \<and> wf_session (snd (sftp_handle e rq st))"
  using confinesD [OF handle_stays [OF assms(1)] assms(2)] by blast

theorem sftp_refines_steps_witness:
  "(steps (allowed_steps (ROpendir ''/'')))\<^sup>*\<^sup>* sftp_sample_state (snd (sftp_handle sftp_sample_env (ROpendir ''/'') sftp_sample_state)) \<and>
   wf_session (snd (sftp_handle sftp_sample_env (ROpendir ''/'') sftp_sample_state))"
  by (rule sftp_refines_steps) (simp_all add: sftp_sample_ok)

section \<open>Handles\<close>

lemma hex_digit_inj: "a < 16 \<Longrightarrow> b < 16 \<Longrightarrow> hex_digit a = hex_digit b \<Longrightarrow> a = b"
  by (auto simp: hex_digit_def char_of_eq_iff take_bit_eq_mod split: if_splits)

lemma hex_rev_inj: "hex_rev m = hex_rev n \<Longrightarrow> m = n"
proof (induction m arbitrary: n rule: hex_rev.induct)
  case (1 m)
  have mod: "m mod 16 = n mod 16"
    using 1(2) hex_digit_inj [of "m mod 16" "n mod 16"] by (simp add: hex_rev.simps [of m] hex_rev.simps [of n])
  have small: "hex_rev k \<noteq> []" for k by (simp add: hex_rev.simps [of k])
  have "m div 16 = n div 16"
  proof (cases "m < 16 \<or> n < 16")
    case True
    then show ?thesis
      using 1(2) small by (auto simp: hex_rev.simps [of m] hex_rev.simps [of n] split: if_splits)
  next
    case False
    then show ?thesis using 1 by (simp add: hex_rev.simps [of m] hex_rev.simps [of n])
  qed
  with mod show ?case by (metis div_mult_mod_eq)
qed

lemma to_hex_inj: "to_hex m = to_hex n \<Longrightarrow> m = n"
  using hex_rev_inj by (simp add: to_hex_def)

definition handles_ok :: "('gi, 'ov) sftp \<Rightarrow> bool" where
  "handles_ok st \<longleftrightarrow> length (sf_handles st) \<le> HANDLE_LIMIT \<and> distinct (map fst (sf_handles st)) \<and>
     (\<forall>k \<in> fst ` set (sf_handles st). \<exists>n < sf_handle_id st. k = to_hex n)"

lemma length_obj_insert: "length (obj_insert k v m) \<le> Suc (length m)"
  by (induction k v m rule: obj_insert.induct) auto

lemma length_obj_insert_old: "map_of m k \<noteq> None \<Longrightarrow> length (obj_insert k v m) = length m"
  by (induction k v m rule: obj_insert.induct) (auto split: if_splits)

lemma step_handles:
  assumes "sftp_step l s t" and "handles_ok s"
  shows "handles_ok t"
  using assms
proof (induction rule: sftp_step.induct)
  case (open_handle st h)
  then have "\<forall>k \<in> fst ` set (sf_handles st). \<exists>n < Suc (sf_handle_id st). k = to_hex n"
    using less_Suc_eq by (fastforce simp: handles_ok_def)
  then show ?case
    using open_handle length_obj_insert [of "to_hex (sf_handle_id st)" h "sf_handles st"]
      keys_obj_insert [of "to_hex (sf_handle_id st)" h "sf_handles st"]
    by (auto simp: handles_ok_def insert_handle_def Let_def distinct_obj_insert)
next
  case (close_handle st h)
  show ?case
    using close_handle length_filter_le [of "\<lambda>(k, _). k \<noteq> h" "sf_handles st"]
    by (auto simp: handles_ok_def distinct_map inj_on_def simp del: length_filter_le)
next
  case (advance st h p es n es' n')
  then have key: "h \<in> fst ` set (sf_handles st)" by (force dest: map_of_SomeD)
  have "length (obj_insert h (DirHandle p es' n') (sf_handles st)) = length (sf_handles st)"
    using advance(1) by (intro length_obj_insert_old) simp
  then show ?case
    using key advance keys_obj_insert [of h "DirHandle p es' n'" "sf_handles st"]
    by (auto simp: handles_ok_def distinct_obj_insert)
qed (auto simp: handles_ok_def)



section \<open>Who may do what\<close>

text \<open>
  A locked server, or a user whose permissions are not known, is refused every
  request other than the three that look at no file content, with nothing changed.
\<close>

theorem sftp_refuses_when_locked:
  assumes "\<not> allow_action e st" and "rq \<notin> {RInit} \<union> range RClose \<union> range RRealpath"
  shows "sftp_handle e rq st = (Inl (Status PermissionDenied), st)"
  using assms
  by (cases rq)
    (simp_all add: allowed_def sftp_opendir_def sftp_readdir_def sftp_remove_def sftp_rmdir_def sftp_mkdir_def
      sftp_rename_def sftp_setstat_def sftp_fsetstat_def sftp_stat_def sftp_fstat_def sftp_lstat_def
      sftp_readlink_def sftp_symlink_def sftp_open_def sftp_read_def sftp_write_def sftp_extended_def Let_def)

theorem sftp_refuses_when_locked_witness:
  "sftp_handle sftp_sample_env (RRemove ''a'') (sftp_sample_state\<lparr>sf_perms := Map.empty\<rparr>)
     = (Inl (Status PermissionDenied), sftp_sample_state\<lparr>sf_perms := Map.empty\<rparr>)"
  by (rule sftp_refuses_when_locked) (auto simp: allow_action_def upm_is_contained_def)

text \<open>The permissions a request asks for.\<close>

fun required :: "sftp_request \<Rightarrow> Permission list" where
  "required (ROpendir p) = [FileRead]"
| "required (RRemove p) = [FileDelete]"
| "required (RRmdir p) = [FileDelete]"
| "required (RMkdir p m) = [FileCreate]"
| "required (RRename p q) = [FileUpdate]"
| "required (RSetstat p m) = [FileUpdate]"
| "required (RFsetstat h m) = [FileUpdate]"
| "required (RStat p) = [FileRead]"
| "required (RFstat h) = [FileRead]"
| "required (RLstat p) = [FileRead]"
| "required (RReadlink p) = [FileRead]"
| "required (RSymlink l t) = [FileCreate]"
| "required (ROpen p f) =
     (if of_write f \<or> of_append f then [FileUpdate] else []) @ (if of_create f then [FileCreate] else []) @
     (if of_truncate f then [FileDelete] else []) @ (if of_read f then [FileReadContent] else [])"
| "required (RExtended c d) =
     (if c \<in> {''check-file'', ''check-file-name''} then [FileRead]
      else if c = ''copy-file'' then [FileReadContent, FileCreate]
      else if c = ''hardlink@openssh.com'' then [FileCreate]
      else if c \<in> {''fsync@openssh.com'', ''lsetstat@openssh.com''} then [FileUpdate]
      else [])"
| "required _ = []"

definition grants :: "('gi, 'ov) sftp_env \<Rightarrow> Permission \<Rightarrow> ('gi, 'ov) sftp \<Rightarrow> bool" where
  "grants e p st \<longleftrightarrow> (case upm_granted (sf_perms st) (fe_user e) of Some ps \<Rightarrow> has_permission ps p | None \<Rightarrow> False)"

text \<open>The state after a check: only the time of the last access changes.\<close>

definition touched :: "('gi, 'ov) sftp_env \<Rightarrow> ('gi, 'ov) sftp \<Rightarrow> ('gi, 'ov) sftp" where
  "touched e st = snd (has_perm e FileRead st)"

lemma and_then_permitted [simp]:
  "and_then (permitted e p) f st = (if grants e p st then f () (touched e st) else (Inl (Status PermissionDenied), touched e st))"
  by (auto simp: permitted_def handler_defs has_perm_def grants_def touched_def upm_has_permission_def upm_granted_def
      split: option.split prod.split)

lemma touched_facts [simp]:
  "grants e p (touched e st) = grants e p st" "touched e (touched e st) = touched e st"
  "sf_handles (touched e st) = sf_handles st" "sf_fs (touched e st) = sf_fs st"
  "sf_calls (touched e st) = sf_calls st" "sf_activities (touched e st) = sf_activities st" "sf_io (touched e st) = sf_io st"
  by (auto simp: grants_def touched_def has_perm_def upm_has_permission_def upm_granted_def split: option.split prod.split)

lemma and_then_permitted_if [simp]:
  "and_then (permitted_if e b p) f st = (if b then and_then (permitted e p) f st else f () st)"
  by (simp add: permitted_if_def) (simp add: succeed_def and_then_def)

lemma and_then_pure [simp]:
  "and_then (from_option x err) f st = (case x of Some v \<Rightarrow> f v st | None \<Rightarrow> (Inl err, st))"
  "and_then (inspect g) f st = f (g st) st"
  by (simp_all add: and_then_def from_option_def inspect_def split: option.split)

lemma and_then_file_handle [simp]:
  "and_then (file_handle h) f st =
     (case map_of (sf_handles st) h of
        Some (FileHandle p cs n) \<Rightarrow> f (p, cs, n) st
      | _ \<Rightarrow> (Inl (Status NoSuchFile), st))"
  by (simp add: and_then_def file_handle_def split: option.split ServerHandle.split)

lemma guarded_refuses:
  assumes "\<And>g s. g \<in> set gs \<Longrightarrow> s \<in> S \<Longrightarrow> snd (g s) \<in> S" and "g \<in> set gs"
    and "\<And>s. s \<in> S \<Longrightarrow> isl (fst (g s))" and "s \<in> S"
  shows "isl (fst (guarded gs m s)) \<and> snd (guarded gs m s) \<in> S"
  using assms
proof (induction gs arbitrary: s)
  case (Cons g' gs)
  obtain r t where r: "g' s = (r, t)" by fastforce
  have t: "t \<in> S" using Cons.prems(1) [of g' s] Cons.prems(4) r by simp
  show ?case
  proof (cases r)
    case (Inl x)
    then show ?thesis using t by (simp add: and_then_def r)
  next
    case (Inr x)
    then have "g \<in> set gs" using Cons.prems r by (metis fst_conv set_ConsD sum.disc(2))
    have "snd (h s') \<in> S" if "h \<in> set gs" "s' \<in> S" for h s'
      using Cons.prems(1) [of h s'] that by simp
    then show ?thesis
      using Cons.IH [OF _ \<open>g \<in> set gs\<close> Cons.prems(3) t] Inr by (simp add: and_then_def r)
  qed
qed simp

lemma guard_results:
  "permitted e p st = (if grants e p st then Inr () else Inl (Status PermissionDenied), touched e st)"
  "permitted_if e b p st = (if b then permitted e p st else (Inr (), st))"
  "allowed e st = (if allow_action e st then Inr () else Inl (Status PermissionDenied), st)"
  "room_for_handle st = (if length (sf_handles st) < HANDLE_LIMIT then Inr () else Inl (Status Failure), st)"
  using and_then_permitted [of e p succeed st]
  by (auto simp: permitted_if_def succeed_def allowed_def room_for_handle_def ensure_def and_then_def
      split: sum.splits prod.splits if_splits)

lemma open_requires:
  assumes "p \<in> set (required (ROpen f fl))" and "\<not> grants e p st"
  shows "isl (fst (sftp_open e f fl st)) \<and> snd (sftp_open e f fl st) \<in> {st, touched e st}"
proof -
  define b where "b q \<longleftrightarrow> q = FileUpdate \<and> (of_write fl \<or> of_append fl) \<or> q = FileCreate \<and> of_create fl \<or>
    q = FileDelete \<and> of_truncate fl \<or> q = FileReadContent \<and> of_read fl" for q
  have b: "b p" using assms(1) by (auto simp: b_def split: if_splits)
  show ?thesis
    unfolding sftp_open_def
  proof (rule guarded_refuses [where g = "permitted_if e (b p) p"])
    show "permitted_if e (b p) p \<in> set [allowed e, room_for_handle, permitted_if e (of_write fl \<or> of_append fl) FileUpdate,
        permitted_if e (of_create fl) FileCreate, permitted_if e (of_truncate fl) FileDelete,
        permitted_if e (of_read fl) FileReadContent]"
      using b assms(1) by (auto simp: b_def split: if_splits)
  qed (use b assms(2) in \<open>auto simp: guard_results\<close>)
qed

lemma extension_requires:
  "\<not> grants e FileRead st \<Longrightarrow> sftp_check_file e b d st = (Inl (Status PermissionDenied), touched e st)"
  "\<not> grants e FileReadContent st \<or> \<not> grants e FileCreate st \<Longrightarrow>
     sftp_copy_file e d st = (Inl (Status PermissionDenied), touched e st)"
  by (auto simp: sftp_check_file_def sftp_copy_file_def)

lemma decoded_extension_requires:
  "\<not> grants e FileCreate st \<Longrightarrow> isl (fst (sftp_hardlink e d st)) \<and> snd (sftp_hardlink e d st) \<in> {st, touched e st}"
  "\<not> grants e FileUpdate st \<Longrightarrow> isl (fst (sftp_fsync e d st)) \<and> snd (sftp_fsync e d st) \<in> {st, touched e st}"
  "\<not> grants e FileUpdate st \<Longrightarrow> isl (fst (sftp_lsetstat e d st)) \<and> snd (sftp_lsetstat e d st) \<in> {st, touched e st}"
  by (cases "fe_decode_link e d" "fe_decode_fsync e d" "fe_decode_lsetstat e d" rule: option.exhaust [case_product option.exhaust [case_product option.exhaust]];
      auto simp: sftp_hardlink_def sftp_fsync_def sftp_lsetstat_def writable_def; fail)+

lemma extended_requires:
  assumes "p \<in> set (required (RExtended c d))" and "\<not> grants e p st"
  shows "isl (fst (sftp_extended e c d st)) \<and> snd (sftp_extended e c d st) \<in> {st, touched e st}"
proof -
  note parts = extension_requires [of e st] decoded_extension_requires [of e st]
  consider "c \<in> {''check-file'', ''check-file-name''}" "p = FileRead"
    | "c = ''copy-file''" "p \<in> {FileReadContent, FileCreate}"
    | "c = ''hardlink@openssh.com''" "p = FileCreate"
    | "c = ''fsync@openssh.com''" "p = FileUpdate" | "c = ''lsetstat@openssh.com''" "p = FileUpdate"
    using assms(1) by (simp split: if_splits) blast
  then show ?thesis
  proof cases
    case 1
    then show ?thesis using assms(2) parts(1) by (auto simp: sftp_extended_def allowed_def)
  next
    case 2
    then show ?thesis using assms(2) parts(2) by (auto simp: sftp_extended_def allowed_def)
  next
    case 3
    then show ?thesis using assms(2) parts(3) [of d] by (simp add: sftp_extended_def allowed_def)
  next
    case 4
    then show ?thesis using assms(2) parts(4) [of d] by (simp add: sftp_extended_def allowed_def)
  next
    case 5
    then show ?thesis using assms(2) parts(5) [of d] by (simp add: sftp_extended_def allowed_def)
  qed
qed

text \<open>
  C7: A request for which one of its permissions is not granted fails, and leaves
  everything but the time of the user's last access as it was: no file system call, no
  handle, no accounting, no activity.
\<close>

theorem sftp_requires_permissions:
  assumes "p \<in> set (required rq)" and "\<not> grants e p st"
  shows "isl (fst (sftp_handle e rq st)) \<and> snd (sftp_handle e rq st) \<in> {st, touched e st}"
proof (cases rq)
  case (ROpen f fl)
  then show ?thesis using open_requires assms by simp
next
  case (RExtended c d)
  then show ?thesis using extended_requires assms by simp
qed (use assms in \<open>simp_all add: allowed_def writable_def room_for_handle_def sftp_opendir_def sftp_remove_def
      sftp_rmdir_def sftp_mkdir_def sftp_rename_def sftp_setstat_def sftp_fsetstat_def sftp_stat_def sftp_fstat_def
      sftp_lstat_def sftp_readlink_def sftp_symlink_def Let_def split: option.split ServerHandle.split\<close>)

theorem sftp_requires_permissions_witness:
  "isl (fst (sftp_handle sftp_sample_env (RMkdir ''d'' None) (sftp_sample_state\<lparr>sf_perms := [1 \<mapsto> ({FileRead}, None, 0)]\<rparr>))) \<and>
   snd (sftp_handle sftp_sample_env (RMkdir ''d'' None) (sftp_sample_state\<lparr>sf_perms := [1 \<mapsto> ({FileRead}, None, 0)]\<rparr>))
     \<in> {sftp_sample_state\<lparr>sf_perms := [1 \<mapsto> ({FileRead}, None, 0)]\<rparr>,
        touched sftp_sample_env (sftp_sample_state\<lparr>sf_perms := [1 \<mapsto> ({FileRead}, None, 0)]\<rparr>)}"
  by (rule sftp_requires_permissions [of FileCreate])
    (simp_all add: grants_def upm_granted_def has_permission_iff sftp_sample_env_def)

section \<open>Read-only servers\<close>

abbreviation looking :: "sftp_label set" where "looking \<equiv> {Touch, Look, OpenHandle, CloseHandle, Advance}"

lemma touched_steps: "(steps looking)\<^sup>*\<^sup>* st (touched e st)"
proof -
  have "sftp_step Touch st (touched e st)"
    using touch [of "snd (upm_has_permission (fe_now e) (fe_user e) FileRead (sf_perms st))" st]
    by (simp add: touched_def has_perm_def upm_has_permission_granted case_prod_beta)
  then show ?thesis by (intro r_into_rtranclp) (auto simp: steps_of_def)
qed

lemma writable_refuses [simp]:
  "fe_read_only e \<Longrightarrow> and_then (writable e) f st = (Inl (Status PermissionDenied), st)"
  by (simp add: writable_def)

lemma refused_when_read_only:
  assumes "fe_read_only e"
  shows "snd (sftp_remove e p st) = st" "snd (sftp_rmdir e p st) = st" "snd (sftp_mkdir e p m st) = st"
    "snd (sftp_rename e p q st) = st" "snd (sftp_setstat e p m st) = st" "snd (sftp_fsetstat e h m st) = st"
    "snd (sftp_symlink e p q st) = st" "snd (sftp_write e h off d st) = st"
    "snd (sftp_hardlink e d st) = st" "snd (sftp_fsync e d st) = st" "snd (sftp_lsetstat e d st) = st"
  using assms
  by (simp_all add: allowed_def sftp_remove_def sftp_rmdir_def sftp_mkdir_def sftp_rename_def sftp_setstat_def
      sftp_fsetstat_def sftp_symlink_def sftp_write_def sftp_hardlink_def sftp_fsync_def sftp_lsetstat_def Let_def
      split: option.split ServerHandle.split prod.split)

text \<open>
  With \<open>read_only\<close> set, no request other than \<open>open\<close> and the \<open>copy-file\<close> extension
  changes the disk, the accounting or the activity log: all it can do is look at files
  and open, advance and close handles.
\<close>

theorem read_only_changes_nothing:
  assumes "fe_read_only e" and "answers_ok e" and "wf_session st"
    and "rq \<notin> range (case_prod ROpen) \<union> range (RExtended ''copy-file'')"
  shows "(steps looking)\<^sup>*\<^sup>* st (snd (sftp_handle e rq st))"
proof -
  have sub: ?thesis if "allowed_steps rq \<subseteq> looking"
    using rtranclp_mono [OF steps_of_mono [OF that, where step = sftp_step]] confinesD(1) [OF handle_stays [OF assms(2)] assms(3), of rq] by blast
  show ?thesis
  proof (cases rq)
    case (ROpen f fl)
    then have "rq = case_prod ROpen (f, fl)" by simp
    then show ?thesis using assms(4) by blast
  next
    case (RExtended c d)
    have look: "(steps looking)\<^sup>*\<^sup>* st (snd (m st))" if "stays_in reading m (on_ok anything)" for m :: "('a, 'b) sftp_op"
      using confinesD(1) [OF that assms(3)] rtranclp_mono [OF steps_of_mono [where step = sftp_step and L = reading and K = looking]] by blast
    note looks = look [OF reading_handlers(6) [OF assms(2)]] look [OF reading_handlers(7) [OF assms(2)]]
      look [OF reading_handlers(8) [OF assms(2)]] look [OF reading_handlers(9) [OF assms(2)]]
    have "c \<noteq> ''copy-file''" using assms(4) RExtended by auto
    then show ?thesis
      using refused_when_read_only(9-11) [OF assms(1), of d st] looks
      by (auto simp: RExtended sftp_extended_def allowed_def fail_def)
  qed (use sub refused_when_read_only [OF assms(1)] in auto)
qed

theorem read_only_changes_nothing_witness:
  "(steps looking)\<^sup>*\<^sup>* sftp_sample_state (snd (sftp_handle sftp_sample_env (RRemove ''a'') sftp_sample_state))"
  by (rule read_only_changes_nothing) (auto simp: sftp_sample_ok, simp add: sftp_sample_env_def)

lemma to_hex_0: "to_hex 0 = ''0''"
  by (simp add: to_hex_def hex_digit_def char_of_eq_iff)

lemmas sftp_sample_simps = to_hex_0 ServerStateLock.defs new_lock_def
  sftp_sample_env_def sftp_sample_run_def sftp_sample_state_def new_filesystem_def with_cap_def run_now_def
  file_metadata_def file_symlink_metadata_def file_canonicalize_def cap_metadata_def cap_symlink_metadata_def
  cap_canonicalize_def cap_open_with_def cap_copy_def in_two_dirs_def in_dir_or_base_def in_dir_def cap_of_def rel_def
  cap_unit_def typed_def relative_path_def resolve_path_def strip_prefix_def resolve_step_def push_def Let_def
  allowed_def allow_action_def is_locked_state_def new_server_def upm_is_contained_def room_for_handle_def
  and_then_def ensure_def ensure_run_def attempt_def perform_def inspect_def update_def succeed_def fail_def from_option_def
  permitted_if_def permitted_def has_perm_def upm_has_permission_def has_permission_iff
  visible_def ignored_by_server_def is_ignored_def upm_is_ignored_def existing_def md_is_file_def file_type_def
  insert_handle_def log_sftp_def open_event_def

text \<open>
  The two exceptions are real: on a read-only server, opening an existing file for
  truncation succeeds and the file is opened with these options, and \<open>copy-file\<close> makes
  its copy.
\<close>

theorem read_only_not_enforced:
  "fe_read_only sftp_sample_env \<and>
   (case sftp_handle sftp_sample_env (ROpen ''a'' \<lparr>of_read = False, of_write = False, of_append = False, of_create = False,
        of_truncate = True\<rparr>) sftp_sample_state of
      (r, st) \<Rightarrow> r = Inr (ReplyHandle ''0'') \<and>
        last (sf_calls st) = InDir (D_OpenWith \<lparr>oo_read = False, oo_write = False, oo_append = False, oo_create = False,
          oo_truncate = True\<rparr>) [[Normal ''a'']]) \<and>
   (case sftp_handle sftp_sample_env (RExtended ''copy-file'' ''b'') sftp_sample_state of
      (r, st) \<Rightarrow> r = Inr ReplyOk \<and> last (sf_calls st) = InDir D_Copy [[Normal ''a''], [Normal ''b'']])"
proof (intro conjI)
  show "fe_read_only sftp_sample_env" by (simp add: sftp_sample_env_def)
  show "case sftp_handle sftp_sample_env (ROpen ''a'' \<lparr>of_read = False, of_write = False, of_append = False,
        of_create = False, of_truncate = True\<rparr>) sftp_sample_state of
      (r, st) \<Rightarrow> r = Inr (ReplyHandle ''0'') \<and>
        last (sf_calls st) = InDir (D_OpenWith \<lparr>oo_read = False, oo_write = False, oo_append = False, oo_create = False,
          oo_truncate = True\<rparr>) [[Normal ''a'']]"
    by (simp add: sftp_open_def sample_paths open_options_def sftp_sample_simps)
  show "case sftp_handle sftp_sample_env (RExtended ''copy-file'' ''b'') sftp_sample_state of
      (r, st) \<Rightarrow> r = Inr ReplyOk \<and> last (sf_calls st) = InDir D_Copy [[Normal ''a''], [Normal ''b'']]"
    by (simp add: sftp_extended_def sftp_copy_file_def sample_paths on_fs_def parent_def
        async_allocate_in_path_def over_limit_def charge_cached_def sftp_sample_simps)
qed

section \<open>Directory listings\<close>

lemma readdir_loop_bound:
  assumes "readdir_loop e dir es n files st = (Some fs, es', n', st')" and "length files < max 1 (fe_send_amount e)"
  shows "fs \<noteq> [] \<and> length fs \<le> max 1 (fe_send_amount e)"
  using assms
proof (induction e dir es n files st rule: readdir_loop.induct)
  case (3 e dir is_dir name es n files st)
  then show ?case
    by (auto simp: Let_def split: sum.splits prod.splits bool.splits if_splits)
qed (auto split: if_splits)

text \<open>
  A directory listing that is answered holds at least one file and, unless the limit
  is set to zero, at most as many as one answer may hold.
\<close>

theorem readdir_reply_bounded:
  assumes "sftp_handle e (RReaddir h) st = (Inr (ReplyName fs), st')"
  shows "0 < length fs \<and> length fs \<le> max 1 (fe_send_amount e)"
proof -
  obtain dir es n es' n' t where "readdir_loop e dir es n [] st = (Some fs, es', n', t)"
    using assms by (auto simp: sftp_readdir_def allowed_def split: if_splits option.splits ServerHandle.splits prod.splits)
  then show ?thesis using readdir_loop_bound by fastforce
qed

lemma sample_listing:
  "sftp_handle sftp_sample_env (RReaddir ''0'') (sftp_sample_state\<lparr>sf_handles := [(''0'', DirHandle [] [Inr (False, ''a'')] 0)]\<rparr>)
     = (Inr (ReplyName [convert_entry [Normal ''a''] \<lparr>md_mode = 33188, md_len = 5, md_modified = None, md_created = None\<rparr> None]),
        sftp_sample_state\<lparr>sf_handles := [(''0'', DirHandle [] [] 1)],
          sf_calls := [InDir D_SymlinkMetadata [[Normal ''a'']]]\<rparr>)"
  by (simp add: sftp_readdir_def sample_paths target_of_def md_is_symlink_def md_is_dir_def sftp_sample_simps)

theorem readdir_reply_bounded_witness:
  "0 < length [convert_entry [Normal ''a''] \<lparr>md_mode = 33188, md_len = 5, md_modified = None, md_created = None\<rparr> None] \<and>
   length [convert_entry [Normal ''a''] \<lparr>md_mode = 33188, md_len = 5, md_modified = None, md_created = None\<rparr> None]
     \<le> max 1 (fe_send_amount sftp_sample_env)"
  by (rule readdir_reply_bounded [OF sample_listing])

section \<open>Hashes\<close>

lemma unat_u64_of_nat: "k < 2 ^ 64 \<Longrightarrow> unat (word_of_nat k :: u64) = k"
  by (simp add: unsigned_of_nat take_bit_nat_eq_self)

lemma of_nat_u64_nonzero: "0 < k \<Longrightarrow> k < 2 ^ 64 \<Longrightarrow> (word_of_nat k :: u64) \<noteq> 0"
  using unat_u64_of_nat [of k] by (auto simp del: of_nat_eq_0_iff)

lemma hash_loop_all:
  assumes "list_all (\<lambda>c. c \<noteq> [] \<and> length c \<le> BUFFER_SIZE) chunks"
  shows "hash_loop 0 tot acc (map Inr chunks) = Inr (acc @ concat chunks)"
  using assms
proof (induction chunks arbitrary: tot acc)
  case (Cons c cs)
  have n: "unat (word_of_nat (length c) :: u64) = length c"
    using Cons.prems by (intro unat_u64_of_nat) simp
  moreover from this have "(word_of_nat (length c) :: u64) \<noteq> 0"
    using Cons.prems by (intro of_nat_u64_nonzero) auto
  ultimately show ?case using Cons by (simp add: Let_def hash_bytes_def)
qed simp

text \<open>One chunk, with the total read so far at most the wanted length.\<close>

lemma hash_bytes_within:
  assumes "0 < len" and "tot \<le> unat len" and "n \<le> BUFFER_SIZE" and "unat len < 2 ^ 63"
  shows "unat (hash_bytes len (word_of_nat n) (word_of_nat (tot + n))) = min n (unat len - tot)"
proof -
  have w: "unat (word_of_nat k :: u64) = k" if "k < 2 ^ 64" for k using that by (rule unat_u64_of_nat)
  have wn: "unat (word_of_nat n :: u64) = n" "unat (word_of_nat (tot + n) :: u64) = tot + n"
    "unat (word_of_nat tot :: u64) = tot"
    using assms w [of n] w [of "tot + n"] w [of tot] by simp_all
  have d: "word_of_nat (tot + n) - word_of_nat n = (word_of_nat tot :: u64)" by simp
  show ?thesis
  proof (cases "unat len < tot + n")
    case True
    then have "len < (word_of_nat (tot + n) :: u64)" using wn by (simp add: word_less_nat_alt)
    then show ?thesis
      using True assms wn unat_minus_small [of "word_of_nat tot" len]
      by (simp add: hash_bytes_def d word_le_nat_alt)
  next
    case False
    then have "\<not> len < (word_of_nat (tot + n) :: u64)" using wn by (simp add: word_less_nat_alt)
    then show ?thesis using False assms wn by (simp add: hash_bytes_def)
  qed
qed

lemma unat_neg_u64: "x \<noteq> 0 \<Longrightarrow> unat (- x :: u64) = 2 ^ 64 - unat x"
proof -
  assume "x \<noteq> 0"
  then have "0 < unat x" by (simp add: unat_gt_0)
  have m: "unat (- 1 - x) = 18446744073709551615 - unat x"
    using unat_minus_small [of x "- 1"] unat_u64_minus_one by simp
  have "unat (- 1 - x + 1) = unat (- 1 - x) + 1"
    using unat_plus_small [of "- 1 - x" 1] m \<open>0 < unat x\<close> by simp
  moreover have "- 1 - x + 1 = - x" by simp
  moreover have "u64_max - unat x + 1 = 2 ^ 64 - unat x" using Suc_diff_le [OF u64_bound, of x] by simp
  ultimately show ?thesis using m by metis
qed

lemma hash_bytes_beyond:
  assumes "0 < len" and "unat len < tot" and "tot + n < 2 ^ 63" and "n \<le> BUFFER_SIZE"
  shows "BUFFER_SIZE < unat (hash_bytes len (word_of_nat n) (word_of_nat (tot + n)))"
proof -
  have wn: "unat (word_of_nat (tot + n) :: u64) = tot + n" "unat (word_of_nat tot :: u64) = tot"
    using assms unat_u64_of_nat [of "tot + n"] unat_u64_of_nat [of tot] by simp_all
  have more: "len < (word_of_nat (tot + n) :: u64)" "len < word_of_nat tot"
    using wn assms by (simp_all add: word_less_nat_alt)
  have "hash_bytes len (word_of_nat n) (word_of_nat (tot + n)) = len - word_of_nat tot"
    using more(1) assms(1) by (simp add: hash_bytes_def)
  moreover have "unat (len - word_of_nat tot) = 2 ^ 64 - (tot - unat len)"
  proof -
    have "unat (word_of_nat tot - len) = tot - unat len"
      using unat_minus_small [of len "word_of_nat tot"] more(2) wn by simp
    moreover have "len - word_of_nat tot = - (word_of_nat tot - len)" by simp
    ultimately show ?thesis
      using unat_neg_u64 [of "word_of_nat tot - len"] more(2) by auto
  qed
  ultimately show ?thesis using assms by simp
qed

lemma hash_loop_spec:
  assumes "0 < len" and "unat len < 2 ^ 63" and "tot + length (concat chunks) < 2 ^ 63"
    and "list_all (\<lambda>c. c \<noteq> [] \<and> length c \<le> BUFFER_SIZE) chunks" and "tot \<le> unat len"
  shows "hash_loop len (word_of_nat tot) acc (map Inr chunks) =
    (if tot + length (concat (butlast chunks)) \<le> unat len then Inr (acc @ take (unat len - tot) (concat chunks)) else Inl Panic)"
  using assms(3-5)
proof (induction chunks arbitrary: tot acc)
  case (Cons c cs)
  have c: "length c \<le> BUFFER_SIZE" "c \<noteq> []" using Cons.prems by simp_all
  have nz: "(word_of_nat (length c) :: u64) \<noteq> 0"
    using c by (intro of_nat_u64_nonzero) auto
  have w: "(word_of_nat tot + word_of_nat (length c) :: u64) = word_of_nat (tot + length c)" by simp
  have k: "unat (hash_bytes len (word_of_nat (length c)) (word_of_nat (tot + length c))) = min (length c) (unat len - tot)"
    using hash_bytes_within [OF assms(1) Cons.prems(3) c(1) assms(2)] .
  have go: "hash_loop len (word_of_nat tot) acc (map Inr (c # cs)) =
      hash_loop len (word_of_nat (tot + length c)) (acc @ take (unat len - tot) c) (map Inr cs)"
    unfolding list.map hash_loop.simps Let_def w k
    using nz c by (simp add: min_def del: hash_loop.simps of_nat_add of_nat_eq_0_iff)
  show ?case
  proof (cases "tot + length c \<le> unat len")
    case True
    have "hash_loop len (word_of_nat (tot + length c)) (acc @ take (unat len - tot) c) (map Inr cs) =
        (if tot + length c + length (concat (butlast cs)) \<le> unat len
         then Inr ((acc @ take (unat len - tot) c) @ take (unat len - (tot + length c)) (concat cs)) else Inl Panic)"
      using Cons.prems True by (intro Cons.IH) simp_all
    then show ?thesis
      unfolding go using True by (simp del: hash_loop.simps of_nat_add)
  next
    case False
    show ?thesis
    proof (cases cs)
      case Nil
      then show ?thesis unfolding go using Cons.prems(3) by simp
    next
      case (Cons d ds)
      have d: "length d \<le> BUFFER_SIZE" "d \<noteq> []" using Cons.prems Cons by simp_all
      have "(word_of_nat (length d) :: u64) \<noteq> 0"
        using d by (intro of_nat_u64_nonzero) auto
      moreover have "BUFFER_SIZE < unat (hash_bytes len (word_of_nat (length d)) (word_of_nat (tot + length c + length d)))"
        using hash_bytes_beyond [OF assms(1), of "tot + length c" "length d"] False Cons.prems(1) Cons d by simp
      moreover have "(word_of_nat (tot + length c) + word_of_nat (length d) :: u64) = word_of_nat (tot + length c + length d)" by simp
      ultimately have "hash_loop len (word_of_nat (tot + length c)) (acc @ take (unat len - tot) c) (map Inr cs) = Inl Panic"
        unfolding Cons list.map hash_loop.simps Let_def by metis
      then show ?thesis unfolding go using False Cons by (simp del: hash_loop.simps of_nat_add)
    qed
  qed
qed simp

text \<open>
  C40: The hash of a file for a length limit. The file's bytes come in chunks of at most
  the buffer size. Without a limit everything is hashed. With one, exactly the first
  bytes up to the limit are hashed when no chunk starts beyond it; otherwise the handler
  panics, because the number of bytes to hash of such a chunk wraps around.
\<close>

theorem check_file_hashes_prefix:
  assumes "list_all (\<lambda>c. c \<noteq> [] \<and> length c \<le> BUFFER_SIZE) chunks"
    and "length (concat chunks) < 2 ^ 63" and "unat len < 2 ^ 63"
  shows "hash_loop len 0 [] (map Inr chunks) =
    (if len = 0 then Inr (concat chunks)
     else if length (concat (butlast chunks)) \<le> unat len then Inr (take (unat len) (concat chunks))
     else Inl Panic)"
proof (cases "len = 0")
  case True
  then show ?thesis using hash_loop_all [OF assms(1)] by simp
next
  case False
  then have "0 < len" by (simp add: word_gt_0)
  then show ?thesis using hash_loop_spec [of len 0 chunks "[]"] assms False by simp
qed

theorem check_file_hashes_prefix_witness:
  "hash_loop 2 0 [] (map Inr [''abc'', ''de'', ''f'']) = Inl Panic"
  using check_file_hashes_prefix [of "[''abc'', ''de'', ''f'']" 2] by simp

section \<open>Free space\<close>

lemma find_disk_Nil: "find_disk [] p = None"
proof -
  have "find_disk disks p = Some d \<Longrightarrow> disks \<noteq> []" for disks d
    by (rule find_disk.raw_induct [where P = "\<lambda>disks p d. disks \<noteq> []"]) (auto split: option.splits)
  then show ?thesis by (cases "find_disk [] p") auto
qed

text \<open>
  Asking for the free space never returns on a server without a disk limit. The list
  of disks the handler searches is a new \<open>Disks\<close>, which is empty until it is refreshed,
  and the search only ends at a mount point of that list.
\<close>

theorem space_request_diverges:
  assumes "fe_disks e = []" and "disk_limit (sf_fs st) = 0" and "allow_action e st"
    and "command \<in> {''space-available'', ''statvfs@openssh.com'', ''fstatvfs@openssh.com''}"
  shows "fst (sftp_handle e (RExtended command d) st) = Inl Diverges"
  using assms
  by (auto simp: sftp_extended_def allowed_def sftp_space_def sftp_statvfs_def disk_space_def find_disk_Nil)

theorem space_request_diverges_witness:
  "fst (sftp_handle sftp_sample_env (RExtended ''space-available'' []) sftp_sample_state) = Inl Diverges"
  by (rule space_request_diverges)
    (simp_all add: sftp_sample_env_def sftp_sample_state_def new_filesystem_def allow_action_def
      is_locked_state_def new_server_def upm_is_contained_def ServerStateLock.defs new_lock_def)

section \<open>Ignored files\<close>

text \<open>
  The ignore rules of the session's own user are never applied: the handlers ask for
  the rules of the nil user, so that only the rules of the server hide a file as long as
  no permissions are stored for that user.
\<close>

theorem user_ignores_not_applied:
  assumes "sf_perms st 0 = None"
  shows "ignored_by_server e p d st = (p \<notin> {[RootDir], []} \<and> fe_ignores e (disk_ignored (sf_fs st)) p d, st)"
  using assms by (simp add: ignored_by_server_def is_ignored_def upm_is_ignored_def)

theorem user_ignores_not_applied_witness:
  "ignored_by_server (sftp_sample_env\<lparr>fe_whitelisted := \<lambda>_ _ _. True\<rparr>) [Normal ''a''] False
     (sftp_sample_state\<lparr>sf_perms := [1 \<mapsto> ({PAll}, Some (), 0)]\<rparr>)
   = ([Normal ''a''] \<notin> {[RootDir], []} \<and>
        fe_ignores (sftp_sample_env\<lparr>fe_whitelisted := \<lambda>_ _ _. True\<rparr>) (disk_ignored (sf_fs sftp_sample_state)) [Normal ''a''] False,
      sftp_sample_state\<lparr>sf_perms := [1 \<mapsto> ({PAll}, Some (), 0)]\<rparr>)"
  using user_ignores_not_applied [of "sftp_sample_state\<lparr>sf_perms := [1 \<mapsto> ({PAll}, Some (), 0)]\<rparr>"
      "sftp_sample_env\<lparr>fe_whitelisted := \<lambda>_ _ _. True\<rparr>" "[Normal ''a'']" False] by simp

end
