(* ===== verification/Container_Config.thy ===== *)
theory Container_Config
  imports Json Rust_Path
begin

text \<open>
  \<open>server/configuration/mod.rs\<close>, \<open>server/configuration/seccomp.rs\<close> and
  \<open>DockerOverhead\<close> of \<open>config.rs\<close>: the configuration of a server and the container
  request built from it.

  A \<open>HashMap\<close> or \<open>BTreeMap\<close> is an association list with distinct keys; the order of a
  hash map has no meaning. \<open>scale\<close> is the product of a memory size with a float and its
  conversion back, \<open>show\<close> the compact text of a JSON value.
\<close>

section \<open>The server's configuration\<close>

record Mount =
  mount_default :: bool
  mount_target :: string
  mount_source :: string
  mount_read_only :: bool

record Allocations =
  force_outgoing_ip :: bool
  default_allocation :: "(string \<times> u16) option"
  mappings :: "(string \<times> u16 list) list"

record Build =
  memory_limit :: i64
  swap :: i64
  io_weight :: "u16 option"
  cpu_limit :: i64
  build_disk_space :: u64
  build_threads :: "string option"
  oom_disabled :: bool

record ServerConfiguration =
  cfg_uuid :: string
  cfg_invocation :: string
  cfg_environment :: "(string \<times> json) list"
  cfg_labels :: "(string \<times> string) list"
  cfg_allocations :: Allocations
  cfg_build :: Build
  cfg_mounts :: "Mount list"
  cfg_privileged :: bool
  cfg_image :: string
  cfg_timezone :: "string option"
  cfg_seccomp_remove :: "string list"

definition string_to_option :: "string \<Rightarrow> string option" where
  "string_to_option s = (if s = [] then None else Some s)"

text \<open>The daemon's settings the container request depends on.\<close>

record DockerOverhead =
  override_multipliers :: bool
  default_multiplier :: f64
  multipliers :: "(i64 \<times> f64) list"

record Config =
  passwd_enabled :: bool
  passwd_directory :: string
  allowed_mounts :: "string list"
  net_interface :: string
  net_mode :: string
  net_dns :: "string list"
  disable_interface_binding :: bool
  net_ispn :: bool
  overhead :: DockerOverhead
  container_pid_limit :: u64
  tmpfs_size :: u64
  userns_mode :: string
  domainname :: string
  system_timezone :: string
  rootless :: "(nat \<times> nat) option"
  system_user :: "nat \<times> nat"
  log_type :: string
  log_options :: "(string \<times> string) list"

section \<open>Memory overhead\<close>

text \<open>\<open>multipliers\<close> is ascending; its keys are tried from the last one.\<close>

fun first_multiplier :: "(i64 \<times> f64) list \<Rightarrow> i64 \<Rightarrow> f64 option" where
  "first_multiplier [] memory = None"
| "first_multiplier ((m, f) # ms) memory =
     (if sint m < sint memory then first_multiplier ms memory else Some f)"

definition get_mutiplier :: "DockerOverhead \<Rightarrow> i64 \<Rightarrow> f64" where
  "get_mutiplier self memory =
     (if \<not> override_multipliers self then
        (if sint memory \<le> 2048 then Finite (115 / 100)
         else if sint memory \<le> 4096 then Finite (110 / 100)
         else Finite (105 / 100))
      else case first_multiplier (rev (multipliers self)) memory of
             Some f \<Rightarrow> f
           | None \<Rightarrow> default_multiplier self)"

definition get_memory :: "(i64 \<Rightarrow> f64 \<Rightarrow> i64) \<Rightarrow> DockerOverhead \<Rightarrow> i64 \<Rightarrow> i64" where
  "get_memory scale self memory = scale memory (get_mutiplier self memory)"

section \<open>Mounts and ports\<close>

definition mounts :: "Config \<Rightarrow> string \<Rightarrow> ServerConfiguration \<Rightarrow> Mount list" where
  "mounts config base self =
     [\<lparr>mount_default = True, mount_target = ''/home/container'', mount_source = base, mount_read_only = False\<rparr>] @
     (if passwd_enabled config then
        [\<lparr>mount_default = False, mount_target = ''/etc/group'',
          mount_source = path_text (path_join (components (passwd_directory config)) [Normal ''group'']), mount_read_only = True\<rparr>,
         \<lparr>mount_default = False, mount_target = ''/etc/passwd'',
          mount_source = path_text (path_join (components (passwd_directory config)) [Normal ''passwd'']), mount_read_only = True\<rparr>]
      else []) @
     filter (\<lambda>m. mount_source m \<in> set (allowed_mounts config)) (cfg_mounts self)"

text \<open>The target, the source and whether it is read-only, all of type bind.\<close>

definition convert_mounts :: "Config \<Rightarrow> string \<Rightarrow> ServerConfiguration \<Rightarrow> (string \<times> string \<times> bool) list" where
  "convert_mounts config base self =
     map (\<lambda>m. (mount_target m, mount_source m, mount_read_only m)) (mounts config base self)"

type_synonym port_map = "(string \<times> (string option \<times> string) list) list"

text \<open>\<open>entry(k).or_insert_with(Vec::new).push(b)\<close>.\<close>

definition push_binding :: "string \<Rightarrow> string option \<times> string \<Rightarrow> port_map \<Rightarrow> port_map" where
  "push_binding k b m = obj_insert k ((case map_of m k of Some bs \<Rightarrow> bs | None \<Rightarrow> []) @ [b]) m"

definition port_text :: "u16 \<Rightarrow> string" where
  "port_text port = nat_to_string (unat port)"

fun bind_ports :: "string \<Rightarrow> u16 list \<Rightarrow> port_map \<Rightarrow> port_map" where
  "bind_ports ip [] m = m"
| "bind_ports ip (port # ports) m =
     bind_ports ip ports
       (push_binding (port_text port @ ''/udp'') (Some ip, port_text port)
         (push_binding (port_text port @ ''/tcp'') (Some ip, port_text port) m))"

definition convert_allocations_bindings :: "ServerConfiguration \<Rightarrow> port_map" where
  "convert_allocations_bindings self =
     fold (\<lambda>(ip, ports). bind_ports ip ports) (mappings (cfg_allocations self)) []"

text \<open>The loop over the bindings of one port.\<close>

fun docker_bindings :: "Config \<Rightarrow> (string option \<times> string) list \<Rightarrow> (string option \<times> string) list" where
  "docker_bindings config [] = []"
| "docker_bindings config ((ip, port) # bs) =
     (let ip = (if disable_interface_binding config then None else ip) in
      if ip = Some ''127.0.0.1'' then
        (if net_ispn config then docker_bindings config bs
         else (Some (net_interface config), port) # docker_bindings config bs)
      else (ip, port) # docker_bindings config bs)"

definition convert_allocations_docker_bindings :: "Config \<Rightarrow> ServerConfiguration \<Rightarrow> port_map" where
  "convert_allocations_docker_bindings config self =
     map (\<lambda>(k, bs). (k, docker_bindings config bs)) (convert_allocations_bindings self)"

definition convert_allocations_exposed :: "ServerConfiguration \<Rightarrow> (string \<times> unit) list" where
  "convert_allocations_exposed self =
     fold (\<lambda>port m. obj_insert (port_text port @ ''/udp'') () (obj_insert (port_text port @ ''/tcp'') () m))
       (concat (map snd (mappings (cfg_allocations self)))) []"

section \<open>Resources\<close>

record Resources =
  res_memory :: "i64 option"
  res_memory_reservation :: "i64 option"
  res_memory_swap :: "i64 option"
  res_blkio_weight :: "u16 option"
  res_oom_kill_disable :: bool
  res_pids_limit :: "i64 option"
  res_cpuset_cpus :: "string option"
  res_cpu_quota :: "i64 option"
  res_cpu_period :: "i64 option"
  res_cpu_shares :: "i64 option"

definition convert_container_resources ::
  "(i64 \<Rightarrow> f64 \<Rightarrow> i64) \<Rightarrow> Config \<Rightarrow> ServerConfiguration \<Rightarrow> Resources" where
  "convert_container_resources scale config self =
     (let b = cfg_build self; mem = get_memory scale (overhead config); mib = (\<lambda>n :: i64. n * 1024 * 1024);
          res = \<lparr>res_memory = (if memory_limit b = 0 then None else Some (mib (mem (memory_limit b)))),
                 res_memory_reservation = (if memory_limit b = 0 then None else Some (mib (memory_limit b))),
                 res_memory_swap =
                   (if swap b = 0 then None
                    else if swap b = -1 then Some (-1)
                    else if memory_limit b = 0 then Some (mib (swap b))
                    else Some (mib (mem (memory_limit b)) + mib (swap b))),
                 res_blkio_weight = io_weight b,
                 res_oom_kill_disable = oom_disabled b,
                 res_pids_limit = (if container_pid_limit config = 0 then None else Some (container_pid_limit config)),
                 res_cpuset_cpus = build_threads b,
                 res_cpu_quota = None, res_cpu_period = None, res_cpu_shares = None\<rparr>
      in if 0 < sint (cpu_limit b)
         then res\<lparr>res_cpu_quota := Some (cpu_limit b * 1000), res_cpu_period := Some 100000, res_cpu_shares := Some 1024\<rparr>
         else res)"

section \<open>Environment\<close>

definition env_text :: "(json \<Rightarrow> string) \<Rightarrow> json \<Rightarrow> string" where
  "env_text show v = (case v of JString s \<Rightarrow> s | _ \<Rightarrow> show v)"

definition env_map :: "Config \<Rightarrow> ServerConfiguration \<Rightarrow> (string \<times> json) list" where
  "env_map config self =
     (let m = obj_insert ''SERVER_MEMORY'' (JInt (sint (memory_limit (cfg_build self))))
               (obj_insert ''STARTUP'' (JString (cfg_invocation self))
                 (obj_insert ''TZ'' (JString (case cfg_timezone self of Some t \<Rightarrow> t | None \<Rightarrow> system_timezone config))
                   (cfg_environment self)))
      in case default_allocation (cfg_allocations self) of
           Some (ip, port) \<Rightarrow> obj_insert ''SERVER_PORT'' (JInt (uint port)) (obj_insert ''SERVER_IP'' (JString ip) m)
         | None \<Rightarrow> m)"

definition environment :: "(json \<Rightarrow> string) \<Rightarrow> Config \<Rightarrow> ServerConfiguration \<Rightarrow> string list" where
  "environment show config self = map (\<lambda>(k, v). k @ ''='' @ env_text show v) (env_map config self)"

section \<open>System calls\<close>

datatype Action = ActKill | ActKillProcess | ActKillThread | ActTrap | ActErrno | ActTrace | ActAllow | ActLog | ActNotify

text \<open>What \<open>remove_names\<close> reads of a rule; \<open>'r\<close> is the rest.\<close>

record 'r Syscall =
  sys_names :: "string list"
  sys_action :: Action
  sys_rest :: 'r

definition remove_names :: "string list \<Rightarrow> Action \<Rightarrow> 'r Syscall list \<Rightarrow> 'r Syscall list" where
  "remove_names names action =
     map (\<lambda>s. if sys_action s = action then s\<lparr>sys_names := filter (\<lambda>n. n \<notin> set names) (sys_names s)\<rparr> else s)"

section \<open>The container request\<close>

record 'r ContainerConfig =
  cc_exposed_ports :: "(string \<times> unit) list"
  cc_resources :: Resources
  cc_privileged :: bool
  cc_port_bindings :: port_map
  cc_mounts :: "(string \<times> string \<times> bool) list"
  cc_network_mode :: string
  cc_dns :: "string list"
  cc_tmpfs :: "(string \<times> string) list"
  cc_log_config :: "string \<times> (string \<times> string) list"
  cc_security_opt :: "string \<times> 'r Syscall list"
  cc_cap_drop :: "string list"
  cc_userns_mode :: "string option"
  cc_readonly_rootfs :: bool
  cc_hostname :: string
  cc_domainname :: "string option"
  cc_image :: string
  cc_env :: "string list"
  cc_user :: string
  cc_labels :: "(string \<times> string) list"
  cc_attached :: bool

fun replace_char :: "char \<Rightarrow> string \<Rightarrow> string \<Rightarrow> string" where
  "replace_char c r [] = []"
| "replace_char c r (x # s) = (if x = c then r else [x]) @ replace_char c r s"

definition network_name :: "string \<Rightarrow> string" where
  "network_name ip = ''ip-'' @ replace_char CHR '':'' ''--'' (replace_char CHR ''.'' ''-'' ip)"

text \<open>
  The network mode and the networks created for it: \<open>inspected\<close> tells whether a network
  exists. A failed creation is only logged.
\<close>

definition network_mode_of :: "Config \<Rightarrow> (string \<Rightarrow> bool) \<Rightarrow> ServerConfiguration \<Rightarrow> string \<times> (string \<times> string) list" where
  "network_mode_of config inspected self =
     (case default_allocation (cfg_allocations self) of
        Some (ip, port) \<Rightarrow>
          if force_outgoing_ip (cfg_allocations self)
          then (network_name ip, if inspected (network_name ip) then [] else [(network_name ip, ip)])
          else (net_mode config, [])
      | None \<Rightarrow> (net_mode config, []))"

definition user_text :: "Config \<Rightarrow> string" where
  "user_text config =
     (case rootless config of
        Some (u, g) \<Rightarrow> nat_to_string u @ '':'' @ nat_to_string g
      | None \<Rightarrow> nat_to_string (fst (system_user config)) @ '':'' @ nat_to_string (snd (system_user config)))"

definition dropped_capabilities :: "string list" where
  "dropped_capabilities =
     [''setpcap'', ''mknod'', ''audit_write'', ''net_raw'', ''dac_override'', ''fowner'', ''fsetid'',
      ''net_bind_service'', ''sys_chroot'', ''setfcap'']"

definition container_config ::
  "(i64 \<Rightarrow> f64 \<Rightarrow> i64) \<Rightarrow> (json \<Rightarrow> string) \<Rightarrow> 'r Syscall list \<Rightarrow> Config \<Rightarrow> (string \<Rightarrow> bool) \<Rightarrow> string
     \<Rightarrow> ServerConfiguration \<Rightarrow> 'r ContainerConfig \<times> (string \<times> string) list" where
  "container_config scale show seccomp config inspected base self =
     (let labels = obj_insert ''ContainerType'' ''server_process'' (obj_insert ''Service'' ''Pterodactyl'' (cfg_labels self));
          (mode, created) = network_mode_of config inspected self
      in (\<lparr>cc_exposed_ports = convert_allocations_exposed self,
           cc_resources = convert_container_resources scale config self,
           cc_privileged = cfg_privileged self,
           cc_port_bindings = convert_allocations_docker_bindings config self,
           cc_mounts = convert_mounts config base self,
           cc_network_mode = mode,
           cc_dns = net_dns config,
           cc_tmpfs = [(''/tmp'', ''rw,exec,nosuid,size='' @ nat_to_string (unat (tmpfs_size config)) @ ''M'')],
           cc_log_config = (log_type config, log_options config),
           cc_security_opt = (''no-new-privileges'', remove_names (cfg_seccomp_remove self) ActAllow seccomp),
           cc_cap_drop = dropped_capabilities,
           cc_userns_mode = string_to_option (userns_mode config),
           cc_readonly_rootfs = True,
           cc_hostname = cfg_uuid self,
           cc_domainname = string_to_option (domainname config),
           cc_image = trim_end_matches ''~'' (cfg_image self),
           cc_env = environment show config self,
           cc_user = user_text config,
           cc_labels = labels,
           cc_attached = True\<rparr>,
          created))"

definition container_update_config :: "(i64 \<Rightarrow> f64 \<Rightarrow> i64) \<Rightarrow> Config \<Rightarrow> ServerConfiguration \<Rightarrow> Resources" where
  "container_update_config scale config self = convert_container_resources scale config self"

section \<open>Lemmas\<close>

lemma first_multiplier_hd:
  "first_multiplier (x # ms) memory = (if sint memory \<le> sint (fst x) then Some (snd x) else first_multiplier ms memory)"
  by (cases x) auto

lemma first_multiplier_none:
  "list_all (\<lambda>x. sint (fst x) < sint memory) ms \<Longrightarrow> first_multiplier ms memory = None"
  by (induction ms memory rule: first_multiplier.induct) auto

lemma port_text_inj: "port_text p = port_text q \<Longrightarrow> p = q"
  using nat_to_string_inj [of "unat p" "unat q"] by (simp add: port_text_def unsigned_word_eqI)

lemma port_keys [simp]:
  "port_text p @ ''/udp'' \<noteq> port_text q @ ''/tcp''" "port_text q @ ''/tcp'' \<noteq> port_text p @ ''/udp''"
  by simp_all

text \<open>The bindings made for one port, in the order of the mappings.\<close>

definition wanted_bindings :: "u16 \<Rightarrow> (string \<times> u16 list) list \<Rightarrow> (string option \<times> string) list" where
  "wanted_bindings p ms = concat (map (\<lambda>(ip, ports). map (\<lambda>_. (Some ip, port_text p)) (filter (\<lambda>q. q = p) ports)) ms)"

definition bound_to :: "port_map \<Rightarrow> string \<Rightarrow> (string option \<times> string) list" where
  "bound_to m k = (case map_of m k of Some bs \<Rightarrow> bs | None \<Rightarrow> [])"

lemma bound_to_push: "bound_to (push_binding k b m) k' = (if k' = k then bound_to m k @ [b] else bound_to m k')"
  by (simp add: bound_to_def push_binding_def)

lemma bind_ports_bound:
  "sfx \<in> {''/tcp'', ''/udp''} \<Longrightarrow>
     bound_to (bind_ports ip ports m) (port_text p @ sfx) =
       bound_to m (port_text p @ sfx) @ map (\<lambda>_. (Some ip, port_text p)) (filter (\<lambda>q. q = p) ports)"
proof (induction ip ports m rule: bind_ports.induct)
  case (2 ip port ports m)
  then show ?case by (auto simp: bound_to_push dest: port_text_inj)
qed simp

lemma bindings_bound:
  assumes "sfx \<in> {''/tcp'', ''/udp''}"
  shows "bound_to (fold (\<lambda>(ip, ports). bind_ports ip ports) ms m) (port_text p @ sfx) =
    bound_to m (port_text p @ sfx) @ wanted_bindings p ms"
  using bind_ports_bound [OF assms]
  by (induction ms arbitrary: m) (auto simp: wanted_bindings_def)

section \<open>Properties\<close>

text \<open>
  The bindings of the container are exactly the server's allocations: a port is
  bound, for TCP and for UDP alike, once for every address that maps it and to that
  address, in order, and nothing else is bound to it.
\<close>

theorem allocations_bound_exactly:
  assumes "sfx \<in> {''/tcp'', ''/udp''}"
  shows "bound_to (convert_allocations_bindings self) (port_text p @ sfx) =
    wanted_bindings p (mappings (cfg_allocations self))"
  using bindings_bound [OF assms] by (simp add: convert_allocations_bindings_def bound_to_def)

definition sample_config :: ServerConfiguration where
  "sample_config =
     \<lparr>cfg_uuid = ''u'', cfg_invocation = ''run'', cfg_environment = [], cfg_labels = [],
      cfg_allocations = \<lparr>force_outgoing_ip = False, default_allocation = Some (''10.0.0.1'', 25565),
        mappings = [(''10.0.0.1'', [25565, 80]), (''10.0.0.2'', [80])]\<rparr>,
      cfg_build = \<lparr>memory_limit = 1024, swap = 0, io_weight = None, cpu_limit = 100, build_disk_space = 0,
        build_threads = None, oom_disabled = False\<rparr>,
      cfg_mounts = [], cfg_privileged = False, cfg_image = ''i'', cfg_timezone = None, cfg_seccomp_remove = []\<rparr>"

theorem allocations_bound_exactly_witness:
  "bound_to (convert_allocations_bindings sample_config) (port_text 80 @ ''/udp'') =
     [(Some ''10.0.0.1'', port_text 80), (Some ''10.0.0.2'', port_text 80)]"
  using allocations_bound_exactly [of "''/udp''" sample_config 80]
  by (simp add: sample_config_def wanted_bindings_def)

text \<open>
  The memory multipliers are looked up from the wrong end. The documentation says that
  the entry of the smallest size not below the limit counts; the code takes the entry of
  the largest size for every limit up to it, so that the other entries are never used.
\<close>

theorem multipliers_taken_in_reverse:
  assumes "override_multipliers o'" and "sorted (map (\<lambda>x. sint (fst x)) (multipliers o'))" and "multipliers o' \<noteq> []"
  shows "get_mutiplier o' memory =
    (if sint memory \<le> sint (fst (last (multipliers o'))) then snd (last (multipliers o')) else default_multiplier o')"
proof -
  obtain ms x where ms: "multipliers o' = ms @ [x]" using assms(3) by (metis rev_exhaust)
  have le: "sint (fst y) \<le> sint (fst x)" if "y \<in> set ms" for y
    using assms(2) that by (simp add: ms sorted_append)
  have "first_multiplier (rev ms) memory = None" if "sint (fst x) < sint memory"
    using le that by (intro first_multiplier_none) (fastforce simp: list_all_iff)
  then show ?thesis using assms(1) by (auto simp: get_mutiplier_def ms first_multiplier_hd simp del: first_multiplier.simps)
qed

theorem multipliers_taken_in_reverse_witness:
  "get_mutiplier \<lparr>override_multipliers = True, default_multiplier = Finite 1,
     multipliers = [(1024, Finite 2), (2048, Finite 3)]\<rparr> 512 = Finite 3"
  using multipliers_taken_in_reverse [of "\<lparr>override_multipliers = True, default_multiplier = Finite 1,
     multipliers = [(1024, Finite 2), (2048, Finite 3)]\<rparr>" 512] by simp

text \<open>
  Only the directory of the server, the two generated files and sources on the daemon's
  allow-list are mounted; only the server's directory and allow-listed mounts can be
  writable.
\<close>

lemma mounts_allowed:
  assumes "m \<in> set (mounts config base self)"
  shows "mount_source m = base \<and> mount_target m = ''/home/container'' \<or>
    passwd_enabled config \<and> mount_read_only m \<and> mount_target m \<in> {''/etc/group'', ''/etc/passwd''} \<or>
    mount_source m \<in> set (allowed_mounts config) \<and> m \<in> set (cfg_mounts self)"
  using assms by (auto simp: mounts_def split: if_splits)

text \<open>
  The environment of the container: the values the daemon sets win over the ones of the
  same name in the server's configuration, all others are passed on.
\<close>

lemma environment_protected:
  "map_of (env_map config self) =
     (let m = (map_of (cfg_environment self))
        (''TZ'' \<mapsto> JString (case cfg_timezone self of Some t \<Rightarrow> t | None \<Rightarrow> system_timezone config),
         ''STARTUP'' \<mapsto> JString (cfg_invocation self),
         ''SERVER_MEMORY'' \<mapsto> JInt (sint (memory_limit (cfg_build self))))
      in case default_allocation (cfg_allocations self) of
           Some (ip, port) \<Rightarrow> m(''SERVER_IP'' \<mapsto> JString ip, ''SERVER_PORT'' \<mapsto> JInt (uint port))
         | None \<Rightarrow> m)"
proof (cases "default_allocation (cfg_allocations self)")
  case None
  show ?thesis by (simp only: env_map_def Let_def map_of_obj_insert None option.case)
next
  case (Some a)
  obtain ip port where "a = (ip, port)" by fastforce
  then show ?thesis by (simp only: env_map_def Let_def map_of_obj_insert Some option.case prod.case)
qed

text \<open>With the loopback option on, no port of the container is bound to the loopback address.\<close>

lemma docker_bindings_loopback:
  assumes "net_ispn config \<or> net_interface config \<noteq> ''127.0.0.1''"
  shows "(Some ''127.0.0.1'', port) \<notin> set (docker_bindings config bs)"
  using assms by (induction config bs rule: docker_bindings.induct) (auto simp: Let_def)

text \<open>Removing names never allows a call that was not allowed.\<close>

lemma remove_names_allows_less:
  assumes "s \<in> set (remove_names names act rules)" and "sys_action s = act"
  shows "set (sys_names s) \<inter> set names = {} \<and> (\<exists>r \<in> set rules. sys_action r = act \<and> set (sys_names s) \<subseteq> set (sys_names r))"
proof -
  obtain r where r: "r \<in> set rules"
    and s: "s = (if sys_action r = act then r\<lparr>sys_names := filter (\<lambda>n. n \<notin> set names) (sys_names r)\<rparr> else r)"
    using assms(1) unfolding remove_names_def set_map by blast
  have "sys_action r = act" using s assms(2) by (cases "sys_action r = act") simp_all
  with s have "sys_names s = filter (\<lambda>n. n \<notin> set names) (sys_names r)" by simp
  then show ?thesis using r \<open>sys_action r = act\<close> by auto
qed

end
