(* ===== verification/Config_Files.thy ===== *)
theory Config_Files
  imports Container_Config Filesystem
begin

text \<open>
  \<open>server/configuration/process.rs\<close>: before a server starts, its configuration files are
  rewritten: one routine per file format, each applying the replacements of the
  server's egg.

  \<open>serde_json\<close>'s parser and printers and the parser of floats are arguments (record
  \<open>text_env\<close>): \<open>te_float\<close> gives the value and whether it has a fractional part. A hash map
  of which only the keys are used is a list of them.
\<close>

section \<open>Replacements\<close>

datatype ServerConfigurationFileParser = PlainFile | Yaml | Properties | Ini | JsonFile | Xml

record Replacement =
  rp_match :: string
  rp_if_value :: "string option"
  rp_replace_with :: json

record ServerConfigurationFile =
  cf_file :: string
  cf_parser :: ServerConfigurationFileParser
  cf_replace :: "Replacement list"

record text_env =
  te_parse :: "string \<Rightarrow> json option"
  te_pretty :: "json \<Rightarrow> string result"
  te_show :: "json \<Rightarrow> string"
  te_float :: "string \<Rightarrow> (f64 \<times> bool) option"

text \<open>The part of a variable name after \<open>server\<close>; \<open>None\<close> when it is not resolved.\<close>

fun server_variable :: "text_env \<Rightarrow> ServerConfiguration \<Rightarrow> string list \<Rightarrow> string option option" where
  "server_variable te cfg (sec # name # rest) =
     (if sec = ''build'' then
        (if name = ''memory'' then Some (Some (int_to_string (sint (memory_limit (cfg_build cfg)))))
         else if name = ''io'' then
           Some (Some (case io_weight (cfg_build cfg) of None \<Rightarrow> ''none'' | Some v \<Rightarrow> nat_to_string (unat v)))
         else if name = ''cpu'' then Some (Some (int_to_string (sint (cpu_limit (cfg_build cfg)))))
         else if name = ''disk'' then Some (Some (nat_to_string (unat (build_disk_space (cfg_build cfg)))))
         else if name = ''default'' \<and> rest \<noteq> [] then
           (if hd rest = ''port'' then
              Some (map_option (\<lambda>(ip, port). nat_to_string (unat port)) (default_allocation (cfg_allocations cfg)))
            else if hd rest = ''ip'' then Some (map_option fst (default_allocation (cfg_allocations cfg)))
            else None)
         else None)
      else if sec = ''env'' then
        (case map_of (cfg_environment cfg) name of
           Some v \<Rightarrow> Some (Some (env_text (te_show te) v))
         | None \<Rightarrow> None)
      else None)"
| "server_variable te cfg _ = None"

definition lookup_value :: "text_env \<Rightarrow> ServerConfiguration \<Rightarrow> json \<Rightarrow> string option" where
  "lookup_value te cfg replacement =
     (case json_as_str replacement of
        None \<Rightarrow> None
      | Some v \<Rightarrow>
          if starts_with v ''{{'' \<and> ends_with v ''}}'' then
            (let variable = trim (trim_end_matches ''}}'' (trim_start_matches ''{{'' v));
                 parts = str_split CHR ''.'' variable
             in case (if 3 \<le> length parts \<and> hd parts = ''server'' then server_variable te cfg (tl parts) else None) of
                  Some r \<Rightarrow> r
                | None \<Rightarrow> Some [])
          else Some v)"

definition value_of :: "text_env \<Rightarrow> ServerConfiguration \<Rightarrow> Replacement \<Rightarrow> string option" where
  "value_of te cfg r = lookup_value te cfg (rp_replace_with r)"

section \<open>Properties files\<close>

definition if_fails :: "Replacement \<Rightarrow> string \<Rightarrow> bool" where
  "if_fails r original \<longleftrightarrow> (case rp_if_value r of Some v \<Rightarrow> original \<noteq> v | None \<Rightarrow> False)"

fun property_line ::
  "text_env \<Rightarrow> ServerConfiguration \<Rightarrow> Replacement list \<Rightarrow> string \<Rightarrow> string \<Rightarrow> string \<Rightarrow> string" where
  "property_line te cfg [] key original line = line"
| "property_line te cfg (r # rs) key original line =
     (if rp_match r = key then
        (if if_fails r original then property_line te cfg rs key original line
         else case value_of te cfg r of
                Some v \<Rightarrow> key @ ''='' @ v
              | None \<Rightarrow> property_line te cfg rs key original line)
      else property_line te cfg rs key original line)"

definition is_comment_line :: "string \<Rightarrow> bool" where
  "is_comment_line line \<longleftrightarrow> trim line = [] \<or> starts_with (trim line) ''#''"

definition property_step ::
  "text_env \<Rightarrow> ServerConfiguration \<Rightarrow> Replacement list \<Rightarrow> string
     \<Rightarrow> string list \<times> string list \<Rightarrow> string list \<times> string list" where
  "property_step te cfg rs line acc =
     (case acc of (out, processed) \<Rightarrow>
        if is_comment_line line then (out @ [line], processed)
        else case str_split_once CHR ''='' line of
               None \<Rightarrow> (out @ [line], processed)
             | Some (k, original) \<Rightarrow>
                 (out @ [property_line te cfg rs (trim k) original line], processed @ [trim k]))"

definition missing_lines ::
  "text_env \<Rightarrow> ServerConfiguration \<Rightarrow> string list \<Rightarrow> Replacement list \<Rightarrow> string list" where
  "missing_lines te cfg processed rs =
     concat (map (\<lambda>r. if rp_match r \<in> set processed then []
                      else case value_of te cfg r of Some v \<Rightarrow> [rp_match r @ ''='' @ v] | None \<Rightarrow> []) rs)"

definition process_properties_file ::
  "text_env \<Rightarrow> ServerConfiguration \<Rightarrow> Replacement list \<Rightarrow> string \<Rightarrow> string" where
  "process_properties_file te cfg rs content =
     (case fold (property_step te cfg rs) (str_lines content) ([], []) of
        (out, processed) \<Rightarrow> str_join newline (out @ missing_lines te cfg processed rs) @ newline)"

section \<open>JSON and YAML files\<close>

definition to_lower :: "char \<Rightarrow> char" where
  "to_lower c = (let n = of_char c :: nat in if 65 \<le> n \<and> n \<le> 90 then char_of (n + 32) else c)"

definition eq_ignore_ascii_case :: "string \<Rightarrow> string \<Rightarrow> bool" where
  "eq_ignore_ascii_case a b \<longleftrightarrow> map to_lower a = map to_lower b"

definition scalar_value :: "text_env \<Rightarrow> string \<Rightarrow> json" where
  "scalar_value te v =
     (if eq_ignore_ascii_case v ''true'' then JBool True
      else if eq_ignore_ascii_case v ''false'' then JBool False
      else case parse_i64 v of
             Some i \<Rightarrow> JInt i
           | None \<Rightarrow>
               (case te_float te v of
                  Some (Finite q, True) \<Rightarrow> JFloat (Finite q)
                | _ \<Rightarrow> JString v))"

fun update_json_value :: "text_env \<Rightarrow> string list \<Rightarrow> string \<Rightarrow> json \<Rightarrow> json" where
  "update_json_value te [] v j = j"
| "update_json_value te [k] v j =
     (case j of
        JObject m \<Rightarrow> JObject (obj_insert k (scalar_value te v) m)
      | _ \<Rightarrow> JObject [(k, JString v)])"
| "update_json_value te (k # k' # ks) v j =
     (case j of
        JObject m \<Rightarrow>
          JObject (obj_insert k (update_json_value te (k' # ks) v
                     (case map_of m k of Some entry \<Rightarrow> entry | None \<Rightarrow> JObject [])) m)
      | _ \<Rightarrow> JObject [(k, update_json_value te (k' # ks) v (JObject []))])"

fun apply_json :: "text_env \<Rightarrow> ServerConfiguration \<Rightarrow> Replacement list \<Rightarrow> json \<Rightarrow> json" where
  "apply_json te cfg [] j = j"
| "apply_json te cfg (r # rs) j =
     apply_json te cfg rs
       (case value_of te cfg r of
          Some v \<Rightarrow> update_json_value te (str_split CHR ''.'' (rp_match r)) v j
        | None \<Rightarrow> j)"

definition parse_or_empty :: "text_env \<Rightarrow> string \<Rightarrow> json" where
  "parse_or_empty te content =
     (if trim content = [] then JObject []
      else case te_parse te content of Some j \<Rightarrow> j | None \<Rightarrow> JObject [])"

definition process_json_file ::
  "text_env \<Rightarrow> ServerConfiguration \<Rightarrow> Replacement list \<Rightarrow> string \<Rightarrow> string" where
  "process_json_file te cfg rs content =
     (case te_pretty te (apply_json te cfg rs (parse_or_empty te content)) of
        Inr s \<Rightarrow> s
      | Inl _ \<Rightarrow> ''{}'')"

definition process_yaml_file ::
  "text_env \<Rightarrow> ServerConfiguration \<Rightarrow> Replacement list \<Rightarrow> string \<Rightarrow> string" where
  "process_yaml_file te cfg rs content =
     (case te_pretty te (apply_json te cfg rs (parse_or_empty te content)) of
        Inr s \<Rightarrow> s
      | Inl _ \<Rightarrow> ''{}'' @ newline)"

section \<open>INI files\<close>

record ini_state =
  ini_lines :: "string list"
  ini_section :: string
  ini_keys :: "(string \<times> nat) list"

definition full_key :: "string \<Rightarrow> string \<Rightarrow> string" where
  "full_key sec key = (if sec = [] then key else sec @ ''.'' @ key)"

definition ini_step :: "string \<Rightarrow> ini_state \<Rightarrow> ini_state" where
  "ini_step line st =
     (let pushed = st\<lparr>ini_lines := ini_lines st @ [line]\<rparr> in
      if trim line = [] \<or> starts_with line '';'' \<or> starts_with line ''#'' then pushed
      else if starts_with line ''['' \<and> ends_with line '']'' then pushed\<lparr>ini_section := butlast (tl line)\<rparr>
      else case str_split_once CHR ''='' line of
             Some (k, v) \<Rightarrow>
               pushed\<lparr>ini_keys := obj_insert (full_key (ini_section st) (trim k)) (length (ini_lines st)) (ini_keys st)\<rparr>
           | None \<Rightarrow> pushed)"

text \<open>One replacement: the lines and the section headers added so far.\<close>

definition ini_replace ::
  "text_env \<Rightarrow> ServerConfiguration \<Rightarrow> (string \<times> nat) list \<Rightarrow> Replacement
     \<Rightarrow> string list \<times> string list \<Rightarrow> string list \<times> string list" where
  "ini_replace te cfg keys r acc =
     (case (value_of te cfg r, acc) of
        (None, acc) \<Rightarrow> acc
      | (Some v, (ls, added)) \<Rightarrow>
          (case str_split_once CHR ''.'' (rp_match r) of
             Some (sec, key) \<Rightarrow>
               (case map_of keys (rp_match r) of
                  Some i \<Rightarrow> (ls[i := key @ ''='' @ v], added)
                | None \<Rightarrow>
                    (if sec \<in> set added then (ls @ [key @ ''='' @ v], added)
                     else (ls @ [''['' @ sec @ '']'', key @ ''='' @ v], added @ [sec])))
           | None \<Rightarrow>
               (case map_of keys (rp_match r) of
                  Some i \<Rightarrow> (ls[i := rp_match r @ ''='' @ v], added)
                | None \<Rightarrow> (ls @ [rp_match r @ ''='' @ v], added))))"

definition process_ini_file ::
  "text_env \<Rightarrow> ServerConfiguration \<Rightarrow> Replacement list \<Rightarrow> string \<Rightarrow> string" where
  "process_ini_file te cfg rs content =
     (let st = fold ini_step (str_lines content) \<lparr>ini_lines = [], ini_section = [], ini_keys = []\<rparr>
      in str_join newline (fst (fold (ini_replace te cfg (ini_keys st)) rs (ini_lines st, []))) @ newline)"

section \<open>XML files\<close>

definition xml_replace :: "string \<Rightarrow> string list \<Rightarrow> string \<Rightarrow> string" where
  "xml_replace v parts xml =
     (if parts = [] then xml
      else let tag = last parts; start_tag = ''<'' @ tag @ ''>''; end_tag = ''</'' @ tag @ ''>'' in
        if str_contains xml start_tag \<and> str_contains xml end_tag then
          (case str_find xml start_tag of
             None \<Rightarrow> xml
           | Some start_pos \<Rightarrow>
               let tag_end = start_pos + length start_tag in
               (case str_find (drop tag_end xml) end_tag of
                  None \<Rightarrow> xml
                | Some end_pos \<Rightarrow> take tag_end xml @ v @ drop (tag_end + end_pos) xml))
        else if length parts = 1 then
          (case str_rfind xml ''</root>'' of
             None \<Rightarrow> xml
           | Some i \<Rightarrow> take i xml @ newline @ ''  <'' @ tag @ ''>'' @ v @ ''</'' @ tag @ ''>'' @ newline @ drop i xml)
        else xml)"

definition empty_xml :: string where
  "empty_xml = ''<?xml version='' @ [CHR 0x22] @ ''1.0'' @ [CHR 0x22] @ '' encoding='' @ [CHR 0x22] @ ''UTF-8'' @
     [CHR 0x22] @ ''?>'' @ newline @ ''<root>'' @ newline @ ''</root>''"

fun apply_xml :: "text_env \<Rightarrow> ServerConfiguration \<Rightarrow> Replacement list \<Rightarrow> string \<Rightarrow> string" where
  "apply_xml te cfg [] xml = xml"
| "apply_xml te cfg (r # rs) xml =
     apply_xml te cfg rs
       (case value_of te cfg r of
          Some v \<Rightarrow> xml_replace v (filter (\<lambda>p. p \<noteq> []) (str_split CHR ''/'' (rp_match r))) xml
        | None \<Rightarrow> xml)"

definition process_xml_file ::
  "text_env \<Rightarrow> ServerConfiguration \<Rightarrow> Replacement list \<Rightarrow> string \<Rightarrow> string" where
  "process_xml_file te cfg rs content =
     apply_xml te cfg rs (if trim content = [] then empty_xml else content)"

section \<open>Plain files\<close>

text \<open>The line that replaces \<open>line\<close>, and the matches met on it.\<close>

fun plain_line ::
  "text_env \<Rightarrow> ServerConfiguration \<Rightarrow> Replacement list \<Rightarrow> string \<Rightarrow> string \<times> string list" where
  "plain_line te cfg [] line = (line, [])"
| "plain_line te cfg (r # rs) line =
     (if starts_with (trim line) (rp_match r) then
        (let skip = (case rp_if_value r of Some v \<Rightarrow> \<not> str_contains line v | None \<Rightarrow> False) in
         case (skip, value_of te cfg r) of
           (False, Some v) \<Rightarrow> (v, [rp_match r])
         | _ \<Rightarrow> apsnd ((#) (rp_match r)) (plain_line te cfg rs line))
      else plain_line te cfg rs line)"

definition process_plain_file ::
  "text_env \<Rightarrow> ServerConfiguration \<Rightarrow> Replacement list \<Rightarrow> string \<Rightarrow> string" where
  "process_plain_file te cfg rs content =
     (let done_lines = map (plain_line te cfg rs) (str_lines content);
          matched = concat (map snd done_lines);
          missing = concat (map (\<lambda>r. if rp_match r \<in> set matched then []
                                     else case value_of te cfg r of Some v \<Rightarrow> [v] | None \<Rightarrow> []) rs)
      in str_join newline (map fst done_lines @ missing) @ newline)"

section \<open>Updating the files\<close>

definition process_content ::
  "text_env \<Rightarrow> ServerConfiguration \<Rightarrow> ServerConfigurationFile \<Rightarrow> string \<Rightarrow> string" where
  "process_content te cfg f content =
     (case cf_parser f of
        Properties \<Rightarrow> process_properties_file te cfg (cf_replace f) content
      | JsonFile \<Rightarrow> process_json_file te cfg (cf_replace f) content
      | Yaml \<Rightarrow> process_yaml_file te cfg (cf_replace f) content
      | Ini \<Rightarrow> process_ini_file te cfg (cf_replace f) content
      | Xml \<Rightarrow> process_xml_file te cfg (cf_replace f) content
      | PlainFile \<Rightarrow> process_plain_file te cfg (cf_replace f) content)"

text \<open>The outside: answers may depend on the calls made so far.\<close>

record config_env =
  ge_os :: "fs_call list \<Rightarrow> os"
  ge_read :: "fs_call list \<Rightarrow> path \<Rightarrow> string result"
  ge_write :: "fs_call list \<Rightarrow> path \<Rightarrow> string \<Rightarrow> unit result"
  ge_chown :: "path \<Rightarrow> unit result"
  ge_chown_walk :: "path \<Rightarrow> path list result"

definition config_chown :: "config_env \<Rightarrow> path \<Rightarrow> 'gi Filesystem \<Rightarrow> 'gi Filesystem" where
  "config_chown e p fs =
     snd (chown_path (\<lambda>q. map_sum id fst (os_metadata (ge_os e (fs_calls fs)) (fs_relative_path fs q)))
            (ge_chown e) (ge_chown_walk e p) p fs)"

text \<open>The parent directory: whether the file is processed at all.\<close>

definition ensure_parent :: "config_env \<Rightarrow> path \<Rightarrow> 'gi Filesystem \<Rightarrow> bool \<times> 'gi Filesystem" where
  "ensure_parent e full_path fs =
     (case parent full_path of
        None \<Rightarrow> (True, fs)
      | Some par \<Rightarrow>
          if par = [] then (True, fs)
          else let q = fs_relative_path fs par; os = ge_os e (fs_calls fs) in
            (if isl (os_metadata os q) then
               (case os_create_dir_all os q of
                  Inl _ \<Rightarrow> (False, call (CreateDirAll q) fs)
                | Inr _ \<Rightarrow> (True, config_chown e par (call (CreateDirAll q) fs)))
             else (True, fs)))"

definition existing_content :: "config_env \<Rightarrow> path \<Rightarrow> 'gi Filesystem \<Rightarrow> string" where
  "existing_content e file_path fs =
     (let q = fs_relative_path fs file_path in
      case os_symlink_metadata (ge_os e (fs_calls fs)) q of
        Inr (False, len) \<Rightarrow> (case ge_read e (fs_calls fs) q of Inr c \<Rightarrow> c | Inl _ \<Rightarrow> [])
      | _ \<Rightarrow> [])"

definition update_file ::
  "text_env \<Rightarrow> config_env \<Rightarrow> ServerConfiguration \<Rightarrow> ServerConfigurationFile \<Rightarrow> 'gi Filesystem \<Rightarrow> 'gi Filesystem" where
  "update_file te e cfg f fs =
     (let file_path = components (cf_file f);
          full_path = (case strip_prefix file_path [RootDir] of Some p \<Rightarrow> p | None \<Rightarrow> file_path)
      in case ensure_parent e full_path fs of
           (False, fs) \<Rightarrow> fs
         | (True, fs) \<Rightarrow>
             (let content = process_content te cfg f (existing_content e file_path fs);
                  q = fs_relative_path fs full_path;
                  written = ge_write e (fs_calls fs) q content;
                  fs = call (WriteAll q content) fs
              in if isl written then fs else config_chown e file_path fs))"

definition update_files ::
  "text_env \<Rightarrow> config_env \<Rightarrow> ServerConfiguration \<Rightarrow> ServerConfigurationFile list \<Rightarrow> 'gi Filesystem
     \<Rightarrow> unit result \<times> 'gi Filesystem" where
  "update_files te e cfg configs fs = (Inr (), fold (update_file te e cfg) configs fs)"

section \<open>JSON values\<close>

fun json_at :: "string list \<Rightarrow> json \<Rightarrow> json option" where
  "json_at [] j = Some j"
| "json_at (k # ks) j = (case json_get j k of Some x \<Rightarrow> json_at ks x | None \<Rightarrow> None)"

fun is_object :: "json \<Rightarrow> bool" where
  "is_object (JObject m) = True"
| "is_object _ = False"

lemma update_json_value_object: "ks \<noteq> [] \<Longrightarrow> is_object (update_json_value te ks v j)"
  by (induction te ks v j rule: update_json_value.induct) (auto split: json.split)

lemma update_json_value_Cons:
  "ks \<noteq> [] \<Longrightarrow> update_json_value te (k # ks) v j =
     (case j of
        JObject m \<Rightarrow> JObject (obj_insert k (update_json_value te ks v
                     (case map_of m k of Some entry \<Rightarrow> entry | None \<Rightarrow> JObject [])) m)
      | _ \<Rightarrow> JObject [(k, update_json_value te ks v (JObject []))])"
  by (cases ks) (simp_all split: json.split)

lemma json_at_empty: "json_at ks (JObject []) = (if ks = [] then Some (JObject []) else None)"
  by (cases ks) simp_all

lemma json_at_update:
  "ks \<noteq> [] \<Longrightarrow> json_at ks (update_json_value te ks v j) =
     Some (case json_at (butlast ks) j of
             Some x \<Rightarrow> if is_object x then scalar_value te v else JString v
           | None \<Rightarrow> scalar_value te v)"
proof (induction ks arbitrary: j)
  case (Cons k ks)
  show ?case
  proof (cases "ks = []")
    case True
    then show ?thesis by (cases j) simp_all
  next
    case False
    then show ?thesis
      using Cons.IH by (cases j) (auto simp: update_json_value_Cons json_at_empty split: option.split)
  qed
qed simp

lemma json_at_update_other:
  "a \<noteq> b \<Longrightarrow> json_at (pre @ a # qs) (update_json_value te (pre @ b # ks) v j) = json_at (pre @ a # qs) j"
proof (induction pre arbitrary: j)
  case Nil
  then show ?case by (cases ks) (auto split: json.split)
next
  case (Cons k pre)
  have "json_at (pre @ a # qs) (JObject []) = None" by (cases pre) auto
  then show ?case
    using Cons by (cases j) (auto simp: update_json_value_Cons split: option.splits)
qed

text \<open>
  Setting a value in a JSON configuration: reading the path back gives the value, as a
  boolean, number or string, except that it is stored as a string when it replaces
  something that is no object; every path that branches off keeps its value.
\<close>

theorem json_update_spec:
  assumes "ks \<noteq> []"
  shows "json_at ks (update_json_value te ks v j) =
      Some (case json_at (butlast ks) j of
              Some x \<Rightarrow> if is_object x then scalar_value te v else JString v
            | None \<Rightarrow> scalar_value te v) \<and>
    (\<forall>pre a b qs ks'. ks = pre @ b # ks' \<longrightarrow> a \<noteq> b \<longrightarrow>
      json_at (pre @ a # qs) (update_json_value te ks v j) = json_at (pre @ a # qs) j)"
  using json_at_update [OF assms] json_at_update_other by auto

definition sample_text_env :: text_env where
  "sample_text_env = \<lparr>te_parse = \<lambda>_. None, te_pretty = \<lambda>_. Inr [], te_show = \<lambda>_. [], te_float = \<lambda>_. None\<rparr>"

theorem json_update_spec_witness:
  "json_at [''a'', ''b''] (update_json_value sample_text_env [''a'', ''b''] ''no'' (JObject [(''a'', JObject [(''c'', JNull)])]))
     = Some (scalar_value sample_text_env ''no'') \<and>
   json_at [''a'', ''c''] (update_json_value sample_text_env [''a'', ''b''] ''no'' (JObject [(''a'', JObject [(''c'', JNull)])]))
     = Some JNull"
proof
  let ?j = "JObject [(''a'', JObject [(''c'', JNull)])]"
  note facts = json_update_spec [of "[''a'', ''b'']" sample_text_env "''no''" ?j]
  from facts show "json_at [''a'', ''b''] (update_json_value sample_text_env [''a'', ''b''] ''no'' ?j)
     = Some (scalar_value sample_text_env ''no'')" by simp
  have "json_at ([''a''] @ ''c'' # []) (update_json_value sample_text_env [''a'', ''b''] ''no'' ?j) = json_at ([''a''] @ ''c'' # []) ?j"
    by (rule facts [THEN conjunct2, rule_format, where ks' = "[]" and b = "''b''"]) simp_all
  then show "json_at [''a'', ''c''] (update_json_value sample_text_env [''a'', ''b''] ''no'' ?j) = Some JNull" by simp
qed

text \<open>
  A YAML file is parsed as JSON. Whatever is not JSON counts as an empty file, so that
  the file written holds the replaced values only and everything else in it is lost.
\<close>

theorem yaml_read_as_json:
  assumes "te_parse te content = None"
  shows "process_yaml_file te cfg rs content = process_yaml_file te cfg rs []"
  using assms by (simp add: process_yaml_file_def parse_or_empty_def trim_def trim_start_def trim_end_def)

theorem yaml_read_as_json_witness:
  "process_yaml_file sample_text_env sample_config [] ''motd: hello'' = process_yaml_file sample_text_env sample_config [] []"
  by (rule yaml_read_as_json) (simp add: sample_text_env_def)

section \<open>Properties files\<close>

text \<open>The lines written, and the value a reader of the file finds for a key.\<close>

definition property_lines ::
  "text_env \<Rightarrow> ServerConfiguration \<Rightarrow> Replacement list \<Rightarrow> string list \<Rightarrow> string list" where
  "property_lines te cfg rs ls =
     (case fold (property_step te cfg rs) ls ([], []) of
        (out, processed) \<Rightarrow> out @ missing_lines te cfg processed rs)"

lemma process_properties_lines:
  "process_properties_file te cfg rs content = str_join newline (property_lines te cfg rs (str_lines content)) @ newline"
  by (simp add: process_properties_file_def property_lines_def case_prod_beta)

definition line_entry :: "string \<Rightarrow> (string \<times> string) option" where
  "line_entry line =
     (if is_comment_line line then None
      else map_option (\<lambda>(k, v). (trim k, v)) (str_split_once CHR ''='' line))"

definition entries_of :: "string list \<Rightarrow> (string \<times> string) list" where
  "entries_of ls = concat (map (\<lambda>l. case line_entry l of Some e \<Rightarrow> [e] | None \<Rightarrow> []) ls)"

text \<open>A replacement whose key can be written to a file and read back.\<close>

definition plain_key :: "string \<Rightarrow> bool" where
  "plain_key k \<longleftrightarrow> k \<noteq> [] \<and> CHR ''='' \<notin> set k \<and> trim k = k \<and> hd k \<noteq> CHR ''#''"

lemma trim_end_split:
  obtains u where "s = trim_end s @ u" and "list_all is_ws u"
proof
  show "s = trim_end s @ rev (takeWhile is_ws (rev s))"
    unfolding trim_end_def by (metis rev_append rev_rev_ident takeWhile_dropWhile_id)
  show "list_all is_ws (rev (takeWhile is_ws (rev s)))"
    by (auto simp: list_all_iff dest: set_takeWhileD)
qed

lemma trim_hd:
  assumes "trim k = k" and "k \<noteq> []"
  shows "\<not> is_ws (hd k)"
proof -
  obtain u where u: "trim_start k = trim k @ u" unfolding trim_def using trim_end_split by blast
  then have "trim_start k \<noteq> []" "hd (trim_start k) = hd k" using assms by auto
  then show ?thesis using hd_dropWhile [of is_ws k] by (simp add: trim_start_def)
qed

lemma line_entry_written:
  assumes "plain_key k"
  shows "line_entry (k @ ''='' @ v) = Some (k, v)"
proof -
  obtain c cs where c: "k = c # cs" using assms by (cases k) (auto simp: plain_key_def)
  have ws: "\<not> is_ws c" "c \<noteq> CHR ''#''" using assms trim_hd [of k] c by (auto simp: plain_key_def)
  then have start: "trim_start (k @ ''='' @ v) = k @ ''='' @ v" using c by (simp add: trim_start_def)
  obtain u where u: "k @ ''='' @ v = trim (k @ ''='' @ v) @ u" "list_all is_ws u"
    using trim_end_split [of "k @ ''='' @ v"] unfolding trim_def start by blast
  have "\<exists>cs'. trim (k @ ''='' @ v) = c # cs'"
  proof (cases "trim (k @ ''='' @ v)")
    case Nil
    then have "u = c # cs @ ''='' @ v" using u(1) c by simp
    then show ?thesis using u(2) ws by simp
  next
    case (Cons x xs)
    then show ?thesis using u(1) c by simp
  qed
  then have "\<not> is_comment_line (k @ ''='' @ v)"
    using ws by (auto simp: is_comment_line_def starts_with_def)
  then show ?thesis
    using assms str_split_once_append [of "CHR ''=''" k v] by (simp add: line_entry_def plain_key_def)
qed

text \<open>The value a key has afterwards: the first replacement that applies decides.\<close>

definition new_value ::
  "text_env \<Rightarrow> ServerConfiguration \<Rightarrow> Replacement list \<Rightarrow> string \<Rightarrow> string \<Rightarrow> string" where
  "new_value te cfg rs k original =
     (case find (\<lambda>r. rp_match r = k \<and> \<not> if_fails r original \<and> value_of te cfg r \<noteq> None) rs of
        Some r \<Rightarrow> the (value_of te cfg r)
      | None \<Rightarrow> original)"

definition added_entries ::
  "text_env \<Rightarrow> ServerConfiguration \<Rightarrow> Replacement list \<Rightarrow> string list \<Rightarrow> (string \<times> string) list" where
  "added_entries te cfg rs keys =
     concat (map (\<lambda>r. if rp_match r \<in> set keys then []
                      else case value_of te cfg r of Some v \<Rightarrow> [(rp_match r, v)] | None \<Rightarrow> []) rs)"

definition rewritten :: "text_env \<Rightarrow> ServerConfiguration \<Rightarrow> Replacement list \<Rightarrow> string \<Rightarrow> string" where
  "rewritten te cfg rs l =
     (case line_entry l of None \<Rightarrow> l | Some (k, original) \<Rightarrow> property_line te cfg rs k original l)"

lemma property_step_rewritten:
  "property_step te cfg rs l (out, processed) = (out @ [rewritten te cfg rs l], processed @ map fst (entries_of [l]))"
  by (auto simp: property_step_def rewritten_def line_entry_def entries_of_def split: option.split)

lemma fold_property_step:
  "fold (property_step te cfg rs) ls (out, processed) =
     (out @ map (rewritten te cfg rs) ls, processed @ map fst (entries_of ls))"
  by (induction ls arbitrary: out processed) (simp_all add: property_step_rewritten entries_of_def)

lemma property_line_entry:
  assumes "line_entry l = Some (k, original)" and "list_all (\<lambda>r. plain_key (rp_match r)) rs"
  shows "line_entry (property_line te cfg rs k original l) = Some (k, new_value te cfg rs k original)"
  using assms(2)
proof (induction rs)
  case Nil
  then show ?case using assms(1) by (simp add: new_value_def)
next
  case (Cons r rs)
  then show ?case
    using line_entry_written [of k] by (auto simp: new_value_def split: option.split)
qed

lemma entries_of_simps [simp]:
  "entries_of [] = []" "entries_of (a @ b) = entries_of a @ entries_of b"
  "entries_of (l # ls) = (case line_entry l of Some e \<Rightarrow> [e] | None \<Rightarrow> []) @ entries_of ls"
  by (simp_all add: entries_of_def)

lemma entries_rewritten:
  assumes "list_all (\<lambda>r. plain_key (rp_match r)) rs"
  shows "entries_of (map (rewritten te cfg rs) ls) = map (\<lambda>(k, v). (k, new_value te cfg rs k v)) (entries_of ls)"
    and "filter (\<lambda>l. line_entry l = None) (map (rewritten te cfg rs) ls) = filter (\<lambda>l. line_entry l = None) ls"
  using property_line_entry [OF _ assms]
  by (induction ls) (auto simp: rewritten_def split: option.split)

lemma missing_lines_Cons:
  "missing_lines te cfg keys (r # rs) =
     (if rp_match r \<in> set keys then [] else case value_of te cfg r of Some v \<Rightarrow> [rp_match r @ ''='' @ v] | None \<Rightarrow> []) @
     missing_lines te cfg keys rs"
  by (simp add: missing_lines_def)

lemma entries_missing:
  assumes "list_all (\<lambda>r. plain_key (rp_match r)) rs"
  shows "entries_of (missing_lines te cfg keys rs) = added_entries te cfg rs keys"
    and "filter (\<lambda>l. line_entry l = None) (missing_lines te cfg keys rs) = []"
  using assms
  by (induction rs) (auto simp: missing_lines_Cons line_entry_written [simplified] added_entries_def missing_lines_def [of _ _ _ "[]"]
      split: option.split)

text \<open>
  C36: A properties file is rewritten entry by entry: every entry keeps its key and its
  place and takes the value of the first replacement that applies to it; replacements
  whose key the file does not have are appended in order; comments, empty lines and
  lines without \<open>=\<close> stay as they are.
\<close>

theorem properties_file_spec:
  assumes "list_all (\<lambda>r. plain_key (rp_match r)) rs"
  shows "entries_of (property_lines te cfg rs ls) =
      map (\<lambda>(k, v). (k, new_value te cfg rs k v)) (entries_of ls) @ added_entries te cfg rs (map fst (entries_of ls)) \<and>
    filter (\<lambda>l. line_entry l = None) (property_lines te cfg rs ls) = filter (\<lambda>l. line_entry l = None) ls"
  using entries_rewritten [OF assms] entries_missing [OF assms]
  by (simp add: property_lines_def fold_property_step)

theorem properties_file_spec_witness:
  "entries_of (property_lines sample_text_env sample_config
      [\<lparr>rp_match = ''port'', rp_if_value = None, rp_replace_with = JString ''1''\<rparr>] [''# c'', ''port=2'']) = [(''port'', ''1'')]"
proof -
  have ws: "\<not> is_ws CHR ''p''" "\<not> is_ws CHR ''t''" "\<not> is_ws CHR ''#''" "\<not> is_ws CHR ''c''" "\<not> is_ws CHR ''2''"
    by (simp_all add: is_ws_def)
  have e: "entries_of [''# c'', ''port=2''] = [(''port'', ''2'')]"
    by (simp add: line_entry_def is_comment_line_def trim_def trim_start_def trim_end_def ws starts_with_def)
  have k: "plain_key ''port''" by (simp add: plain_key_def trim_def trim_start_def trim_end_def ws)
  show ?thesis
    using properties_file_spec [of "[\<lparr>rp_match = ''port'', rp_if_value = None, rp_replace_with = JString ''1''\<rparr>]"
        sample_text_env sample_config "[''# c'', ''port=2'']"] k
    unfolding e by (simp add: new_value_def if_fails_def value_of_def lookup_value_def starts_with_def added_entries_def)
qed

section \<open>INI and XML files\<close>

text \<open>
  A key that the file does not have goes to the end under a header of its section, even
  when the file already has that section: the section then occurs twice.
\<close>

lemma ini_section_repeated:
  assumes "value_of te cfg r = Some v" and "str_split_once CHR ''.'' (rp_match r) = Some (sec, key)"
    and "map_of keys (rp_match r) = None"
  shows "ini_replace te cfg keys r (ls, []) = (ls @ [''['' @ sec @ '']'', key @ ''='' @ v], [sec])"
  using assms by (simp add: ini_replace_def)

text \<open>The first element of a name is given the value; the rest of the file stays.\<close>

lemma xml_replace_first:
  assumes a: "''<'' @ last parts @ ''>'' = a" and z: "''</'' @ last parts @ ''>'' = z" and "parts \<noteq> []"
    and "str_find (pre @ a @ old @ z @ post) a = Some (length pre)"
    and "str_find (old @ z @ post) z = Some (length old)" and "str_contains (pre @ a @ old @ z @ post) z"
  shows "xml_replace v parts (pre @ a @ old @ z @ post) = pre @ a @ v @ z @ post"
proof -
  have "drop (length pre + length a) (pre @ a @ old @ z @ post) = old @ z @ post"
    "take (length pre + length a) (pre @ a @ old @ z @ post) = pre @ a"
    "drop (length pre + length a + length old) (pre @ a @ old @ z @ post) = z @ post" by simp_all
  then show ?thesis
    unfolding xml_replace_def Let_def a z using assms(3-6) by (simp add: str_contains_def)
qed

section \<open>Files that cannot be read\<close>

text \<open>
  A configuration file that exists but cannot be read is not left alone: the file is
  processed as if it were empty and overwritten, so that of its contents only the
  replacements remain.
\<close>

theorem unreadable_file_overwritten:
  assumes "ensure_parent e p fs = (True, fs')" and "strip_prefix (components (cf_file f)) [RootDir] = Some p"
    and "ge_read e (fs_calls fs') (fs_relative_path fs' (components (cf_file f))) = Inl err"
  shows "\<exists>cs. fs_calls (update_file te e cfg f fs) =
    fs_calls fs' @ WriteAll (fs_relative_path fs' p) (process_content te cfg f []) # cs"
proof -
  have empty: "existing_content e (components (cf_file f)) fs' = []"
    using assms(3) by (auto simp: existing_content_def Let_def split: sum.split prod.split bool.split)
  have chowned: "\<exists>cs. fs_calls (config_chown e q x) = fs_calls x @ cs" for q and x :: "'a Filesystem"
  proof -
    have c: "fs_calls (call c y) = fs_calls y @ [c]" for c and y :: "'a Filesystem" by (simp add: call_def)
    have "fs_calls (fold (\<lambda>p. call (ChownPath p)) ps y) = fs_calls y @ map ChownPath ps" for ps and y :: "'a Filesystem"
      by (induction ps arbitrary: y) (simp_all add: c)
    then show ?thesis
      using c by (auto simp: config_chown_def chown_path_def Let_def split: sum.split)
  qed
  show ?thesis
    using chowned [of "components (cf_file f)" "call (WriteAll (fs_relative_path fs' p) (process_content te cfg f [])) fs'"]
    by (auto simp: update_file_def assms empty Let_def call_def)
qed

theorem unreadable_file_overwritten_witness:
  "\<exists>cs. fs_calls (update_file sample_text_env
      \<lparr>ge_os = \<lambda>_. undefined, ge_read = \<lambda>_ _. Inl ''invalid text'', ge_write = \<lambda>_ _ _. Inr (), ge_chown = \<lambda>_. Inr (),
       ge_chown_walk = \<lambda>_. Inr []\<rparr> sample_config \<lparr>cf_file = ''/c'', cf_parser = Ini, cf_replace = []\<rparr>
      (new_filesystem [RootDir, Normal ''srv''] 0 ()))
    = [WriteAll [Normal ''c''] newline] @ cs"
proof -
  let ?e = "\<lparr>ge_os = \<lambda>_. undefined, ge_read = \<lambda>_ _. Inl ''invalid text'', ge_write = \<lambda>_ _ _. Inr (),
    ge_chown = \<lambda>_. Inr (), ge_chown_walk = \<lambda>_. Inr []\<rparr>"
  let ?f = "\<lparr>cf_file = ''/c'', cf_parser = Ini, cf_replace = []\<rparr>"
  let ?fs = "new_filesystem [RootDir, Normal ''srv''] 0 ()"
  have c: "components ''/c'' = [RootDir, Normal ''c'']" by (simp add: components_def component_of_def starts_with_def)
  have p: "process_content sample_text_env sample_config ?f [] = newline"
    by (simp add: process_content_def process_ini_file_def str_lines_def)
  have r: "fs_relative_path ?fs [Normal ''c''] = [Normal ''c'']"
    by (simp add: new_filesystem_def relative_path_def resolve_path_def strip_prefix_def resolve_step_def push_def)
  show ?thesis
    using unreadable_file_overwritten [of ?e "[Normal ''c'']" ?fs ?fs ?f "''invalid text''" sample_text_env sample_config]
    by (simp add: p r c ensure_parent_def parent_def strip_prefix_def) (simp add: new_filesystem_def)
qed

end
