(* ===== verification/Fingerprints.thy ===== *)
theory Fingerprints
  imports Effects
begin

unbundle bit_operations_syntax

text \<open>
  The fingerprints of files in \<open>routes/api/servers/_server_/files/fingerprints.rs\<close>. The
  digests of the crates are a \<open>hasher\<close>; the CurseForge fingerprint is computed by the
  code itself, in two passes over the file, and is shown to be MurmurHash2 of the file
  without its white space.

  A file is the list of the results of reading it into a buffer; the end of the list,
  like an empty read, is the end of the file.
\<close>

section \<open>Digests\<close>

datatype Algorithm = Md5 | Crc32 | Sha1 | Sha224 | Sha256 | Sha384 | Sha512 | Curseforge

record 'h hasher =
  h_new :: 'h
  h_update :: "u8 list \<Rightarrow> 'h \<Rightarrow> 'h"
  h_hex :: "'h \<Rightarrow> string"

fun digest_loop :: "(u8 list \<Rightarrow> 'h \<Rightarrow> 'h) \<Rightarrow> u8 list result list \<Rightarrow> 'h \<Rightarrow> 'h result" where
  "digest_loop upd [] h = Inr h"
| "digest_loop upd (Inl err # rs) h = Inl err"
| "digest_loop upd (Inr chunk # rs) h = (if chunk = [] then Inr h else digest_loop upd rs (upd chunk h))"

definition digest_file :: "'h hasher \<Rightarrow> u8 list result list \<Rightarrow> string result" where
  "digest_file H rs = map_sum id (h_hex H) (digest_loop (h_update H) rs (h_new H))"

section \<open>The CurseForge fingerprint\<close>

abbreviation MULTIPLEX :: u32 where "MULTIPLEX \<equiv> 1540483477"

definition is_ignored_in_curseforge_fingerprint :: "u8 \<Rightarrow> bool" where
  "is_ignored_in_curseforge_fingerprint b \<longleftrightarrow> b = 9 \<or> b = 10 \<or> b = 13 \<or> b = 32"

definition count_byte :: "u8 \<Rightarrow> u32 \<Rightarrow> u32" where
  "count_byte b n = (if is_ignored_in_curseforge_fingerprint b then n else n + 1)"

text \<open>\<open>num2\<close>, \<open>num3\<close> and \<open>num4\<close>.\<close>

record curse =
  num2 :: u32
  num3 :: u32
  num4 :: u32

definition curse_byte :: "u8 \<Rightarrow> curse \<Rightarrow> curse" where
  "curse_byte b c =
     (if is_ignored_in_curseforge_fingerprint b then c
      else let n3 = num3 c OR push_bit (unat (num4 c)) (ucast b); n4 = num4 c + 8 in
           if n4 = 32 then
             let num6 = n3 * MULTIPLEX; num7 = (num6 XOR drop_bit 24 num6) * MULTIPLEX
             in \<lparr>num2 = (num2 c * MULTIPLEX) XOR num7, num3 = 0, num4 = 0\<rparr>
           else \<lparr>num2 = num2 c, num3 = n3, num4 = n4\<rparr>)"

definition curse_finish :: "curse \<Rightarrow> u32" where
  "curse_finish c =
     (let n2 = (if 0 < num4 c then (num2 c XOR num3 c) * MULTIPLEX else num2 c);
          num6 = (n2 XOR drop_bit 13 n2) * MULTIPLEX
      in num6 XOR drop_bit 15 num6)"

text \<open>The file is read twice, with a \<open>seek\<close> to its start in between.\<close>

definition curseforge_file ::
  "u8 list result list \<Rightarrow> unit result \<Rightarrow> u8 list result list \<Rightarrow> string result" where
  "curseforge_file first_pass seek second_pass =
     (case digest_loop (fold count_byte) first_pass 0 of
        Inl err \<Rightarrow> Inl err
      | Inr normalized_length \<Rightarrow>
     (case seek of
        Inl err \<Rightarrow> Inl err
      | Inr _ \<Rightarrow>
     (case digest_loop (fold curse_byte) second_pass \<lparr>num2 = 1 XOR normalized_length, num3 = 0, num4 = 0\<rparr> of
        Inl err \<Rightarrow> Inl err
      | Inr c \<Rightarrow> Inr (nat_to_string (unat (curse_finish c))))))"

definition fingerprint_file ::
  "(Algorithm \<Rightarrow> 'h hasher) \<Rightarrow> Algorithm \<Rightarrow> u8 list result list \<Rightarrow> unit result \<Rightarrow> u8 list result list
     \<Rightarrow> string result" where
  "fingerprint_file hashers alg first_pass seek second_pass =
     (case alg of
        Curseforge \<Rightarrow> curseforge_file first_pass seek second_pass
      | _ \<Rightarrow> digest_file (hashers alg) first_pass)"

section \<open>MurmurHash2\<close>

text \<open>The published function for 32 bits, over the bytes of a buffer, little endian.\<close>

fun le32 :: "u8 \<Rightarrow> u8 \<Rightarrow> u8 \<Rightarrow> u8 \<Rightarrow> u32" where
  "le32 a b c d = ucast a OR push_bit 8 (ucast b) OR push_bit 16 (ucast c) OR push_bit 24 (ucast d)"

definition murmur_word :: "u32 \<Rightarrow> u32" where
  "murmur_word k = (let k = k * 1540483477; k = k XOR drop_bit 24 k in k * 1540483477)"

fun murmur_body :: "u32 \<Rightarrow> u8 list \<Rightarrow> u32" where
  "murmur_body h (a # b # c # d # rest) = murmur_body ((h * 1540483477) XOR murmur_word (le32 a b c d)) rest"
| "murmur_body h [a, b, c] = (h XOR push_bit 16 (ucast c) XOR push_bit 8 (ucast b) XOR ucast a) * 1540483477"
| "murmur_body h [a, b] = (h XOR push_bit 8 (ucast b) XOR ucast a) * 1540483477"
| "murmur_body h [a] = (h XOR ucast a) * 1540483477"
| "murmur_body h [] = h"

definition murmur2 :: "u32 \<Rightarrow> u8 list \<Rightarrow> u32" where
  "murmur2 seed bytes =
     (let h = murmur_body (seed XOR of_nat (length bytes)) bytes;
          h = h XOR drop_bit 13 h; h = h * 1540483477
      in h XOR drop_bit 15 h)"

section \<open>Reading in pieces\<close>

text \<open>An update that does not see the borders of the pieces sees the whole file.\<close>

lemma digest_loop_pieces:
  assumes "\<And>xs ys h. upd (xs @ ys) h = upd ys (upd xs h)" and "\<And>h. upd [] h = h"
    and "list_all (\<lambda>c. c \<noteq> []) cs"
  shows "digest_loop upd (map Inr cs) h = Inr (upd (concat cs) h)"
  using assms(3) by (induction cs arbitrary: h) (simp_all add: assms(1,2))

lemma digest_loop_fold:
  "list_all (\<lambda>c. c \<noteq> []) cs \<Longrightarrow> digest_loop (fold f) (map Inr cs) h = Inr (fold f (concat cs) h)"
  by (rule digest_loop_pieces) simp_all

abbreviation counted :: "u8 \<Rightarrow> bool" where "counted b \<equiv> \<not> is_ignored_in_curseforge_fingerprint b"

lemma count_byte_length: "fold count_byte bs n = n + of_nat (length (filter counted bs))"
  by (induction bs arbitrary: n) (simp_all add: count_byte_def)

lemma curse_byte_filter: "fold curse_byte bs c = fold curse_byte (filter counted bs) c"
  by (induction bs arbitrary: c) (simp_all add: curse_byte_def)

text \<open>Bytes at different places do not overlap, so that \<open>|\<close> and \<open>^\<close> agree on them.\<close>

lemma or_xor_bytes:
  "(ucast (a :: u8) :: u32) OR push_bit 8 (ucast (b :: u8)) = ucast a XOR push_bit 8 (ucast b)"
  "(ucast (a :: u8) XOR push_bit 8 (ucast (b :: u8)) :: u32) OR push_bit 16 (ucast (c :: u8))
     = (ucast a XOR push_bit 8 (ucast b)) XOR push_bit 16 (ucast c)"
  by (rule bit_word_eqI; auto simp: bit_simps dest: bit_imp_le_length; fail)+

text \<open>One byte at each of the four places of a word.\<close>

lemma curse_byte_at:
  assumes "counted b"
  shows "curse_byte b \<lparr>num2 = h, num3 = k, num4 = 0\<rparr> = \<lparr>num2 = h, num3 = k OR ucast b, num4 = 8\<rparr>"
    and "curse_byte b \<lparr>num2 = h, num3 = k, num4 = 8\<rparr> = \<lparr>num2 = h, num3 = k OR push_bit 8 (ucast b), num4 = 16\<rparr>"
    and "curse_byte b \<lparr>num2 = h, num3 = k, num4 = 16\<rparr> = \<lparr>num2 = h, num3 = k OR push_bit 16 (ucast b), num4 = 24\<rparr>"
    and "curse_byte b \<lparr>num2 = h, num3 = k, num4 = 24\<rparr>
      = \<lparr>num2 = (h * MULTIPLEX) XOR murmur_word (k OR push_bit 24 (ucast b)), num3 = 0, num4 = 0\<rparr>"
  using assms by (simp_all add: curse_byte_def murmur_word_def Let_def)

lemma curse_finish_at:
  "n \<in> {8, 16, 24} \<Longrightarrow> curse_finish \<lparr>num2 = h, num3 = k, num4 = n\<rparr>
     = (let h = (h XOR k) * MULTIPLEX; h = h XOR drop_bit 13 h; h = h * MULTIPLEX in h XOR drop_bit 15 h)"
  by (auto simp: curse_finish_def Let_def word_less_nat_alt)

lemma curse_word:
  assumes "list_all counted [a, b, c, d]"
  shows "fold curse_byte [a, b, c, d] \<lparr>num2 = h, num3 = 0, num4 = 0\<rparr>
     = \<lparr>num2 = (h * 1540483477) XOR murmur_word (le32 a b c d), num3 = 0, num4 = 0\<rparr>"
  using assms by (simp add: curse_byte_at ac_simps)

lemma curse_body:
  "list_all counted bs \<Longrightarrow>
     curse_finish (fold curse_byte bs \<lparr>num2 = h, num3 = 0, num4 = 0\<rparr>)
       = (let h = murmur_body h bs; h = h XOR drop_bit 13 h; h = h * 1540483477 in h XOR drop_bit 15 h)"
proof (induction h bs rule: murmur_body.induct)
  case (1 h a b c d rest)
  then have "fold curse_byte (a # b # c # d # rest) \<lparr>num2 = h, num3 = 0, num4 = 0\<rparr>
      = fold curse_byte rest \<lparr>num2 = (h * 1540483477) XOR murmur_word (le32 a b c d), num3 = 0, num4 = 0\<rparr>"
    using curse_word [of a b c d h] by simp
  with 1 show ?case by simp
next
  case (2 h a b c)
  have "murmur_body h [a, b, c] = (h XOR ((ucast a XOR push_bit 8 (ucast b)) XOR push_bit 16 (ucast c))) * MULTIPLEX"
    by (simp add: ac_simps)
  with 2 show ?case by (simp add: curse_byte_at curse_finish_at or_xor_bytes Let_def)
next
  case (3 h a b)
  then show ?case by (simp add: curse_byte_at curse_finish_at or_xor_bytes Let_def ac_simps)
next
  case (4 h a)
  then show ?case by (simp add: curse_byte_at curse_finish_at Let_def)
next
  case (5 h)
  then show ?case by (simp add: curse_finish_def Let_def)
qed

section \<open>Properties\<close>

text \<open>
  C26: However the file is cut into pieces in the two passes, its CurseForge fingerprint
  is MurmurHash2 with seed 1 of its bytes other than tab, line feed, carriage return and
  space, printed in decimal.
\<close>

theorem curseforge_is_murmur2:
  assumes "list_all (\<lambda>c. c \<noteq> []) (first @ second)" and "concat second = concat first"
  shows "curseforge_file (map Inr first) (Inr ()) (map Inr second)
     = Inr (nat_to_string (unat (murmur2 1 (filter counted (concat first)))))"
proof -
  have all: "list_all counted (filter counted (concat first))" by (simp add: list_all_iff)
  show ?thesis
    using assms curse_body [OF all]
    by (simp add: curseforge_file_def digest_loop_fold count_byte_length curse_byte_filter [of "concat first"]
        murmur2_def)
qed

theorem curseforge_is_murmur2_witness:
  "curseforge_file (map Inr [[97, 32], [98, 99, 10, 100, 101]]) (Inr ()) (map Inr [[97, 32, 98, 99, 10, 100, 101]])
     = Inr (nat_to_string (unat (murmur2 1 (filter counted [97, 32, 98, 99, 10, 100, 101]))))"
  using curseforge_is_murmur2 [of "[[97, 32], [98, 99, 10, 100, 101]]" "[[97, 32, 98, 99, 10, 100, 101]]"]
  by simp

text \<open>A digest of a file does not depend on how the file is read, and a failed read is reported.\<close>

lemma digest_file_pieces:
  assumes "\<And>xs ys h. h_update H (xs @ ys) h = h_update H ys (h_update H xs h)" and "\<And>h. h_update H [] h = h"
    and "list_all (\<lambda>c. c \<noteq> []) cs"
  shows "digest_file H (map Inr cs) = Inr (h_hex H (h_update H (concat cs) (h_new H)))"
  using assms by (simp add: digest_file_def digest_loop_pieces [of "h_update H"])

end
