(* ===== verification/Utf8.thy ===== *)
theory Utf8
  imports Cyro_Prelude
begin

text \<open>
  UTF-8: the check of \<open>str::from_utf8\<close>, the check of \<open>lib.rs\<close> for the first bytes of a
  text, and \<open>String::from_utf8_lossy\<close>. A byte string is a \<open>string\<close>.
\<close>

section \<open>UTF-8\<close>

text \<open>\<open>str::from_utf8\<close> over bytes: the well-formed sequences of the standard.\<close>

definition byte_in :: "nat \<Rightarrow> nat \<Rightarrow> char \<Rightarrow> bool" where
  "byte_in a b c \<longleftrightarrow> a \<le> (of_char c :: nat) \<and> (of_char c :: nat) \<le> b"

text \<open>The ranges of the bytes after the first one.\<close>

definition utf8_tail :: "char \<Rightarrow> (nat \<times> nat) list option" where
  "utf8_tail c =
     (if byte_in 0 127 c then Some []
      else if byte_in 194 223 c then Some [(128, 191)]
      else if byte_in 224 224 c then Some [(160, 191), (128, 191)]
      else if byte_in 237 237 c then Some [(128, 159), (128, 191)]
      else if byte_in 225 239 c then Some [(128, 191), (128, 191)]
      else if byte_in 240 240 c then Some [(144, 191), (128, 191), (128, 191)]
      else if byte_in 241 243 c then Some [(128, 191), (128, 191), (128, 191)]
      else if byte_in 244 244 c then Some [(128, 143), (128, 191), (128, 191)]
      else None)"

text \<open>\<open>pending\<close>: the ranges the bytes that follow must be in.\<close>

fun utf8_run :: "(nat \<times> nat) list \<Rightarrow> string \<Rightarrow> bool" where
  "utf8_run pending [] \<longleftrightarrow> pending = []"
| "utf8_run ((a, b) # pending) (c # s) \<longleftrightarrow> byte_in a b c \<and> utf8_run pending s"
| "utf8_run [] (c # s) \<longleftrightarrow> (case utf8_tail c of None \<Rightarrow> False | Some p \<Rightarrow> utf8_run p s)"

definition valid_utf8 :: "string \<Rightarrow> bool" where
  "valid_utf8 s = utf8_run [] s"

fun valid_prefix :: "nat \<Rightarrow> nat \<Rightarrow> string \<Rightarrow> bool" where
  "valid_prefix 0 low s = False"
| "valid_prefix (Suc idx) low s =
     (low < Suc idx \<and> (valid_utf8 (take (Suc idx) s) \<or> valid_prefix idx low s))"

definition is_valid_utf8_slice :: "string \<Rightarrow> bool" where
  "is_valid_utf8_slice s = valid_prefix (length s) (length s - 4) s"

section \<open>Lossy text\<close>

text \<open>\<open>String::from_utf8_lossy\<close>: each ill-formed part becomes U+FFFD.\<close>

abbreviation replacement :: string where "replacement \<equiv> [CHR 0xEF, CHR 0xBF, CHR 0xBD]"

fun utf8_seq :: "(nat \<times> nat) list \<Rightarrow> string \<Rightarrow> string \<times> bool \<times> string" where
  "utf8_seq [] s = ([], True, s)"
| "utf8_seq (r # pending) [] = ([], False, [])"
| "utf8_seq ((a, b) # pending) (c # s) =
     (if byte_in a b c then (case utf8_seq pending s of (m, ok, rest) \<Rightarrow> (c # m, ok, rest))
      else ([], False, c # s))"

lemma utf8_seq_shorter: "utf8_seq pending s = (m, ok, rest) \<Longrightarrow> length rest \<le> length s"
  by (induction pending s arbitrary: m ok rest rule: utf8_seq.induct) (fastforce split: if_splits prod.splits)+

function from_utf8_lossy :: "string \<Rightarrow> string" where
  "from_utf8_lossy [] = []"
| "from_utf8_lossy (c # s) =
     (case utf8_tail c of
        None \<Rightarrow> replacement @ from_utf8_lossy s
      | Some pending \<Rightarrow>
          (case utf8_seq pending s of
             (m, ok, rest) \<Rightarrow> (if ok then c # m else replacement) @ from_utf8_lossy rest))"
  by pat_completeness auto
termination
  by (relation "measure length") (auto dest!: utf8_seq_shorter [OF sym])

lemma utf8_seq_run:
  "utf8_run pending s \<Longrightarrow> \<exists>m rest. utf8_seq pending s = (m, True, rest) \<and> s = m @ rest \<and> utf8_run [] rest"
proof (induction pending s rule: utf8_seq.induct)
  case (3 a b pending c s)
  then obtain m rest where "utf8_seq pending s = (m, True, rest)" "s = m @ rest" "utf8_run [] rest" by auto
  then show ?case using 3(2) by simp
qed auto

lemma lossy_valid: "valid_utf8 s \<Longrightarrow> from_utf8_lossy s = s"
proof (induction s rule: from_utf8_lossy.induct)
  case (2 c s)
  then obtain pending where p: "utf8_tail c = Some pending" "utf8_run pending s"
    by (auto simp: valid_utf8_def split: option.splits)
  obtain m rest where "utf8_seq pending s = (m, True, rest)" "s = m @ rest" "utf8_run [] rest"
    using utf8_seq_run [OF p(2)] by blast
  then show ?case using 2(2) p by (simp add: valid_utf8_def)
qed simp

section \<open>Text that was cut\<close>

lemma valid_prefix_mono:
  "valid_utf8 (take n s) \<Longrightarrow> 0 < n \<Longrightarrow> low < n \<Longrightarrow> n \<le> idx \<Longrightarrow> valid_prefix idx low s"
  by (induction idx low s rule: valid_prefix.induct) (auto simp: le_Suc_eq)

lemma utf8_tail_short: "utf8_tail c = Some p \<Longrightarrow> length p \<le> 3"
  by (auto simp: utf8_tail_def split: if_splits)

text \<open>
  A run that is cut off either ends between characters or inside one, at most three
  bytes after its start.
\<close>

lemma utf8_cut:
  "utf8_run pending (a @ b) \<Longrightarrow> length pending \<le> 3 \<Longrightarrow>
     length a < length pending \<or> (\<exists>n. n \<le> length a \<and> length a \<le> n + 3 \<and> utf8_run pending (take n a))"
proof (induction pending a rule: utf8_run.induct)
  case (1 pending)
  then show ?case by (cases pending) auto
next
  case (2 x y pending c s)
  then have "utf8_run pending (s @ b)" "length pending \<le> 3" and c: "byte_in x y c" by auto
  from 2(1) [OF this(1,2)] show ?case
  proof
    assume "\<exists>n\<le>length s. length s \<le> n + 3 \<and> utf8_run pending (take n s)"
    then obtain n where "n \<le> length s" "length s \<le> n + 3" "utf8_run pending (take n s)" by blast
    then show ?case using c by (intro disjI2 exI [of _ "Suc n"]) simp
  qed simp
next
  case (3 c s)
  then obtain p where p: "utf8_tail c = Some p" "utf8_run p (s @ b)" by (auto split: option.splits)
  from 3(1) [OF p(1) p(2) utf8_tail_short [OF p(1)]] show ?case
  proof
    assume "length s < length p"
    then show ?case using utf8_tail_short [OF p(1)] by (intro disjI2 exI [of _ 0]) simp
  next
    assume "\<exists>n\<le>length s. length s \<le> n + 3 \<and> utf8_run p (take n s)"
    then obtain n where "n \<le> length s" "length s \<le> n + 3" "utf8_run p (take n s)" by blast
    then show ?case using p(1) by (intro disjI2 exI [of _ "Suc n"]) simp
  qed
qed

text \<open>
  The UTF-8 check recognises the first bytes of valid text wherever the text was cut
  off, from four bytes on.
\<close>

theorem cut_text_is_valid:
  assumes "valid_utf8 (a @ b)" and "4 \<le> length a"
  shows "is_valid_utf8_slice a"
proof -
  obtain n where n: "n \<le> length a" "length a \<le> n + 3" and valid: "valid_utf8 (take n a)"
    using utf8_cut [of "[]" a b] assms(1) by (auto simp: valid_utf8_def)
  from n assms(2) have "0 < n" "length a - 4 < n" by linarith+
  then show ?thesis
    unfolding is_valid_utf8_slice_def using n(1) by (intro valid_prefix_mono [OF valid])
qed

theorem cut_text_is_valid_witness:
  "is_valid_utf8_slice [CHR ''a'', CHR ''b'', CHR 0xE2, CHR 0x82] \<and>
   \<not> is_valid_utf8_slice [CHR ''a'', CHR 0xFF, CHR ''b'', CHR ''c'', CHR ''d'', CHR ''e'', CHR ''f'']"
proof
  have "valid_utf8 ([CHR ''a'', CHR ''b'', CHR 0xE2, CHR 0x82] @ [CHR 0xAC])" by code_simp
  then show "is_valid_utf8_slice [CHR ''a'', CHR ''b'', CHR 0xE2, CHR 0x82]"
    by (rule cut_text_is_valid) simp
  show "\<not> is_valid_utf8_slice [CHR ''a'', CHR 0xFF, CHR ''b'', CHR ''c'', CHR ''d'', CHR ''e'', CHR ''f'']"
    by code_simp
qed

end
