(* ===== verification/Http_Files.thy ===== *)
theory Http_Files
  imports File_Access Fingerprints Json Utf8
begin

unbundle bit_operations_syntax

text \<open>
  What the HTTP routes on files share: the environment of a route, its errors, and the
  directory entries of \<open>Filesystem::to_api_entry\<close> (\<open>server/filesystem/mod.rs\<close>).
\<close>

section \<open>Routes\<close>

text \<open>An \<open>ApiResponse::error\<close> with its status; \<open>?\<close> on an error is an internal one.\<close>

datatype status =
    BAD_REQUEST | UNAUTHORIZED | NOT_FOUND | EXPECTATION_FAILED | PAYLOAD_TOO_LARGE

datatype http_error = Refused status string | Internal

record DirectoryEntry =
  de_name :: string
  de_created :: int
  de_modified :: int
  de_mode :: string
  de_mode_bits :: string
  de_size :: u64
  de_directory :: bool
  de_file :: bool
  de_symlink :: bool
  de_mime :: string

text \<open>
  \<open>he_open_read\<close>: the first bytes of an open file; \<open>he_infer\<close> and \<open>he_guess\<close>: the MIME
  crates; \<open>he_timestamp\<close>: \<open>chrono::DateTime::from_timestamp\<close>; \<open>he_io\<close>: the result of a
  write to an open file after earlier ones; \<open>he_whitelisted\<close>: the \<open>ignore::overrides\<close>
  built from patterns; \<open>he_backup_fs\<close>: the parameters of \<open>backup_fs\<close>;
  \<open>he_backup_dir\<close>, \<open>he_backup_file\<close>: the readers of a mounted backup;
  \<open>he_archive\<close>: the archive layer that opens a file for reading.
\<close>

record 'gi http_env = "'gi file_env" +
  he_open_read :: "nat \<Rightarrow> nat \<Rightarrow> string result"
  he_infer :: "string \<Rightarrow> string option"
  he_guess :: "path \<Rightarrow> string option"
  he_timestamp :: "int \<Rightarrow> int option"
  he_now :: string
  he_disable_directory_size :: bool
  he_directory_entry_limit :: u64
  he_io :: "io_op list \<Rightarrow> io_op \<Rightarrow> unit result"
  he_whitelisted :: "string list \<Rightarrow> path \<Rightarrow> bool \<Rightarrow> bool"
  he_backup_fs :: "path \<Rightarrow> 'gi Filesystem \<Rightarrow> (nat \<times> path) option"
  he_backup_dir :: "nat \<Rightarrow> path \<Rightarrow> u64 option \<Rightarrow> u64 \<Rightarrow> (path \<Rightarrow> bool \<Rightarrow> bool)
     \<Rightarrow> (u64 \<times> DirectoryEntry list) result"
  he_backup_file :: "nat \<Rightarrow> path \<Rightarrow> u64 result"
  he_archive :: "path \<Rightarrow> (u64 option \<times> bool) option"
  he_header_ok :: "string \<Rightarrow> bool"
  he_reads :: "nat \<Rightarrow> u8 list result list"
  he_seek :: "nat \<Rightarrow> unit result"
  he_reads_again :: "nat \<Rightarrow> u8 list result list"
  he_texts :: "nat \<Rightarrow> string result list"
  he_walk :: "path \<Rightarrow> (bool \<times> path) list result"

type_synonym ('gi, 's, 'a) route =
  "(('gi, 's) file_state_scheme, http_error, 'a) handler"

definition refuse :: "status \<Rightarrow> string \<Rightarrow> ('gi, 's, 'a) route" where
  "refuse c msg = fail (Refused c msg)"

definition route_ignored ::
  "'gi http_env \<Rightarrow> path \<Rightarrow> bool \<Rightarrow> ('gi, 's) file_state_scheme \<Rightarrow> bool" where
  "route_ignored e p is_dir st = is_ignored (fe_ignores e) p is_dir (sf_fs st)"

text \<open>\<open>match async_canonicalize(raw) { Ok(path) => path, Err(_) => PathBuf::from(raw) }\<close>\<close>

definition canonical_or_raw ::
  "'gi http_env \<Rightarrow> string \<Rightarrow> ('gi, 's) file_state_scheme \<Rightarrow> path \<times> ('gi, 's) file_state_scheme" where
  "canonical_or_raw e raw st =
     (case file_canonicalize e (components raw) st of
        (Inr p, st) \<Rightarrow> (p, st) | (Inl err, st) \<Rightarrow> (components raw, st))"

definition file_open ::
  "('gi, 'e) file_env_scheme \<Rightarrow> path \<Rightarrow> ('gi, 's) file_state_scheme \<Rightarrow> nat result \<times> ('gi, 's) file_state_scheme" where
  "file_open e p = with_cap e (\<lambda>run self. apfst (typed the_file) (cap_open run p self))"

definition file_read_dir ::
  "('gi, 'e) file_env_scheme \<Rightarrow> path \<Rightarrow> ('gi, 's) file_state_scheme
     \<Rightarrow> (string + bool \<times> string) list result \<times> ('gi, 's) file_state_scheme" where
  "file_read_dir e p = with_cap e (\<lambda>run self. apfst (typed the_entries) (cap_read_dir run p self))"

definition file_read_link ::
  "('gi, 'e) file_env_scheme \<Rightarrow> path \<Rightarrow> ('gi, 's) file_state_scheme \<Rightarrow> path result \<times> ('gi, 's) file_state_scheme" where
  "file_read_link e p = with_cap e (\<lambda>run self. apfst (typed the_path) (cap_read_link run p self))"

definition do_io ::
  "'gi http_env \<Rightarrow> io_op \<Rightarrow> ('gi, 's) file_state_scheme \<Rightarrow> unit result \<times> ('gi, 's) file_state_scheme" where
  "do_io e op st = (he_io e (sf_io st) op, st\<lparr>sf_io := sf_io st @ [op]\<rparr>)"

section \<open>Directory entries\<close>

fun rwx_bits :: "u32 \<Rightarrow> nat \<Rightarrow> string \<Rightarrow> string" where
  "rwx_bits mode i [] = []"
| "rwx_bits mode i (c # cs) = (if bit mode (8 - i) then c else CHR ''-'') # rwx_bits mode (Suc i) cs"

definition mode_str :: "u32 \<Rightarrow> string" where
  "mode_str mode =
     (case file_type mode of
        RegularFile \<Rightarrow> CHR ''-'' | Directory \<Rightarrow> CHR ''d'' | Symlink \<Rightarrow> CHR ''l'' | BlockDevice \<Rightarrow> CHR ''b''
      | CharacterDevice \<Rightarrow> CHR ''c'' | Socket \<Rightarrow> CHR ''s'' | Fifo \<Rightarrow> CHR ''p'' | OtherType \<Rightarrow> CHR ''?'')
     # rwx_bits mode 0 ''rwxrwxrwx''"

fun octal_rev :: "nat \<Rightarrow> string" where
  "octal_rev n = char_of (48 + n mod 8) # (if n < 8 then [] else octal_rev (n div 8))"

declare octal_rev.simps [simp del]

definition mime_of :: "'gi http_env \<Rightarrow> Metadata \<Rightarrow> path \<Rightarrow> string option \<Rightarrow> string" where
  "mime_of e real_metadata real_path buffer =
     (if md_is_dir real_metadata then ''inode/directory''
      else if md_is_symlink real_metadata then ''inode/symlink''
      else case buffer of
        None \<Rightarrow> ''application/octet-stream''
      | Some b \<Rightarrow>
          (case he_infer e b of
             Some m \<Rightarrow> m
           | None \<Rightarrow>
               (case he_guess e real_path of
                  Some m \<Rightarrow> m
                | None \<Rightarrow> if is_valid_utf8_slice b \<or> b = [] then ''text/plain'' else ''application/octet-stream'')))"

definition entry_time :: "'gi http_env \<Rightarrow> int option \<Rightarrow> int" where
  "entry_time e t = (case he_timestamp e (case_option 0 (max 0) t) of Some s \<Rightarrow> s | None \<Rightarrow> 0)"

definition to_api_entry_buffer ::
  "'gi http_env \<Rightarrow> path \<Rightarrow> Metadata \<Rightarrow> bool \<Rightarrow> string option \<Rightarrow> path option \<Rightarrow> Metadata option
     \<Rightarrow> ('gi, 's) file_state_scheme \<Rightarrow> DirectoryEntry" where
  "to_api_entry_buffer e path metadata no_directory_size buffer destination destination_metadata st =
     (let real_metadata = (case destination_metadata of Some m \<Rightarrow> m | None \<Rightarrow> metadata);
          real_path = (case destination of Some p \<Rightarrow> p | None \<Rightarrow> path)
      in \<lparr>de_name = (case file_name path of Some n \<Rightarrow> n | None \<Rightarrow> []),
          de_created = entry_time e (md_created metadata),
          de_modified = entry_time e (md_modified metadata),
          de_mode = mode_str (md_mode metadata),
          de_mode_bits = rev (octal_rev (unat (md_mode metadata AND 511))),
          de_size =
            (if md_is_dir real_metadata then
               (if \<not> no_directory_size \<and> \<not> he_disable_directory_size e
                then (case get_size (disk_usage (sf_fs st)) real_path of Some s \<Rightarrow> s | None \<Rightarrow> 0)
                else 0)
             else md_len real_metadata),
          de_directory = md_is_dir real_metadata,
          de_file = md_is_file real_metadata,
          de_symlink = md_is_symlink metadata,
          de_mime = mime_of e real_metadata real_path buffer\<rparr>)"

definition symlink_destination ::
  "'gi http_env \<Rightarrow> path \<Rightarrow> Metadata \<Rightarrow> ('gi, 's) file_state_scheme \<Rightarrow> path option \<times> ('gi, 's) file_state_scheme" where
  "symlink_destination e path metadata st =
     (if md_is_symlink metadata then
        (case file_read_link e path st of
           (Inl err, st) \<Rightarrow> (None, st)
         | (Inr link, st) \<Rightarrow> apfst (case_sum (\<lambda>_. None) Some) (file_canonicalize e link st))
      else (None, st))"

definition destination_metadata ::
  "'gi http_env \<Rightarrow> path option \<Rightarrow> ('gi, 's) file_state_scheme \<Rightarrow> Metadata option \<times> ('gi, 's) file_state_scheme" where
  "destination_metadata e destination st =
     (case destination of
        None \<Rightarrow> (None, st)
      | Some p \<Rightarrow> apfst (case_sum (\<lambda>_. None) Some) (file_symlink_metadata e p st))"

definition entry_buffer ::
  "'gi http_env \<Rightarrow> path \<Rightarrow> Metadata \<Rightarrow> path option \<Rightarrow> Metadata option
     \<Rightarrow> ('gi, 's) file_state_scheme \<Rightarrow> string option \<times> ('gi, 's) file_state_scheme" where
  "entry_buffer e path metadata destination dest_metadata st =
     (if md_is_file metadata \<or> destination \<noteq> None \<and> (case dest_metadata of Some m \<Rightarrow> md_is_file m | None \<Rightarrow> False) then
        (case file_open e (case destination of Some p \<Rightarrow> p | None \<Rightarrow> path) st of
           (Inl err, st) \<Rightarrow> (None, st)
         | (Inr f, st) \<Rightarrow> (Some (case he_open_read e f 64 of Inr b \<Rightarrow> b | Inl err \<Rightarrow> []), st))
      else (None, st))"

definition to_api_entry ::
  "'gi http_env \<Rightarrow> path \<Rightarrow> Metadata \<Rightarrow> ('gi, 's) file_state_scheme \<Rightarrow> DirectoryEntry \<times> ('gi, 's) file_state_scheme" where
  "to_api_entry e path metadata st =
     (case symlink_destination e path metadata st of (destination, st) \<Rightarrow>
      case destination_metadata e destination st of (dest_metadata, st) \<Rightarrow>
      case entry_buffer e path metadata destination dest_metadata st of (buffer, st) \<Rightarrow>
        (to_api_entry_buffer e path metadata False buffer destination dest_metadata st, st))"

end
