(* ===== verification/File_Routes.thy ===== *)
theory File_Routes
  imports Http_Files "HOL-Library.List_Lexorder" "HOL-Library.Char_ord"
begin

text \<open>
  The HTTP routes under \<open>routes/api/servers/_server_/files\<close>: one handler per route on the
  files of a server. A route of many files works on them one by one and counts its
  successes; a file it leaves out is a \<open>fail ()\<close>. Texts of requests are strings, request
  bodies the results of their chunks.
\<close>

section \<open>Parts of routes\<close>

text \<open>\<open>metadata.map(|m| m.is_dir()).unwrap_or(default)\<close>\<close>

definition dir_or ::
  "bool \<Rightarrow> 'gi http_env \<Rightarrow> path \<Rightarrow> ('gi, 's) file_state_scheme \<Rightarrow> bool \<times> ('gi, 's) file_state_scheme" where
  "dir_or b e p st = apfst (case_sum (\<lambda>_. b) md_is_dir) (file_metadata e p st)"

definition symlink_dir_or ::
  "bool \<Rightarrow> 'gi http_env \<Rightarrow> path \<Rightarrow> ('gi, 's) file_state_scheme \<Rightarrow> bool \<times> ('gi, 's) file_state_scheme" where
  "symlink_dir_or b e p st = apfst (case_sum (\<lambda>_. b) md_is_dir) (file_symlink_metadata e p st)"

definition not_ignored :: "'gi http_env \<Rightarrow> path \<Rightarrow> bool \<Rightarrow> 'e \<Rightarrow> (('gi, 's) file_state_scheme, 'e, unit) handler" where
  "not_ignored e p is_dir err = ensure (\<lambda>st. \<not> route_ignored e p is_dir st) err"

definition canonical_root :: "'gi http_env \<Rightarrow> string \<Rightarrow> string \<Rightarrow> ('gi, 's, path) route" where
  "canonical_root e raw msg = attempt (file_canonicalize e (components raw)) (Refused NOT_FOUND msg)"

section \<open>Renaming, deleting and modes\<close>

definition rename_one ::
  "'gi http_env \<Rightarrow> path \<Rightarrow> string \<times> string \<Rightarrow> (('gi, 's) file_state_scheme, unit, unit) handler" where
  "rename_one e dir file =
     (let from = path_join dir (components (fst file)); to = path_join dir (components (snd file)) in
      if from = dir \<or> to = dir \<or> from = to then fail ()
      else and_then (attempt (file_metadata e from) ()) (\<lambda>md.
           guarded [refute (file_metadata e to) (),
                    not_ignored e from (md_is_dir md) (),
                    not_ignored e to (md_is_dir md) (),
                    attempt (on_fs e (\<lambda>os. rename_path os from to)) ()]
             (succeed ())))"

definition rename_route ::
  "'gi http_env \<Rightarrow> string \<Rightarrow> (string \<times> string) list \<Rightarrow> ('gi, 's, nat) route" where
  "rename_route e dir files =
     guarded [ensure_run (dir_or True e (components dir)) (Refused EXPECTATION_FAILED ''root is not a directory'')]
       (perform (count_ok (rename_one e (components dir)) files))"

definition delete_one ::
  "'gi http_env \<Rightarrow> path \<Rightarrow> string \<Rightarrow> (('gi, 's) file_state_scheme, unit, unit) handler" where
  "delete_one e dir file =
     (let destination = path_join dir (components file) in
      if destination = dir then fail ()
      else and_then (perform (symlink_dir_or False e destination)) (\<lambda>is_dir.
           guarded [not_ignored e destination is_dir (),
                    attempt (on_fs e (\<lambda>os. truncate_path os destination)) ()]
             (succeed ())))"

definition delete_route :: "'gi http_env \<Rightarrow> string \<Rightarrow> string list \<Rightarrow> ('gi, 's, nat) route" where
  "delete_route e dir files =
     and_then (canonical_root e dir ''root not found'') (\<lambda>dir.
       guarded [ensure_run (symlink_dir_or False e dir) (Refused EXPECTATION_FAILED ''root is not a directory'')]
         (perform (count_ok (delete_one e dir) files)))"

text \<open>\<open>u32::from_str_radix(s, 8)\<close>\<close>

definition is_octal :: "char \<Rightarrow> bool" where
  "is_octal c \<longleftrightarrow> byte_in 48 55 c"

definition octal_value :: "string \<Rightarrow> nat" where
  "octal_value s = foldl (\<lambda>n c. 8 * n + (of_char c - 48)) 0 s"

definition parse_octal_u32 :: "string \<Rightarrow> u32 option" where
  "parse_octal_u32 s =
     (let ds = (if s \<noteq> [] \<and> hd s = CHR ''+'' then tl s else s) in
      if ds \<noteq> [] \<and> list_all is_octal ds \<and> octal_value ds < 4294967296
      then Some (word_of_nat (octal_value ds)) else None)"

definition chmod_one ::
  "'gi http_env \<Rightarrow> path \<Rightarrow> string \<times> string \<Rightarrow> (('gi, 's) file_state_scheme, unit, unit) handler" where
  "chmod_one e dir file =
     (let source = path_join dir (components (fst file)) in
      if source = dir then fail ()
      else and_then (attempt (file_symlink_metadata e source) ()) (\<lambda>md.
           guarded [not_ignored e source (md_is_dir md) ()]
             (and_then (from_option (parse_octal_u32 (snd file)) ()) (\<lambda>mode.
                attempt (cap_unit e (\<lambda>run. cap_async_set_permissions run source (unat mode))) ()))))"

definition chmod_route ::
  "'gi http_env \<Rightarrow> string \<Rightarrow> (string \<times> string) list \<Rightarrow> ('gi, 's, nat) route" where
  "chmod_route e dir files =
     and_then (canonical_root e dir ''root not found'') (\<lambda>dir.
       guarded [ensure_run (symlink_dir_or True e dir) (Refused EXPECTATION_FAILED ''root is not a directory'')]
         (perform (count_ok (chmod_one e dir) files)))"

section \<open>Creating, writing and copying\<close>

definition create_directory_route :: "'gi http_env \<Rightarrow> string \<Rightarrow> string \<Rightarrow> ('gi, 's, unit) route" where
  "create_directory_route e name raw =
     and_then (perform (canonical_or_raw e raw)) (\<lambda>path.
       let destination = path_join path (components name) in
       guarded [ensure_run (dir_or True e path) (Refused EXPECTATION_FAILED ''path is not a directory''),
                not_ignored e path True (Refused NOT_FOUND ''path not found''),
                not_ignored e destination True (Refused EXPECTATION_FAILED ''destination not found''),
                attempt (cap_unit e (\<lambda>run. cap_create_dir_all run destination)) Internal,
                attempt (file_chown e destination) Internal]
         (succeed ()))"

definition content_size :: "string option \<Rightarrow> i64" where
  "content_size header =
     (case header of
        None \<Rightarrow> 0
      | Some v \<Rightarrow> (case parse_i64 v of Some i \<Rightarrow> word_of_int i | None \<Rightarrow> 0))"

text \<open>\<open>while let Some(Ok(chunk)) = stream.next().await\<close>\<close>

fun write_body :: "'gi http_env \<Rightarrow> nat \<Rightarrow> string result list \<Rightarrow> ('gi, 's, unit) route" where
  "write_body e f [] = succeed ()"
| "write_body e f (Inl err # body) = succeed ()"
| "write_body e f (Inr chunk # body) =
     and_then (attempt (do_io e (IoWrite f chunk)) Internal) (\<lambda>_. write_body e f body)"

definition write_into ::
  "'gi http_env \<Rightarrow> path \<Rightarrow> string result list \<Rightarrow> ('gi, 's, unit) route" where
  "write_into e path body =
     and_then (attempt (with_cap e (\<lambda>run self. apfst (typed the_file) (cap_create run path self))) Internal) (\<lambda>f.
       guarded [write_body e f body,
                attempt (do_io e (IoFlush f)) Internal,
                attempt (do_io e (IoSync f)) Internal,
                attempt (file_chown e path) Internal]
         (succeed ()))"

definition write_route ::
  "'gi http_env \<Rightarrow> string \<Rightarrow> string option \<Rightarrow> string result list \<Rightarrow> ('gi, 's, unit) route" where
  "write_route e name header body =
     and_then (perform (canonical_or_raw e name)) (\<lambda>path.
     and_then (perform (file_metadata e path)) (\<lambda>metadata.
       guarded [not_ignored e path (case_sum (\<lambda>_. False) md_is_dir metadata) (Refused NOT_FOUND ''file not found''),
                ensure (\<lambda>_. case_sum (\<lambda>_. True) md_is_file metadata) (Refused EXPECTATION_FAILED ''file is not a file'')]
         (and_then (from_option (parent path) (Refused EXPECTATION_FAILED ''file has no parent'')) (\<lambda>par.
            guarded [not_ignored e par True (Refused EXPECTATION_FAILED ''parent directory not found''),
                     attempt (cap_unit e (\<lambda>run. cap_create_dir_all run par)) Internal,
                     ensure_run (on_fs e (\<lambda>os. async_allocate_in_path par
                         (content_size header - case_sum (\<lambda>_. 0) md_len metadata) False))
                       (Refused EXPECTATION_FAILED ''failed to allocate space'')]
              (write_into e path body)))))"

text \<open>\<open>Path::file_stem\<close> and \<open>Path::extension\<close>.\<close>

definition split_name :: "string \<Rightarrow> string \<times> string option" where
  "split_name s =
     (case str_rfind s ''.'' of
        None \<Rightarrow> (s, None)
      | Some i \<Rightarrow> if i = 0 then (s, None) else (take i s, Some (drop (Suc i) s)))"

definition copy_parts :: "path \<Rightarrow> string \<times> string" where
  "copy_parts location =
     (let (stem, ext) = (case file_name location of Some n \<Rightarrow> split_name n | None \<Rightarrow> ([], None));
          extension = (case ext of Some x \<Rightarrow> ''.'' @ x | None \<Rightarrow> [])
      in if ends_with stem ''.tar'' then (take (length stem - 4) stem, ''.tar'' @ extension)
         else (stem, extension))"

definition copy_name :: "string \<times> string \<Rightarrow> nat \<Rightarrow> string" where
  "copy_name parts i =
     fst parts @ (if i = 0 then '' copy'' else '' copy '' @ nat_to_string i) @ snd parts"

text \<open>The loop over \<open>0..51\<close>; after the last name is taken, a name with the time.\<close>

fun free_name ::
  "'gi http_env \<Rightarrow> path \<Rightarrow> string \<times> string \<Rightarrow> nat list \<Rightarrow> ('gi, 's) file_state_scheme
     \<Rightarrow> string \<times> ('gi, 's) file_state_scheme" where
  "free_name e par parts [] st = (fst parts @ ''copy.'' @ he_now e @ snd parts, st)"
| "free_name e par parts (i # is) st =
     (case file_symlink_metadata e (path_join par (components (copy_name parts i))) st of
        (Inl err, st) \<Rightarrow> (copy_name parts i, st)
      | (Inr md, st) \<Rightarrow> free_name e par parts is st)"

definition generate_new_name ::
  "'gi http_env \<Rightarrow> path \<Rightarrow> ('gi, 's) file_state_scheme \<Rightarrow> string \<times> ('gi, 's) file_state_scheme" where
  "generate_new_name e location =
     free_name e (case parent location of Some p \<Rightarrow> p | None \<Rightarrow> []) (copy_parts location) [0..<51]"

definition copy_to ::
  "'gi http_env \<Rightarrow> path \<Rightarrow> Metadata \<Rightarrow> path \<Rightarrow> string \<Rightarrow> ('gi, 's, DirectoryEntry) route" where
  "copy_to e location metadata par new_name =
     (let file_name = path_join par (components new_name) in
      guarded [ensure_run (on_fs e (\<lambda>os. async_allocate_in_path par (md_len metadata) False))
                 (Refused EXPECTATION_FAILED ''failed to allocate space''),
               attempt (cap_unit e (\<lambda>run self. cap_copy run location self file_name self)) Internal]
        (and_then (attempt (file_metadata e file_name) Internal) (\<lambda>md.
           perform (to_api_entry e file_name md))))"

definition copy_route ::
  "'gi http_env \<Rightarrow> string \<Rightarrow> string option \<Rightarrow> ('gi, 's, DirectoryEntry) route" where
  "copy_route e raw name =
     and_then (canonical_root e raw ''file not found'') (\<lambda>location.
     and_then (attempt (file_metadata e location) (Refused NOT_FOUND ''file not found'')) (\<lambda>metadata.
       guarded [ensure (\<lambda>_. md_is_file metadata) (Refused NOT_FOUND ''file not found''),
                not_ignored e location (md_is_dir metadata) (Refused NOT_FOUND ''file not found'')]
         (and_then (from_option (parent location) (Refused EXPECTATION_FAILED ''file has no parent'')) (\<lambda>par.
            guarded [not_ignored e par True (Refused EXPECTATION_FAILED ''parent directory not found'')]
              (and_then (case name of Some n \<Rightarrow> succeed n | None \<Rightarrow> perform (generate_new_name e location))
                 (copy_to e location metadata par))))))"

section \<open>Listing\<close>

text \<open>The names of a listing, directories before the others, up to the first failed entry.\<close>

definition readable :: "(string + bool \<times> string) list \<Rightarrow> (bool \<times> string) list" where
  "readable es = map projr (takeWhile (\<lambda>x. \<not> isl x) es)"

definition listed ::
  "(path \<Rightarrow> bool \<Rightarrow> bool) \<Rightarrow> path \<Rightarrow> (string + bool \<times> string) list \<Rightarrow> string list" where
  "listed hidden dir es =
     (let kept = filter (\<lambda>(is_dir, n). \<not> hidden (path_join dir (components n)) is_dir) (readable es)
      in sort (map snd (filter fst kept)) @ sort (map snd (filter (Not \<circ> fst) kept)))"

definition page_of :: "u64 option \<Rightarrow> u64 \<Rightarrow> 'a list \<Rightarrow> 'a list" where
  "page_of per_page page xs =
     (case per_page of
        None \<Rightarrow> xs
      | Some n \<Rightarrow> take (unat n) (drop (unat ((page - 1) * n)) xs))"

fun api_entries ::
  "'gi http_env \<Rightarrow> path \<Rightarrow> string list \<Rightarrow> ('gi, 's) file_state_scheme
     \<Rightarrow> DirectoryEntry list \<times> ('gi, 's) file_state_scheme" where
  "api_entries e dir [] st = ([], st)"
| "api_entries e dir (n # ns) st =
     (let p = path_join dir (components n) in
      case file_symlink_metadata e p st of
        (Inl err, st) \<Rightarrow> api_entries e dir ns st
      | (Inr md, st) \<Rightarrow>
          (case to_api_entry e p md st of (d, st) \<Rightarrow> apfst (Cons d) (api_entries e dir ns st)))"

text \<open>The patterns of the request's \<open>ignored\<close>, which never hide the dir.\<close>

definition hidden_by :: "'gi http_env \<Rightarrow> string list \<Rightarrow> path \<Rightarrow> bool \<Rightarrow> bool" where
  "hidden_by e patterns p is_dir \<longleftrightarrow>
     p \<noteq> [RootDir] \<and> p \<noteq> [] \<and> patterns \<noteq> [] \<and> he_whitelisted e patterns p is_dir"

definition entries_per_page :: "'gi http_env \<Rightarrow> u64 option \<Rightarrow> u64 option" where
  "entries_per_page e per_page =
     (case per_page of
        Some n \<Rightarrow> Some n
      | None \<Rightarrow> if he_directory_entry_limit e = 0 then None else Some (he_directory_entry_limit e))"

definition list_backup ::
  "'gi http_env \<Rightarrow> nat \<Rightarrow> path \<Rightarrow> path \<Rightarrow> u64 option \<Rightarrow> u64 \<Rightarrow> string list \<Rightarrow> ('gi, 's, u64 \<times> DirectoryEntry list) route" where
  "list_backup e backup rel_path path per_page page patterns =
     guarded [ensure (\<lambda>_. \<not> hidden_by e patterns path True) (Refused EXPECTATION_FAILED ''path not a directory''),
              not_ignored e path True (Refused EXPECTATION_FAILED ''path not a directory'')]
       (case he_backup_dir e backup rel_path per_page page (hidden_by e patterns) of
          Inr r \<Rightarrow> succeed r
        | Inl err \<Rightarrow> refuse EXPECTATION_FAILED ''failed to list backup directory'')"

definition list_files ::
  "'gi http_env \<Rightarrow> path \<Rightarrow> u64 option \<Rightarrow> u64 \<Rightarrow> string list \<Rightarrow> ('gi, 's, u64 \<times> DirectoryEntry list) route" where
  "list_files e path per_page page patterns =
     and_then (attempt (file_metadata e path) (Refused NOT_FOUND ''path not found'')) (\<lambda>md.
       guarded [ensure (\<lambda>st. md_is_dir md \<and> \<not> hidden_by e patterns path True \<and> \<not> route_ignored e path True st)
                  (Refused EXPECTATION_FAILED ''path not a directory'')]
         (and_then (attempt (file_read_dir e path) Internal) (\<lambda>es.
          and_then (inspect (\<lambda>st. listed (\<lambda>p d. hidden_by e patterns p d \<or> route_ignored e p d st) path es)) (\<lambda>names.
          and_then (perform (api_entries e path (page_of per_page page names))) (\<lambda>entries.
            succeed (word_of_nat (length names), entries))))))"

definition list_route ::
  "'gi http_env \<Rightarrow> string \<Rightarrow> string list \<Rightarrow> u64 option \<Rightarrow> u64 option \<Rightarrow> ('gi, 's, u64 \<times> DirectoryEntry list) route" where
  "list_route e directory patterns per_page page =
     and_then (perform (canonical_or_raw e directory)) (\<lambda>path.
     and_then (inspect (\<lambda>st. he_backup_fs e path (sf_fs st))) (\<lambda>mounted.
       let per_page = entries_per_page e per_page; page = (case page of Some n \<Rightarrow> n | None \<Rightarrow> 1) in
       case mounted of
         Some (backup, rel_path) \<Rightarrow> list_backup e backup rel_path path per_page page patterns
       | None \<Rightarrow> list_files e path per_page page patterns))"

text \<open>The older route: the first entries the directory yields, then sorted.\<close>

fun first_entries ::
  "'gi http_env \<Rightarrow> path \<Rightarrow> string list \<Rightarrow> DirectoryEntry list \<Rightarrow> ('gi, 's) file_state_scheme
     \<Rightarrow> DirectoryEntry list \<times> ('gi, 's) file_state_scheme" where
  "first_entries e dir [] acc st = (acc, st)"
| "first_entries e dir (n # ns) acc st =
     (let p = path_join dir (components n) in
      case file_symlink_metadata e p st of
        (Inl err, st) \<Rightarrow> first_entries e dir ns acc st
      | (Inr md, st) \<Rightarrow>
          if route_ignored e p (md_is_dir md) st then first_entries e dir ns acc st
          else (case to_api_entry e p md st of
                  (d, st) \<Rightarrow>
                    if unat (he_directory_entry_limit e) \<le> length (acc @ [d]) then (acc @ [d], st)
                    else first_entries e dir ns (acc @ [d]) st))"

definition sorted_entries :: "DirectoryEntry list \<Rightarrow> DirectoryEntry list" where
  "sorted_entries ds =
     sort_key de_name (filter de_directory ds) @ sort_key de_name (filter (Not \<circ> de_directory) ds)"

definition list_directory_route :: "'gi http_env \<Rightarrow> string \<Rightarrow> ('gi, 's, DirectoryEntry list) route" where
  "list_directory_route e directory =
     and_then (perform (canonical_or_raw e directory)) (\<lambda>path.
     and_then (inspect (\<lambda>st. he_backup_fs e path (sf_fs st))) (\<lambda>mounted.
       case mounted of
         Some (backup, rel_path) \<Rightarrow>
           (case he_backup_dir e backup rel_path (Some (he_directory_entry_limit e)) 1 (\<lambda>_ _. False) of
              Inr (n, ds) \<Rightarrow> succeed (sorted_entries ds)
            | Inl err \<Rightarrow> refuse EXPECTATION_FAILED ''failed to list backup directory'')
       | None \<Rightarrow>
           and_then (attempt (file_metadata e path) (Refused NOT_FOUND ''path not found'')) (\<lambda>md.
             guarded [ensure (\<lambda>st. md_is_dir md \<and> \<not> route_ignored e path True st)
                        (Refused EXPECTATION_FAILED ''path not a directory'')]
               (and_then (attempt (file_read_dir e path) Internal) (\<lambda>es.
                and_then (perform (first_entries e path (map snd (readable es)) [])) (\<lambda>ds.
                  succeed (sorted_entries ds)))))))"

section \<open>Contents and fingerprints\<close>

text \<open>The reply of \<open>contents\<close>: the content length and the name of a download.\<close>

definition contents_reply :: "'gi http_env \<Rightarrow> bool \<Rightarrow> string \<Rightarrow> u64 \<Rightarrow> ('gi, 's, u64 \<times> string option) route" where
  "contents_reply e download name sz =
     (if \<not> download then succeed (sz, None)
      else if he_header_ok e name then succeed (sz, Some name)
      else fail Internal)"

definition within_max :: "u64 option \<Rightarrow> u64 \<Rightarrow> ('gi, 's, unit) route" where
  "within_max max_size sz =
     ensure (\<lambda>_. case max_size of Some m \<Rightarrow> sz \<le> m | None \<Rightarrow> True)
       (Refused PAYLOAD_TOO_LARGE ''file size exceeds maximum allowed size'')"

definition contents_of_file ::
  "'gi http_env \<Rightarrow> path \<Rightarrow> string \<Rightarrow> bool \<Rightarrow> u64 option \<Rightarrow> ('gi, 's, u64 \<times> string option) route" where
  "contents_of_file e path name download max_size =
     and_then (attempt (file_metadata e path) (Refused NOT_FOUND ''file not found'')) (\<lambda>md.
       guarded [ensure (\<lambda>_. md_is_file md) (Refused NOT_FOUND ''file not found''),
                not_ignored e path (md_is_dir md) (Refused NOT_FOUND ''file not found''),
                within_max max_size (md_len md)]
         (and_then (from_option (he_archive e path) (Refused NOT_FOUND ''file not found'')) (\<lambda>(sz, opens).
          and_then (from_option sz (Refused EXPECTATION_FAILED ''unable to retrieve estimated file size'')) (\<lambda>n.
            guarded [ensure (\<lambda>_. opens) (Refused EXPECTATION_FAILED ''unable to open file for reading'')]
              (contents_reply e download name n)))))"

definition contents_route ::
  "'gi http_env \<Rightarrow> string \<Rightarrow> bool \<Rightarrow> u64 option \<Rightarrow> ('gi, 's, u64 \<times> string option) route" where
  "contents_route e raw download max_size =
     and_then (perform (canonical_or_raw e raw)) (\<lambda>path.
     and_then (from_option (file_name path) (Refused NOT_FOUND ''file not found'')) (\<lambda>name.
     and_then (inspect (\<lambda>st. he_backup_fs e path (sf_fs st))) (\<lambda>mounted.
       case mounted of
         Some (backup, rel_path) \<Rightarrow>
           (case he_backup_file e backup rel_path of
              Inr sz \<Rightarrow> guarded [within_max max_size sz] (contents_reply e download name sz)
            | Inl err \<Rightarrow> refuse EXPECTATION_FAILED ''failed to get backup file contents'')
       | None \<Rightarrow> contents_of_file e path name download max_size)))"

text \<open>A file that cannot be opened or read is left out of the reply.\<close>

definition openable ::
  "'gi http_env \<Rightarrow> string \<Rightarrow> (('gi, 's) file_state_scheme, unit, nat) handler" where
  "openable e raw =
     and_then (attempt (file_canonicalize e (components raw)) ()) (\<lambda>path.
     and_then (attempt (file_metadata e path) ()) (\<lambda>md.
       guarded [ensure (\<lambda>_. md_is_file md) (), not_ignored e path (md_is_dir md) ()]
         (attempt (file_open e path) ())))"

fun fingerprint_files ::
  "'gi http_env \<Rightarrow> (Algorithm \<Rightarrow> 'h hasher) \<Rightarrow> Algorithm \<Rightarrow> string list \<Rightarrow> ('gi, 's) file_state_scheme
     \<Rightarrow> (string \<times> string) list \<times> ('gi, 's) file_state_scheme" where
  "fingerprint_files e hashers alg [] st = ([], st)"
| "fingerprint_files e hashers alg (raw # raws) st =
     (case openable e raw st of
        (Inl err, st) \<Rightarrow> fingerprint_files e hashers alg raws st
      | (Inr f, st) \<Rightarrow>
          apfst (\<lambda>rest. case fingerprint_file hashers alg (he_reads e f) (he_seek e f) (he_reads_again e f) of
                           Inr print \<Rightarrow> (raw, print) # rest
                         | Inl err \<Rightarrow> rest)
            (fingerprint_files e hashers alg raws st))"

definition fingerprints_route ::
  "'gi http_env \<Rightarrow> (Algorithm \<Rightarrow> 'h hasher) \<Rightarrow> Algorithm \<Rightarrow> string list \<Rightarrow> ('gi, 's, (string \<times> string) list) route" where
  "fingerprints_route e hashers alg files =
     and_then (perform (fingerprint_files e hashers alg files)) (\<lambda>prints. succeed (fold (\<lambda>(k, v). obj_insert k v) prints []))"

end
