(* ===== verification/File_Routes_Safety.thy ===== *)
theory File_Routes_Safety
  imports File_Routes File_Steps "HOL-Library.Multiset"
begin

text \<open>
  Properties of the HTTP file routes (theory \<open>File_Routes\<close>): the steps they make on the
  files of a server, and what the single routes do.
\<close>

section \<open>The steps of a route\<close>

datatype file_label = Looks | Changes | Accounts | Writes

inductive file_step ::
  "file_label \<Rightarrow> ('gi, 's) file_state_scheme \<Rightarrow> ('gi, 's) file_state_scheme \<Rightarrow> bool" where
  f_look: "list_all (confined (cap_of (sf_fs st))) cs \<Longrightarrow> list_all looks cs \<Longrightarrow>
    file_step Looks st (st\<lparr>sf_calls := sf_calls st @ cs\<rparr>)"
| f_change: "list_all (confined (cap_of (sf_fs st))) cs \<Longrightarrow>
    file_step Changes st (st\<lparr>sf_calls := sf_calls st @ cs\<rparr>)"
| f_account: "accounts (sf_fs st) fs \<Longrightarrow> file_step Accounts st (st\<lparr>sf_fs := fs\<rparr>)"
| f_write: "file_step Writes st (st\<lparr>sf_io := sf_io st @ [x]\<rparr>)"

definition wf_files :: "('gi, 's) file_state_scheme \<Rightarrow> bool" where
  "wf_files st \<longleftrightarrow> fs_base_path (sf_fs st) \<noteq> []"

text \<open>A route is a client of the server's files.\<close>

interpretation routes: file_client file_step Looks Changes Accounts Writes wf_files
  by unfold_locales (auto intro: file_step.intros simp: wf_files_def accounts_def)

abbreviation route_in ::
  "file_label set \<Rightarrow> (('gi, 's) file_state_scheme \<Rightarrow> 'r \<times> ('gi, 's) file_state_scheme) \<Rightarrow> ('r \<Rightarrow> bool) \<Rightarrow> bool" where
  "route_in L m A \<equiv> confines (steps_of file_step L) wf_files m A"

section \<open>The parts of routes\<close>

lemma checks_stay [stays]:
  "confines r I (not_ignored e p d err) (on_ok anything)" "confines r I (within_max n k) (on_ok anything)"
  "confines r I (refuse c msg) (on_ok anything)" "confines r I (contents_reply e b nm k) (on_ok anything)"
  by (simp_all add: not_ignored_def within_max_def refuse_def contents_reply_def confines_pure)

lemma dir_checks_stay [stays]:
  assumes "wf_path p" and "Looks \<in> L"
  shows "route_in L (dir_or b e p) anything" and "route_in L (symlink_dir_or b e p) anything"
  unfolding dir_or_def symlink_dir_or_def
  by (rule confines_apfst, rule routes.lookups_stay, rule assms, rule assms)+

lemma opens_stay [stays]:
  assumes "wf_path p" and "Looks \<in> L"
  shows "route_in L (file_open e p) (on_ok anything)" and "route_in L (file_read_dir e p) (on_ok anything)"
  unfolding file_open_def file_read_dir_def
  by (rule routes.lookups_stay, rule assms, rule assms)+

lemma read_link_stay [stays]:
  "answers_ok e \<Longrightarrow> wf_path p \<Longrightarrow> Looks \<in> L \<Longrightarrow> route_in L (file_read_link e p) (on_ok wf_path)"
  unfolding file_read_link_def by (rule routes.read_link_stays)

lemma canonical_stays [stays]:
  assumes "answers_ok e" and "Looks \<in> L"
  shows "route_in L (canonical_root e raw msg) (on_ok wf_path)"
    and "route_in L (canonical_or_raw e raw) wf_path"
proof -
  show "route_in L (canonical_root e raw msg) (on_ok wf_path)"
    unfolding canonical_root_def by (rule stays | (use assms in simp; fail))+
  have "route_in L (file_canonicalize e (components raw)) (on_ok wf_path)"
    by (rule routes.canonicalize_stays) (use assms in simp_all)
  then show "route_in L (canonical_or_raw e raw) wf_path"
    by (fastforce simp: confines_def canonical_or_raw_def split: prod.split sum.split)
qed

lemma io_stay [stays]: "Writes \<in> L \<Longrightarrow> route_in L (do_io e op) (on_ok anything)"
  by (rule routes.stays_inI) (auto simp: do_io_def steps_of_def wf_files_def on_ok_anything intro: f_write)

lemma write_body_stays [stays]: "Writes \<in> L \<Longrightarrow> route_in L (write_body e f body) (on_ok anything)"
proof (induction e f body rule: write_body.induct)
  case (3 e f chunk body)
  show ?case unfolding write_body.simps by (rule stays 3 | rule 3(2))+
qed (simp_all add: confines_pure)

lemma entry_stays [stays]:
  assumes "answers_ok e" and "wf_path p" and "Looks \<in> L"
  shows "route_in L (to_api_entry e p md) anything"
proof -
  have destination: "route_in L (symlink_destination e p md) (\<lambda>d. case d of None \<Rightarrow> True | Some q \<Rightarrow> wf_path q)"
  proof -
    have "route_in L (\<lambda>st. apfst (case_sum (\<lambda>_. None) Some) (file_canonicalize e q st))
        (\<lambda>d. case d of None \<Rightarrow> True | Some q \<Rightarrow> wf_path q)" if "wf_path q" for q
      using routes.canonicalize_stays [OF assms(1) that assms(3)]
      by (fastforce simp: confines_def split: sum.split)
    then show ?thesis
      unfolding symlink_destination_def
      by (intro confines_if_at confines_seq [OF read_link_stay [OF assms]] confines_case_sum_at)
        (auto simp: confines_def)
  qed
  have looked: "route_in L (destination_metadata e d) anything" if "case d of None \<Rightarrow> True | Some q \<Rightarrow> wf_path q" for d
  proof (cases d)
    case (Some q)
    have "route_in L (\<lambda>st. apfst (case_sum (\<lambda>_. None) Some) (file_symlink_metadata e q st)) anything"
      by (rule confines_apfst, rule routes.lookups_stay) (use that Some assms in simp_all)
    then show ?thesis by (simp add: destination_metadata_def Some confines_def)
  qed (simp add: destination_metadata_def confines_def)
  have opened: "route_in L (entry_buffer e p md d m) anything" if "case d of None \<Rightarrow> True | Some q \<Rightarrow> wf_path q" for d m
  proof -
    have target: "wf_path (case d of Some q \<Rightarrow> q | None \<Rightarrow> p)" using that assms(2) by (simp split: option.splits)
    show ?thesis
      unfolding entry_buffer_def
      by (rule confines_if_at confines_seq [OF opens_stay(1) [OF target assms(3)]] confines_case_sum_at
          | (simp add: confines_def; fail))+
  qed
  show ?thesis
    unfolding to_api_entry_def
    by (rule confines_seq [OF destination], rule confines_seq [OF looked], assumption,
        rule confines_seq [OF opened], assumption, simp add: confines_def)
qed

lemma api_entries_stay [stays]:
  assumes "answers_ok e" and "wf_path dir" and "Looks \<in> L"
  shows "route_in L (api_entries e dir ns) anything"
proof (induction ns)
  case (Cons n ns)
  have p: "wf_path (path_join dir (components n))" by (rule wf_path_join [OF assms(2) wf_components])
  show ?case
    unfolding api_entries.simps Let_def
    by (rule confines_seq [OF routes.lookups_stay(2) [OF p assms(3)]] confines_case_sum_at
        confines_seq [OF entry_stays [OF assms(1) p assms(3)]] confines_apfst Cons)+
qed (simp add: confines_def)

lemma first_entries_stay [stays]:
  assumes "answers_ok e" and "wf_path dir" and "Looks \<in> L"
  shows "route_in L (first_entries e dir ns acc) anything"
proof (induction ns arbitrary: acc)
  case (Cons n ns)
  have p: "wf_path (path_join dir (components n))" by (rule wf_path_join [OF assms(2) wf_components])
  have stop: "route_in L (\<lambda>s. (ds, s)) anything" for ds :: "DirectoryEntry list" by (simp add: confines_def)
  show ?case
    unfolding first_entries.simps Let_def
    by (rule confines_seq [OF routes.lookups_stay(2) [OF p assms(3)]] confines_case_sum_at confines_choice
        confines_seq [OF entry_stays [OF assms(1) p assms(3)]] confines_if_at stop Cons)+
qed (simp add: confines_def)

lemma free_name_stays [stays]:
  assumes "wf_path par" and "Looks \<in> L"
  shows "route_in L (free_name e par parts is) anything"
proof (induction "is")
  case (Cons i "is")
  have p: "wf_path (path_join par (components (copy_name parts i)))" by (rule wf_path_join [OF assms(1) wf_components])
  have stop: "route_in L (\<lambda>s. (nm, s)) anything" for nm :: string by (simp add: confines_def)
  show ?case
    unfolding free_name.simps
    by (rule confines_seq [OF routes.lookups_stay(2) [OF p assms(2)]] confines_case_sum_at stop Cons)+
qed (simp add: confines_def)

lemma wf_parent: "wf_path p \<Longrightarrow> parent p = Some q \<Longrightarrow> wf_path q"
  by (cases p rule: rev_cases) (auto simp: parent_def wf_path_def list_all_iff split: if_splits list.splits)

lemma new_name_stays [stays]:
  assumes "wf_path p" and "Looks \<in> L"
  shows "route_in L (generate_new_name e p) anything"
  unfolding generate_new_name_def
  by (rule free_name_stays [OF _ assms(2)]) (use wf_parent [OF assms(1)] in \<open>auto simp: wf_path_def split: option.split\<close>)

section \<open>Every route\<close>

abbreviation "looking \<equiv> {Looks}"
abbreviation "editing \<equiv> {Looks, Changes, Accounts, Writes}"

lemma wf_joined: "wf_path p \<Longrightarrow> wf_path (path_join p (components s))"
  by (rule wf_path_join [OF _ wf_components])

lemma parent_stays [stays]: "wf_path p \<Longrightarrow> confines r I (from_option (parent p) err) (on_ok wf_path)"
  using wf_parent [of p] by (auto simp: confines_def from_option_def split: option.split)

lemma single_files_stay [stays]:
  assumes "answers_ok e" and "wf_path p"
  shows "route_in editing (rename_one e p x) (on_ok anything)"
    and "route_in editing (delete_one e p y) (on_ok anything)"
    and "route_in editing (chmod_one e p x) (on_ok anything)"
  unfolding rename_one_def delete_one_def chmod_one_def Let_def
  by (rule stays | (use assms in \<open>auto intro: wf_joined; fail\<close>))+

lemma editing_routes:
  assumes "answers_ok e"
  shows "route_in editing (rename_route e r xs) (on_ok anything)"
    and "route_in editing (delete_route e r ys) (on_ok anything)"
    and "route_in editing (chmod_route e r xs) (on_ok anything)"
    and "route_in editing (create_directory_route e nm r) (on_ok anything)"
    and "route_in editing (write_route e r h body) (on_ok anything)"
    and "route_in editing (copy_route e r nam) (on_ok anything)"
  unfolding rename_route_def delete_route_def chmod_route_def create_directory_route_def write_route_def
    write_into_def copy_route_def copy_to_def Let_def
  by (rule stays | (use assms in \<open>auto intro: wf_joined wf_parent; fail\<close>))+

lemma looking_routes:
  assumes "answers_ok e"
  shows "route_in looking (list_route e r pats pp pg) (on_ok anything)"
    and "route_in looking (list_directory_route e r) (on_ok anything)"
    and "route_in looking (contents_route e r dl mx) (on_ok anything)"
  unfolding list_route_def list_backup_def list_files_def list_directory_route_def contents_route_def
    contents_of_file_def Let_def
  by (rule stays | (use assms in \<open>auto; fail\<close>))+

lemma openable_stays:
  assumes "answers_ok e" and "Looks \<in> L"
  shows "route_in L (openable e raw) (on_ok anything)"
  unfolding openable_def by (rule stays | (use assms in \<open>auto; fail\<close>))+

lemma fingerprint_files_stay [stays]:
  assumes "answers_ok e" and "Looks \<in> L"
  shows "route_in L (fingerprint_files e hs alg raws) anything"
proof (induction raws)
  case (Cons raw raws)
  show ?case
    unfolding fingerprint_files.simps
    by (rule confines_seq [OF openable_stays [OF assms]] confines_case_sum_at confines_apfst Cons)+
qed (simp add: confines_def)

section \<open>Requests\<close>

datatype route_request =
    RqRename string "(string \<times> string) list" | RqDelete string "string list"
  | RqChmod string "(string \<times> string) list" | RqCreateDirectory string string
  | RqWriteFile string "string option" "string result list" | RqCopyFile string "string option"
  | RqList string "string list" "u64 option" "u64 option" | RqListDirectory string
  | RqContents string bool "u64 option" | RqFingerprints Algorithm "string list"

datatype route_reply =
    Counted nat | Done | Entry DirectoryEntry | Listing u64 "DirectoryEntry list"
  | Entries "DirectoryEntry list" | Contents u64 "string option" | Prints "(string \<times> string) list"

definition replying :: "('a \<Rightarrow> route_reply) \<Rightarrow> ('gi, 's, 'a) route \<Rightarrow> ('gi, 's, route_reply) route" where
  "replying f m = and_then m (\<lambda>x. succeed (f x))"

fun serve ::
  "'gi http_env \<Rightarrow> (Algorithm \<Rightarrow> 'h hasher) \<Rightarrow> route_request \<Rightarrow> ('gi, 's, route_reply) route" where
  "serve e hs (RqRename dir xs) = replying Counted (rename_route e dir xs)"
| "serve e hs (RqDelete dir xs) = replying Counted (delete_route e dir xs)"
| "serve e hs (RqChmod dir xs) = replying Counted (chmod_route e dir xs)"
| "serve e hs (RqCreateDirectory nm dir) = replying (\<lambda>_. Done) (create_directory_route e nm dir)"
| "serve e hs (RqWriteFile nm header body) = replying (\<lambda>_. Done) (write_route e nm header body)"
| "serve e hs (RqCopyFile raw nm) = replying Entry (copy_route e raw nm)"
| "serve e hs (RqList dir pats pp pg) = replying (\<lambda>(n, ds). Listing n ds) (list_route e dir pats pp pg)"
| "serve e hs (RqListDirectory dir) = replying Entries (list_directory_route e dir)"
| "serve e hs (RqContents raw dl mx) = replying (\<lambda>(n, nm). Contents n nm) (contents_route e raw dl mx)"
| "serve e hs (RqFingerprints alg raws) = replying Prints (fingerprints_route e hs alg raws)"

fun only_looks :: "route_request \<Rightarrow> bool" where
  "only_looks (RqList dir pats pp pg) = True"
| "only_looks (RqListDirectory dir) = True"
| "only_looks (RqContents raw dl mx) = True"
| "only_looks (RqFingerprints alg raws) = True"
| "only_looks _ = False"

lemma replying_stays: "confines r I m (on_ok anything) \<Longrightarrow> confines r I (replying f m) (on_ok anything)"
  unfolding replying_def by (rule confines_and_then [OF _ confines_pure(1)])

lemma fingerprints_stay:
  "answers_ok e \<Longrightarrow> route_in looking (fingerprints_route e hs alg raws) (on_ok anything)"
  unfolding fingerprints_route_def by (rule stays | (auto; fail))+

lemma serve_stays:
  assumes "answers_ok e"
  shows "route_in (if only_looks rq then looking else editing) (serve e hs rq) (on_ok anything)"
  by (cases rq)
     (simp_all add: replying_stays editing_routes [OF assms] looking_routes [OF assms] fingerprints_stay [OF assms])

lemma file_steps_inv:
  assumes "(steps_of file_step L)\<^sup>*\<^sup>* s t"
  shows "accounts (sf_fs s) (sf_fs t) \<and>
    (\<exists>cs. sf_calls t = sf_calls s @ cs \<and> list_all (confined (cap_of (sf_fs s))) cs \<and>
       (L \<subseteq> looking \<longrightarrow> list_all looks cs \<and> sf_fs t = sf_fs s \<and> sf_io t = sf_io s))"
  using assms
proof induction
  case (step t u)
  obtain cs where cs: "accounts (sf_fs s) (sf_fs t)" "sf_calls t = sf_calls s @ cs"
    "list_all (confined (cap_of (sf_fs s))) cs"
    "L \<subseteq> looking \<longrightarrow> list_all looks cs \<and> sf_fs t = sf_fs s \<and> sf_io t = sf_io s"
    using step.IH by blast
  have cap: "cap_of (sf_fs t) = cap_of (sf_fs s)" using cs(1) by (simp add: accounts_def cap_of_def)
  obtain l where "l \<in> L" "file_step l t u" using step.hyps(2) by (auto simp: steps_of_def)
  from this(2) show ?case
  proof cases
    case (f_look cs')
    then show ?thesis using cs cap by (intro conjI exI [of _ "cs @ cs'"]) auto
  next
    case (f_change cs')
    then show ?thesis using cs cap \<open>l \<in> L\<close> by (intro conjI exI [of _ "cs @ cs'"]) auto
  next
    case (f_account fs)
    then show ?thesis using cs \<open>l \<in> L\<close> accounts_trans [OF cs(1)] by (intro conjI exI [of _ cs]) auto
  next
    case (f_write x)
    then show ?thesis using cs \<open>l \<in> L\<close> by (intro conjI exI [of _ cs]) auto
  qed
qed (simp add: accounts_def)

section \<open>Properties\<close>


definition http_sample_run :: "cap_call \<Rightarrow> cap_value result" where
  "http_sample_run c =
     (let look = (\<lambda>p. if p = [] \<or> p = [Normal ''d''] then
                        Inr (VMeta \<lparr>md_mode = 16877, md_len = 0, md_modified = None, md_created = None\<rparr>)
                      else if p = [Normal ''a''] \<or> p = [Normal ''d'', Normal ''b''] then
                        Inr (VMeta \<lparr>md_mode = 33188, md_len = 5, md_modified = None, md_created = None\<rparr>)
                      else Inl ''not found'')
      in case c of
           InDir D_Metadata [p] \<Rightarrow> look p
         | InDir D_SymlinkMetadata [p] \<Rightarrow> look p
         | InDir D_Canonicalize [p] \<Rightarrow> if look p = Inl ''not found'' then Inl ''not found'' else Inr (VPath p)
         | InDir D_Open [p] \<Rightarrow> Inr (VFile 7)
         | InDir D_Create [p] \<Rightarrow> Inr (VFile 8)
         | InDir D_ReadDir [p] \<Rightarrow> Inr (VEntries [Inr (False, ''b'')])
         | OnBase B_ReadDir p \<Rightarrow> Inr (VEntries [Inr (False, ''a''), Inr (True, ''d'')])
         | OnBase b p \<Rightarrow> look []
         | _ \<Rightarrow> Inr VUnit)"

definition http_sample_env :: "unit http_env" where
  "http_sample_env =
     \<lparr>fe_run = \<lambda>_ _. http_sample_run, fe_ignores = \<lambda>_ p _. p = [Normal ''secret''],
      fe_chown = \<lambda>_. Inr (), fe_chown_walk = Inr [],
      he_open_read = \<lambda>_ _. Inr ''hello'', he_infer = \<lambda>_. None, he_guess = \<lambda>_. None, he_timestamp = Some,
      he_now = ''now'', he_disable_directory_size = False, he_directory_entry_limit = 100,
      he_io = \<lambda>_ _. Inr (), he_whitelisted = \<lambda>_ _ _. False, he_backup_fs = \<lambda>_ _. None,
      he_backup_dir = \<lambda>_ _ _ _ _. Inl ''none'', he_backup_file = \<lambda>_ _. Inl ''none'',
      he_archive = \<lambda>_. Some (Some 5, True), he_header_ok = \<lambda>_. True, he_reads = \<lambda>_. [Inr [97]],
      he_seek = \<lambda>_. Inr (), he_reads_again = \<lambda>_. [Inr [97]], he_texts = \<lambda>_. [Inr ''hello''],
      he_walk = \<lambda>_. Inr []\<rparr>"

definition http_sample_state :: "unit file_state" where
  "http_sample_state =
     \<lparr>sf_fs = (new_filesystem [RootDir, Normal ''srv''] 0 ())\<lparr>initialized := True\<rparr>, sf_calls = [], sf_io = []\<rparr>"

lemma http_sample_ok: "answers_ok http_sample_env" "fs_base_path (sf_fs http_sample_state) \<noteq> []"
  by (auto simp: answers_ok_def http_sample_env_def http_sample_run_def http_sample_state_def
      new_filesystem_def wf_path_def Let_def
      split: cap_call.splits dir_op.splits base_op.splits list.splits if_splits)


text \<open>The chunks that arrive before the body breaks off.\<close>

fun received :: "string result list \<Rightarrow> string list" where
  "received [] = []"
| "received (Inl err # body) = []"
| "received (Inr chunk # body) = chunk # received body"

lemma do_io_ok: "do_io e op st = (Inr u, t) \<Longrightarrow> t = st\<lparr>sf_io := sf_io st @ [op]\<rparr>"
  by (simp add: do_io_def)

lemma write_body_ok:
  "write_body e f body st = (Inr (), t) \<Longrightarrow> t = st\<lparr>sf_io := sf_io st @ map (IoWrite f) (received body)\<rparr>"
proof (induction e f body arbitrary: st rule: write_body.induct)
  case (3 e f chunk body)
  then show ?case by (auto simp: ok_simps do_io_def dest!: 3(1))
qed (simp_all add: ok_simps)

definition same_books :: "('gi, 's) file_state_scheme \<Rightarrow> ('gi, 's) file_state_scheme \<Rightarrow> bool" where
  "same_books s t \<longleftrightarrow> disk_usage (sf_fs t) = disk_usage (sf_fs s) \<and>
     disk_usage_cached (sf_fs t) = disk_usage_cached (sf_fs s) \<and> sf_io t = sf_io s"

lemma with_cap_books: "with_cap e op s = (r, t) \<Longrightarrow> sf_fs t = sf_fs s \<and> sf_io t = sf_io s"
  by (auto simp: with_cap_def split: prod.splits)

lemma lookup_books:
  "file_metadata e p s = (r, t) \<Longrightarrow> sf_fs t = sf_fs s \<and> sf_io t = sf_io s"
  "canonical_or_raw e raw s = (p, t) \<Longrightarrow> sf_fs t = sf_fs s \<and> sf_io t = sf_io s"
  "cap_unit e cop s = (q, t) \<Longrightarrow> sf_fs t = sf_fs s \<and> sf_io t = sf_io s"
  by (auto simp: file_metadata_def canonical_or_raw_def file_canonicalize_def cap_unit_def
      dest!: with_cap_books split: prod.splits sum.splits)

lemma fold_chown_books:
  "disk_usage (fold (\<lambda>p. call (ChownPath p)) ps fs) = disk_usage fs \<and>
   disk_usage_cached (fold (\<lambda>p. call (ChownPath p)) ps fs) = disk_usage_cached fs"
  by (induction ps arbitrary: fs) (simp_all add: call_def)

lemma chown_path_books:
  "disk_usage (snd (chown_path d c w p fs)) = disk_usage fs \<and>
   disk_usage_cached (snd (chown_path d c w p fs)) = disk_usage_cached fs"
  by (auto simp: chown_path_def Let_def call_def fold_chown_books split: sum.split)

lemma chown_books:
  assumes "file_chown e p s = (r, t)"
  shows "same_books s t"
proof -
  obtain d c w where "t = s\<lparr>sf_fs := snd (chown_path d c w p (sf_fs s))\<rparr>"
    using assms that by (simp add: file_chown_def on_fs_def split: prod.splits) (metis snd_conv)
  then show ?thesis by (simp add: same_books_def chown_path_books)
qed

text \<open>
  A successful write stores exactly the chunks that arrived before the body broke
  off, and reports success also when it did; the accounting of the parent directory
  changes by the length the request announced less the size of the file it replaces,
  whatever was stored.
\<close>

theorem write_charges_announced_length:
  assumes "write_route e name header body st = (Inr (), st')"
  obtains path par f old where "path = fst (canonical_or_raw e name st)" and "parent path = Some par"
    and "old = case_sum (\<lambda>_. 0) md_len (fst (file_metadata e path (snd (canonical_or_raw e name st))))"
    and "sf_io st' = sf_io st @ map (IoWrite f) (received body) @ [IoFlush f, IoSync f]"
    and "fst (async_allocate_in_path par (content_size header - old) False (sf_fs st))"
    and "disk_usage (sf_fs st') = disk_usage (snd (async_allocate_in_path par (content_size header - old) False (sf_fs st)))"
    and "disk_usage_cached (sf_fs st')
       = disk_usage_cached (snd (async_allocate_in_path par (content_size header - old) False (sf_fs st)))"
proof -
  obtain path s1 where s1: "canonical_or_raw e name st = (path, s1)" by fastforce
  obtain md s2 where s2: "file_metadata e path s1 = (md, s2)" by fastforce
  let ?old = "case_sum (\<lambda>_. 0) md_len md"
  obtain par s3 s4 f s5 s6 s7 s8 where par: "parent path = Some par"
    and s3: "cap_unit e (\<lambda>run. cap_create_dir_all run par) s2 = (Inr (), s3)"
    and s4: "on_fs e (\<lambda>os. async_allocate_in_path par (content_size header - ?old) False) s3 = (True, s4)"
    and s5: "with_cap e (\<lambda>run self. apfst (typed the_file) (cap_create run path self)) s4 = (Inr f, s5)"
    and s6: "write_body e f body s5 = (Inr (), s6)" and s7: "do_io e (IoFlush f) s6 = (Inr (), s7)"
    and s8: "do_io e (IoSync f) s7 = (Inr (), s8)" and s9: "file_chown e path s8 = (Inr (), st')"
    using assms by (auto simp: write_route_def write_into_def ok_simps not_ignored_def s1 s2 simp del: and_then_ensure)
  have fs: "sf_fs s3 = sf_fs st" and io: "sf_io s3 = sf_io st"
    using lookup_books(2) [OF s1] lookup_books(1) [OF s2] lookup_books(3) [OF s3] by simp_all
  have "fst (async_allocate_in_path par (content_size header - ?old) False (sf_fs st))"
    and "sf_fs s4 = snd (async_allocate_in_path par (content_size header - ?old) False (sf_fs st))"
    and "sf_io s4 = sf_io st"
    using s4 fs io by (auto simp: on_fs_def split: prod.splits)
  then show thesis
    using that [of path par ?old f] par s1 s2 with_cap_books [OF s5] write_body_ok [OF s6] do_io_ok [OF s7]
      do_io_ok [OF s8] chown_books [OF s9]
    by (simp add: same_books_def)
qed

theorem write_charges_announced_length_witness:
  "\<exists>st' path par f old.
     write_route http_sample_env ''a'' (Some ''2'') [Inr ''hel'', Inl ''reset'', Inr ''lo''] http_sample_state = (Inr (), st') \<and>
     parent path = Some par \<and> sf_io st' = [IoWrite f ''hel'', IoFlush f, IoSync f] \<and>
     fst (async_allocate_in_path par (content_size (Some ''2'') - old) False (sf_fs http_sample_state))"
proof -
  let ?run = "write_route http_sample_env ''a'' (Some ''2'') [Inr ''hel'', Inl ''reset'', Inr ''lo''] http_sample_state"
  have "fst ?run = Inr ()" by code_simp
  then obtain st' where run: "?run = (Inr (), st')" by (metis prod.collapse)
  obtain path par f old where "parent path = Some par"
    and "sf_io st' = sf_io http_sample_state @
      map (IoWrite f) (received [Inr ''hel'', Inl ''reset'', Inr ''lo'']) @ [IoFlush f, IoSync f]"
    and "fst (async_allocate_in_path par (content_size (Some ''2'') - old) False (sf_fs http_sample_state))"
    by (rule write_charges_announced_length [OF run])
  moreover have "sf_io http_sample_state = []" by (simp add: http_sample_state_def)
  ultimately show ?thesis using run by (intro exI conjI) simp_all
qed

section \<open>Listings\<close>

lemma page_of_nth:
  assumes "1 \<le> i" and "i * unat n < 18446744073709551616"
  shows "page_of (Some n) (word_of_nat i) xs = take (unat n) (drop ((i - 1) * unat n) xs)"
proof -
  have le: "(i - 1) * unat n \<le> i * unat n" by simp
  have small: "(i - 1) * unat n < 2 ^ LENGTH(64)" by (rule le_less_trans [OF le]) (use assms(2) in simp)
  have same: "(word_of_nat i - 1) * n = word_of_nat ((i - 1) * unat n)"
    using assms(1) by (simp add: of_nat_diff)
  have "unat ((word_of_nat i - 1) * n) = (i - 1) * unat n"
    unfolding same unat_of_nat by (rule mod_less [OF small])
  then show ?thesis by (simp add: page_of_def)
qed

lemma pages_concat:
  "k * unat n < 18446744073709551616 \<Longrightarrow>
     concat (map (\<lambda>i. page_of (Some n) (word_of_nat i) xs) [1..<Suc k]) = take (k * unat n) xs"
proof (induction k)
  case (Suc k)
  have "page_of (Some n) (word_of_nat (Suc k)) xs = take (unat n) (drop (k * unat n) xs)"
    using page_of_nth [of "Suc k" n xs] Suc.prems by (simp del: of_nat_Suc)
  then show ?case
    using Suc take_add [of "k * unat n" "unat n" xs] by (simp add: add.commute del: of_nat_Suc)
qed simp

text \<open>
  The pages of a listing put together are the whole listing, so that every entry that
  can be read and is neither ignored nor hidden by the request is on exactly one page,
  and no other; directories come before the other entries, each in order of their names.
\<close>

theorem pages_cover_listing:
  assumes "names = listed hidden dir es" and "length names \<le> k * unat n" and "k * unat n < 18446744073709551616"
  shows "concat (map (\<lambda>i. page_of (Some n) (word_of_nat i) names) [1..<Suc k]) = names \<and>
    mset names = image_mset snd (filter_mset (\<lambda>(d, x). \<not> hidden (path_join dir (components x)) d) (mset (readable es))) \<and>
    (\<exists>ds fs. names = ds @ fs \<and> sorted ds \<and> sorted fs \<and>
       set ds \<subseteq> {x. (True, x) \<in> set (readable es)} \<and> set fs \<subseteq> {x. (False, x) \<in> set (readable es)})"
proof -
  let ?kept = "filter (\<lambda>(d, x). \<not> hidden (path_join dir (components x)) d) (readable es)"
  have parts: "mset (map snd (filter fst ks)) + mset (map snd (filter (Not \<circ> fst) ks)) = mset (map snd ks)"
    for ks :: "(bool \<times> string) list"
    by (induction ks) auto
  have names: "names = sort (map snd (filter fst ?kept)) @ sort (map snd (filter (Not \<circ> fst) ?kept))"
    by (simp add: assms(1) listed_def Let_def)
  have "mset names = mset (map snd ?kept)" using parts [of ?kept] by (simp add: names)
  also have "\<dots> = image_mset snd (filter_mset (\<lambda>(d, x). \<not> hidden (path_join dir (components x)) d) (mset (readable es)))"
    by simp
  finally have all: "mset names = \<dots>" .
  have pages: "concat (map (\<lambda>i. page_of (Some n) (word_of_nat i) names) [1..<Suc k]) = names"
    using pages_concat [OF assms(3), of names] assms(2) by simp
  have "set (sort (map snd (filter fst ?kept))) \<subseteq> {x. (True, x) \<in> set (readable es)}"
    and "set (sort (map snd (filter (Not \<circ> fst) ?kept))) \<subseteq> {x. (False, x) \<in> set (readable es)}"
    by auto
  then show ?thesis using all pages names sorted_sort by blast
qed

theorem pages_cover_listing_witness:
  "concat (map (\<lambda>i. page_of (Some 2) (word_of_nat i)
      (listed (\<lambda>p d. False) [] [Inr (False, ''b''), Inr (True, ''d''), Inr (False, ''a'')])) [1..<Suc 2])
    = listed (\<lambda>p d. False) [] [Inr (False, ''b''), Inr (True, ''d''), Inr (False, ''a'')]"
proof -
  let ?names = "listed (\<lambda>p d. False) [] [Inr (False, ''b''), Inr (True, ''d''), Inr (False, ''a'')]"
  have "length ?names = 3" by (simp add: listed_def readable_def Let_def)
  then show ?thesis
    using pages_cover_listing [of ?names "\<lambda>p d. False" "[]" "[Inr (False, ''b''), Inr (True, ''d''), Inr (False, ''a'')]" 2 2]
    by simp
qed

section \<open>What is not checked\<close>

text \<open>
  A copy under a given name is made whatever is there and whatever the ignore list says
  of the name: the first call is the copy itself, and the whole size of the source is
  charged, with nothing returned for a file that is replaced.
\<close>

theorem copy_overwrites_unchecked:
  assumes "copy_to e location md par nm st = (Inr d, st')" and "answers_ok e"
    and "fs_base_path (sf_fs st) \<noteq> []" and "wf_path par"
  shows "\<exists>cs. sf_calls st' = sf_calls st @ InDir D_Copy
      [rel (cap_of (sf_fs st)) location, rel (cap_of (sf_fs st)) (path_join par (components nm))] # cs"
proof -
  let ?target = "path_join par (components nm)"
  obtain s1 s2 s3 md' where s1: "on_fs e (\<lambda>os. async_allocate_in_path par (md_len md) False) st = (True, s1)"
    and s2: "cap_unit e (\<lambda>run self. cap_copy run location self ?target self) s1 = (Inr (), s2)"
    and s3: "file_metadata e ?target s2 = (Inr md', s3)" and s4: "to_api_entry e ?target md' s3 = (d, st')"
    using assms(1) by (auto simp: copy_to_def ok_simps Let_def)
  have calls: "sf_calls s1 = sf_calls st" "cap_of (sf_fs s1) = cap_of (sf_fs st)"
    using s1 accounts_allocation(1) [of "sf_fs st" par "md_len md" False "sf_fs st"]
    by (auto simp: on_fs_def accounts_def cap_of_def split: prod.splits)
  have copied: "sf_calls s2 = sf_calls s1 @ [InDir D_Copy
      [rel (cap_of (sf_fs s1)) location, rel (cap_of (sf_fs s1)) ?target]]"
    using s2
    by (auto simp: cap_unit_def with_cap_def cap_copy_def in_two_dirs_def in_dir_def typed_def
        split: prod.splits if_splits)
  have wf: "wf_files s2" using s1 s2 assms(3) accounts_allocation(1) [of "sf_fs st" par "md_len md" False "sf_fs st"]
    by (auto simp: wf_files_def cap_unit_def with_cap_def on_fs_def accounts_def split: prod.splits)
  have target: "wf_path ?target" by (rule wf_joined [OF assms(4)])
  note look = routes.lookups_stay(1) [OF target, where L = looking and e = e, simplified]
    and entry = entry_stays [OF assms(2) target, where L = looking and md = md', simplified]
  have "(steps_of file_step looking)\<^sup>*\<^sup>* s2 st'"
    using confinesD(1,2) [OF look wf] confinesD(1) [OF entry, of s3] s3 s4 by (metis rtranclp_trans snd_conv)
  then show ?thesis using file_steps_inv copied calls by fastforce
qed

end
