(* ===== verification/File_Search.thy ===== *)
theory File_Search
  imports File_Routes_Safety
begin

text \<open>
  The search route \<open>routes/api/servers/_server_/files/search.rs\<close>. The files of the walk
  are given in the order the walk yields them; the worker threads of the code may swap
  them and may pass the limit by the files they are already working on.
\<close>

section \<open>One file\<close>

text \<open>
  The loop over the pieces of a file: \<open>prev\<close> is the text of the piece before. The result
  is the piece at whose end the query was found.
\<close>

fun search_chunks :: "string \<Rightarrow> string \<Rightarrow> string \<Rightarrow> string result list \<Rightarrow> string option" where
  "search_chunks query prev chunk rest =
     (let content = from_utf8_lossy chunk in
      if str_contains (prev @ content) query then Some chunk
      else case rest of
             [] \<Rightarrow> None
           | Inl err # _ \<Rightarrow> None
           | Inr next # rest \<Rightarrow> if next = [] then None else search_chunks query content next rest)"

declare search_chunks.simps [simp del]

definition search_content :: "string \<Rightarrow> string result list \<Rightarrow> string option" where
  "search_content query reads =
     (case reads of
        Inl err # rest \<Rightarrow> None
      | [] \<Rightarrow> None
      | Inr chunk # rest \<Rightarrow>
          if is_valid_utf8_slice (take 128 chunk) then search_chunks query [] chunk rest else None)"

definition named :: "path \<Rightarrow> path \<Rightarrow> DirectoryEntry \<Rightarrow> DirectoryEntry list" where
  "named dir p entry =
     (case strip_prefix p dir of Some q \<Rightarrow> [entry\<lparr>de_name := path_text q\<rparr>] | None \<Rightarrow> [])"

definition search_file ::
  "'gi http_env \<Rightarrow> path \<Rightarrow> string \<Rightarrow> bool \<Rightarrow> u64 \<Rightarrow> path \<Rightarrow> ('gi, 's) file_state_scheme
     \<Rightarrow> DirectoryEntry list \<times> ('gi, 's) file_state_scheme" where
  "search_file e dir query include_content max_size p st =
     (case file_symlink_metadata e p st of
        (Inl err, st) \<Rightarrow> ([], st)
      | (Inr md, st) \<Rightarrow>
          if \<not> md_is_file md then ([], st)
          else if str_contains (path_text p) query
          then (case to_api_entry e p md st of (d, st) \<Rightarrow> (named dir p d, st))
          else if include_content \<and> md_len md \<le> max_size
          then (case file_open e p st of
                  (Inl err, st) \<Rightarrow> ([], st)
                | (Inr f, st) \<Rightarrow>
                    (case search_content query (he_texts e f) of
                       None \<Rightarrow> ([], st)
                     | Some chunk \<Rightarrow>
                         (named dir p (to_api_entry_buffer e p md False (Some chunk) None None st), st)))
          else ([], st))"

fun search_all ::
  "'gi http_env \<Rightarrow> path \<Rightarrow> string \<Rightarrow> bool \<Rightarrow> nat \<Rightarrow> u64 \<Rightarrow> (bool \<times> path) list \<Rightarrow> DirectoryEntry list
     \<Rightarrow> ('gi, 's) file_state_scheme \<Rightarrow> DirectoryEntry list \<times> ('gi, 's) file_state_scheme" where
  "search_all e dir query inc limit max_size [] results st = (results, st)"
| "search_all e dir query inc limit max_size ((is_dir, p) # ps) results st =
     (if is_dir \<or> limit \<le> length results then search_all e dir query inc limit max_size ps results st
      else case search_file e dir query inc max_size p st of
             (ds, st) \<Rightarrow> search_all e dir query inc limit max_size ps (results @ ds) st)"

definition search_route ::
  "'gi http_env \<Rightarrow> string \<Rightarrow> string \<Rightarrow> bool \<Rightarrow> nat option \<Rightarrow> u64 option \<Rightarrow> ('gi, 's, DirectoryEntry list) route" where
  "search_route e raw query inc limit max_size =
     and_then (canonical_root e raw ''root not found'') (\<lambda>dir.
       guarded [ensure_run (dir_or True e dir) (Refused NOT_FOUND ''root is not a directory'')]
         (and_then (attempt (\<lambda>st. (he_walk e dir, st)) Internal) (\<lambda>ps.
            perform (search_all e dir query inc (min 500 (case limit of Some n \<Rightarrow> n | None \<Rightarrow> 100))
              (case max_size of Some n \<Rightarrow> n | None \<Rightarrow> 524288) ps []))))"

section \<open>What is found\<close>

lemma str_contains_sublist: "str_contains s p \<longleftrightarrow> sublist p s"
proof -
  have "str_find s p \<noteq> None \<longleftrightarrow> sublist p s"
  proof (induction s)
    case (Cons c s)
    have "starts_with (c # s) p \<longleftrightarrow> prefix p (c # s)"
      by (metis starts_with_def append_eq_conv_conj prefix_def take_is_prefix)
    then show ?case using Cons by (auto simp: sublist_Cons_right)
  qed simp
  then show ?thesis by (simp add: str_contains_def)
qed

lemma sublist_split:
  assumes "sublist q (a @ b @ r)" and "length q \<le> Suc (length b) \<or> r = []"
  shows "sublist q (a @ b) \<or> sublist q (b @ r)"
proof -
  consider "sublist q a" | "sublist q (b @ r)" | x y where "q = x @ y" "suffix x a" "prefix y (b @ r)"
    using assms(1) unfolding sublist_append [of q a "b @ r"] by blast
  then show ?thesis
  proof cases
    case 3
    show ?thesis
    proof (cases "x = []")
      case True
      then show ?thesis using 3 prefix_imp_sublist by auto
    next
      case False
      have "prefix y b"
      proof (cases "r = []")
        case False
        then have "length y \<le> length b" using assms(2) 3(1) \<open>x \<noteq> []\<close> by (cases x) auto
        then show ?thesis using 3(3) by (metis prefix_length_prefix prefixI)
      qed (use 3 in simp)
      then show ?thesis using 3 by (auto simp: sublist_append)
    qed
  qed (auto simp: sublist_append)
qed

lemma search_chunks_iff:
  assumes "list_all (\<lambda>c. valid_utf8 c \<and> c \<noteq> []) (chunk # cs)"
    and "list_all (\<lambda>c. length query \<le> Suc (length c)) (butlast (chunk # cs))"
  shows "search_chunks query prev chunk (map Inr cs) \<noteq> None \<longleftrightarrow>
    sublist query (prev @ chunk) \<or> sublist query (concat (chunk # cs))"
  using assms
proof (induction cs arbitrary: prev chunk)
  case Nil
  then show ?case by (auto simp: search_chunks.simps Let_def lossy_valid str_contains_sublist sublist_append)
next
  case (Cons c cs)
  have step: "search_chunks query prev chunk (map Inr (c # cs)) \<noteq> None \<longleftrightarrow>
      sublist query (prev @ chunk) \<or> sublist query (chunk @ c) \<or> sublist query (concat (c # cs))"
    using Cons by (subst search_chunks.simps) (auto simp: Let_def lossy_valid str_contains_sublist)
  have "sublist query (chunk @ c) \<or> sublist query (concat (c # cs)) \<longleftrightarrow> sublist query (concat (chunk # c # cs))"
  proof
    assume "sublist query (concat (chunk # c # cs))"
    then show "sublist query (chunk @ c) \<or> sublist query (concat (c # cs))"
      using sublist_split [of query chunk c "concat cs"] Cons.prems(2) by (cases cs) auto
  next
    assume "sublist query (chunk @ c) \<or> sublist query (concat (c # cs))"
    then show "sublist query (concat (chunk # c # cs))"
      using sublist_append [of query "chunk @ c" "concat cs"] sublist_append [of query chunk "concat (c # cs)"] by auto
  qed
  then show ?case unfolding step by blast
qed

text \<open>
  In a file of valid pieces of text, none but the last shorter than the query less
  one byte, a query is found exactly when it occurs in the file, also when it lies across
  the border of two pieces.
\<close>

theorem search_finds_occurrences:
  assumes "list_all (\<lambda>c. valid_utf8 c \<and> c \<noteq> []) (chunk # cs)"
    and "list_all (\<lambda>c. length query \<le> Suc (length c)) (butlast (chunk # cs))"
    and "is_valid_utf8_slice (take 128 chunk)"
  shows "search_content query (map Inr (chunk # cs)) \<noteq> None \<longleftrightarrow> str_contains (concat (chunk # cs)) query"
proof -
  have "sublist query chunk \<Longrightarrow> sublist query (concat (chunk # cs))" by (auto simp: sublist_append)
  then show ?thesis
    using search_chunks_iff [OF assms(1,2), of "[]"] assms(3)
    by (auto simp: search_content_def str_contains_sublist)
qed

theorem search_finds_occurrences_witness:
  "search_content ''lo w'' (map Inr [''hello'', '' world'']) \<noteq> None
     \<longleftrightarrow> str_contains (concat [''hello'', '' world'']) ''lo w''"
proof (rule search_finds_occurrences)
  show "list_all (\<lambda>c. valid_utf8 c \<and> c \<noteq> []) [''hello'', '' world'']" by code_simp
  show "is_valid_utf8_slice (take 128 ''hello'')" by code_simp
qed simp

text \<open>
  A character that is cut by the border of two pieces is replaced in both, so that a
  query with it is not found; the reader asks for pieces of a fixed number of bytes.
\<close>

lemma search_misses_cut_character:
  "search_content [CHR 0xC3, CHR 0xA4] [Inr [CHR ''a'', CHR ''b'', CHR ''c'', CHR 0xC3], Inr [CHR 0xA4]] = None"
  by code_simp

section \<open>The route\<close>

lemma search_file_stays:
  assumes "answers_ok e" and "wf_path p" and "Looks \<in> L"
  shows "route_in L (search_file e dir query inc mx p) anything"
proof -
  have stop: "route_in L (\<lambda>s. (f s, s)) anything" for f :: "('a, 'b) file_state_scheme \<Rightarrow> DirectoryEntry list"
    by (simp add: confines_def)
  show ?thesis
    unfolding search_file_def
    by (rule confines_seq [OF routes.lookups_stay(2) [OF assms(2,3)]] confines_case_sum_at confines_if_at
        confines_seq [OF entry_stays [OF assms]] confines_seq [OF opens_stay(1) [OF assms(2,3)]]
        confines_case_option_at stop)+
qed

lemma search_all_stays:
  assumes "answers_ok e" and "list_all (\<lambda>(d, p). wf_path p) ps" and "Looks \<in> L"
  shows "route_in L (search_all e dir query inc limit mx ps results) anything"
  using assms(2)
proof (induction ps arbitrary: results)
  case (Cons x ps)
  obtain d p where x: "x = (d, p)" by fastforce
  have p: "wf_path p" using Cons.prems by (simp add: x)
  show ?case
    unfolding x search_all.simps
    by (rule confines_if_at confines_seq [OF search_file_stays [OF assms(1) p assms(3)]] Cons.IH
        | (use Cons.prems in simp; fail))+
qed (simp add: confines_def)

text \<open>A search only looks at files, below the server's directory.\<close>

theorem search_only_looks:
  assumes "answers_ok e" and "\<And>dir ps. he_walk e dir = Inr ps \<Longrightarrow> list_all (\<lambda>(d, p). wf_path p) ps"
  shows "route_in looking (search_route e raw query inc limit mx) (on_ok anything)"
proof -
  have walk: "confines r I (attempt (\<lambda>st. (he_walk e dir, st)) Internal) (on_ok (list_all (\<lambda>(d, p). wf_path p)))"
    for r I dir
    using assms(2) by (auto simp: confines_def attempt_def split: sum.split)
  show ?thesis
    unfolding search_route_def
    by (rule walk stays search_all_stays | (use assms(1) in \<open>auto; fail\<close>))+
qed

end
