(* ===== verification/Container_Output.thy ===== *)
theory Container_Output
  imports Server_State Utf8
begin

text \<open>
  The reader of a container's output in \<open>server/container.rs\<close>: it cuts the stream into
  lines of at most 512 bytes, recognises the line that ends the start of a server, and
  limits how many lines are passed on. The position the code searches from is always the
  start of the current line.

  Time is in nanoseconds; \<open>ro_clock n\<close> is the clock at the \<open>n\<close>-th question to the rate
  limit. \<open>trim\<close> removes ASCII white space.
\<close>

section \<open>The reader\<close>

record reader_env =
  ro_enabled :: bool
  ro_lines :: u64
  ro_interval :: u64
  ro_clock :: "nat \<Rightarrow> nat"
  ro_strip_ansi :: bool
  ro_done :: "string list option"

record ratelimit =
  rl_counter :: u64
  rl_start :: nat
  rl_asked :: nat

record output_reader =
  or_buffer :: string
  or_line_start :: nat
  or_limit :: ratelimit
  or_server :: ServerStateLock
  or_sent :: "string list"
  or_notices :: nat

definition new_reader :: "reader_env \<Rightarrow> ServerStateLock \<Rightarrow> output_reader" where
  "new_reader e sv =
     \<lparr>or_buffer = [], or_line_start = 0, or_limit = \<lparr>rl_counter = 0, rl_start = ro_clock e 0, rl_asked = 0\<rparr>,
      or_server = sv, or_sent = [], or_notices = 0\<rparr>"

text \<open>Whether a line may pass, and whether the notice is logged.\<close>

definition allow_ratelimit :: "reader_env \<Rightarrow> ratelimit \<Rightarrow> bool \<times> bool \<times> ratelimit" where
  "allow_ratelimit e l =
     (let l = l\<lparr>rl_counter := rl_counter l + 1, rl_asked := rl_asked l + 1\<rparr>;
          now = ro_clock e (rl_asked l)
      in if ro_enabled e \<and> 0 < ro_interval e \<and> ro_lines e \<le> rl_counter l then
           (if now - rl_start l < unat (ro_interval e) * 1000000000
            then (False, rl_counter l = ro_lines e, l)
            else (True, False, l\<lparr>rl_counter := 0, rl_start := now\<rparr>))
         else (True, False, l))"

text \<open>The escape sequences end with a letter; the stripped text is appended to the line.\<close>

definition is_alphabetic :: "char \<Rightarrow> bool" where
  "is_alphabetic c \<longleftrightarrow> byte_in 65 90 c \<or> byte_in 97 122 c"

fun strip_ansi :: "bool \<Rightarrow> string \<Rightarrow> string" where
  "strip_ansi escaped [] = []"
| "strip_ansi True (c # s) = strip_ansi (\<not> is_alphabetic c) s"
| "strip_ansi False (c # s) = (if c = CHR 0x1B then strip_ansi True s else c # strip_ansi False s)"

definition check_startup :: "reader_env \<Rightarrow> string \<Rightarrow> ServerStateLock \<Rightarrow> ServerStateLock" where
  "check_startup e line sv =
     (if get_state sv \<noteq> Starting then sv
      else case ro_done e of
             None \<Rightarrow> sv
           | Some done_vec \<Rightarrow>
               (let result_line = (if ro_strip_ansi e then line @ strip_ansi False line else line) in
                if list_ex (\<lambda>d. str_contains result_line d) done_vec then set_state Running sv else sv))"

definition shown :: "string \<Rightarrow> string" where
  "shown bytes = trim (from_utf8_lossy bytes)"

definition pass_line :: "reader_env \<Rightarrow> bool \<Rightarrow> string \<Rightarrow> output_reader \<Rightarrow> output_reader" where
  "pass_line e checked bytes r =
     (let line = shown bytes;
          r = (if checked then r\<lparr>or_server := check_startup e line (or_server r)\<rparr> else r)
      in case allow_ratelimit e (or_limit r) of
           (allowed, notice, l) \<Rightarrow>
             r\<lparr>or_limit := l, or_notices := or_notices r + (if notice then 1 else 0),
               or_sent := or_sent r @ (if allowed then [line] else [])\<rparr>)"

definition advance_line :: "nat \<Rightarrow> output_reader \<Rightarrow> output_reader" where
  "advance_line n r = r\<lparr>or_line_start := or_line_start r + n\<rparr>"

fun newline_at :: "string \<Rightarrow> nat option" where
  "newline_at [] = None"
| "newline_at (c # s) = (if c = CHR 0x0A then Some 0 else map_option Suc (newline_at s))"

lemma newline_at_less: "newline_at s = Some p \<Longrightarrow> p < length s"
  by (induction s arbitrary: p) (auto split: if_splits)

lemma pass_line_position [simp]:
  "or_buffer (pass_line e b s r) = or_buffer r" "or_line_start (pass_line e b s r) = or_line_start r"
  by (simp_all add: pass_line_def Let_def split: prod.split)

lemma advance_line_position [simp]:
  "or_buffer (advance_line n r) = or_buffer r" "or_line_start (advance_line n r) = or_line_start r + n"
  by (simp_all add: advance_line_def)

function take_lines :: "reader_env \<Rightarrow> output_reader \<Rightarrow> output_reader" where
  "take_lines e r =
     (let rest = drop (or_line_start r) (or_buffer r) in
      case newline_at rest of
        Some pos \<Rightarrow>
          if pos \<le> 512 then take_lines e (advance_line (Suc pos) (pass_line e True (take pos rest) r))
          else take_lines e (advance_line 512 (pass_line e True (take 512 rest) r))
      | None \<Rightarrow>
          if 512 < length rest then take_lines e (advance_line 512 (pass_line e False (take 512 rest) r))
          else r)"
  by pat_completeness auto
termination
  by (relation "measure (\<lambda>(e, r). length (or_buffer r) - or_line_start r)") (auto dest!: newline_at_less)

declare take_lines.simps [simp del]

definition read_output :: "reader_env \<Rightarrow> string \<Rightarrow> output_reader \<Rightarrow> output_reader" where
  "read_output e chunk r =
     (let r = take_lines e (r\<lparr>or_buffer := or_buffer r @ chunk\<rparr>) in
      if 1024 < or_line_start r \<and> length (or_buffer r) div 2 < or_line_start r
      then r\<lparr>or_buffer := drop (or_line_start r) (or_buffer r), or_line_start := 0\<rparr>
      else r)"

definition end_output :: "output_reader \<Rightarrow> output_reader" where
  "end_output r =
     (if or_line_start r < length (or_buffer r)
      then r\<lparr>or_sent := or_sent r @ [shown (drop (or_line_start r) (or_buffer r))]\<rparr> else r)"

text \<open>The task ends with the stream or its first error.\<close>

fun run_output :: "reader_env \<Rightarrow> string result list \<Rightarrow> output_reader \<Rightarrow> output_reader" where
  "run_output e [] r = end_output r"
| "run_output e (Inl err # chunks) r = end_output r"
| "run_output e (Inr chunk # chunks) r = run_output e chunks (read_output e chunk r)"

section \<open>Lines\<close>

text \<open>The lines of a text, none longer than 512 bytes, and what is left of it.\<close>

function cut_lines :: "string \<Rightarrow> string list \<times> string" where
  "cut_lines s =
     (case newline_at s of
        Some p \<Rightarrow> if p \<le> 512 then apfst (Cons (take p s)) (cut_lines (drop (Suc p) s))
                  else apfst (Cons (take 512 s)) (cut_lines (drop 512 s))
      | None \<Rightarrow> if 512 < length s then apfst (Cons (take 512 s)) (cut_lines (drop 512 s)) else ([], s))"
  by pat_completeness auto
termination
  by (relation "measure length") (auto dest!: newline_at_less)

declare cut_lines.simps [simp del]

lemma newline_at_append:
  "newline_at (s @ t) = (case newline_at s of Some p \<Rightarrow> Some p | None \<Rightarrow> map_option (\<lambda>p. length s + p) (newline_at t))"
  by (induction s; cases "newline_at t") (auto split: option.split)

lemma cut_lines_append:
  "cut_lines (s @ t) = (let (ls, rest) = cut_lines s; (ms, rest') = cut_lines (rest @ t) in (ls @ ms, rest'))"
proof (induction s rule: cut_lines.induct)
  case (1 s)
  show ?case
  proof (cases "newline_at s")
    case (Some p)
    have at: "newline_at (s @ t) = Some p" using Some by (simp add: newline_at_append)
    have p: "p < length s" by (rule newline_at_less [OF Some])
    show ?thesis
      using 1(2,3) [OF Some] at p Some
      by (auto simp: cut_lines.simps [of s] cut_lines.simps [of "s @ t"] Let_def split: prod.splits)
  next
    case None
    show ?thesis
    proof (cases "512 < length s")
      case True
      have far: "\<And>p. newline_at (s @ t) = Some p \<Longrightarrow> \<not> p \<le> 512"
        using True None by (auto simp: newline_at_append)
      show ?thesis
        using 1(1) [OF None True] True None far
        by (auto simp: cut_lines.simps [of s] cut_lines.simps [of "s @ t"] Let_def split: prod.splits option.splits)
    qed (simp add: cut_lines.simps [of s] None split: prod.split)
  qed
qed

definition pending :: "output_reader \<Rightarrow> string" where
  "pending r = drop (or_line_start r) (or_buffer r)"

section \<open>Without a limit every line is passed on\<close>

abbreviation unlimited :: "reader_env \<Rightarrow> bool" where
  "unlimited e \<equiv> \<not> (ro_enabled e \<and> 0 < ro_interval e)"

lemma pass_line_sent: "unlimited e \<Longrightarrow> or_sent (pass_line e b s r) = or_sent r @ [shown s]"
  by (auto simp: pass_line_def allow_ratelimit_def Let_def)

lemma take_lines_spec:
  "unlimited e \<Longrightarrow> or_line_start r \<le> length (or_buffer r) \<Longrightarrow>
     or_sent (take_lines e r) = or_sent r @ map shown (fst (cut_lines (pending r))) \<and>
     pending (take_lines e r) = snd (cut_lines (pending r)) \<and>
     or_line_start (take_lines e r) \<le> length (or_buffer (take_lines e r))"
proof (induction e r rule: take_lines.induct)
  case (1 e r)
  let ?rest = "drop (or_line_start r) (or_buffer r)"
  have next_pending: "pending (advance_line n (pass_line e b s r)) = drop n ?rest" for n b s
    by (simp add: pending_def add.commute)
  have sent: "or_sent (advance_line n (pass_line e b s r)) = or_sent r @ [shown s]" for n b s
    using pass_line_sent [OF 1(4)] by (simp add: advance_line_def)
  show ?case
  proof (cases "newline_at ?rest")
    case (Some p)
    have p: "p < length ?rest" by (rule newline_at_less [OF Some])
    show ?thesis
      using 1(2,3) [OF refl Some] 1(4) p Some
      by (auto simp: take_lines.simps [of e r] cut_lines.simps [of ?rest] Let_def sent next_pending
          pending_def [of r])
  next
    case None
    show ?thesis
      using 1(1) [OF refl None] 1(4,5) None
      by (auto simp: take_lines.simps [of e r] cut_lines.simps [of ?rest] Let_def sent next_pending
          pending_def [of r])
  qed
qed

lemma read_output_spec:
  assumes "unlimited e" and "or_line_start r \<le> length (or_buffer r)"
  shows "or_sent (read_output e chunk r) = or_sent r @ map shown (fst (cut_lines (pending r @ chunk))) \<and>
     pending (read_output e chunk r) = snd (cut_lines (pending r @ chunk)) \<and>
     or_line_start (read_output e chunk r) \<le> length (or_buffer (read_output e chunk r))"
  using take_lines_spec [OF assms(1), of "r\<lparr>or_buffer := or_buffer r @ chunk\<rparr>"] assms(2)
  by (simp add: read_output_def Let_def pending_def)

lemma rest_of_lines: "newline_at (snd (cut_lines s)) = None \<and> length (snd (cut_lines s)) \<le> 512"
proof (induction s rule: cut_lines.induct)
  case (1 s)
  then show ?case by (auto simp: cut_lines.simps [of s] split: option.split)
qed

lemma run_output_spec:
  "unlimited e \<Longrightarrow> or_line_start r \<le> length (or_buffer r) \<Longrightarrow>
   newline_at (pending r) = None \<Longrightarrow> length (pending r) \<le> 512 \<Longrightarrow>
     or_sent (run_output e (map Inr chunks) r) =
       (let (ls, rest) = cut_lines (pending r @ concat chunks)
        in or_sent r @ map shown ls @ (if rest = [] then [] else [shown rest]))"
proof (induction chunks arbitrary: r)
  case Nil
  then have "cut_lines (pending r) = ([], pending r)" by (subst cut_lines.simps) simp
  then show ?case by (auto simp: end_output_def pending_def)
next
  case (Cons chunk chunks)
  have rest: "newline_at (snd (cut_lines s)) = None \<and> length (snd (cut_lines s)) \<le> 512" for s
    by (rule rest_of_lines)
  note step = read_output_spec [OF Cons.prems(1,2), of chunk]
  have "or_sent (run_output e (map Inr chunks) (read_output e chunk r)) =
      (let (ls, rest) = cut_lines (pending (read_output e chunk r) @ concat chunks)
       in or_sent (read_output e chunk r) @ map shown ls @ (if rest = [] then [] else [shown rest]))"
    by (rule Cons.IH) (use step rest Cons.prems in auto)
  then show ?case
    using step cut_lines_append [of "pending r @ chunk" "concat chunks"]
    by (auto simp: Let_def split: prod.splits)
qed


definition output_sample_env :: reader_env where
  "output_sample_env =
     \<lparr>ro_enabled = False, ro_lines = 10, ro_interval = 1, ro_clock = \<lambda>n. 0, ro_strip_ansi = False,
      ro_done = Some [''ok'']\<rparr>"


section \<open>The rate limit\<close>

fun ask_many :: "reader_env \<Rightarrow> nat \<Rightarrow> ratelimit \<Rightarrow> bool list" where
  "ask_many e 0 l = []"
| "ask_many e (Suc n) l = (case allow_ratelimit e l of (a, notice, l) \<Rightarrow> a # ask_many e n l)"

text \<open>
  Of the lines that come within one interval, exactly those below the configured
  number pass, less the ones counted before; all others are dropped until the interval
  is over.
\<close>

theorem throttle_bounds_burst:
  assumes "ro_enabled e" and "0 < ro_interval e" and "unat (rl_counter l) + n < 18446744073709551616"
    and "\<And>i. rl_asked l < i \<Longrightarrow> i \<le> rl_asked l + n \<Longrightarrow>
           ro_clock e i - rl_start l < unat (ro_interval e) * 1000000000"
  shows "ask_many e n l = replicate (min n (unat (ro_lines e) - 1 - unat (rl_counter l))) True @
     replicate (n - (unat (ro_lines e) - 1 - unat (rl_counter l))) False"
  using assms(3,4)
proof (induction n arbitrary: l)
  case (Suc n)
  let ?l = "l\<lparr>rl_counter := rl_counter l + 1, rl_asked := rl_asked l + 1\<rparr>"
  have count: "unat (rl_counter l + 1) = unat (rl_counter l) + 1"
    using unat_plus_small [of "rl_counter l" 1] Suc.prems(1) by simp
  have early: "ro_clock e (Suc (rl_asked l)) - rl_start l < unat (ro_interval e) * 1000000000"
    using Suc.prems(2) [of "Suc (rl_asked l)"] by simp
  have ask: "allow_ratelimit e l = (\<not> ro_lines e \<le> rl_counter l + 1, ro_lines e \<le> rl_counter l + 1 \<and> rl_counter l + 1 = ro_lines e, ?l)"
    using early assms(1,2) by (auto simp: allow_ratelimit_def Let_def)
  have "ask_many e n ?l = replicate (min n (unat (ro_lines e) - 1 - unat (rl_counter l + 1))) True @
     replicate (n - (unat (ro_lines e) - 1 - unat (rl_counter l + 1))) False"
    using Suc.IH [of ?l] Suc.prems count by simp
  moreover have "ro_lines e \<le> rl_counter l + 1 \<longleftrightarrow> unat (ro_lines e) \<le> unat (rl_counter l) + 1"
    by (simp add: word_le_nat_alt count)
  ultimately show ?case
    unfolding ask_many.simps ask prod.case count
    by (cases "unat (ro_lines e) \<le> unat (rl_counter l) + 1")
      (auto simp: not_le Suc_diff_Suc min_Suc_Suc simp flip: replicate_Suc append_Cons)
qed simp

theorem throttle_bounds_burst_witness:
  "ask_many (output_sample_env\<lparr>ro_enabled := True\<rparr>) 12 \<lparr>rl_counter = 0, rl_start = 0, rl_asked = 0\<rparr>
     = replicate 9 True @ replicate 3 False"
  using throttle_bounds_burst [of "output_sample_env\<lparr>ro_enabled := True\<rparr>"
      "\<lparr>rl_counter = 0, rl_start = 0, rl_asked = 0\<rparr>" 12]
  by (simp add: output_sample_env_def)

section \<open>The end of a start\<close>

lemma set_running: "get_state (set_state Running sv) = Running"
  by (simp add: set_state_def get_state_def emit_def)

lemma server_of_pass:
  "or_server (pass_line e b s r) = (if b then check_startup e (shown s) (or_server r) else or_server r)"
  "or_server (advance_line n r) = or_server r"
  by (simp_all add: pass_line_def advance_line_def Let_def split: prod.split)

lemma take_lines_checked:
  "newline_at (pending r) = Some p \<Longrightarrow> p \<le> 512 \<Longrightarrow>
     take_lines e r = take_lines e (advance_line (Suc p) (pass_line e True (take p (pending r)) r))"
  "newline_at (pending r) = Some p \<Longrightarrow> 512 < p \<Longrightarrow>
     take_lines e r = take_lines e (advance_line 512 (pass_line e True (take 512 (pending r)) r))"
  by (simp_all add: take_lines.simps [of e r] pending_def)

lemma take_lines_unchecked:
  "newline_at (pending r) = None \<Longrightarrow> 512 < length (pending r) \<Longrightarrow>
     take_lines e r = take_lines e (advance_line 512 (pass_line e False (take 512 (pending r)) r))"
  "newline_at (pending r) = None \<Longrightarrow> length (pending r) \<le> 512 \<Longrightarrow> take_lines e r = r"
  by (simp_all add: take_lines.simps [of e r] pending_def)

lemma pending_advance [simp]: "pending (advance_line n (pass_line e b s r)) = drop n (pending r)"
  by (simp add: pending_def add.commute)

lemma server_of_end [simp]:
  "or_server (end_output r) = or_server r" "or_server (read_output e c r) =
     or_server (take_lines e (r\<lparr>or_buffer := or_buffer r @ c\<rparr>))"
  by (simp_all add: end_output_def read_output_def Let_def)

lemma server_after_last_line:
  assumes "newline_at s = None" and "length s \<le> 512" and "pending r = s @ newline"
  shows "or_server (take_lines e r) = check_startup e (shown s) (or_server r)"
  using assms by (simp add: take_lines_checked(1) [of r "length s"] newline_at_append
      take_lines_unchecked(2) server_of_pass)

text \<open>
  A long line whose beginning announces the end of the start is recognised only when
  its newline arrives with it: when the newline comes later, the first 512 bytes are
  passed on without being looked at and the server stays in the starting state.
\<close>

theorem startup_depends_on_pieces:
  assumes "newline_at s = None" and "512 < length s" and "length s \<le> 1024"
    and "get_state sv = Starting" and "ro_done e = Some ds" and "\<not> ro_strip_ansi e"
    and "list_ex (str_contains (shown (take 512 s))) ds"
    and "\<not> list_ex (str_contains (shown (drop 512 s))) ds"
  shows "get_state (or_server (run_output e [Inr (s @ newline)] (new_reader e sv))) = Running \<and>
     get_state (or_server (run_output e [Inr s, Inr newline] (new_reader e sv))) = Starting"
proof -
  let ?r = "new_reader e sv"
  have none: "newline_at (drop 512 s) = None"
    using newline_at_append [of "take 512 s" "drop 512 s"] assms(1) by (simp split: option.splits)
  have fresh: "pending (?r\<lparr>or_buffer := t\<rparr>) = t" "or_server ?r = sv" "or_buffer ?r = []" for t
    by (simp_all add: pending_def new_reader_def)
  have silent: "check_startup e (shown (drop 512 s)) v = v" for v
    using assms(5,6,8) by (simp add: check_startup_def Let_def)
  let ?whole = "?r\<lparr>or_buffer := s @ newline\<rparr>"
  have "take_lines e ?whole = take_lines e (advance_line 512 (pass_line e True (take 512 s) ?whole))"
    using assms(1,2) by (simp add: take_lines_checked(2) [of _ "length s"] newline_at_append fresh)
  moreover have "or_server \<dots> = check_startup e (shown (take 512 s)) sv"
    using server_after_last_line [OF none, of "advance_line 512 (pass_line e True (take 512 s) ?whole)" e] assms(2,3)
    by (simp add: fresh server_of_pass silent)
  ultimately have at_once: "get_state (or_server (run_output e [Inr (s @ newline)] ?r)) = Running"
    using assms(4-7) by (simp add: fresh check_startup_def Let_def set_running)
  let ?first = "advance_line 512 (pass_line e False (take 512 s) (?r\<lparr>or_buffer := s\<rparr>))"
  have first: "take_lines e (?r\<lparr>or_buffer := s\<rparr>) = ?first"
    using assms(1,2,3) none
    by (simp add: take_lines_unchecked(1) fresh take_lines_unchecked(2) [of ?first])
  have "read_output e s ?r = ?first"
    by (simp add: read_output_def fresh first Let_def) (simp add: new_reader_def)
  moreover have "or_server (take_lines e (?first\<lparr>or_buffer := or_buffer ?first @ newline\<rparr>)) = sv"
    using server_after_last_line [OF none, of "?first\<lparr>or_buffer := or_buffer ?first @ newline\<rparr>" e] assms(2,3)
    by (simp add: fresh server_of_pass silent pending_def) (simp add: new_reader_def server_of_pass silent)
  ultimately have "get_state (or_server (run_output e [Inr s, Inr newline] ?r)) = Starting"
    using assms(4) by simp
  then show ?thesis using at_once by blast
qed

theorem startup_depends_on_pieces_witness:
  "get_state (or_server (run_output output_sample_env [Inr ((''ok'' @ replicate 600 CHR ''x'') @ newline)]
     (new_reader output_sample_env (set_state Starting new_lock)))) = Running \<and>
   get_state (or_server (run_output output_sample_env [Inr (''ok'' @ replicate 600 CHR ''x''), Inr newline]
     (new_reader output_sample_env (set_state Starting new_lock)))) = Starting"
proof (rule startup_depends_on_pieces)
  show "newline_at (''ok'' @ replicate 600 CHR ''x'') = None" by code_simp
  show "list_ex (str_contains (shown (take 512 (''ok'' @ replicate 600 CHR ''x'')))) [''ok'']" by code_simp
  show "\<not> list_ex (str_contains (shown (drop 512 (''ok'' @ replicate 600 CHR ''x'')))) [''ok'']" by code_simp
  show "get_state (set_state Starting new_lock) = Starting" by code_simp
qed (simp_all add: output_sample_env_def)

end
