(* ===== verification/Operations.thy ===== *)
theory Operations
  imports Effects Rust_Path Labelled_Steps
begin

text \<open>
  The registry of running file operations (\<open>server/filesystem/operations.rs\<close>). An
  operation is a task that the registry can abort. The task and the call that starts it
  run side by side: the task may end before \<open>add_operation\<close> has inserted its entry, so
  spawning and inserting are separate steps, as are the three things a task does at its
  end. The sending half of the abort channel lives in the entry; until the entry is
  there, it is held by the call.
\<close>

section \<open>Operations\<close>

datatype FilesystemOperation = Compress path | Decompress path path | Pull path

text \<open>The tagged JSON form, with the counters read at that moment.\<close>

fun operation_json :: "FilesystemOperation \<Rightarrow> u64 \<Rightarrow> u64 \<Rightarrow> json" where
  "operation_json (Compress p) n k =
     JObject [(''type'', JString ''compress''), (''path'', JString (path_text p)),
       (''progress'', JInt (uint n)), (''total'', JInt (uint k))]"
| "operation_json (Decompress p d) n k =
     JObject [(''type'', JString ''decompress''), (''path'', JString (path_text p)),
       (''destination'', JString (path_text d)), (''progress'', JInt (uint n)), (''total'', JInt (uint k))]"
| "operation_json (Pull p) n k =
     JObject [(''type'', JString ''pull''), (''path'', JString (path_text p)),
       (''progress'', JInt (uint n)), (''total'', JInt (uint k))]"

text \<open>The errors an operation is known to end with; any other has no message of its own.\<close>

datatype op_error = StrError string | IoError string | ZipError string | SevenZipError string | OtherError

fun error_message :: "op_error \<Rightarrow> string" where
  "error_message (StrError s) = s"
| "error_message (IoError s) = s"
| "error_message (ZipError s) = s"
| "error_message (SevenZipError s) = s"
| "error_message OtherError = ''unknown error''"

text \<open>How the task stands; \<open>None\<close> as the outcome is an abort.\<close>

type_synonym outcome = "(op_error + unit) option"

datatype phase = Working | Decided outcome | Unregistered outcome | Reported outcome

record op_task =
  ot_operation :: FilesystemOperation
  ot_progress :: u64
  ot_total :: u64
  ot_phase :: phase
  ot_abort :: bool

record op_manager =
  om_tasks :: "uuid \<Rightarrow> op_task option"
  om_adding :: "uuid set"
  om_operations :: "uuid \<Rightarrow> FilesystemOperation option"
  om_sent :: "(uuid \<times> WebsocketMessage) list"

definition new_manager :: op_manager where
  "new_manager = \<lparr>om_tasks = Map.empty, om_adding = {}, om_operations = Map.empty, om_sent = []\<rparr>"

text \<open>\<open>to_text\<close> and \<open>uuid_text\<close> print JSON values and identifiers.\<close>

record op_env =
  oe_json_text :: "json \<Rightarrow> string"
  oe_uuid_text :: "uuid \<Rightarrow> string"

definition set_phase :: "uuid \<Rightarrow> op_task \<Rightarrow> phase \<Rightarrow> op_manager \<Rightarrow> op_manager" where
  "set_phase u t p m = m\<lparr>om_tasks := (om_tasks m)(u \<mapsto> t\<lparr>ot_phase := p\<rparr>)\<rparr>"

definition send_about :: "uuid \<Rightarrow> WebsocketMessage \<Rightarrow> op_manager \<Rightarrow> op_manager" where
  "send_about u msg m = m\<lparr>om_sent := om_sent m @ [(u, msg)]\<rparr>"

section \<open>The call of add_operation\<close>

definition spawn_operation :: "uuid \<Rightarrow> FilesystemOperation \<Rightarrow> u64 \<Rightarrow> op_manager \<Rightarrow> op_manager" where
  "spawn_operation u operation n m =
     m\<lparr>om_tasks := (om_tasks m)(u \<mapsto>
         \<lparr>ot_operation = operation, ot_progress = 0, ot_total = n, ot_phase = Working, ot_abort = False\<rparr>),
       om_adding := insert u (om_adding m)\<rparr>"

definition insert_operation :: "uuid \<Rightarrow> op_task \<Rightarrow> op_manager \<Rightarrow> op_manager" where
  "insert_operation u t m =
     m\<lparr>om_operations := (om_operations m)(u \<mapsto> ot_operation t), om_adding := om_adding m - {u}\<rparr>"

text \<open>The call is given up before it inserts: the sender is dropped, which ends the channel.\<close>

definition drop_call :: "uuid \<Rightarrow> op_task \<Rightarrow> op_manager \<Rightarrow> op_manager" where
  "drop_call u t m =
     m\<lparr>om_tasks := (om_tasks m)(u \<mapsto> t\<lparr>ot_abort := True\<rparr>), om_adding := om_adding m - {u}\<rparr>"

text \<open>The call as it runs when the task has not ended before the entry is there.\<close>

definition add_operation :: "uuid \<Rightarrow> FilesystemOperation \<Rightarrow> u64 \<Rightarrow> op_manager \<Rightarrow> op_manager" where
  "add_operation u operation n m =
     (let m = spawn_operation u operation n m in
      case om_tasks m u of Some t \<Rightarrow> insert_operation u t m | None \<Rightarrow> m)"

section \<open>The task\<close>

definition report_progress :: "op_env \<Rightarrow> uuid \<Rightarrow> op_task \<Rightarrow> op_manager \<Rightarrow> op_manager" where
  "report_progress e u t =
     send_about u (new_message ServerOperationProgress
       [oe_uuid_text e u, oe_json_text e (operation_json (ot_operation t) (ot_progress t) (ot_total t))])"

definition count_progress :: "uuid \<Rightarrow> op_task \<Rightarrow> u64 \<Rightarrow> op_manager \<Rightarrow> op_manager" where
  "count_progress u t n m = m\<lparr>om_tasks := (om_tasks m)(u \<mapsto> t\<lparr>ot_progress := ot_progress t + n\<rparr>)\<rparr>"

definition unregister :: "uuid \<Rightarrow> op_task \<Rightarrow> outcome \<Rightarrow> op_manager \<Rightarrow> op_manager" where
  "unregister u t r m = set_phase u t (Unregistered r) (m\<lparr>om_operations := (om_operations m)(u := None)\<rparr>)"

definition end_message :: "op_env \<Rightarrow> uuid \<Rightarrow> outcome \<Rightarrow> WebsocketMessage" where
  "end_message e u r =
     (case r of
        Some (Inl err) \<Rightarrow> new_message ServerOperationError [oe_uuid_text e u, error_message err]
      | _ \<Rightarrow> new_message ServerOperationCompleted [oe_uuid_text e u])"

definition report_end :: "op_env \<Rightarrow> uuid \<Rightarrow> op_task \<Rightarrow> outcome \<Rightarrow> op_manager \<Rightarrow> op_manager" where
  "report_end e u t r m = set_phase u t (Reported r) (send_about u (end_message e u r) m)"

section \<open>Aborting\<close>

definition abort_operation :: "uuid \<Rightarrow> op_manager \<Rightarrow> bool \<times> op_manager" where
  "abort_operation u m =
     (case om_operations m u of
        None \<Rightarrow> (False, m)
      | Some _ \<Rightarrow>
          (True, m\<lparr>om_operations := (om_operations m)(u := None),
                   om_tasks := (om_tasks m)(u := map_option (\<lambda>t. t\<lparr>ot_abort := True\<rparr>) (om_tasks m u))\<rparr>))"

text \<open>The response of the route that aborts an operation.\<close>

definition abort_route :: "uuid \<Rightarrow> op_manager \<Rightarrow> (string + unit) \<times> op_manager" where
  "abort_route u m =
     (case abort_operation u m of
        (True, m) \<Rightarrow> (Inr (), m) | (False, m) \<Rightarrow> (Inl ''operation not found'', m))"

section \<open>Steps\<close>

datatype op_label = Call uuid | Task uuid | Abort uuid

inductive om_step :: "op_env \<Rightarrow> op_label \<Rightarrow> op_manager \<Rightarrow> op_manager \<Rightarrow> bool" for e where
  s_spawn: "om_tasks m u = None \<Longrightarrow> om_step e (Call u) m (spawn_operation u operation n m)"
| s_insert: "om_tasks m u = Some t \<Longrightarrow> u \<in> om_adding m \<Longrightarrow> om_step e (Call u) m (insert_operation u t m)"
| s_drop: "om_tasks m u = Some t \<Longrightarrow> u \<in> om_adding m \<Longrightarrow> om_step e (Call u) m (drop_call u t m)"
| s_progress: "om_tasks m u = Some t \<Longrightarrow> ot_phase t = Working \<Longrightarrow> om_step e (Task u) m (report_progress e u t m)"
| s_count: "om_tasks m u = Some t \<Longrightarrow> ot_phase t = Working \<Longrightarrow> om_step e (Task u) m (count_progress u t n m)"
| s_finish: "om_tasks m u = Some t \<Longrightarrow> ot_phase t = Working \<Longrightarrow>
    om_step e (Task u) m (set_phase u t (Decided (Some r)) m)"
| s_aborted: "om_tasks m u = Some t \<Longrightarrow> ot_phase t = Working \<Longrightarrow> ot_abort t \<Longrightarrow>
    om_step e (Task u) m (set_phase u t (Decided None) m)"
| s_unregister: "om_tasks m u = Some t \<Longrightarrow> ot_phase t = Decided r \<Longrightarrow>
    om_step e (Task u) m (unregister u t r m)"
| s_report: "om_tasks m u = Some t \<Longrightarrow> ot_phase t = Unregistered r \<Longrightarrow>
    om_step e (Task u) m (report_end e u t r m)"
| s_abort: "om_step e (Abort u) m (snd (abort_operation u m))"

definition om_reachable :: "op_env \<Rightarrow> op_manager \<Rightarrow> bool" where
  "om_reachable e m \<longleftrightarrow> (steps_of (om_step e) UNIV)\<^sup>*\<^sup>* new_manager m"

lemmas om_defs =
  set_phase_def send_about_def spawn_operation_def insert_operation_def drop_call_def report_progress_def
  count_progress_def unregister_def report_end_def

inductive_cases om_stepE: "om_step e l m m'"

section \<open>What is always true\<close>

definition told :: "uuid \<Rightarrow> op_manager \<Rightarrow> WebsocketMessage list" where
  "told u m = map snd (filter (\<lambda>x. fst x = u) (om_sent m))"

definition messages_ok :: "op_env \<Rightarrow> uuid \<Rightarrow> phase \<Rightarrow> WebsocketMessage list \<Rightarrow> bool" where
  "messages_ok e u p ms \<longleftrightarrow>
     (\<exists>ps. ms = ps @ (case p of Reported r \<Rightarrow> [end_message e u r] | _ \<Rightarrow> []) \<and>
           list_all (\<lambda>m. event m = ServerOperationProgress) ps)"

text \<open>
  Of one identifier: its task, whether a call is adding it, its entry and what was told
  about it. An entry or a call in progress belongs to a task that nobody has aborted.
\<close>

fun op_ok ::
  "op_env \<Rightarrow> uuid \<Rightarrow> op_task option \<Rightarrow> bool \<Rightarrow> FilesystemOperation option \<Rightarrow> WebsocketMessage list \<Rightarrow> bool" where
  "op_ok e u None adding entry ms \<longleftrightarrow> \<not> adding \<and> entry = None \<and> ms = []"
| "op_ok e u (Some t) adding entry ms \<longleftrightarrow>
     (adding \<longrightarrow> entry = None \<and> \<not> ot_abort t) \<and>
     (entry \<noteq> None \<longrightarrow> entry = Some (ot_operation t) \<and> \<not> ot_abort t) \<and>
     messages_ok e u (ot_phase t) ms"

definition om_ok :: "op_env \<Rightarrow> op_manager \<Rightarrow> bool" where
  "om_ok e m \<longleftrightarrow> (\<forall>u. op_ok e u (om_tasks m u) (u \<in> om_adding m) (om_operations m u) (told u m))"

lemma told_simps [simp]:
  "told u (m\<lparr>om_tasks := ts\<rparr>) = told u m" "told u (m\<lparr>om_adding := us\<rparr>) = told u m"
  "told u (m\<lparr>om_operations := os\<rparr>) = told u m"
  "told u (m\<lparr>om_sent := om_sent m @ [(v, msg)]\<rparr>) = told u m @ (if v = u then [msg] else [])"
  by (simp_all add: told_def)

lemma messages_ok_new [simp]: "messages_ok e u Working []"
  by (simp add: messages_ok_def)

lemma messages_ok_progress:
  "messages_ok e u Working ms \<Longrightarrow> event msg = ServerOperationProgress \<Longrightarrow> messages_ok e u Working (ms @ [msg])"
  by (simp add: messages_ok_def)

lemma messages_ok_same:
  "messages_ok e u p ms \<Longrightarrow> (\<And>r. p \<noteq> Reported r) \<Longrightarrow> (\<And>r. q \<noteq> Reported r) \<Longrightarrow> messages_ok e u q ms"
  by (cases p; cases q) (auto simp: messages_ok_def)

lemma messages_ok_end:
  "messages_ok e u (Unregistered r) ms \<Longrightarrow> messages_ok e u (Reported r) (ms @ [end_message e u r])"
  by (simp add: messages_ok_def)

fun label_uuid :: "op_label \<Rightarrow> uuid" where
  "label_uuid (Call u) = u"
| "label_uuid (Task u) = u"
| "label_uuid (Abort u) = u"

text \<open>A step concerns one operation only.\<close>

lemma step_is_local:
  assumes "om_step e l m m'" and "v \<noteq> label_uuid l"
  shows "om_tasks m' v = om_tasks m v" and "v \<in> om_adding m' \<longleftrightarrow> v \<in> om_adding m"
    and "om_operations m' v = om_operations m v" and "told v m' = told v m"
  using assms by (cases; auto simp: om_defs abort_operation_def split: option.splits)+

lemma step_keeps_ok:
  assumes "om_step e l m m'" and "om_ok e m"
  shows "om_ok e m'"
proof -
  have "op_ok e v (om_tasks m' v) (v \<in> om_adding m') (om_operations m' v) (told v m')" for v
  proof (cases "v = label_uuid l")
    case True
    have ok: "op_ok e v (om_tasks m v) (v \<in> om_adding m) (om_operations m v) (told v m)"
      using assms(2) by (simp add: om_ok_def)
    show ?thesis
      using assms(1)
    proof cases
      case (s_report u t r)
      then show ?thesis using ok True by (simp add: om_defs messages_ok_end)
    next
      case (s_abort u)
      then show ?thesis
        using ok True by (cases "om_tasks m u") (auto simp: abort_operation_def split: option.splits)
    qed (use ok True in \<open>auto simp: om_defs messages_ok_progress new_message_def elim: messages_ok_same
        split: option.splits\<close>)
  next
    case False
    then show ?thesis
      using step_is_local [OF assms(1) False] assms(2) by (simp add: om_ok_def)
  qed
  then show ?thesis by (simp add: om_ok_def)
qed


interpretation registry: kept_by_steps "om_step e" UNIV "om_ok e" for e
  by unfold_locales (rule step_keeps_ok)

lemma reachable_ok: "om_reachable e m \<Longrightarrow> om_ok e m"
  unfolding om_reachable_def
  by (erule registry.always) (simp add: om_ok_def new_manager_def told_def)

lemma reachable_step: "om_reachable e m \<Longrightarrow> om_step e l m m' \<Longrightarrow> om_reachable e m'"
  unfolding om_reachable_def
  by (rule rtranclp.rtrancl_into_rtrancl, assumption) (auto simp: steps_of_def)

lemma end_is_told: "om_reachable e m \<Longrightarrow> om_tasks m u = Some t \<Longrightarrow> ot_phase t = Reported r \<Longrightarrow> told u m \<noteq> []"
  using reachable_ok [of e m] unfolding om_ok_def by (auto simp: messages_ok_def dest!: spec [of _ u])

section \<open>Properties\<close>

text \<open>
  C31: What is told about an operation is its progress and then, exactly when it has
  ended, one message of its end: an error for an operation that failed, the completion
  for one that succeeded and for one that was aborted.
\<close>

theorem operation_told_once:
  assumes "om_reachable e m" and "om_tasks m u = Some t"
  shows "\<exists>ps. told u m = ps @ (case ot_phase t of Reported r \<Rightarrow> [end_message e u r] | _ \<Rightarrow> []) \<and>
     list_all (\<lambda>msg. event msg = ServerOperationProgress) ps"
proof -
  have "op_ok e u (om_tasks m u) (u \<in> om_adding m) (om_operations m u) (told u m)"
    using reachable_ok [OF assms(1)] by (simp add: om_ok_def)
  then show ?thesis using assms(2) by (simp add: messages_ok_def)
qed

text \<open>An aborted operation: no entry, no call, and the abort stays set.\<close>

definition aborted :: "uuid \<Rightarrow> op_manager \<Rightarrow> bool" where
  "aborted u m \<longleftrightarrow> (\<exists>t. om_tasks m u = Some t \<and> ot_abort t)"

lemma step_keeps_aborted:
  assumes "om_step e l m m'" and "aborted u m"
  shows "aborted u m'"
proof (cases "u = label_uuid l")
  case True
  show ?thesis
    using assms(1) True assms(2)
    by cases (auto simp: aborted_def om_defs abort_operation_def split: option.splits)
qed (use step_is_local [OF assms(1)] assms(2) in \<open>simp add: aborted_def\<close>)

interpretation stopping: kept_by_steps "om_step e" UNIV "\<lambda>m. om_ok e m \<and> aborted u m" for e u
  by unfold_locales (blast intro: step_keeps_ok step_keeps_aborted)

lemma aborted_no_entry: "om_ok e m \<Longrightarrow> aborted u m \<Longrightarrow> om_operations m u = None"
  unfolding om_ok_def by (drule spec [of _ u]) (auto simp: aborted_def)

lemma abort_marks:
  assumes "om_reachable e m" and "fst (abort_operation u m)"
  obtains t where "om_tasks (snd (abort_operation u m)) u = Some t" and "ot_abort t"
    and "om_reachable e (snd (abort_operation u m))"
proof -
  have ok: "op_ok e u (om_tasks m u) (u \<in> om_adding m) (om_operations m u) (told u m)"
    using reachable_ok [OF assms(1)] by (simp add: om_ok_def)
  have "aborted u (snd (abort_operation u m))"
    using assms(2) ok by (cases "om_tasks m u") (auto simp: abort_operation_def aborted_def split: option.splits)
  then show ?thesis
    using that reachable_step [OF assms(1) s_abort] unfolding aborted_def by blast
qed

text \<open>
  An abort that was accepted is final: whatever happens afterwards, the operation
  is not in the registry again and a second abort finds nothing.
\<close>

theorem abort_is_final:
  assumes "om_reachable e m" and "fst (abort_operation u m)"
    and "(steps_of (om_step e) UNIV)\<^sup>*\<^sup>* (snd (abort_operation u m)) m'"
  shows "om_operations m' u = None \<and> fst (abort_route u m') = Inl ''operation not found''"
proof -
  obtain t where "om_tasks (snd (abort_operation u m)) u = Some t" "ot_abort t"
    and "om_reachable e (snd (abort_operation u m))"
    by (rule abort_marks [OF assms(1,2)])
  then have "om_ok e m' \<and> aborted u m'"
    using stopping.always [OF assms(3)] reachable_ok by (auto simp: aborted_def)
  then show ?thesis
    using aborted_no_entry [of e m' u] by (simp add: abort_route_def abort_operation_def)
qed

subsection \<open>Operations end\<close>

lemma task_step: "om_step e (Task u) m m' \<Longrightarrow> steps_of (om_step e) {Task u} m m'"
  by (simp add: steps_of_def)

lemma set_phase_task [simp]: "om_tasks (set_phase u t p m) u = Some (t\<lparr>ot_phase := p\<rparr>)"
  by (simp add: set_phase_def)

lemma decided_ends:
  assumes "om_tasks m u = Some t" and "ot_phase t = Decided r"
  shows "\<exists>m' t'. (steps_of (om_step e) {Task u})\<^sup>*\<^sup>* m m' \<and> om_tasks m' u = Some t' \<and> ot_phase t' = Reported r"
proof -
  let ?t = "t\<lparr>ot_phase := Unregistered r\<rparr>"
  have un: "om_tasks (unregister u t r m) u = Some ?t" by (simp add: unregister_def)
  have "om_step e (Task u) m (unregister u t r m)" by (rule s_unregister [OF assms])
  moreover have "om_step e (Task u) (unregister u t r m) (report_end e u ?t r (unregister u t r m))"
    by (rule s_report [OF un]) simp
  moreover have "om_tasks (report_end e u ?t r (unregister u t r m)) u = Some (?t\<lparr>ot_phase := Reported r\<rparr>)"
    by (simp add: report_end_def)
  ultimately show ?thesis
    by (metis task_step converse_rtranclp_into_rtranclp rtranclp.rtrancl_refl
        op_task.select_convs(4) op_task.surjective op_task.update_convs(4))
qed

lemma one_then: "r s t \<Longrightarrow> \<exists>u. r\<^sup>*\<^sup>* t u \<and> P u \<Longrightarrow> \<exists>u. r\<^sup>*\<^sup>* s u \<and> P u"
  by (meson converse_rtranclp_into_rtranclp)

text \<open>
  An operation whose abort was accepted can always end by steps of its own, without
  its work being done: nothing else has to happen for its end to be reported.
\<close>

theorem aborted_operation_can_end:
  assumes "om_reachable e m" and "fst (abort_operation u m)"
  shows "\<exists>m' t r. (steps_of (om_step e) {Task u})\<^sup>*\<^sup>* (snd (abort_operation u m)) m' \<and>
     om_tasks m' u = Some t \<and> ot_phase t = Reported r \<and> told u m' \<noteq> []"
proof -
  let ?m = "snd (abort_operation u m)"
  obtain t where t: "om_tasks ?m u = Some t" "ot_abort t" and reach: "om_reachable e ?m"
    by (rule abort_marks [OF assms])
  have "\<exists>m' t' r. (steps_of (om_step e) {Task u})\<^sup>*\<^sup>* ?m m' \<and> om_tasks m' u = Some t' \<and> ot_phase t' = Reported r"
  proof (cases "ot_phase t")
    case Working
    have "om_step e (Task u) ?m (set_phase u t (Decided None) ?m)" by (rule s_aborted [OF t(1) Working t(2)])
    moreover have "\<exists>m' t'. (steps_of (om_step e) {Task u})\<^sup>*\<^sup>* (set_phase u t (Decided None) ?m) m' \<and>
        om_tasks m' u = Some t' \<and> ot_phase t' = Reported None"
      by (rule decided_ends [OF set_phase_task]) simp
    ultimately show ?thesis by (meson task_step converse_rtranclp_into_rtranclp)
  next
    case (Decided r)
    then show ?thesis using decided_ends [OF t(1) Decided] by blast
  next
    case (Unregistered r)
    have "om_step e (Task u) ?m (report_end e u t r ?m)" by (rule s_report [OF t(1) Unregistered])
    moreover have "om_tasks (report_end e u t r ?m) u = Some (t\<lparr>ot_phase := Reported r\<rparr>)"
      by (simp add: report_end_def)
    ultimately show ?thesis
      by (metis task_step r_into_rtranclp op_task.select_convs(4) op_task.surjective op_task.update_convs(4))
  qed (use t in blast)
  then obtain m' t' r where m': "(steps_of (om_step e) {Task u})\<^sup>*\<^sup>* ?m m'" "om_tasks m' u = Some t'" "ot_phase t' = Reported r"
    by blast
  have "(steps_of (om_step e) UNIV)\<^sup>*\<^sup>* ?m m'"
    using rtranclp_mono [OF steps_of_mono [of "{Task u}" UNIV "om_step e"]] m'(1) by blast
  then have "om_reachable e m'" using reach unfolding om_reachable_def by simp
  then show ?thesis using end_is_told m' by blast
qed


subsection \<open>An operation that ends early\<close>

lemma entry_without_abort:
  assumes "om_step e l m m'" and "l \<noteq> Abort u" and "om_tasks m u = Some t" and "ot_phase t = Reported r"
    and "om_operations m u \<noteq> None"
  shows "\<exists>t r. om_tasks m' u = Some t \<and> ot_phase t = Reported r \<and> om_operations m' u \<noteq> None"
proof (cases "u = label_uuid l")
  case True
  show ?thesis
    using assms(1) True assms(2-5) by cases (auto simp: om_defs)
qed (use step_is_local [OF assms(1)] assms(3-5) in simp)

interpretation leftover: kept_by_steps "om_step e" "- {Abort u}"
    "\<lambda>m. \<exists>t r. om_tasks m u = Some t \<and> ot_phase t = Reported r \<and> om_operations m u \<noteq> None" for e u
  by unfold_locales (auto dest: entry_without_abort)

text \<open>
  An operation that ends before its entry is inserted leaves the entry behind: it is
  registered after its end has been reported, and stays so until someone aborts it.
\<close>

theorem early_end_leaves_entry:
  assumes "om_tasks m0 u = None" and "om_reachable e m0"
  shows "\<exists>m. (steps_of (om_step e) (- {Abort u}))\<^sup>*\<^sup>* m0 m \<and> told u m = [end_message e u (Some r)] \<and>
     (\<forall>m'. (steps_of (om_step e) (- {Abort u}))\<^sup>*\<^sup>* m m' \<longrightarrow> om_operations m' u \<noteq> None)"
proof -
  let ?s = "steps_of (om_step e) (- {Abort u})"
  let ?m1 = "spawn_operation u operation n m0"
  let ?t = "\<lparr>ot_operation = operation, ot_progress = 0, ot_total = n, ot_phase = Working, ot_abort = False\<rparr>"
  let ?m2 = "set_phase u ?t (Decided (Some r)) ?m1"
  let ?t2 = "?t\<lparr>ot_phase := Decided (Some r)\<rparr>"
  let ?m3 = "unregister u ?t2 (Some r) ?m2"
  let ?t3 = "?t\<lparr>ot_phase := Unregistered (Some r)\<rparr>"
  let ?m4 = "report_end e u ?t3 (Some r) ?m3"
  let ?t4 = "?t\<lparr>ot_phase := Reported (Some r)\<rparr>"
  let ?m5 = "insert_operation u ?t4 ?m4"
  have step: "?s a b" if "om_step e l a b" "l \<noteq> Abort u" for a b l
    using that by (auto simp: steps_of_def)
  have "?s m0 ?m1" by (rule step [OF s_spawn [OF assms(1)]]) simp
  moreover have "?s ?m1 ?m2" by (rule step [OF s_finish]) (simp_all add: spawn_operation_def)
  moreover have "?s ?m2 ?m3" by (rule step [OF s_unregister]) (simp_all add: om_defs)
  moreover have "?s ?m3 ?m4" by (rule step [OF s_report]) (simp_all add: om_defs)
  moreover have "?s ?m4 ?m5" by (rule step [OF s_insert]) (simp_all add: om_defs)
  ultimately have run: "?s\<^sup>*\<^sup>* m0 ?m5"
    by (meson converse_rtranclp_into_rtranclp rtranclp.rtrancl_refl)
  have "told u m0 = []" using reachable_ok [OF assms(2)] assms(1) by (auto simp: om_ok_def dest!: spec [of _ u])
  then have told: "told u ?m5 = [end_message e u (Some r)]" by (simp add: om_defs)
  have "om_operations m' u \<noteq> None" if "?s\<^sup>*\<^sup>* ?m5 m'" for m'
    using leftover.always [OF that] by (auto simp: om_defs)
  then show ?thesis using run told by blast
qed

section \<open>Examples\<close>

definition op_sample_env :: op_env where
  "op_sample_env = \<lparr>oe_json_text = \<lambda>j. ''{}'', oe_uuid_text = \<lambda>u. nat_to_string (unat u)\<rparr>"

definition op_sample :: op_manager where
  "op_sample =
     (let m = spawn_operation 7 (Pull [Normal ''a'']) 10 new_manager
      in insert_operation 7 (the (om_tasks m 7)) m)"

lemma op_sample_reachable: "om_reachable e op_sample"
proof -
  have "om_reachable e new_manager" by (simp add: om_reachable_def)
  then have "om_reachable e (spawn_operation 7 (Pull [Normal ''a'']) 10 new_manager)"
    by (rule reachable_step) (rule s_spawn, simp add: new_manager_def)
  then show ?thesis
    unfolding op_sample_def Let_def
    by (rule reachable_step) (rule s_insert, simp_all add: spawn_operation_def)
qed

theorem operation_told_once_witness: "told 7 op_sample = []"
proof -
  obtain t where t: "om_tasks op_sample 7 = Some t" by (simp add: op_sample_def om_defs)
  show ?thesis
    using operation_told_once [OF op_sample_reachable t]
    by (simp add: op_sample_def om_defs told_def new_manager_def)
qed

theorem abort_is_final_witness:
  "fst (abort_route 7 (snd (abort_operation 7 op_sample))) = Inl ''operation not found''"
  by (rule abort_is_final [THEN conjunct2, OF op_sample_reachable [of op_sample_env] _ rtranclp.rtrancl_refl])
    (simp add: op_sample_def om_defs abort_operation_def)

theorem aborted_operation_can_end_witness:
  "\<exists>m' t r. (steps_of (om_step op_sample_env) {Task 7})\<^sup>*\<^sup>* (snd (abort_operation 7 op_sample)) m' \<and>
     om_tasks m' 7 = Some t \<and> ot_phase t = Reported r \<and> told 7 m' \<noteq> []"
  by (rule aborted_operation_can_end [OF op_sample_reachable])
    (simp add: op_sample_def om_defs abort_operation_def)

theorem early_end_leaves_entry_witness:
  "\<exists>m. (steps_of (om_step op_sample_env) (- {Abort 8}))\<^sup>*\<^sup>* op_sample m \<and>
     told 8 m = [new_message ServerOperationCompleted [''8'']] \<and>
     (\<forall>m'. (steps_of (om_step op_sample_env) (- {Abort 8}))\<^sup>*\<^sup>* m m' \<longrightarrow> om_operations m' 8 \<noteq> None)"
proof -
  have "oe_uuid_text op_sample_env 8 = ''8''" by code_simp
  then show ?thesis
    using early_end_leaves_entry [of op_sample 8 op_sample_env "Inr ()"] op_sample_reachable [of op_sample_env]
    by (simp add: end_message_def op_sample_def om_defs new_manager_def)
qed

end
