(* ===== verification/Pulls.thy ===== *)
theory Pulls
  imports Operations File_Routes_Safety
begin

text \<open>
  Downloads into a server's files: \<open>server/filesystem/pull\<close> (the checks of the address,
  the name of the file, the download itself), and the routes that start, list and stop
  them (\<open>routes/api/servers/_server_/files/pull\<close>).

  Parameters are the URL parser, the parser of IP addresses, the request with its
  redirections, the parser of the \<open>Content-Disposition\<close> header and the writer of theory
  \<open>Fs_Writer\<close> through its results. An address range is the set of its addresses.
\<close>

section \<open>Requests\<close>

text \<open>
  \<open>rs_segments\<close>: the path segments of the address the answer came from; headers are
  \<open>None\<close> when absent or not text.
\<close>

record pull_response =
  rs_success :: bool
  rs_status :: string
  rs_disposition :: "string option"
  rs_segments :: "string list option"
  rs_content_length :: "u64 option"
  rs_length_header :: "string option"
  rs_chunks :: "string result list"

record 'ip pull_env =
  pe_host :: "string \<Rightarrow> string option result"
  pe_parse_ip :: "string \<Rightarrow> 'ip option"
  pe_ip_text :: "'ip \<Rightarrow> string"
  pe_blocked_cidrs :: "('ip \<Rightarrow> bool) list"
  pe_send :: "string \<Rightarrow> pull_response result"
  pe_filename_full :: "string \<Rightarrow> string option"
  pe_random :: string
  pe_disabled :: bool
  pe_limit :: u64

record Download =
  dl_progress :: u64
  dl_total :: u64
  dl_destination :: path
  dl_response :: pull_response

definition ip_blocked :: "'ip pull_env \<Rightarrow> 'ip \<Rightarrow> bool" where
  "ip_blocked p ip \<longleftrightarrow> list_ex (\<lambda>cidr. cidr ip) (pe_blocked_cidrs p)"

text \<open>The check of an address that names its host by number.\<close>

definition check_host :: "'ip pull_env \<Rightarrow> string \<Rightarrow> unit result" where
  "check_host p url =
     (case pe_host p url of
        Inl err \<Rightarrow> Inl ''failed to parse download URL''
      | Inr None \<Rightarrow> Inr ()
      | Inr (Some host) \<Rightarrow>
          (case pe_parse_ip p host of
             None \<Rightarrow> Inr ()
           | Some ip \<Rightarrow>
               if ip_blocked p ip then Inl (''IP address '' @ pe_ip_text p ip @ '' is blocked'') else Inr ()))"

text \<open>\<open>SocketAddrs::next\<close>: the next address no range contains; \<open>next_addresses\<close> runs it to the end.\<close>

fun next_address :: "'ip pull_env \<Rightarrow> 'ip list \<Rightarrow> ('ip \<times> 'ip list) option" where
  "next_address p [] = None"
| "next_address p (ip # ips) = (if ip_blocked p ip then next_address p ips else Some (ip, ips))"

lemma next_address_shorter: "next_address p ips = Some (ip, rest) \<Longrightarrow> length rest < length ips"
  by (induction ips) (auto split: if_splits)

function resolved_addresses :: "'ip pull_env \<Rightarrow> 'ip list \<Rightarrow> 'ip list" where
  "resolved_addresses p ips =
     (case next_address p ips of None \<Rightarrow> [] | Some (ip, rest) \<Rightarrow> ip # resolved_addresses p rest)"
  by pat_completeness auto
termination
  by (relation "measure (\<lambda>(p, ips). length ips)") (auto dest: next_address_shorter)

declare resolved_addresses.simps [simp del]

section \<open>The name of the file\<close>

definition last_segment :: "'ip pull_env \<Rightarrow> pull_response \<Rightarrow> string" where
  "last_segment p rs =
     (case rs_segments rs of
        Some segments \<Rightarrow> if segments = [] then ''download_'' @ pe_random p else last segments
      | None \<Rightarrow> ''download_'' @ pe_random p)"

definition pull_name :: "'ip pull_env \<Rightarrow> pull_response \<Rightarrow> string option \<Rightarrow> bool \<Rightarrow> string" where
  "pull_name p rs wanted use_header =
     (if use_header then
        (case Option.bind (rs_disposition rs) (pe_filename_full p) of
           Some n \<Rightarrow> n | None \<Rightarrow> last_segment p rs)
      else case wanted of Some n \<Rightarrow> n | None \<Rightarrow> last_segment p rs)"

text \<open>\<open>str::parse::<u64>\<close>\<close>

definition parse_u64 :: "string \<Rightarrow> u64 option" where
  "parse_u64 s =
     (case parse_digits (if s \<noteq> [] \<and> hd s = CHR ''+'' then tl s else s) of
        Some n \<Rightarrow> if n \<le> u64_max then Some (word_of_nat n) else None
      | None \<Rightarrow> None)"

definition pull_total :: "pull_response \<Rightarrow> u64" where
  "pull_total rs =
     (case rs_content_length rs of
        Some n \<Rightarrow> n
      | None \<Rightarrow> (case Option.bind (rs_length_header rs) parse_u64 of Some n \<Rightarrow> n | None \<Rightarrow> 0))"

section \<open>The download\<close>

definition download_new ::
  "'ip pull_env \<Rightarrow> 'gi http_env \<Rightarrow> path \<Rightarrow> string option \<Rightarrow> string \<Rightarrow> bool
     \<Rightarrow> (('gi, 's) file_state_scheme, string, Download) handler" where
  "download_new p e destination wanted url use_header =
     (\<lambda>st. case check_host p url of
        Inl err \<Rightarrow> fail err st
      | Inr _ \<Rightarrow>
          (case pe_send p url of
             Inl err \<Rightarrow> fail ''failed to send download request'' st
           | Inr rs \<Rightarrow>
               (let real_destination = path_join destination (components (pull_name p rs wanted use_header)) in
                guarded [ensure (\<lambda>_. rs_success rs) (''failed to download file: code '' @ rs_status rs),
                         not_ignored e real_destination False ''file is ignored'']
                  (succeed \<lparr>dl_progress = 0, dl_total = pull_total rs, dl_destination = real_destination,
                            dl_response = rs\<rparr>) st)))"

text \<open>
  The work of the operation: \<open>made\<close> is the result of making the writer, \<open>write\<close> and \<open>flush\<close>
  what it answers after the pieces written so far. With the result comes the progress.
\<close>

fun pull_chunks ::
  "(string list \<Rightarrow> string \<Rightarrow> unit result) \<Rightarrow> (string list \<Rightarrow> unit result) \<Rightarrow> string list \<Rightarrow> string result list \<Rightarrow> u64
     \<Rightarrow> unit result \<times> u64" where
  "pull_chunks write flush done [] n = (flush done, n)"
| "pull_chunks write flush done (Inl err # chunks) n = (Inl err, n)"
| "pull_chunks write flush done (Inr chunk # chunks) n =
     (case write done chunk of
        Inl err \<Rightarrow> (Inl err, n)
      | Inr _ \<Rightarrow> pull_chunks write flush (done @ [chunk]) chunks (n + word_of_nat (length chunk)))"

definition run_pull ::
  "unit result \<Rightarrow> (string list \<Rightarrow> string \<Rightarrow> unit result) \<Rightarrow> (string list \<Rightarrow> unit result) \<Rightarrow> Download
     \<Rightarrow> unit result \<times> Download" where
  "run_pull made write flush d =
     (case made of
        Inl err \<Rightarrow> (Inl err, d)
      | Inr _ \<Rightarrow>
          (case pull_chunks write flush [] (rs_chunks (dl_response d)) (dl_progress d) of
             (r, n) \<Rightarrow> (r, d\<lparr>dl_progress := n\<rparr>)))"

section \<open>Routes\<close>

text \<open>
  The state of the routes: the files with \<open>fs_pulls\<close>, the identifiers of the registered
  downloads, what each of them is, and the registry of operations.
\<close>

record 'gi pull_state = "'gi file_state" +
  ps_downloads :: "uuid \<Rightarrow> Download option"
  ps_manager :: op_manager

definition current_pulls :: "bool \<Rightarrow> ('gi, 's) pull_state_scheme \<Rightarrow> uuid set \<times> ('gi, 's) pull_state_scheme" where
  "current_pulls got_lock st =
     (case pulls got_lock (dom (om_operations (ps_manager st))) (sf_fs st) of
        (us, fs) \<Rightarrow> (us, st\<lparr>sf_fs := fs\<rparr>))"

lemma current_pulls_code [code]:
  "current_pulls got_lock st =
     (let us = (if got_lock then Set.filter (\<lambda>k. om_operations (ps_manager st) k \<noteq> None) (fs_pulls (sf_fs st))
                else fs_pulls (sf_fs st))
      in (us, st\<lparr>sf_fs := (sf_fs st)\<lparr>fs_pulls := us\<rparr>\<rparr>))"
  by (auto simp: current_pulls_def pulls_def Let_def dom_def)

definition start_download :: "uuid \<Rightarrow> Download \<Rightarrow> ('gi, 's) pull_state_scheme \<Rightarrow> ('gi, 's) pull_state_scheme" where
  "start_download u d st =
     st\<lparr>ps_manager := add_operation u (Pull (dl_destination d)) (dl_total d) (ps_manager st),
        ps_downloads := (ps_downloads st)(u \<mapsto> d),
        sf_fs := (sf_fs st)\<lparr>fs_pulls := insert u (fs_pulls (sf_fs st))\<rparr>\<rparr>"

type_synonym ('gi, 's, 'a) pull_handler = "(('gi, 's) pull_state_scheme, http_error, 'a) handler"

text \<open>How a download that is waited for ended: as its task did, or the task panicked.\<close>

fun foreground_reply :: "(string + unit) option option \<Rightarrow> ('gi, 's, uuid option) pull_handler" where
  "foreground_reply (Some (Some (Inr _))) = succeed None"
| "foreground_reply (Some (Some (Inl err))) = refuse EXPECTATION_FAILED err"
| "foreground_reply (Some None) = refuse EXPECTATION_FAILED ''pull aborted by another source''"
| "foreground_reply None = refuse EXPECTATION_FAILED ''failed to pull file''"

definition file_or ::
  "bool \<Rightarrow> 'gi http_env \<Rightarrow> path \<Rightarrow> ('gi, 's) file_state_scheme \<Rightarrow> bool \<times> ('gi, 's) file_state_scheme" where
  "file_or b e p st = apfst (case_sum (\<lambda>_. b) md_is_file) (file_metadata e p st)"

definition check_wanted :: "'gi http_env \<Rightarrow> path \<Rightarrow> string option \<Rightarrow> ('gi, 's, unit) pull_handler" where
  "check_wanted e path wanted =
     (case wanted of
        None \<Rightarrow> succeed ()
      | Some n \<Rightarrow> ensure_run (file_or True e (path_join path (components n)))
                    (Refused EXPECTATION_FAILED ''file is not a file''))"

text \<open>\<open>got_lock\<close> tells whether \<open>try_write\<close> got the lock of the registered downloads.\<close>

definition pull_checks ::
  "'ip pull_env \<Rightarrow> 'gi http_env \<Rightarrow> bool \<Rightarrow> path \<Rightarrow> string option \<Rightarrow> ('gi, 's, unit) pull_handler list" where
  "pull_checks p e got_lock path wanted =
     [ensure_run (symlink_dir_or True e path) (Refused EXPECTATION_FAILED ''root is not a directory''),
      check_wanted e path wanted,
      ensure (\<lambda>_. \<not> pe_disabled p) (Refused EXPECTATION_FAILED ''remote pulling is disabled''),
      ensure_run (\<lambda>st. apfst (\<lambda>us. card us < unat (pe_limit p)) (current_pulls got_lock st))
        (Refused EXPECTATION_FAILED ''too many concurrent pulls''),
      attempt (cap_unit e (\<lambda>run. cap_create_dir_all run path)) Internal]"

definition failed_pull :: "(('gi, 's) pull_state_scheme, string, 'a) handler \<Rightarrow> ('gi, 's, 'a) pull_handler" where
  "failed_pull m st =
     (case m st of
        (Inl err, st) \<Rightarrow> refuse EXPECTATION_FAILED (''failed to create pull: '' @ err) st
      | (Inr x, st) \<Rightarrow> succeed x st)"

text \<open>\<open>u\<close> is the fresh identifier, \<open>ended\<close> how the task ends when the request waits for it.\<close>

definition pull_route ::
  "'ip pull_env \<Rightarrow> 'gi http_env \<Rightarrow> bool \<Rightarrow> uuid \<Rightarrow> (string + unit) option option
     \<Rightarrow> string \<Rightarrow> string \<Rightarrow> string option \<Rightarrow> bool \<Rightarrow> bool \<Rightarrow> ('gi, 's, uuid option) pull_handler" where
  "pull_route p e got_lock u ended raw url wanted use_header foreground =
     and_then (perform (canonical_or_raw e raw)) (\<lambda>path.
       guarded (pull_checks p e got_lock path wanted)
         (and_then (failed_pull (download_new p e path wanted url use_header)) (\<lambda>d.
          and_then (update (start_download u d)) (\<lambda>_.
            if foreground then foreground_reply ended else succeed (Some u)))))"

definition list_pulls :: "bool \<Rightarrow> ('gi, 's) pull_state_scheme \<Rightarrow> (uuid \<Rightarrow> Download option) \<times> ('gi, 's) pull_state_scheme" where
  "list_pulls got_lock st =
     (case current_pulls got_lock st of (us, st) \<Rightarrow> (ps_downloads st |` us, st))"

definition delete_pull :: "uuid \<Rightarrow> ('gi, 's, unit) pull_handler" where
  "delete_pull u st =
     (case abort_operation u (ps_manager st) of
        (False, m) \<Rightarrow> refuse NOT_FOUND ''pull not found'' (st\<lparr>ps_manager := m\<rparr>)
      | (True, m) \<Rightarrow>
          succeed () (st\<lparr>ps_manager := m,
            ps_downloads := (ps_downloads st)(u := None),
            sf_fs := (sf_fs st)\<lparr>fs_pulls := fs_pulls (sf_fs st) - {u}\<rparr>\<rparr>))"

section \<open>Properties\<close>

lemma next_address_filter:
  "next_address p ips = None \<Longrightarrow> filter (\<lambda>ip. \<not> ip_blocked p ip) ips = []"
  "next_address p ips = Some (ip, rest) \<Longrightarrow>
     filter (\<lambda>ip. \<not> ip_blocked p ip) ips = ip # filter (\<lambda>ip. \<not> ip_blocked p ip) rest"
  by (induction ips) (auto split: if_splits)

text \<open>
  The addresses a download may connect to through its resolver are those of the
  lookup that no blocked range contains, in their order.
\<close>

theorem resolver_filters:
  "resolved_addresses p ips = filter (\<lambda>ip. \<not> ip_blocked p ip) ips"
proof (induction p ips rule: resolved_addresses.induct)
  case (1 p ips)
  show ?case
    using 1 next_address_filter [of p ips]
    by (auto simp: resolved_addresses.simps [of p ips] split: option.splits)
qed

text \<open>What the checks leave unchanged.\<close>

lemma current_pulls_spec:
  "current_pulls got_lock st = (us, st') \<Longrightarrow>
     us = (if got_lock then fs_pulls (sf_fs st) \<inter> dom (om_operations (ps_manager st)) else fs_pulls (sf_fs st)) \<and>
     fs_pulls (sf_fs st') = us \<and> ps_manager st' = ps_manager st"
  by (auto simp: current_pulls_def pulls_def Let_def split: prod.splits if_splits)


definition only_calls :: "('gi, 's) file_state_scheme \<Rightarrow> ('gi, 's) file_state_scheme \<Rightarrow> bool" where
  "only_calls s t \<longleftrightarrow> (\<exists>cs. t = s\<lparr>sf_calls := cs\<rparr>)"

lemma with_cap_only_calls: "with_cap e op s = (r, t) \<Longrightarrow> only_calls s t"
  by (auto simp: with_cap_def only_calls_def split: prod.splits)

lemma apfst_eq: "apfst f m = (x, t) \<longleftrightarrow> (\<exists>y. m = (y, t) \<and> x = f y)"
  by (cases m) auto

lemma only_calls_refl: "only_calls a a"
  unfolding only_calls_def by (rule exI [of _ "sf_calls a"]) simp

lemma lookups_only_call:
  "canonical_or_raw e raw s = (p, t) \<Longrightarrow> only_calls s t"
  "symlink_dir_or b e q s = (d, t) \<Longrightarrow> only_calls s t"
  "file_or b e q s = (d, t) \<Longrightarrow> only_calls s t"
  "cap_unit e cop s = (v, t) \<Longrightarrow> only_calls s t"
proof -
  show "canonical_or_raw e raw s = (p, t) \<Longrightarrow> only_calls s t"
    by (auto simp: canonical_or_raw_def file_canonicalize_def dest!: with_cap_only_calls split: prod.splits sum.splits)
  show "symlink_dir_or b e q s = (d, t) \<Longrightarrow> only_calls s t" "file_or b e q s = (d, t) \<Longrightarrow> only_calls s t"
    by (auto simp: symlink_dir_or_def file_or_def file_metadata_def file_symlink_metadata_def apfst_eq
        dest!: with_cap_only_calls)
  show "cap_unit e cop s = (v, t) \<Longrightarrow> only_calls s t"
    by (auto simp: cap_unit_def dest!: with_cap_only_calls)
qed

lemma check_wanted_only_calls: "check_wanted e path wanted s = (Inr (), t) \<Longrightarrow> only_calls s t"
  by (auto simp: check_wanted_def ok_simps only_calls_refl split: option.splits dest: lookups_only_call(3))

lemma only_calls_same:
  fixes s t :: "('gi, 's) pull_state_scheme"
  assumes "only_calls s t"
  shows "sf_fs t = sf_fs s" and "ps_manager t = ps_manager s" and "ps_downloads t = ps_downloads s"
  using assms by (auto simp: only_calls_def)

lemma only_calls_trans: "only_calls a b \<Longrightarrow> only_calls b c \<Longrightarrow> only_calls a c"
  by (auto simp: only_calls_def)

lemma pull_checks_ok:
  assumes "guarded (pull_checks p e got_lock path wanted) m s = (Inr v, st')"
  obtains s1 us s2 t where "only_calls s s1" and "current_pulls got_lock s1 = (us, s2)" and "card us < unat (pe_limit p)"
    and "only_calls s2 t" and "m t = (Inr v, st')" and "\<not> pe_disabled p"
proof -
  obtain a b us c t where a: "symlink_dir_or True e path s = (True, a)" "check_wanted e path wanted a = (Inr (), b)"
    and c: "\<not> pe_disabled p" "current_pulls got_lock b = (us, c)" "card us < unat (pe_limit p)"
    and t: "cap_unit e (\<lambda>run. cap_create_dir_all run path) c = (Inr (), t)" "m t = (Inr v, st')"
    using assms by (auto simp: pull_checks_def ok_simps apfst_eq simp del: and_then_ensure)
  show thesis
    by (rule that [OF only_calls_trans [OF lookups_only_call(2) [OF a(1)] check_wanted_only_calls [OF a(2)]] c(2,3)
          lookups_only_call(4) [OF t(1)] t(2) c(1)])
qed

lemma download_new_ok:
  assumes "download_new p e path wanted url use_header s = (Inr d, t)"
  shows "t = s \<and> check_host p url = Inr () \<and> \<not> route_ignored e (dl_destination d) False s \<and>
     dl_total d = pull_total (dl_response d) \<and> dl_progress d = 0"
  using assms
  by (auto simp: download_new_def ok_simps fail_def not_ignored_def Let_def split: sum.splits simp del: and_then_ensure)

lemma failed_pull_ok: "failed_pull m s = (Inr x, t) \<longleftrightarrow> m s = (Inr x, t)"
  by (auto simp: failed_pull_def refuse_def fail_def succeed_def split: prod.splits sum.splits)

lemma foreground_state: "foreground_reply ended s = (Inr v, t) \<Longrightarrow> t = s"
  by (induction ended rule: foreground_reply.induct) (auto simp: refuse_def fail_def succeed_def)

lemma add_operation_entry [simp]:
  "om_operations (add_operation u op n m) = (om_operations m)(u \<mapsto> op)"
  by (simp add: add_operation_def om_defs)



definition pull_sample_env :: "nat pull_env" where
  "pull_sample_env =
     \<lparr>pe_host = \<lambda>u. Inr (Some ''10.0.0.1''), pe_parse_ip = \<lambda>h. Some 1, pe_ip_text = nat_to_string,
      pe_blocked_cidrs = [\<lambda>ip. ip = 2],
      pe_send = \<lambda>u. Inr \<lparr>rs_success = True, rs_status = ''200'', rs_disposition = None,
        rs_segments = Some [''x'', ''f''], rs_content_length = Some 2, rs_length_header = None, rs_chunks = [Inr ''hi'']\<rparr>,
      pe_filename_full = Some, pe_random = ''r'', pe_disabled = False, pe_limit = 2\<rparr>"

definition pull_sample :: "unit pull_state" where
  "pull_sample = file_state.extend http_sample_state \<lparr>ps_downloads = Map.empty, ps_manager = new_manager\<rparr>"


end
