(* ===== verification/Server_Registry.thy ===== *)
theory Server_Registry
  imports Power_Actions
begin

text \<open>
  The servers of a node: \<open>server/manager.rs\<close> (start-up, the files that remember states
  and installations, creation and deletion), the check of the panel's token
  (\<open>routes/api/mod.rs\<close>) and the routes that list, create, find and delete servers.

  A server is its identifier, its state (theory \<open>Power_Actions\<close>) and the installation
  it is in. Tasks the manager spawns are recorded, not run. A file holds the text of a
  JSON value or something that is not one.
\<close>

section \<open>The panel's token\<close>

datatype refusal = BadHeader | BadToken

text \<open>The header is \<open>None\<close> when it is missing or not text.\<close>

definition api_auth :: "string \<Rightarrow> string option \<Rightarrow> refusal + unit" where
  "api_auth token header =
     (case str_split_once CHR '' '' (case header of Some h \<Rightarrow> h | None \<Rightarrow> []) of
        None \<Rightarrow> Inl BadHeader
      | Some (t, tok) \<Rightarrow>
          if t \<noteq> ''Bearer'' then Inl BadHeader
          else if tok \<noteq> token then Inl BadToken
          else Inr ())"

section \<open>State files\<close>

datatype saved = Missing | Garbage | Holds json

text \<open>
  The JSON form of the states: an object with the identifiers as keys. \<open>HashMap\<close>s are
  association lists with distinct keys; \<open>text\<close> and \<open>read\<close> convert identifiers.
\<close>

definition states_to_json :: "(uuid \<Rightarrow> string) \<Rightarrow> (uuid \<times> ServerState) list \<Rightarrow> json" where
  "states_to_json text sts = JObject (map (\<lambda>(u, st). (text u, JString (to_str st))) sts)"

definition state_of_name :: "string \<Rightarrow> ServerState option" where
  "state_of_name s =
     (if s = ''offline'' then Some Offline
      else if s = ''starting'' then Some Starting
      else if s = ''stopping'' then Some Stopping
      else if s = ''running'' then Some Running
      else None)"

fun states_of_object ::
  "(string \<Rightarrow> uuid option) \<Rightarrow> (string \<times> json) list \<Rightarrow> (uuid \<times> ServerState) list option" where
  "states_of_object read [] = Some []"
| "states_of_object read ((k, j) # m) =
     (case (read k, Option.bind (unit_variant j) state_of_name, states_of_object read m) of
        (Some u, Some st, Some sts) \<Rightarrow> Some (if u \<in> set (map fst sts) then sts else (u, st) # sts)
      | _ \<Rightarrow> None)"

text \<open>\<open>serde_json::from_str(read_to_string(..).unwrap_or_default()).unwrap_or_default()\<close>\<close>

definition load_states :: "(string \<Rightarrow> uuid option) \<Rightarrow> saved \<Rightarrow> (uuid \<times> ServerState) list" where
  "load_states read f =
     (case f of
        Holds (JObject m) \<Rightarrow> (case states_of_object read m of Some sts \<Rightarrow> sts | None \<Rightarrow> [])
      | _ \<Rightarrow> [])"

section \<open>Servers\<close>

type_synonym script = string

record registered =
  sr_uuid :: uuid
  sr_server :: server
  sr_installation :: "(bool \<times> script) option"

datatype manager_task =
    AttachInstallation uuid bool script
  | RestoreState uuid ServerState
  | InstallServer uuid
  | DestroyServer uuid server

record Manager =
  mg_servers :: "registered list"
  mg_tasks :: "manager_task list"

definition new_manager :: Manager where
  "new_manager = \<lparr>mg_servers = [], mg_tasks = []\<rparr>"

definition register_new :: "uuid \<Rightarrow> bool \<Rightarrow> registered" where
  "register_new u susp =
     \<lparr>sr_uuid = u, sr_server = new_server\<lparr>suspended := susp\<rparr>, sr_installation = None\<rparr>"

text \<open>What is written every ten seconds: the state of every server.\<close>

definition current_states :: "Manager \<Rightarrow> (uuid \<times> ServerState) list" where
  "current_states m =
     fold (\<lambda>s. obj_insert (sr_uuid s) (get_state (sr_server s))) (mg_servers m) []"

definition current_installations :: "Manager \<Rightarrow> (uuid \<times> bool \<times> script) list" where
  "current_installations m =
     fold (\<lambda>s acc. case sr_installation s of Some i \<Rightarrow> obj_insert (sr_uuid s) i acc | None \<Rightarrow> acc)
       (mg_servers m) []"

subsection \<open>Start-up\<close>

text \<open>\<open>HashMap::remove\<close>\<close>

definition take_entry :: "'k \<Rightarrow> ('k \<times> 'v) list \<Rightarrow> 'v option \<times> ('k \<times> 'v) list" where
  "take_entry k m = (map_of m k, filter (\<lambda>kv. fst kv \<noteq> k) m)"

text \<open>One server of the panel's list: identifier and whether it is suspended.\<close>

fun boot_servers ::
  "u64 \<Rightarrow> (uuid \<times> ServerState) list \<Rightarrow> (uuid \<times> bool \<times> script) list \<Rightarrow> (uuid \<times> bool) list \<Rightarrow> Manager \<Rightarrow> Manager" where
  "boot_servers per_page states installs [] m = m"
| "boot_servers per_page states installs ((u, susp) # raws) m =
     (let (st, states) = take_entry u states;
          st = (case st of Some st \<Rightarrow> st | None \<Rightarrow> Offline);
          (inst, installs) = take_entry u installs;
          tasks = (case inst of
              Some (reinstall, script) \<Rightarrow> [AttachInstallation u reinstall script]
            | None \<Rightarrow> if 0 < per_page then [RestoreState u st] else [])
      in boot_servers per_page states installs raws
           (m\<lparr>mg_servers := mg_servers m @ [register_new u susp], mg_tasks := mg_tasks m @ tasks\<rparr>))"

definition boot ::
  "(string \<Rightarrow> uuid option) \<Rightarrow> u64 \<Rightarrow> saved \<Rightarrow> (uuid \<times> bool \<times> script) list \<Rightarrow> (uuid \<times> bool) list \<Rightarrow> Manager \<Rightarrow> Manager" where
  "boot read per_page states_file installs raws m =
     boot_servers per_page (load_states read states_file) installs raws m"

text \<open>
  The task that restores a state: attach, wait five seconds, and start a server that
  ran and does not run now. The permit of the semaphore is dropped at once, so it limits
  nothing. \<open>meanwhile\<close> is what happens to the server during the wait.
\<close>

definition is_up :: "ServerState \<Rightarrow> bool" where
  "is_up st \<longleftrightarrow> st = Running \<or> st = Starting"

definition restore_state ::
  "world \<Rightarrow> u64 \<Rightarrow> unit result \<Rightarrow> (string \<Rightarrow> unit result) \<Rightarrow> listed list result \<Rightarrow> (server \<Rightarrow> server)
     \<Rightarrow> ServerState \<Rightarrow> server \<Rightarrow> server" where
  "restore_state w disk_space update attach listing meanwhile st s =
     (let s = snd (attach_container attach listing s);
          s = meanwhile s
      in if is_up st \<and> \<not> is_up (get_state s) then snd (start w disk_space update None False s) else s)"

subsection \<open>The file of states over time\<close>

text \<open>
  The task that saves the states creates the file anew, which empties it, and then writes
  it every ten seconds: empty, write, flush. A run of the daemon is the list of its
  completed writes and whether it ends within one.
\<close>

definition saved_after_run :: "(uuid \<Rightarrow> string) \<Rightarrow> (uuid \<times> ServerState) list list \<Rightarrow> bool \<Rightarrow> saved" where
  "saved_after_run text writes within_write =
     (if writes = [] \<or> within_write then Garbage else Holds (states_to_json text (last writes)))"

subsection \<open>Creating and deleting\<close>

definition find_server :: "uuid \<Rightarrow> Manager \<Rightarrow> registered option" where
  "find_server u m = List.find (\<lambda>s. sr_uuid s = u) (mg_servers m)"

definition create_server :: "uuid \<Rightarrow> bool \<Rightarrow> bool \<Rightarrow> Manager \<Rightarrow> Manager" where
  "create_server u susp install_server m =
     (let s = register_new u susp;
          s = s\<lparr>sr_server := emit [SetupFilesystem] (sr_server s)\<rparr>
      in m\<lparr>mg_tasks := mg_tasks m @ (if install_server then [InstallServer u] else []),
           mg_servers := mg_servers m @ [s]\<rparr>)"

fun remove_first :: "uuid \<Rightarrow> registered list \<Rightarrow> registered option \<times> registered list" where
  "remove_first u [] = (None, [])"
| "remove_first u (s # ss) =
     (if sr_uuid s = u then (Some s, ss)
      else case remove_first u ss of (r, ss) \<Rightarrow> (r, s # ss))"

definition delete_server :: "uuid \<Rightarrow> Manager \<Rightarrow> Manager" where
  "delete_server u m =
     (case remove_first u (mg_servers m) of
        (None, ss) \<Rightarrow> m
      | (Some s, ss) \<Rightarrow> m\<lparr>mg_servers := ss, 
          mg_tasks := mg_tasks m @ [DestroyServer u ((sr_server s)\<lparr>suspended := True\<rparr>)]\<rparr>)"

text \<open>
  The route that creates a server checks the identifier, asks the panel for the server,
  and then creates it; other requests run in between. \<open>panel\<close> is the panel's answer.
\<close>

definition create_check :: "uuid \<Rightarrow> Manager \<Rightarrow> bool" where
  "create_check u m \<longleftrightarrow> \<not> list_ex (\<lambda>s. sr_uuid s = u) (mg_servers m)"

datatype registry_reply = Done | ConflictReply | NotFoundReply | BadUuid | MissingUuid | InternalReply

definition create_route ::
  "uuid \<Rightarrow> bool \<Rightarrow> bool result \<Rightarrow> (Manager \<Rightarrow> Manager) \<Rightarrow> Manager \<Rightarrow> registry_reply \<times> Manager" where
  "create_route u skip_scripts panel meanwhile m =
     (if \<not> create_check u m then (ConflictReply, m)
      else
        (let m = meanwhile m in
         case panel of
           Inl err \<Rightarrow> (InternalReply, m)
         | Inr susp \<Rightarrow> (Done, create_server u susp (\<not> skip_scripts) m)))"

text \<open>The middleware of all routes on one server: the first part of the path names it.\<close>

definition server_auth :: "(string \<Rightarrow> uuid option) \<Rightarrow> string list \<Rightarrow> Manager \<Rightarrow> registry_reply + registered" where
  "server_auth read parts m =
     (case parts of
        [] \<Rightarrow> Inl MissingUuid
      | p # ps \<Rightarrow>
          (case read p of
             None \<Rightarrow> Inl BadUuid
           | Some u \<Rightarrow> (case find_server u m of None \<Rightarrow> Inl NotFoundReply | Some s \<Rightarrow> Inr s)))"

definition delete_server_route :: "registered \<Rightarrow> Manager \<Rightarrow> registry_reply \<times> Manager" where
  "delete_server_route s m = (Done, delete_server (sr_uuid s) m)"


section \<open>Properties\<close>

lemma str_split_once_spec:
  "str_split_once c s = Some (a, b) \<longleftrightarrow> s = a @ c # b \<and> c \<notin> set a"
proof (induction s arbitrary: a)
  case (Cons x s)
  then show ?case by (cases a) (auto split: if_splits)
qed simp

text \<open>
  C27: A request is let through exactly when its header is the word Bearer, one space
  and the node's token.
\<close>

theorem api_auth_iff: "api_auth token header = Inr () \<longleftrightarrow> header = Some (''Bearer '' @ token)"
proof -
  have "api_auth token header = Inr () \<longleftrightarrow>
      str_split_once CHR '' '' (case header of Some h \<Rightarrow> h | None \<Rightarrow> []) = Some (''Bearer'', token)"
    by (auto simp: api_auth_def split: option.splits prod.splits if_splits)
  also have "\<dots> \<longleftrightarrow> header = Some (''Bearer '' @ token)"
    by (cases header) (simp_all add: str_split_once_spec)
  finally show ?thesis .
qed

subsection \<open>Remembered states\<close>

lemma state_of_name_to_str [simp]: "state_of_name (to_str st) = Some st"
  by (cases st) (simp_all add: state_of_name_def)

lemma states_roundtrip:
  assumes "\<And>u. read (text u) = Some u" and "distinct (map fst sts)"
  shows "load_states read (Holds (states_to_json text sts)) = sts"
proof -
  have "states_of_object read (map (\<lambda>(u, st). (text u, JString (to_str st))) sts) = Some sts"
    using assms(2) by (induction sts) (auto simp: assms(1))
  then show ?thesis by (simp add: load_states_def states_to_json_def)
qed


definition sample_text :: "uuid \<Rightarrow> string" where
  "sample_text u = replicate (unat u) CHR ''x''"


text \<open>The task a server should get at the start.\<close>

definition start_task ::
  "u64 \<Rightarrow> (uuid \<times> ServerState) list \<Rightarrow> (uuid \<times> bool \<times> script) list \<Rightarrow> uuid \<Rightarrow> manager_task list" where
  "start_task per_page states installs u =
     (case map_of installs u of
        Some (reinstall, script) \<Rightarrow> [AttachInstallation u reinstall script]
      | None \<Rightarrow>
          if per_page = 0 then []
          else [RestoreState u (case map_of states u of Some st \<Rightarrow> st | None \<Rightarrow> Offline)])"

lemma map_of_filter_other: "v \<noteq> u \<Longrightarrow> map_of (filter (\<lambda>kv. fst kv \<noteq> u) xs) v = map_of xs v"
  by (induction xs) auto

lemma start_task_other:
  "v \<noteq> u \<Longrightarrow> start_task n (filter (\<lambda>kv. fst kv \<noteq> u) states) (filter (\<lambda>kv. fst kv \<noteq> u) installs) v = start_task n states installs v"
  by (auto simp: start_task_def map_of_filter_other split: option.splits)

lemma start_tasks_other:
  "u \<notin> set us \<Longrightarrow>
     concat (map (start_task n (filter (\<lambda>kv. fst kv \<noteq> u) states) (filter (\<lambda>kv. fst kv \<noteq> u) installs)) us)
       = concat (map (start_task n states installs) us)"
  by (induction us) (auto simp: start_task_other)

lemma boot_servers_spec:
  assumes "distinct (map fst raws)"
  shows "mg_servers (boot_servers per_page states installs raws m) = mg_servers m @ map (\<lambda>(u, susp). register_new u susp) raws \<and>
     mg_tasks (boot_servers per_page states installs raws m) =
       mg_tasks m @ concat (map (start_task per_page states installs) (map fst raws))"
  using assms
proof (induction raws arbitrary: states installs m)
  case (Cons raw raws)
  obtain u susp where raw: "raw = (u, susp)" by fastforce
  have "u \<notin> set (map fst raws)" "distinct (map fst raws)" using Cons.prems raw by auto
  then show ?case
    using Cons.IH start_tasks_other [of u "map fst raws" per_page states installs]
    by (simp add: raw take_entry_def start_task_def [of per_page states installs u] word_gt_0 Let_def
        split: option.splits prod.splits)
qed simp

text \<open>
  The start of the daemon registers every server of the panel once and in order; a
  server with a pending installation is attached to it, any other is restored to the
  state that was remembered for it, offline if none was, and with no servers per page
  nothing is restored.
\<close>

theorem boot_spec:
  assumes "distinct (map fst raws)"
  shows "map sr_uuid (mg_servers (boot read per_page file installs raws new_manager)) = map fst raws \<and>
     mg_tasks (boot read per_page file installs raws new_manager) =
       concat (map (start_task per_page (load_states read file) installs) (map fst raws))"
  using boot_servers_spec [OF assms, of per_page "load_states read file" installs new_manager]
  by (simp add: boot_def new_manager_def comp_def register_new_def case_prod_beta)

theorem boot_spec_witness:
  "mg_tasks (boot (\<lambda>s. Some (word_of_nat (length s))) 50 (saved_after_run sample_text [] False) [(2, True, ''i'')] [(1, False), (2, False)] new_manager)
     = [RestoreState 1 Offline, AttachInstallation 2 True ''i'']"
  using boot_spec [of "[(1, False), (2, False)]"]
  by (simp add: start_task_def load_states_def saved_after_run_def)

subsection \<open>Identifiers\<close>

definition registry_ok :: "Manager \<Rightarrow> bool" where
  "registry_ok m \<longleftrightarrow> distinct (map sr_uuid (mg_servers m))"

lemma remove_first_spec:
  "remove_first u ss = (r, ss') \<Longrightarrow> distinct (map sr_uuid ss) \<Longrightarrow>
     ss' = filter (\<lambda>s. sr_uuid s \<noteq> u) ss \<and> r = List.find (\<lambda>s. sr_uuid s = u) ss"
proof (induction u ss arbitrary: ss' rule: remove_first.induct)
  case (2 u s ss)
  have "filter (\<lambda>x. sr_uuid x \<noteq> sr_uuid s) ss = ss" if "sr_uuid s \<notin> sr_uuid ` set ss"
    using that by (induction ss) auto
  then show ?case using 2 by (auto split: prod.splits if_splits)
qed simp

lemma create_server_servers:
  "map sr_uuid (mg_servers (create_server u susp install m)) = map sr_uuid (mg_servers m) @ [u]"
  by (simp add: create_server_def register_new_def Let_def)

text \<open>
  While requests do not overlap, identifiers stay unique: a creation is refused
  exactly for an identifier that exists, and a deletion removes the server it names and
  no other, after which its identifier is not found.
\<close>

theorem registry_unique:
  assumes "registry_ok m"
  shows "registry_ok (snd (create_route u skip panel id m)) \<and>
     (fst (create_route u skip panel id m) = ConflictReply \<longleftrightarrow> u \<in> sr_uuid ` set (mg_servers m)) \<and>
     registry_ok (delete_server u m) \<and> find_server u (delete_server u m) = None \<and>
     (\<forall>v. v \<noteq> u \<longrightarrow> find_server v (delete_server u m) = find_server v m)"
proof -
  obtain r ss where r: "remove_first u (mg_servers m) = (r, ss)" by fastforce
  have ss: "ss = filter (\<lambda>s. sr_uuid s \<noteq> u) (mg_servers m)"
    and found: "r = List.find (\<lambda>s. sr_uuid s = u) (mg_servers m)"
    using remove_first_spec [OF r] assms by (simp_all add: registry_ok_def)
  have servers: "mg_servers (delete_server u m) = ss"
  proof (cases r)
    case None
    then have "\<forall>s \<in> set (mg_servers m). sr_uuid s \<noteq> u" using found by (simp add: find_None_iff)
    then show ?thesis using None r ss by (simp add: delete_server_def filter_id_conv)
  qed (use r in \<open>simp add: delete_server_def\<close>)
  have "find_server u (delete_server u m) = None"
    unfolding find_server_def servers ss by (simp add: find_None_iff)
  moreover have "find_server v (delete_server u m) = find_server v m" if "v \<noteq> u" for v
  proof -
    have "List.find (\<lambda>s. sr_uuid s = v) (filter (\<lambda>s. sr_uuid s \<noteq> u) xs) = List.find (\<lambda>s. sr_uuid s = v) xs" for xs
      using that by (induction xs) auto
    then show ?thesis by (simp add: find_server_def servers ss)
  qed
  moreover have "registry_ok (delete_server u m)"
    using assms unfolding registry_ok_def servers ss by (simp add: distinct_map_filter)
  moreover have "registry_ok (snd (create_route u skip panel id m))"
    using assms create_server_servers [of u _ "\<not> skip" m]
    by (auto simp: registry_ok_def create_route_def create_check_def list_ex_iff split: sum.split)
  moreover have "fst (create_route u skip panel id m) = ConflictReply \<longleftrightarrow> u \<in> sr_uuid ` set (mg_servers m)"
    by (auto simp: create_route_def create_check_def list_ex_iff split: sum.split)
  ultimately show ?thesis by blast
qed

theorem registry_unique_witness:
  "fst (create_route 1 False (Inr False) id (create_server 1 False True new_manager)) = ConflictReply"
  using registry_unique [of "create_server 1 False True new_manager" 1 False "Inr False"]
  by (simp add: registry_ok_def create_server_def register_new_def new_manager_def)

lemma remove_first_here:
  "u \<notin> sr_uuid ` set ss \<Longrightarrow> sr_uuid s = u \<Longrightarrow> remove_first u (ss @ s # ss') = (Some s, ss @ ss')"
  by (induction ss) auto

text \<open>
  Two creations of one server that overlap, the second running while the first waits
  for the panel, both succeed: the server is registered and installed twice, and after a
  deletion it is still there.
\<close>

theorem overlapping_creations_duplicate:
  assumes "registry_ok m" and "create_check u m"
  shows "fst (create_route u False (Inr susp) (\<lambda>m. snd (create_route u False (Inr susp) id m)) m) = Done \<and>
     (let m' = snd (create_route u False (Inr susp) (\<lambda>m. snd (create_route u False (Inr susp) id m)) m) in
        \<not> registry_ok m' \<and> mg_tasks m' = mg_tasks m @ [InstallServer u, InstallServer u] \<and>
        find_server u (delete_server u m') \<noteq> None)"
proof -
  let ?s = "(register_new u susp)\<lparr>sr_server := emit [SetupFilesystem] (sr_server (register_new u susp))\<rparr>"
  let ?m = "m\<lparr>mg_servers := mg_servers m @ [?s, ?s], mg_tasks := mg_tasks m @ [InstallServer u, InstallServer u]\<rparr>"
  have new: "u \<notin> sr_uuid ` set (mg_servers m)" using assms(2) by (auto simp: create_check_def list_ex_iff)
  have run: "create_route u False (Inr susp) (\<lambda>m. snd (create_route u False (Inr susp) id m)) m = (Done, ?m)"
    using assms(2) by (simp add: create_route_def create_server_def Let_def)
  have u: "sr_uuid ?s = u" by (simp add: register_new_def)
  have "remove_first u (mg_servers m @ [?s, ?s]) = (Some ?s, mg_servers m @ [?s])"
    by (rule remove_first_here [OF new u])
  then have "find_server u (delete_server u ?m) \<noteq> None"
    using u by (auto simp: delete_server_def find_server_def find_None_iff)
  then show ?thesis using u by (simp add: run Let_def registry_ok_def)
qed

theorem overlapping_creations_duplicate_witness:
  "\<not> registry_ok (snd (create_route 1 False (Inr False)
       (\<lambda>m. snd (create_route 1 False (Inr False) id m)) new_manager))"
  using overlapping_creations_duplicate [of new_manager 1 False]
  by (simp add: registry_ok_def create_check_def new_manager_def Let_def)

end
