(* ===== verification/Server_Routes.thy ===== *)
theory Server_Routes
  imports Power_Safety Server_Registry Schedules Jwt Permissions
begin

text \<open>
  The routes under \<open>routes/api/servers/_server_\<close> that act on one server as a whole: power
  actions, console commands and logs, reinstalling, a new configuration, schedules,
  transfers, and the denial of tokens and the permissions of websocket users. A route
  that spawns a task and answers at once is the reply with the server after the task.
\<close>

datatype route_status = OkReply | Accepted | Conflict | NotFound | ExpectationFailed | InternalError

section \<open>Power\<close>

record power_env =
  pw_world :: world
  pw_disk_space :: u64
  pw_update :: "unit result"
  pw_between :: "server \<Rightarrow> server"
  pw_waited :: "server \<Rightarrow> server"
  pw_exited :: bool
  pw_auto_kill :: bool
  pw_auto_kill_seconds :: nat

text \<open>The errors of the actions are only logged.\<close>

definition power_task ::
  "power_env \<Rightarrow> ServerPowerAction \<Rightarrow> server timeout_run \<Rightarrow> server \<Rightarrow> unit result \<times> server" where
  "power_task e action wait s =
     (let w = pw_world e; auto_kill = (pw_auto_kill e \<and> 0 < pw_auto_kill_seconds e) in
      case action of
        Start \<Rightarrow> start w (pw_disk_space e) (pw_update e) wait False s
      | Stop \<Rightarrow>
          if auto_kill then stop_with_kill_timeout w (pw_waited e) (pw_exited e) (pw_auto_kill_seconds e) False s
          else stop w wait False s
      | Restart \<Rightarrow>
          if auto_kill
          then restart_with_kill_timeout w (pw_disk_space e) (pw_update e) (pw_waited e) (pw_exited e) wait
                 (pw_auto_kill_seconds e) s
          else restart w (pw_disk_space e) (pw_update e) (pw_between e) None s
      | Kill \<Rightarrow> kill w False s)"

definition power_route ::
  "power_env \<Rightarrow> ServerPowerAction \<Rightarrow> server timeout_run \<Rightarrow> server \<Rightarrow> route_status \<times> server" where
  "power_route e action wait s = (Accepted, snd (power_task e action wait s))"

section \<open>The console\<close>

definition commands_route :: "string list \<Rightarrow> server \<Rightarrow> route_status \<times> server" where
  "commands_route commands s =
     (if get_state s = Offline then (ExpectationFailed, s)
      else case container s of
             None \<Rightarrow> (ExpectationFailed, s)
           | Some c \<Rightarrow> (OkReply, emit (map (\<lambda>command. Stdin c (command @ newline)) commands) s))"

text \<open>\<open>logs n\<close>: what the container engine yields for the last \<open>n\<close> lines, until its first error.\<close>

definition read_log :: "(nat \<Rightarrow> string result list) \<Rightarrow> nat \<Rightarrow> server \<Rightarrow> string" where
  "read_log logs lines s =
     (case container s of
        None \<Rightarrow> []
      | Some c \<Rightarrow> concat (map projr (takeWhile (\<lambda>x. \<not> isl x) (logs lines))))"

definition logs_route :: "(nat \<Rightarrow> string result list) \<Rightarrow> nat option \<Rightarrow> server \<Rightarrow> string" where
  "logs_route logs wanted s = read_log logs (min (case wanted of Some n \<Rightarrow> n | None \<Rightarrow> 100) 100) s"

section \<open>Reinstalling and new configurations\<close>

datatype server_job = Reinstall bool

definition reinstall_route ::
  "power_env \<Rightarrow> bool option \<Rightarrow> server \<Rightarrow> (route_status \<times> server_job list) \<times> server" where
  "reinstall_route e truncate_directory s =
     (if is_locked_state s then ((Conflict, []), s)
      else case stop_with_kill_timeout (pw_world e) (pw_waited e) (pw_exited e) 30 False s of
             (Inl err, s) \<Rightarrow> ((InternalError, []), s)
           | (Inr _, s) \<Rightarrow>
               ((Accepted, [Reinstall (truncate_directory = Some True)]),
                sync_configuration (pw_world e) (pw_disk_space e) (pw_update e) s))"

text \<open>
  \<open>given\<close> is the configuration in the request, \<open>panel\<close> what the panel answers when there
  is none; of a configuration, whether it suspends the server.
\<close>

definition apply_configuration :: "power_env \<Rightarrow> bool \<Rightarrow> server \<Rightarrow> server" where
  "apply_configuration e susp s =
     (let s = update_configuration susp (pw_disk_space e) (pw_update e) s in
      if susp \<and> get_state s \<noteq> Offline
      then snd (stop_with_kill_timeout (pw_world e) (pw_waited e) (pw_exited e) 30 True s)
      else s)"

definition sync_route :: "power_env \<Rightarrow> bool option \<Rightarrow> bool result \<Rightarrow> server \<Rightarrow> route_status \<times> server" where
  "sync_route e given panel s =
     (OkReply,
      case given of
        Some susp \<Rightarrow> apply_configuration e susp s
      | None \<Rightarrow> (case panel of Inr susp \<Rightarrow> apply_configuration e susp s | Inl err \<Rightarrow> s))"

section \<open>Transfers\<close>

text \<open>\<open>started\<close> is the result of starting the transfer.\<close>

definition transfer_route :: "unit result \<Rightarrow> server \<Rightarrow> (route_status \<times> bool) \<times> server" where
  "transfer_route started s =
     (if is_locked_state s then ((Conflict, False), s)
      else ((Accepted, \<not> isl started), s\<lparr>transferring := True\<rparr>))"

definition cancel_transfer_route :: "server \<Rightarrow> route_status \<times> server" where
  "cancel_transfer_route s =
     (if \<not> transferring s then (ExpectationFailed, s) else (OkReply, s\<lparr>transferring := False\<rparr>))"

section \<open>Schedules\<close>

fun update_first :: "uuid \<Rightarrow> (Schedule \<Rightarrow> Schedule) \<Rightarrow> Schedule list \<Rightarrow> Schedule list option" where
  "update_first u f [] = None"
| "update_first u f (sc # scs) =
     (if sc_uuid sc = u then Some (f sc # scs) else map_option (Cons sc) (update_first u f scs))"

definition on_schedule ::
  "uuid \<Rightarrow> (Schedule \<Rightarrow> Schedule) \<Rightarrow> Schedule list \<Rightarrow> route_status \<times> Schedule list" where
  "on_schedule u f scs =
     (case update_first u f scs of None \<Rightarrow> (NotFound, scs) | Some scs \<Rightarrow> (OkReply, scs))"

definition abort_schedule_route :: "uuid \<Rightarrow> Schedule list \<Rightarrow> route_status \<times> Schedule list" where
  "abort_schedule_route u = on_schedule u recreate_executor"

definition trigger_schedule_route :: "uuid \<Rightarrow> bool \<Rightarrow> Schedule list \<Rightarrow> route_status \<times> Schedule list" where
  "trigger_schedule_route u skip_condition = on_schedule u (trigger skip_condition)"

definition schedule_status_route :: "uuid \<Rightarrow> Schedule list \<Rightarrow> (bool \<times> uuid option) option" where
  "schedule_status_route u scs =
     map_option (\<lambda>sc. (sc_running sc, sc_step sc)) (List.find (\<lambda>sc. sc_uuid sc = u) scs)"

section \<open>Tokens and permissions\<close>

definition deny_route :: "int \<Rightarrow> string list \<Rightarrow> JwtClient \<Rightarrow> JwtClient" where
  "deny_route now jtis client = fold (deny now) jtis client"

definition permissions_route ::
  "(string list \<Rightarrow> 'ov option) \<Rightarrow> nat \<Rightarrow> (uuid \<times> permissions \<times> string list) list
     \<Rightarrow> 'ov user_permissions_map \<Rightarrow> 'ov user_permissions_map" where
  "permissions_route build now =
     fold (\<lambda>(user, ps, ignored). upm_set_permissions build now user ps ignored)"


section \<open>Properties\<close>

text \<open>
  C23: A server that is offline and suspended, being installed, restored or transferred
  is not touched by any power action of the interface, however long it may wait and
  whatever the configuration says about killing; a reinstallation and a transfer of a
  locked server are refused.
\<close>

theorem locked_server_left_alone:
  assumes "is_locked_state s"
  shows "(get_state s = Offline \<longrightarrow> power_route e action wait s = (Accepted, s)) \<and>
     reinstall_route e tr s = ((Conflict, []), s) \<and> transfer_route started s = ((Conflict, False), s)"
  using assms
  by (cases action)
    (auto simp: power_route_def power_task_def Let_def start_def stop_def kill_def restart_def
      stop_with_kill_timeout_def restart_with_kill_timeout_def reinstall_route_def transfer_route_def)

definition power_sample_env :: power_env where
  "power_sample_env =
     \<lparr>pw_world = sample_world, pw_disk_space = 10, pw_update = Inr (), pw_between = id, pw_waited = id,
      pw_exited = True, pw_auto_kill = True, pw_auto_kill_seconds = 5\<rparr>"

theorem locked_server_left_alone_witness:
  "power_route power_sample_env Restart None (new_server\<lparr>suspended := True\<rparr>) = (Accepted, new_server\<lparr>suspended := True\<rparr>)"
proof -
  have "is_locked_state (new_server\<lparr>suspended := True\<rparr>)" by (simp add: is_locked_state_def)
  moreover have "get_state (new_server\<lparr>suspended := True\<rparr>) = Offline"
    by (simp add: new_server_def new_lock_def get_state_def ServerStateLock.extend_def)
  ultimately show ?thesis using locked_server_left_alone by blast
qed

text \<open>
  A transfer that cannot be started is answered as accepted and leaves the server in
  the transferring state with no task: it can neither be started nor transferred again
  until someone cancels the transfer.
\<close>

theorem failed_transfer_locks:
  assumes "\<not> is_locked_state s" and "transfer_route (Inl err) s = (r, s')"
  shows "r = (Accepted, False) \<and> is_locked_state s' \<and> transfer_route started s' = ((Conflict, False), s') \<and>
     fst (start w disk_space update wait skip s') = Inl ''Server is in a locked state, cannot start the server.'' \<and>
     cancel_transfer_route s' = (OkReply, s'\<lparr>transferring := False\<rparr>)"
  using assms
  by (auto simp: transfer_route_def cancel_transfer_route_def is_locked_state_def start_def)

theorem failed_transfer_locks_witness:
  "is_locked_state (snd (transfer_route (Inl ''no connection'') new_server))"
proof -
  have "\<not> is_locked_state new_server"
    by (simp add: is_locked_state_def new_server_def ServerStateLock.extend_def)
  then show ?thesis
    using failed_transfer_locks [of new_server "''no connection''"] by (metis prod.collapse)
qed

lemma denied_after:
  "denied_jtokens (fold (deny now) jtis c) i = (if i \<in> set jtis then Some now else denied_jtokens c i)"
  by (induction jtis arbitrary: c) (auto simp: deny_def)

text \<open>
  A request that denies tokens bars every token it names: one that was issued
  before is not accepted from then on, the others are judged as before.
\<close>

theorem denied_tokens_refused:
  assumes "issued_at p = Some iat"
  shows "(jwt_id p \<in> set jtis \<and> iat < timestamp now \<longrightarrow> \<not> validate clock (deny_route now jtis c) p) \<and>
     (jwt_id p \<notin> set jtis \<longrightarrow> validate clock (deny_route now jtis c) p = validate clock c p)"
proof -
  have "boot_time (fold (deny now) jtis c) = boot_time c"
    by (induction jtis arbitrary: c) (auto simp: deny_def)
  then show ?thesis
    using assms by (auto simp: deny_route_def validate_def denied_after Let_def split: option.splits if_splits)
qed

theorem denied_tokens_refused_witness:
  "\<not> validate 7000000000 (deny_route 5000000000 [''x'', ''y''] (new_client 0))
      \<lparr>issuer = [], subject = None, audience = [], expiration_time = Some 9, not_before = None,
       issued_at = Some 3, jwt_id = ''y''\<rparr>"
proof -
  let ?p = "\<lparr>issuer = [], subject = None, audience = [], expiration_time = Some 9, not_before = None,
       issued_at = Some 3, jwt_id = ''y''\<rparr>"
  have "issued_at ?p = Some 3" "jwt_id ?p = ''y''" "3 < timestamp 5000000000" by (simp_all add: timestamp_def)
  then show ?thesis using denied_tokens_refused [of ?p 3 "[''x'', ''y'']" 5000000000] by simp
qed

text \<open>
  Permissions that the panel sends are set for each user it names, the last entry of
  a user counting; nobody else's change.
\<close>

theorem sent_permissions_granted:
  "upm_granted (permissions_route build now given m) =
     upm_granted m ++ map_of (rev (map (\<lambda>(u, ps, ign). (u, ps)) given))"
proof (induction given arbitrary: m)
  case (Cons x xs)
  obtain u ps ign where x: "x = (u, ps, ign)" by (cases x)
  show ?case
    using Cons [of "upm_set_permissions build now u ps ign m"]
    by (simp add: permissions_route_def x upm_set_permissions_granted map_add_def fun_eq_iff split: option.split)
qed (simp add: permissions_route_def)

end
