(* ===== verification/Backup_Adapters.thy ===== *)
theory Backup_Adapters
  imports Json Effects "HOL-Library.Sublist"
begin

unbundle bit_operations_syntax

text \<open>
  Where backups are kept (\<open>server/backup/adapters\<close>): how each adapter finds, deletes and
  cleans up the backup with a given identifier, the dispatch over the adapters, and the
  contract a store of backups should keep to. Making, restoring and browsing a backup
  runs archive crates, object stores and external programs, and is not part of it.

  The backup directory is a map from paths below it to files and directories. External
  programs (\<open>btrfs\<close>, \<open>zfs\<close>, \<open>restic\<close>), the \<open>ddup_bak\<close> repository and the panel are
  parameters.
\<close>

section \<open>Identifiers as text\<close>

definition hex_digit :: "nat \<Rightarrow> char" where
  "hex_digit n = char_of (if n < 10 then 48 + n else 87 + n)"

definition hex_digits :: "uuid \<Rightarrow> string" where
  "hex_digits u = map (\<lambda>i. hex_digit (unat (drop_bit (4 * (31 - i)) u AND 15))) [0..<32]"

definition uuid_text :: "uuid \<Rightarrow> string" where
  "uuid_text u =
     (let ds = hex_digits u in
      take 8 ds @ ''-'' @ take 4 (drop 8 ds) @ ''-'' @ take 4 (drop 12 ds) @ ''-'' @
      take 4 (drop 16 ds) @ ''-'' @ drop 20 ds)"

lemma length_hex_digits [simp]: "length (hex_digits u) = 32"
  by (simp add: hex_digits_def)

lemma length_uuid_text [simp]: "length (uuid_text u) = 36"
  by (simp add: uuid_text_def Let_def)

lemma nibble_digit_inj: "m < 16 \<Longrightarrow> n < 16 \<Longrightarrow> hex_digit m = hex_digit n \<Longrightarrow> m = n"
proof -
  assume mn: "m < 16" "n < 16" "hex_digit m = hex_digit n"
  then have "(if m < 10 then 48 + m else 87 + m) = (if n < 10 then 48 + n else 87 + n)"
    using arg_cong [OF mn(3), of "of_char :: char \<Rightarrow> nat"] by (simp add: hex_digit_def split: if_splits)
  then show "m = n" using mn(1,2) by (simp split: if_splits)
qed

lemma hex_digits_inj: "hex_digits u = hex_digits v \<Longrightarrow> u = v"
proof (rule bit_word_eqI)
  fix n
  assume same: "hex_digits u = hex_digits v" and "n < LENGTH(128)"
  then have n: "n < 128" by simp
  define i where "i = 31 - n div 4"
  have i: "i < 32" "4 * (31 - i) = 4 * (n div 4)" using n by (simp_all add: i_def)
  have bound: "unat (x AND 15 :: uuid) < 16" for x
  proof -
    have "x AND 15 \<le> (15 :: uuid)" by (rule word_and_le1)
    then show ?thesis by (simp add: word_le_nat_alt)
  qed
  have "hex_digits u ! i = hex_digits v ! i" using same by simp
  then have "hex_digit (unat (drop_bit (4 * (31 - i)) u AND 15)) = hex_digit (unat (drop_bit (4 * (31 - i)) v AND 15))"
    using i(1) by (simp add: hex_digits_def)
  then have "unat (drop_bit (4 * (31 - i)) u AND 15) = unat (drop_bit (4 * (31 - i)) v AND 15)"
    by (rule nibble_digit_inj [OF bound bound])
  then have nibble: "drop_bit (4 * (n div 4)) u AND 15 = drop_bit (4 * (n div 4)) v AND 15"
    using i(2) by (simp add: word_unat_eq_iff)
  have low: "bit (15 :: uuid) (n mod 4)"
  proof -
    have "bit (mask 4 :: uuid) (n mod 4)" unfolding bit_mask_iff by simp
    moreover have "(mask 4 :: uuid) = 15" by (simp add: mask_eq_exp_minus_1)
    ultimately show ?thesis by simp
  qed
  have "bit u n = bit (drop_bit (4 * (n div 4)) u AND 15) (n mod 4)" for u :: uuid
    using low by (simp add: bit_and_iff bit_drop_bit_eq comp_def)
  then show "bit u n = bit v n" using nibble by simp
qed

lemma uuid_text_inj [simp]: "uuid_text u = uuid_text v \<longleftrightarrow> u = v"
proof
  assume same: "uuid_text u = uuid_text v"
  have pieces: "take 8 ds @ take 4 (drop 8 ds) @ take 4 (drop 12 ds) @ take 4 (drop 16 ds) @ drop 20 ds = ds" for ds :: string
  proof -
    have step: "take 4 (drop n ds) @ drop (n + 4) ds = drop n ds" for n
      using append_take_drop_id [of 4 "drop n ds"] by (simp add: add.commute)
    show ?thesis using step [of 8] step [of 12] step [of 16] by simp
  qed
  have "take 8 (hex_digits u) = take 8 (hex_digits v) \<and> take 4 (drop 8 (hex_digits u)) = take 4 (drop 8 (hex_digits v)) \<and>
      take 4 (drop 12 (hex_digits u)) = take 4 (drop 12 (hex_digits v)) \<and>
      take 4 (drop 16 (hex_digits u)) = take 4 (drop 16 (hex_digits v)) \<and> drop 20 (hex_digits u) = drop 20 (hex_digits v)"
    using same by (simp add: uuid_text_def Let_def)
  then have "hex_digits u = hex_digits v"
    using pieces [of "hex_digits u"] pieces [of "hex_digits v"] by metis
  then show "u = v" by (rule hex_digits_inj)
qed simp

section \<open>The backup directory\<close>

datatype node = FileNode string | DirNode

type_synonym bpath = "string list"
type_synonym disk = "bpath \<Rightarrow> node option"

definition there :: "disk \<Rightarrow> bpath \<Rightarrow> bool" where
  "there d p \<longleftrightarrow> d p \<noteq> None"

definition read_to_string :: "disk \<Rightarrow> bpath \<Rightarrow> string option" where
  "read_to_string d p = (case d p of Some (FileNode s) \<Rightarrow> Some s | _ \<Rightarrow> None)"

definition remove_file :: "bpath \<Rightarrow> disk \<Rightarrow> unit result \<times> disk" where
  "remove_file p d = (case d p of Some (FileNode s) \<Rightarrow> (Inr (), d(p := None)) | _ \<Rightarrow> (Inl ''no such file'', d))"

definition remove_tree :: "bpath \<Rightarrow> disk \<Rightarrow> disk" where
  "remove_tree p d = (\<lambda>q. if prefix p q then None else d q)"

definition remove_dir_all :: "bpath \<Rightarrow> disk \<Rightarrow> unit result \<times> disk" where
  "remove_dir_all p d = (if d p = Some DirNode then (Inr (), remove_tree p d) else (Inl ''not a directory'', d))"

section \<open>Backups\<close>

datatype BackupAdapter = Wings | S3 | DdupBak | Btrfs | Zfs | Restic

datatype archive_format = Tar | TarGz | TarZstd | Zip

datatype Backup =
    WingsBackup uuid archive_format bpath
  | S3Backup uuid
  | DdupBakBackup uuid
  | BtrfsBackup uuid
  | ZfsBackup uuid uuid
  | ResticBackup uuid string string nat

fun backup_uuid :: "Backup \<Rightarrow> uuid" where
  "backup_uuid (WingsBackup u f p) = u"
| "backup_uuid (S3Backup u) = u"
| "backup_uuid (DdupBakBackup u) = u"
| "backup_uuid (BtrfsBackup u) = u"
| "backup_uuid (ZfsBackup s u) = u"
| "backup_uuid (ResticBackup u i p c) = u"

fun backup_adapter :: "Backup \<Rightarrow> BackupAdapter" where
  "backup_adapter (WingsBackup u f p) = Wings"
| "backup_adapter (S3Backup u) = S3"
| "backup_adapter (DdupBakBackup u) = DdupBak"
| "backup_adapter (BtrfsBackup u) = Btrfs"
| "backup_adapter (ZfsBackup s u) = Zfs"
| "backup_adapter (ResticBackup u i p c) = Restic"

subsection \<open>Archives\<close>

fun format_suffix :: "archive_format \<Rightarrow> string" where
  "format_suffix Tar = ''.tar''"
| "format_suffix TarGz = ''.tar.gz''"
| "format_suffix TarZstd = ''.tar.zst''"
| "format_suffix Zip = ''.zip''"

definition wings_file :: "archive_format \<Rightarrow> uuid \<Rightarrow> bpath" where
  "wings_file f u = [uuid_text u @ format_suffix f]"

definition get_first_file_name :: "uuid \<Rightarrow> disk \<Rightarrow> (archive_format \<times> bpath) option" where
  "get_first_file_name u d =
     map_option (\<lambda>f. (f, wings_file f u)) (List.find (\<lambda>f. there d (wings_file f u)) [Tar, TarGz, TarZstd, Zip])"

definition wings_exists :: "uuid \<Rightarrow> disk \<Rightarrow> bool" where
  "wings_exists u d \<longleftrightarrow> get_first_file_name u d \<noteq> None"

definition wings_find :: "uuid \<Rightarrow> disk \<Rightarrow> Backup option" where
  "wings_find u d = map_option (\<lambda>(f, p). WingsBackup u f p) (get_first_file_name u d)"

definition clean_file :: "bpath \<Rightarrow> disk \<Rightarrow> unit result \<times> disk" where
  "clean_file p d = (if there d p then remove_file p d else (Inr (), d))"

text \<open>\<open>f\<close> is the format the configuration names.\<close>

definition wings_clean :: "archive_format \<Rightarrow> uuid \<Rightarrow> disk \<Rightarrow> unit result \<times> disk" where
  "wings_clean f u = clean_file (wings_file f u)"

subsection \<open>Object store\<close>

definition s3_file :: "uuid \<Rightarrow> bpath" where
  "s3_file u = [uuid_text u @ ''.s3.tar.gz'']"

definition s3_exists :: "uuid \<Rightarrow> disk \<Rightarrow> bool" where
  "s3_exists u d \<longleftrightarrow> there d (s3_file u)"

definition s3_find :: "uuid \<Rightarrow> disk \<Rightarrow> Backup option" where
  "s3_find u d = Some (S3Backup u)"

definition s3_clean :: "uuid \<Rightarrow> disk \<Rightarrow> unit result \<times> disk" where
  "s3_clean u = clean_file (s3_file u)"

subsection \<open>Btrfs subvolumes\<close>

definition btrfs_path :: "uuid \<Rightarrow> bpath" where
  "btrfs_path u = [''btrfs'', uuid_text u]"

definition subvolume_path :: "uuid \<Rightarrow> bpath" where
  "subvolume_path u = btrfs_path u @ [''subvolume'']"

definition btrfs_exists :: "uuid \<Rightarrow> disk \<Rightarrow> bool" where
  "btrfs_exists u d \<longleftrightarrow> there d (btrfs_path u)"

definition btrfs_find :: "uuid \<Rightarrow> disk \<Rightarrow> Backup option" where
  "btrfs_find u d = (if btrfs_exists u d then Some (BtrfsBackup u) else None)"

text \<open>
  \<open>btrfs\<close> is the result of \<open>btrfs subvolume delete\<close>. \<open>delete\<close> also destroys quota groups,
  which are not on the disk, and fails when their listing cannot be run.
\<close>

definition btrfs_clean :: "unit result \<Rightarrow> uuid \<Rightarrow> disk \<Rightarrow> unit result \<times> disk" where
  "btrfs_clean btrfs u d =
     (if \<not> there d (subvolume_path u) then (Inr (), d)
      else case btrfs of Inl err \<Rightarrow> (Inl err, d) | Inr _ \<Rightarrow> (Inr (), remove_tree (subvolume_path u) d))"

definition btrfs_delete :: "unit result \<Rightarrow> unit result \<Rightarrow> uuid \<Rightarrow> disk \<Rightarrow> unit result \<times> disk" where
  "btrfs_delete qgroups btrfs u d =
     (if \<not> there d (subvolume_path u) then (Inr (), d)
      else case qgroups of Inl err \<Rightarrow> (Inl err, d) | Inr _ \<Rightarrow> btrfs_clean btrfs u d)"

subsection \<open>ZFS snapshots\<close>

definition zfs_path :: "uuid \<Rightarrow> bpath" where
  "zfs_path u = [''zfs'', uuid_text u]"

definition zfs_exists :: "uuid \<Rightarrow> disk \<Rightarrow> bool" where
  "zfs_exists u d \<longleftrightarrow> there d (zfs_path u)"

text \<open>\<open>parse\<close> is \<open>Uuid::parse_str\<close>; the name of the dataset ends with the server.\<close>

definition zfs_find :: "(string \<Rightarrow> uuid option) \<Rightarrow> uuid \<Rightarrow> disk \<Rightarrow> Backup option result" where
  "zfs_find parse u d =
     (if \<not> zfs_exists u d then Inr None
      else case read_to_string d (zfs_path u @ [''dataset'']) of
             None \<Rightarrow> Inl ''no dataset''
           | Some dataset \<Rightarrow>
               (case str_find dataset ''server-'' of
                  None \<Rightarrow> Inl (''failed to parse dataset name: '' @ dataset)
                | Some i \<Rightarrow>
                    (case parse (drop (i + 7) dataset) of
                       None \<Rightarrow> Inl ''invalid uuid''
                     | Some s \<Rightarrow> Inr (Some (ZfsBackup s u)))))"

text \<open>\<open>delete\<close> and \<open>clean\<close> are the same; \<open>zfs\<close> is the result of \<open>zfs destroy\<close>.\<close>

definition zfs_clean :: "unit result \<Rightarrow> uuid \<Rightarrow> disk \<Rightarrow> unit result \<times> disk" where
  "zfs_clean zfs u d =
     (if \<not> there d (zfs_path u) then (Inr (), d)
      else case (read_to_string d (zfs_path u @ [''dataset'']), zfs) of
             (Some n, Inl err) \<Rightarrow> (Inl err, d)
           | _ \<Rightarrow> remove_dir_all (zfs_path u) d)"

subsection \<open>Restic repositories\<close>

record snapshot =
  sn_short_id :: string
  sn_tags :: "string list"
  sn_paths :: "string list"

text \<open>
  The cache of snapshots is shared by all repositories; a configuration is a number. A
  listing is an error when \<open>restic\<close> cannot be run, \<open>None\<close> when it fails; the panel may
  name a second repository.
\<close>

type_synonym restic_cache = "uuid \<Rightarrow> (snapshot \<times> nat) option"

record restic_env =
  re_parse :: "string \<Rightarrow> uuid option"
  re_password_file :: bool
  re_own :: "snapshot list option result"
  re_panel :: "snapshot list option result option"

definition snapshot_uuid :: "restic_env \<Rightarrow> snapshot \<Rightarrow> uuid option" where
  "snapshot_uuid e s = (case sn_tags s of [] \<Rightarrow> None | t # ts \<Rightarrow> re_parse e t)"

fun cache_snapshots ::
  "restic_env \<Rightarrow> uuid \<Rightarrow> nat \<Rightarrow> snapshot list \<Rightarrow> bool \<Rightarrow> restic_cache \<Rightarrow> bool \<times> restic_cache" where
  "cache_snapshots e u c [] found cache = (found, cache)"
| "cache_snapshots e u c (s # ss) found cache =
     (case snapshot_uuid e s of
        None \<Rightarrow> cache_snapshots e u c ss found cache
      | Some v \<Rightarrow> cache_snapshots e u c ss (found \<or> v = u) (cache(v \<mapsto> (s, c))))"

definition own_listing :: "restic_env \<Rightarrow> snapshot list option result" where
  "own_listing e = (if re_password_file e then re_own e else Inr None)"

definition panel_listing :: "restic_env \<Rightarrow> snapshot list option result" where
  "panel_listing e = (case re_panel e of Some r \<Rightarrow> r | None \<Rightarrow> Inr None)"

definition restic_exists :: "restic_env \<Rightarrow> uuid \<Rightarrow> restic_cache \<Rightarrow> bool result \<times> restic_cache" where
  "restic_exists e u cache =
     (if cache u \<noteq> None then (Inr True, cache)
      else case own_listing e of
        Inl err \<Rightarrow> (Inl err, cache)
      | Inr own \<Rightarrow>
          (case cache_snapshots e u 0 (case_option [] id own) False cache of
             (True, cache) \<Rightarrow> (Inr True, cache)
           | (False, cache) \<Rightarrow>
               (case panel_listing e of
                  Inl err \<Rightarrow> (Inl err, cache)
                | Inr panel \<Rightarrow> apfst Inr (cache_snapshots e u 1 (case_option [] id panel) False cache))))"

definition restic_backup :: "uuid \<Rightarrow> snapshot \<Rightarrow> nat \<Rightarrow> Backup result" where
  "restic_backup u s c =
     (case sn_paths s of
        [] \<Rightarrow> Inl ''no paths found in restic snapshot''
      | p # ps \<Rightarrow> Inr (ResticBackup u (sn_short_id s) p c))"

fun find_snapshot ::
  "restic_env \<Rightarrow> uuid \<Rightarrow> nat \<Rightarrow> snapshot list \<Rightarrow> Backup option \<Rightarrow> restic_cache \<Rightarrow> Backup option result \<times> restic_cache" where
  "find_snapshot e u c [] backup cache = (Inr backup, cache)"
| "find_snapshot e u c (s # ss) backup cache =
     (case snapshot_uuid e s of
        None \<Rightarrow> find_snapshot e u c ss backup cache
      | Some v \<Rightarrow>
          if v = u then
            (case restic_backup u s c of
               Inl err \<Rightarrow> (Inl err, cache)
             | Inr b \<Rightarrow> find_snapshot e u c ss (Some b) (cache(v \<mapsto> (s, c))))
          else find_snapshot e u c ss backup (cache(v \<mapsto> (s, c))))"

definition restic_find :: "restic_env \<Rightarrow> uuid \<Rightarrow> restic_cache \<Rightarrow> Backup option result \<times> restic_cache" where
  "restic_find e u cache =
     (case cache u of
        Some (s, c) \<Rightarrow> (map_sum id Some (restic_backup u s c), cache)
      | None \<Rightarrow>
          (case own_listing e of
             Inl err \<Rightarrow> (Inl err, cache)
           | Inr own \<Rightarrow>
               (case find_snapshot e u 0 (case_option [] id own) None cache of
                  (Inr None, cache) \<Rightarrow>
                    (case panel_listing e of
                       Inl err \<Rightarrow> (Inl err, cache)
                     | Inr panel \<Rightarrow> find_snapshot e u 1 (case_option [] id panel) None cache)
                | r \<Rightarrow> r)))"

text \<open>\<open>forget\<close> is the result of \<open>restic forget\<close>.\<close>

definition restic_delete :: "unit result \<Rightarrow> uuid \<Rightarrow> restic_cache \<Rightarrow> unit result \<times> restic_cache" where
  "restic_delete forget u cache =
     (case forget of Inl err \<Rightarrow> (Inl err, cache) | Inr _ \<Rightarrow> (Inr (), cache(u := None)))"

section \<open>Dispatch\<close>

record adapter_env = restic_env +
  ae_format :: archive_format
  ae_ddup_there :: "uuid \<Rightarrow> bool"
  ae_ddup_archive :: "uuid \<Rightarrow> bool result"
  ae_ddup_delete :: "uuid \<Rightarrow> unit result"
  ae_btrfs_qgroups :: "unit result"
  ae_btrfs :: "unit result"
  ae_zfs :: "unit result"
  ae_forget :: "unit result"

record backup_store =
  bs_disk :: disk
  bs_cache :: restic_cache

definition on_disk :: "(disk \<Rightarrow> 'a \<times> disk) \<Rightarrow> backup_store \<Rightarrow> 'a \<times> backup_store" where
  "on_disk f st = (case f (bs_disk st) of (r, d) \<Rightarrow> (r, st\<lparr>bs_disk := d\<rparr>))"

definition on_cache :: "(restic_cache \<Rightarrow> 'a \<times> restic_cache) \<Rightarrow> backup_store \<Rightarrow> 'a \<times> backup_store" where
  "on_cache f st = (case f (bs_cache st) of (r, c) \<Rightarrow> (r, st\<lparr>bs_cache := c\<rparr>))"

fun adapter_exists :: "adapter_env \<Rightarrow> BackupAdapter \<Rightarrow> uuid \<Rightarrow> backup_store \<Rightarrow> bool result \<times> backup_store" where
  "adapter_exists e Wings u st = (Inr (wings_exists u (bs_disk st)), st)"
| "adapter_exists e S3 u st = (Inr (s3_exists u (bs_disk st)), st)"
| "adapter_exists e DdupBak u st = (Inr (ae_ddup_there e u), st)"
| "adapter_exists e Btrfs u st = (Inr (btrfs_exists u (bs_disk st)), st)"
| "adapter_exists e Zfs u st = (Inr (zfs_exists u (bs_disk st)), st)"
| "adapter_exists e Restic u st = on_cache (restic_exists (restic_env.truncate e) u) st"

fun adapter_find ::
  "adapter_env \<Rightarrow> BackupAdapter \<Rightarrow> uuid \<Rightarrow> backup_store \<Rightarrow> Backup option result \<times> backup_store" where
  "adapter_find e Wings u st = (Inr (wings_find u (bs_disk st)), st)"
| "adapter_find e S3 u st = (Inr (s3_find u (bs_disk st)), st)"
| "adapter_find e DdupBak u st =
     (map_sum id (\<lambda>b. if b then Some (DdupBakBackup u) else None) (ae_ddup_archive e u), st)"
| "adapter_find e Btrfs u st = (Inr (btrfs_find u (bs_disk st)), st)"
| "adapter_find e Zfs u st = (zfs_find (re_parse e) u (bs_disk st), st)"
| "adapter_find e Restic u st = on_cache (restic_find (restic_env.truncate e) u) st"

fun adapter_clean :: "adapter_env \<Rightarrow> BackupAdapter \<Rightarrow> uuid \<Rightarrow> backup_store \<Rightarrow> unit result \<times> backup_store" where
  "adapter_clean e Wings u st = on_disk (wings_clean (ae_format e) u) st"
| "adapter_clean e S3 u st = on_disk (s3_clean u) st"
| "adapter_clean e DdupBak u st = (ae_ddup_delete e u, st)"
| "adapter_clean e Btrfs u st = on_disk (btrfs_clean (ae_btrfs e) u) st"
| "adapter_clean e Zfs u st = on_disk (zfs_clean (ae_zfs e) u) st"
| "adapter_clean e Restic u st = (Inr (), st)"

fun delete_backup :: "adapter_env \<Rightarrow> Backup \<Rightarrow> backup_store \<Rightarrow> unit result \<times> backup_store" where
  "delete_backup e (WingsBackup u f p) st = on_disk (remove_file p) st"
| "delete_backup e (S3Backup u) st = on_disk (s3_clean u) st"
| "delete_backup e (DdupBakBackup u) st = (ae_ddup_delete e u, st)"
| "delete_backup e (BtrfsBackup u) st = on_disk (btrfs_delete (ae_btrfs_qgroups e) (ae_btrfs e) u) st"
| "delete_backup e (ZfsBackup s u) st = on_disk (zfs_clean (ae_zfs e) u) st"
| "delete_backup e (ResticBackup u i p c) st = on_cache (restic_delete (ae_forget e) u) st"

definition variants :: "BackupAdapter list" where
  "variants = [Wings, S3, DdupBak, Btrfs, Zfs, Restic]"

fun exists_in :: "adapter_env \<Rightarrow> BackupAdapter list \<Rightarrow> uuid \<Rightarrow> backup_store \<Rightarrow> bool result \<times> backup_store" where
  "exists_in e [] u st = (Inr False, st)"
| "exists_in e (a # as) u st =
     (case adapter_exists e a u st of
        (Inr False, st) \<Rightarrow> exists_in e as u st
      | r \<Rightarrow> r)"

definition exists_any :: "adapter_env \<Rightarrow> uuid \<Rightarrow> backup_store \<Rightarrow> bool result \<times> backup_store" where
  "exists_any e = exists_in e variants"

text \<open>The search over all adapters leaves the object store out, which would find anything.\<close>

fun find_in ::
  "adapter_env \<Rightarrow> BackupAdapter list \<Rightarrow> uuid \<Rightarrow> backup_store \<Rightarrow> (BackupAdapter \<times> Backup) option result \<times> backup_store" where
  "find_in e [] u st = (Inr None, st)"
| "find_in e (a # as) u st =
     (case (if a = S3 then (Inr None, st) else adapter_find e a u st) of
        (Inl err, st) \<Rightarrow> (Inl err, st)
      | (Inr (Some b), st) \<Rightarrow> (Inr (Some (a, b)), st)
      | (Inr None, st) \<Rightarrow> find_in e as u st)"

definition find_all :: "adapter_env \<Rightarrow> uuid \<Rightarrow> backup_store \<Rightarrow> (BackupAdapter \<times> Backup) option result \<times> backup_store" where
  "find_all e = find_in e variants"


section \<open>The contract of a store\<close>

text \<open>
  What the manager relies on: a backup is there exactly when it is found, it is found
  under its identifier, a deletion that succeeds removes it, and no other one.
\<close>

locale backup_keeper =
  fixes exists :: "uuid \<Rightarrow> 'd \<Rightarrow> bool" and find :: "uuid \<Rightarrow> 'd \<Rightarrow> Backup option"
    and delete :: "Backup \<Rightarrow> 'd \<Rightarrow> unit result \<times> 'd" and valid :: "'d \<Rightarrow> bool"
  assumes exists_iff: "valid d \<Longrightarrow> exists u d \<longleftrightarrow> find u d \<noteq> None"
    and find_uuid: "find u d = Some b \<Longrightarrow> backup_uuid b = u"
    and deleted: "valid d \<Longrightarrow> find u d = Some b \<Longrightarrow> delete b d = (Inr (), d') \<Longrightarrow> find u d' = None"
    and others: "valid d \<Longrightarrow> find u d = Some b \<Longrightarrow> delete b d = (r, d') \<Longrightarrow> v \<noteq> u \<Longrightarrow> find v d' = find v d"
    and valid_kept: "valid d \<Longrightarrow> find u d = Some b \<Longrightarrow> delete b d = (r, d') \<Longrightarrow> valid d'"
begin

text \<open>Deleting a list of identifiers, those that are found.\<close>

fun delete_all :: "uuid list \<Rightarrow> 'd \<Rightarrow> 'd" where
  "delete_all [] d = d"
| "delete_all (u # us) d =
     (case find u d of None \<Rightarrow> delete_all us d | Some b \<Rightarrow> delete_all us (snd (delete b d)))"

lemma delete_all_others:
  "valid d \<Longrightarrow> v \<notin> set us \<Longrightarrow> find v (delete_all us d) = find v d \<and> valid (delete_all us d)"
proof (induction us arbitrary: d)
  case (Cons u us)
  show ?case
  proof (cases "find u d")
    case (Some b)
    obtain r d' where del: "delete b d = (r, d')" by fastforce
    have "valid d'" "find v d' = find v d"
      using valid_kept [OF Cons.prems(1) Some del] others [OF Cons.prems(1) Some del] Cons.prems(2) by auto
    then show ?thesis using Cons.IH [of d'] Cons.prems(2) by (simp add: Some del)
  qed (use Cons in simp)
qed simp

lemma deleted_not_there:
  assumes "valid d" and "find u d = Some b" and "delete b d = (Inr (), d')"
  shows "\<not> exists u d'" and "v \<noteq> u \<Longrightarrow> exists v d' \<longleftrightarrow> exists v d"
  using exists_iff [OF valid_kept [OF assms]] deleted [OF assms] others [OF assms] exists_iff [OF assms(1)]
  by simp_all

end

text \<open>Archives keep the contract when no backup is there in two formats.\<close>

definition one_format :: "disk \<Rightarrow> bool" where
  "one_format d \<longleftrightarrow> (\<forall>u f g. there d (wings_file f u) \<longrightarrow> there d (wings_file g u) \<longrightarrow> f = g)"

fun wings_delete :: "Backup \<Rightarrow> disk \<Rightarrow> unit result \<times> disk" where
  "wings_delete (WingsBackup u f p) d = remove_file p d"
| "wings_delete b d = (Inl ''not an archive'', d)"

lemma append_same_length: "length a = length b \<Longrightarrow> a @ x = b @ y \<longleftrightarrow> a = b \<and> x = y"
  by (simp add: append_eq_append_conv)

lemma wings_file_inj [simp]: "wings_file f u = wings_file g v \<longleftrightarrow> f = g \<and> u = v"
  by (cases f; cases g) (auto simp: wings_file_def append_same_length)

lemma wings_found:
  "wings_find u d = Some b \<Longrightarrow> \<exists>f. b = WingsBackup u f (wings_file f u) \<and> there d (wings_file f u)"
  by (auto simp: wings_find_def get_first_file_name_def split: if_splits)

lemma wings_find_None: "wings_find u d = None \<longleftrightarrow> (\<forall>f. \<not> there d (wings_file f u))"
  by (auto simp: wings_find_def get_first_file_name_def find_None_iff) (metis archive_format.exhaust)

lemma remove_file_there:
  "remove_file p d = (r, d') \<Longrightarrow> there d' q \<longleftrightarrow> there d q \<and> (q = p \<longrightarrow> isl r)"
  by (auto simp: remove_file_def there_def split: option.splits node.splits if_splits)

lemma wings_find_cong: "(\<And>f. there d' (wings_file f v) = there d (wings_file f v)) \<Longrightarrow> wings_find v d' = wings_find v d"
  by (simp add: wings_find_def get_first_file_name_def)

interpretation archives: backup_keeper wings_exists wings_find wings_delete one_format
proof
  fix d u b d' r v
  show "wings_exists u d \<longleftrightarrow> wings_find u d \<noteq> None"
    by (simp add: wings_exists_def wings_find_def)
  show "wings_find u d = Some b \<Longrightarrow> backup_uuid b = u"
    by (auto dest: wings_found)
  assume d: "one_format d" and b: "wings_find u d = Some b"
  obtain f where f: "b = WingsBackup u f (wings_file f u)" "there d (wings_file f u)"
    using wings_found [OF b] by blast
  have only: "there d (wings_file g u) \<longleftrightarrow> g = f" for g
    using d f(2) unfolding one_format_def by blast
  show "wings_find u d' = None" if "wings_delete b d = (Inr (), d')"
    using that f only remove_file_there [of "wings_file f u" d "Inr ()" d'] by (auto simp: wings_find_None)
  show "wings_find v d' = wings_find v d" if "wings_delete b d = (r, d')" "v \<noteq> u"
    by (rule wings_find_cong) (use that f remove_file_there [of "wings_file f u" d r d'] in auto)
  show "one_format d'" if "wings_delete b d = (r, d')"
    using that d f remove_file_there [of "wings_file f u" d r d'] unfolding one_format_def by auto
qed

section \<open>Properties\<close>

text \<open>
  The deletion of an archive that is found, when it succeeds, leaves no archive under
  its identifier in any format, and every other backup as it was, provided no identifier
  has archives in two formats.
\<close>

theorem archive_deleted:
  assumes "one_format (bs_disk st)" and "adapter_find e Wings u st = (Inr (Some b), st)"
    and "delete_backup e b st = (Inr (), st')"
  shows "adapter_exists e Wings u st' = (Inr False, st') \<and>
     (v \<noteq> u \<longrightarrow> fst (adapter_find e Wings v st') = fst (adapter_find e Wings v st))"
proof -
  have b: "wings_find u (bs_disk st) = Some b" using assms(2) by simp
  obtain f where f: "b = WingsBackup u f (wings_file f u)" using wings_found [OF b] by blast
  have del: "wings_delete b (bs_disk st) = (Inr (), bs_disk st')"
    using assms(3) f by (auto simp: on_disk_def split: prod.splits)
  show ?thesis
    using archives.deleted_not_there(1) [OF assms(1) b del] archives.others [OF assms(1) b del] by simp
qed

definition sample_adapters :: adapter_env where
  "sample_adapters =
     \<lparr>re_parse = \<lambda>s. None, re_password_file = False, re_own = Inr None, re_panel = None, ae_format = Zip,
      ae_ddup_there = \<lambda>_. False, ae_ddup_archive = \<lambda>_. Inr False, ae_ddup_delete = \<lambda>_. Inr (),
      ae_btrfs_qgroups = Inr (), ae_btrfs = Inr (), ae_zfs = Inr (), ae_forget = Inr ()\<rparr>"

definition sample_store :: backup_store where
  "sample_store =
     \<lparr>bs_disk = [wings_file Zip 7 \<mapsto> FileNode ''PK'', btrfs_path 8 \<mapsto> DirNode, subvolume_path 8 \<mapsto> DirNode],
      bs_cache = Map.empty\<rparr>"

lemma store_paths [simp]:
  "wings_file f u \<noteq> btrfs_path v" "wings_file f u \<noteq> subvolume_path v" "btrfs_path u \<noteq> wings_file f v"
  "btrfs_path u \<noteq> subvolume_path v" "subvolume_path u \<noteq> wings_file f v"
  by (simp_all add: wings_file_def btrfs_path_def subvolume_path_def)

theorem archive_deleted_witness:
  "fst (adapter_exists sample_adapters Wings 7 (snd (delete_backup sample_adapters (WingsBackup 7 Zip (wings_file Zip 7)) sample_store))) = Inr False"
proof -
  have "one_format (bs_disk sample_store)"
    by (auto simp: one_format_def sample_store_def there_def split: if_splits)
  moreover have "adapter_find sample_adapters Wings 7 sample_store = (Inr (Some (WingsBackup 7 Zip (wings_file Zip 7))), sample_store)"
    by (simp add: wings_find_def get_first_file_name_def sample_store_def there_def)
  moreover obtain st' where "delete_backup sample_adapters (WingsBackup 7 Zip (wings_file Zip 7)) sample_store = (Inr (), st')"
    by (simp add: on_disk_def remove_file_def sample_store_def)
  ultimately show ?thesis using archive_deleted by (metis fst_conv snd_conv)
qed

text \<open>
  A deletion through btrfs leaves the directory of the backup behind, so a backup
  that was deleted with success is found again, and a deletion of it does nothing and
  succeeds again.
\<close>

theorem btrfs_deleted_still_found:
  assumes "there (bs_disk st) (btrfs_path u)" and "delete_backup e (BtrfsBackup u) st = (Inr (), st')"
  shows "adapter_exists e Btrfs u st' = (Inr True, st') \<and>
     adapter_find e Btrfs u st' = (Inr (Some (BtrfsBackup u)), st') \<and>
     delete_backup e (BtrfsBackup u) st' = (Inr (), st')"
proof -
  have short: "\<not> prefix (subvolume_path u) (btrfs_path u)" by (auto simp: subvolume_path_def dest: prefix_length_le)
  have "there (bs_disk st') (btrfs_path u)" and "\<not> there (bs_disk st') (subvolume_path u)"
    using assms short
    by (auto simp: on_disk_def btrfs_delete_def btrfs_clean_def remove_tree_def there_def split: if_splits sum.splits)
  then show ?thesis
    by (simp add: btrfs_find_def btrfs_exists_def on_disk_def btrfs_delete_def)
qed

theorem btrfs_deleted_still_found_witness:
  "fst (adapter_exists sample_adapters Btrfs 8 (snd (delete_backup sample_adapters (BtrfsBackup 8) sample_store))) = Inr True"
proof -
  have "there (bs_disk sample_store) (btrfs_path 8)" by (simp add: sample_store_def there_def)
  moreover obtain st' where "delete_backup sample_adapters (BtrfsBackup 8) sample_store = (Inr (), st')"
    by (simp add: on_disk_def btrfs_delete_def btrfs_clean_def sample_store_def there_def sample_adapters_def)
  ultimately show ?thesis using btrfs_deleted_still_found by (metis fst_conv snd_conv)
qed

lemma find_in_spec:
  "find_in e as u st = (Inr (Some (a, b)), st') \<Longrightarrow>
     \<exists>before after s. as = before @ a # after \<and> a \<noteq> S3 \<and> adapter_find e a u s = (Inr (Some b), st') \<and>
       find_in e before u st = (Inr None, s)"
proof (induction e as u st rule: find_in.induct)
  case (2 e c cs u st)
  obtain r s where r: "(if c = S3 then (Inr None, st) else adapter_find e c u st) = (r, s)" by fastforce
  show ?case
  proof (cases "r = Inr None")
    case True
    then have "find_in e cs u s = (Inr (Some (a, b)), st')" using 2(2) r by simp
    then obtain before after t where "cs = before @ a # after" "a \<noteq> S3"
      "adapter_find e a u t = (Inr (Some b), st')" "find_in e before u s = (Inr None, t)"
      using 2(1) [OF r [symmetric]] True by blast
    then have "c # cs = (c # before) @ a # after \<and> a \<noteq> S3 \<and> adapter_find e a u t = (Inr (Some b), st') \<and>
        find_in e (c # before) u st = (Inr None, t)" using r True by simp
    then show ?thesis by blast
  next
    case False
    then have "c = a" "r = Inr (Some b)" "s = st'" using 2(2) r by (auto split: sum.splits option.splits)
    then have "c # cs = [] @ a # cs \<and> a \<noteq> S3 \<and> adapter_find e a u st = (Inr (Some b), st') \<and>
        find_in e [] u st = (Inr None, st)" using r by (auto split: if_splits)
    then show ?thesis by blast
  qed
qed simp

text \<open>
  The search over the adapters returns the first one, in their order and without the
  object store, that has the backup when all before it have not; an adapter that fails
  hides the ones after it.
\<close>

theorem find_all_first:
  assumes "find_all e u st = (Inr (Some (a, b)), st')"
  shows "\<exists>before after s. variants = before @ a # after \<and> a \<noteq> S3 \<and>
     adapter_find e a u s = (Inr (Some b), st') \<and> find_in e before u st = (Inr None, s)"
  using assms unfolding find_all_def by (rule find_in_spec)

theorem find_all_first_witness:
  "\<exists>before after s. variants = before @ Wings # after \<and> Wings \<noteq> S3 \<and>
     adapter_find sample_adapters Wings 7 s = (Inr (Some (WingsBackup 7 Zip (wings_file Zip 7))), sample_store) \<and>
     find_in sample_adapters before 7 sample_store = (Inr None, s)"
proof -
  have "adapter_find sample_adapters Wings 7 sample_store = (Inr (Some (WingsBackup 7 Zip (wings_file Zip 7))), sample_store)"
    by (simp add: wings_find_def get_first_file_name_def sample_store_def there_def)
  then have "find_all sample_adapters 7 sample_store = (Inr (Some (Wings, WingsBackup 7 Zip (wings_file Zip 7))), sample_store)"
    by (simp add: find_all_def variants_def)
  then show ?thesis by (rule find_all_first)
qed

lemma cache_snapshots_spec:
  "cache_snapshots e u c ss found cache = (b, cache') \<Longrightarrow> (found \<longrightarrow> cache u \<noteq> None) \<Longrightarrow> (b \<longrightarrow> cache' u \<noteq> None)"
  by (induction e u c ss found cache rule: cache_snapshots.induct) (auto split: option.splits)

text \<open>
  A snapshot that is reported to exist is found afterwards without another listing,
  in the state it was recorded in; only a snapshot without paths is an error then.
\<close>

theorem restic_exists_then_found:
  assumes "restic_exists e u cache = (Inr True, cache')"
  shows "\<exists>s c. cache' u = Some (s, c) \<and> restic_find e' u cache' = (map_sum id Some (restic_backup u s c), cache')"
proof -
  have "cache' u \<noteq> None"
    using assms
    by (auto simp: restic_exists_def apfst_def map_prod_def split: if_splits sum.splits prod.splits bool.splits
        dest: cache_snapshots_spec)
  then show ?thesis by (auto simp: restic_find_def)
qed

theorem restic_exists_then_found_witness:
  "\<exists>s c. snd (restic_exists \<lparr>re_parse = \<lambda>t. Some 5, re_password_file = True, re_own = Inr (Some
        [\<lparr>sn_short_id = ''ab'', sn_tags = [''t''], sn_paths = [''/srv'']\<rparr>]), re_panel = None\<rparr> 5 Map.empty) 5 = Some (s, c)"
proof -
  let ?e = "\<lparr>re_parse = \<lambda>t. Some 5, re_password_file = True, re_own = Inr (Some
        [\<lparr>sn_short_id = ''ab'', sn_tags = [''t''], sn_paths = [''/srv'']\<rparr>]), re_panel = None\<rparr>"
  obtain cache' where run: "restic_exists ?e 5 Map.empty = (Inr True, cache')"
    by (simp add: restic_exists_def own_listing_def snapshot_uuid_def)
  have "\<exists>s c. cache' 5 = Some (s, c)" using restic_exists_then_found [OF run] by blast
  then show ?thesis using run by simp
qed

end
