(* ===== verification/Backup_Manager.thy ===== *)
theory Backup_Manager
  imports Backup_Adapters Power_Actions
begin

text \<open>
  The manager of backups (\<open>server/backup/manager.rs\<close>) and the routes on them
  (\<open>routes/api/servers/_server_/backup\<close>, \<open>routes/api/backups\<close>): its caches, the creation
  of a backup with its reports to the panel, its restoration, its deletion, and the
  lookup that browsing shares.

  Time is in seconds. The adapters that make and restore a backup are parameters, as are
  the panel's answers, the matcher of the ignore crate and the files of the server.
\<close>

section \<open>State\<close>

record raw_backup =
  rb_checksum :: string
  rb_checksum_type :: string
  rb_size :: u64
  rb_files :: u64
  rb_successful :: bool
  rb_parts :: "(string \<times> nat) list"

definition failed_backup :: raw_backup where
  "failed_backup = \<lparr>rb_checksum = [], rb_checksum_type = [], rb_size = 0, rb_files = 0, rb_successful = False,
     rb_parts = []\<rparr>"

datatype backup_event =
    PanelStatus uuid raw_backup
  | PanelRestore uuid bool
  | Completed uuid raw_backup
  | RestoreCompleted
  | MakeBackup BackupAdapter uuid string
  | TruncateRoot
  | RestoreFiles Backup

text \<open>\<open>bm_cached\<close> and \<open>bm_browse\<close> come with the time of their last use.\<close>

record 'w backup_state =
  bm_store :: backup_store
  bm_cached :: "uuid \<Rightarrow> (Backup \<times> nat) option"
  bm_browse :: "uuid \<Rightarrow> ('w \<times> nat) option"
  bm_locks :: "uuid set"
  bm_adapters :: "uuid \<Rightarrow> BackupAdapter option"
  bm_known :: "uuid list"
  bm_events :: "backup_event list"

definition tell :: "backup_event list \<Rightarrow> 'w backup_state \<Rightarrow> 'w backup_state" where
  "tell es st = st\<lparr>bm_events := bm_events st @ es\<rparr>"

text \<open>The task that runs every minute.\<close>

definition fresh_only :: "nat \<Rightarrow> ('k \<Rightarrow> ('a \<times> nat) option) \<Rightarrow> 'k \<Rightarrow> ('a \<times> nat) option" where
  "fresh_only now m k = (case m k of Some (x, t) \<Rightarrow> if now - t < 300 then Some (x, t) else None | None \<Rightarrow> None)"

definition cleanup_backups :: "nat \<Rightarrow> 'w backup_state \<Rightarrow> 'w backup_state" where
  "cleanup_backups now st =
     (let browse = fresh_only now (bm_browse st)
      in st\<lparr>bm_cached := fresh_only now (bm_cached st), bm_browse := browse,
            bm_locks := {u \<in> bm_locks st. browse u \<noteq> None}\<rparr>)"

section \<open>Lookup\<close>

definition fast_contains :: "uuid \<Rightarrow> 'w backup_state \<Rightarrow> bool" where
  "fast_contains u st \<longleftrightarrow> bm_cached st u \<noteq> None \<or> u \<in> set (bm_known st)"

definition on_store :: "(backup_store \<Rightarrow> 'a \<times> backup_store) \<Rightarrow> 'w backup_state \<Rightarrow> 'a \<times> 'w backup_state" where
  "on_store f st = (case f (bm_store st) of (r, s) \<Rightarrow> (r, st\<lparr>bm_store := s\<rparr>))"

text \<open>An adapter that fails is logged and counts as not having the backup.\<close>

definition adapter_contains :: "adapter_env \<Rightarrow> uuid \<Rightarrow> 'w backup_state \<Rightarrow> bool \<times> 'w backup_state" where
  "adapter_contains e u st =
     apfst (case_sum (\<lambda>_. False) id)
       (case bm_adapters st u of
          Some a \<Rightarrow> on_store (adapter_exists e a u) st
        | None \<Rightarrow> on_store (exists_any e u) st)"

definition cache_backup :: "nat \<Rightarrow> uuid \<Rightarrow> Backup \<Rightarrow> 'w backup_state \<Rightarrow> 'w backup_state" where
  "cache_backup now u b st = st\<lparr>bm_cached := (bm_cached st)(u \<mapsto> (b, now))\<rparr>"

text \<open>After the cache and the adapter remembered for it, the search over all adapters.\<close>

definition find_anywhere :: "adapter_env \<Rightarrow> nat \<Rightarrow> uuid \<Rightarrow> 'w backup_state \<Rightarrow> Backup option result \<times> 'w backup_state" where
  "find_anywhere e now u st =
     (case on_store (find_all e u) st of
        (Inl err, st) \<Rightarrow> (Inl err, st)
      | (Inr None, st) \<Rightarrow> (Inr None, st)
      | (Inr (Some (a, b)), st) \<Rightarrow>
          (Inr (Some b), (cache_backup now u b st)\<lparr>bm_adapters := (bm_adapters st)(u \<mapsto> a)\<rparr>))"

definition find_backup :: "adapter_env \<Rightarrow> nat \<Rightarrow> uuid \<Rightarrow> 'w backup_state \<Rightarrow> Backup option result \<times> 'w backup_state" where
  "find_backup e now u st =
     (case bm_cached st u of
        Some (b, t) \<Rightarrow> (Inr (Some b), cache_backup now u b st)
      | None \<Rightarrow>
          (case bm_adapters st u of
             None \<Rightarrow> find_anywhere e now u st
           | Some a \<Rightarrow>
               (case on_store (adapter_find e a u) st of
                  (Inl err, st) \<Rightarrow> (Inl err, st)
                | (Inr (Some b), st) \<Rightarrow> (Inr (Some b), cache_backup now u b st)
                | (Inr None, st) \<Rightarrow> find_anywhere e now u st)))"

definition find_adapter ::
  "adapter_env \<Rightarrow> nat \<Rightarrow> BackupAdapter \<Rightarrow> uuid \<Rightarrow> 'w backup_state \<Rightarrow> Backup option result \<times> 'w backup_state" where
  "find_adapter e now a u st =
     (case bm_cached st u of
        Some (b, t) \<Rightarrow> (Inr (Some b), cache_backup now u b st)
      | None \<Rightarrow>
          (case on_store (adapter_find e a u) st of
             (Inl err, st) \<Rightarrow> (Inl err, st)
           | (Inr None, st) \<Rightarrow> (Inr None, st)
           | (Inr (Some b), st) \<Rightarrow> (Inr (Some b), cache_backup now u b st)))"

text \<open>
  \<open>browse\<close>; \<open>mount\<close> is what opening the backup yields, \<open>waited\<close> what other requests do
  while this one waits for the lock of the backup.
\<close>

definition browse_backup ::
  "adapter_env \<Rightarrow> (Backup \<Rightarrow> 'w result) \<Rightarrow> ('w backup_state \<Rightarrow> 'w backup_state) \<Rightarrow> nat \<Rightarrow> uuid
     \<Rightarrow> 'w backup_state \<Rightarrow> 'w option result \<times> 'w backup_state" where
  "browse_backup e mount waited now u st =
     (case bm_browse st u of
        Some (w, t) \<Rightarrow> (Inr (Some w), st\<lparr>bm_browse := (bm_browse st)(u \<mapsto> (w, now))\<rparr>)
      | None \<Rightarrow>
          (case find_backup e now u st of
             (Inl err, st) \<Rightarrow> (Inl err, st)
           | (Inr None, st) \<Rightarrow> (Inr None, st)
           | (Inr (Some b), st) \<Rightarrow>
               (let st = waited (st\<lparr>bm_locks := insert u (bm_locks st)\<rparr>) in
                case bm_browse st u of
                  Some (w, t) \<Rightarrow> (Inr (Some w), st)
                | None \<Rightarrow>
                    (case mount b of
                       Inl err \<Rightarrow> (Inl err, st)
                     | Inr w \<Rightarrow> (Inr (Some w), st\<lparr>bm_browse := (bm_browse st)(u \<mapsto> (w, now))\<rparr>)))))"

section \<open>Creation\<close>

text \<open>
  The ignore lines: of the request, of the file \<open>.pteroignore\<close> if it can be read, and of
  the deny list, those the matcher accepts; the list's entries are taken as they are.
\<close>

definition ignore_lines :: "(string \<Rightarrow> bool) \<Rightarrow> string \<Rightarrow> string option \<Rightarrow> string list \<Rightarrow> string list" where
  "ignore_lines accepts ignore pteroignore denylist =
     filter accepts (str_lines ignore @ (case pteroignore of Some s \<Rightarrow> str_lines s | None \<Rightarrow> []) @ denylist)"

definition ignore_raw :: "string list \<Rightarrow> string" where
  "ignore_raw ls = concat (map (\<lambda>l. l @ newline) ls)"

record create_env =
  ce_accepts :: "string \<Rightarrow> bool"
  ce_pteroignore :: "string option"
  ce_denylist :: "string list"
  ce_matcher :: "unit result"
  ce_make :: "raw_backup result"
  ce_store :: "backup_store \<Rightarrow> backup_store"
  ce_panel :: "unit result"

text \<open>
  \<open>ce_make\<close> is the result of the adapter and \<open>ce_store\<close> what it leaves in the store;
  \<open>ce_panel\<close> the answer to the report. Messages to websockets always have a receiver.
\<close>

definition create_server_backup ::
  "adapter_env \<Rightarrow> create_env \<Rightarrow> BackupAdapter \<Rightarrow> uuid \<Rightarrow> string \<Rightarrow> 'w backup_state \<Rightarrow> raw_backup result \<times> 'w backup_state" where
  "create_server_backup e c a u ignore st =
     (let raw = ignore_raw (ignore_lines (ce_accepts c) ignore (ce_pteroignore c) (ce_denylist c)) in
      case ce_matcher c of
        Inl err \<Rightarrow> (Inl err, st)
      | Inr _ \<Rightarrow>
          (let st = tell [MakeBackup a u raw] (st\<lparr>bm_store := ce_store c (bm_store st)\<rparr>) in
           case ce_make c of
             Inr backup \<Rightarrow>
               (let st = tell [PanelStatus u backup] st in
                case ce_panel c of
                  Inl err \<Rightarrow> (Inl err, st)
                | Inr _ \<Rightarrow>
                    (Inr backup, tell [Completed u backup]
                       (st\<lparr>bm_known := bm_known st @ [u], bm_adapters := (bm_adapters st)(u \<mapsto> a)\<rparr>)))
           | Inl failure \<Rightarrow>
               (let st = tell [PanelStatus u failed_backup] st in
                case ce_panel c of
                  Inl err \<Rightarrow> (Inl err, st)
                | Inr _ \<Rightarrow>
                    (let st = tell [Completed u failed_backup] (st\<lparr>bm_adapters := (bm_adapters st)(u \<mapsto> a)\<rparr>)
                     in (Inl failure, snd (on_store (adapter_clean e a u) st))))))"

section \<open>Restoration\<close>

fun adapter_name :: "BackupAdapter \<Rightarrow> string" where
  "adapter_name Wings = ''wings''"
| "adapter_name S3 = ''s3''"
| "adapter_name DdupBak = ''ddup-bak''"
| "adapter_name Btrfs = ''btrfs''"
| "adapter_name Zfs = ''zfs''"
| "adapter_name Restic = ''restic''"

record restore_env =
  rt_world :: world
  rt_waited :: "server \<Rightarrow> server"
  rt_exited :: bool
  rt_truncate :: "unit result"
  rt_restore :: "unit result"
  rt_status :: "unit result"

definition restored ::
  "restore_env \<Rightarrow> uuid \<Rightarrow> bool \<Rightarrow> unit result \<Rightarrow> 'w backup_state \<Rightarrow> unit result \<times> 'w backup_state" where
  "restored e u success r st =
     (case rt_status e of Inl err \<Rightarrow> (Inl err, tell [PanelRestore u success] st)
      | Inr _ \<Rightarrow> (r, tell [PanelRestore u success] st))"

definition restore_backup ::
  "restore_env \<Rightarrow> Backup \<Rightarrow> bool \<Rightarrow> server \<Rightarrow> 'w backup_state \<Rightarrow> unit result \<times> server \<times> 'w backup_state" where
  "restore_backup e b truncate_directory s st =
     (if is_locked_state s then (Inl ''Server is in a locked state'', s, st)
      else
        (case stop_with_kill_timeout (rt_world e) (rt_waited e) (rt_exited e) 30 False (s\<lparr>restoring := True\<rparr>) of
           (Inl err, s) \<Rightarrow>
             (case restored e (backup_uuid b) False (Inl err) st of (r, st) \<Rightarrow> (r, s\<lparr>restoring := False\<rparr>, st))
         | (Inr _, s) \<Rightarrow>
             (let st = (if truncate_directory then tell [TruncateRoot] st else st) in
              case (if truncate_directory then rt_truncate e else Inr ()) of
                Inl err \<Rightarrow>
                  (case restored e (backup_uuid b) False (Inl err) st of (r, st) \<Rightarrow> (r, s\<lparr>restoring := False\<rparr>, st))
              | Inr _ \<Rightarrow>
                  (let st = tell [RestoreFiles b] st in
                   case rt_restore e of
                     Inl err \<Rightarrow>
                       (case restored e (backup_uuid b) False (Inl err) st of (r, st) \<Rightarrow> (r, s\<lparr>restoring := False\<rparr>, st))
                   | Inr _ \<Rightarrow>
                       (let s = log_daemon (''Completed server restoration from '' @ adapter_name (backup_adapter b) @ '' backup.'')
                           (s\<lparr>restoring := False\<rparr>) in
                        case restored e (backup_uuid b) True (Inr ()) st of
                          (Inl err, st) \<Rightarrow> (Inl err, s, st)
                        | (Inr _, st) \<Rightarrow> (Inr (), s, tell [RestoreCompleted] st))))))"

section \<open>Routes\<close>

datatype backup_reply = BackupAccepted | BackupConflict | BackupNotFound | BackupBadRequest | BackupError

text \<open>A route answers before its task has run; the task follows with the state given.\<close>

definition create_backup_route ::
  "adapter_env \<Rightarrow> create_env \<Rightarrow> BackupAdapter \<Rightarrow> uuid \<Rightarrow> string \<Rightarrow> 'w backup_state \<Rightarrow> backup_reply \<times> 'w backup_state" where
  "create_backup_route e c a u ignore st =
     (if fast_contains u st then (BackupConflict, st)
      else (BackupAccepted, snd (create_server_backup e c a u ignore st)))"

definition delete_found ::
  "adapter_env \<Rightarrow> Backup option result \<times> 'w backup_state \<Rightarrow> backup_reply \<times> 'w backup_state" where
  "delete_found e found =
     (case found of
        (Inl err, st) \<Rightarrow> (BackupError, st)
      | (Inr None, st) \<Rightarrow> (BackupNotFound, st)
      | (Inr (Some b), st) \<Rightarrow> (BackupAccepted, snd (on_store (delete_backup e b) st)))"

definition delete_backup_route :: "adapter_env \<Rightarrow> nat \<Rightarrow> uuid \<Rightarrow> 'w backup_state \<Rightarrow> backup_reply \<times> 'w backup_state" where
  "delete_backup_route e now u st = delete_found e (find_backup e now u st)"

definition delete_node_backup_route ::
  "adapter_env \<Rightarrow> nat \<Rightarrow> BackupAdapter \<Rightarrow> uuid \<Rightarrow> 'w backup_state \<Rightarrow> backup_reply \<times> 'w backup_state" where
  "delete_node_backup_route e now a u st = delete_found e (find_adapter e now a u st)"

definition restore_route ::
  "adapter_env \<Rightarrow> restore_env \<Rightarrow> nat \<Rightarrow> BackupAdapter \<Rightarrow> uuid \<Rightarrow> bool \<Rightarrow> string option \<Rightarrow> server \<Rightarrow> 'w backup_state
     \<Rightarrow> backup_reply \<times> server \<times> 'w backup_state" where
  "restore_route e re now a u truncate_directory download_url s st =
     (if a = S3 \<and> download_url = None then (BackupBadRequest, s, st)
      else case find_adapter e now a u st of
             (Inl err, st) \<Rightarrow> (BackupError, s, st)
           | (Inr None, st) \<Rightarrow> (BackupNotFound, s, st)
           | (Inr (Some b), st) \<Rightarrow> (BackupAccepted, snd (restore_backup re b truncate_directory s st)))"


section \<open>Properties\<close>

lemma restored_events [simp]: "bm_events (snd (restored e u ok r st)) = bm_events st @ [PanelRestore u ok]"
  by (simp add: restored_def tell_def split: sum.split)

lemma restoring_log [simp]: "restoring (log_daemon m s) = restoring s"
  by (simp add: log_daemon_def emit_def)


definition restore_sample_env :: restore_env where
  "restore_sample_env =
     \<lparr>rt_world = sample_world, rt_waited = id, rt_exited = True, rt_truncate = Inr (), rt_restore = Inr (), rt_status = Inr ()\<rparr>"

definition backup_sample :: "unit backup_state" where
  "backup_sample =
     \<lparr>bm_store = sample_store, bm_cached = Map.empty, bm_browse = Map.empty, bm_locks = {}, bm_adapters = Map.empty,
      bm_known = [], bm_events = []\<rparr>"


text \<open>
  A backup that is made and reported is known to the server and remembered with its
  adapter. One that fails is never known; what it left is cleaned up when the panel took
  the report, and stays where it is when the panel did not. A backup that is made but
  cannot be reported stays too, and is not known either.
\<close>

theorem create_outcomes:
  assumes "ce_matcher c = Inr ()"
  shows "case create_server_backup e c a u ignore st of (r, st') \<Rightarrow>
     (case (ce_make c, ce_panel c) of
        (Inr b, Inr _) \<Rightarrow> r = Inr b \<and> u \<in> set (bm_known st') \<and> bm_adapters st' u = Some a \<and>
          bm_store st' = ce_store c (bm_store st)
      | (Inl err, Inr _) \<Rightarrow> r = Inl err \<and> bm_known st' = bm_known st \<and>
          bm_store st' = snd (adapter_clean e a u (ce_store c (bm_store st)))
      | (_, Inl err) \<Rightarrow> r = Inl err \<and> bm_known st' = bm_known st \<and> bm_adapters st' = bm_adapters st \<and>
          bm_store st' = ce_store c (bm_store st))"
  using assms
  by (auto simp: create_server_backup_def Let_def tell_def on_store_def split: sum.split prod.split)

definition create_sample_env :: create_env where
  "create_sample_env =
     \<lparr>ce_accepts = \<lambda>_. True, ce_pteroignore = None, ce_denylist = [], ce_matcher = Inr (),
      ce_make = Inl ''disk full'', ce_store = \<lambda>s. s\<lparr>bs_disk := (bs_disk s)(wings_file Zip 9 \<mapsto> FileNode ''PK'')\<rparr>,
      ce_panel = Inl ''timeout''\<rparr>"

theorem create_outcomes_witness:
  "bm_store (snd (create_server_backup sample_adapters create_sample_env Wings 9 ''*.log'' backup_sample))
     = ce_store create_sample_env sample_store"
  using create_outcomes [where c = create_sample_env and e = sample_adapters and a = Wings and u = 9
      and ignore = "''*.log''" and st = backup_sample]
  by (simp add: create_sample_env_def backup_sample_def split: prod.splits)

subsection \<open>The cache\<close>

lemma zfs_find_named: "zfs_find p u d = Inr (Some b) \<Longrightarrow> backup_uuid b = u \<and> backup_adapter b = Zfs"
  by (auto simp: zfs_find_def split: if_splits option.splits)

lemma find_snapshot_named:
  "find_snapshot e u c ss x cache = (Inr (Some b), cache') \<Longrightarrow> (\<And>b. x = Some b \<Longrightarrow> backup_uuid b = u \<and> backup_adapter b = Restic) \<Longrightarrow>
     backup_uuid b = u \<and> backup_adapter b = Restic"
proof (induction e u c ss x cache rule: find_snapshot.induct)
  case (2 e u c s ss x cache)
  show ?case
  proof (cases "snapshot_uuid e s")
    case (Some v)
    show ?thesis
    proof (cases "v = u")
      case True
      then obtain b' where b': "restic_backup u s c = Inr b'"
        using 2(4) Some by (auto split: sum.splits)
      then have named: "backup_uuid b' = u \<and> backup_adapter b' = Restic"
        by (auto simp: restic_backup_def split: list.splits)
      show ?thesis
        by (rule 2(2) [OF Some True b']) (use 2(4) Some True b' named in \<open>auto simp: fun_upd_def\<close>)
    next
      case False
      show ?thesis by (rule 2(3) [OF Some False]) (use 2(4,5) Some False in \<open>auto simp: fun_upd_def\<close>)
    qed
  qed (use 2 in auto)
qed auto

lemma restic_find_named: "restic_find e u cache = (Inr (Some b), cache') \<Longrightarrow> backup_uuid b = u \<and> backup_adapter b = Restic"
  by (auto simp: restic_find_def restic_backup_def split: option.splits sum.splits prod.splits list.splits
      dest: find_snapshot_named)

lemma adapter_find_named:
  "adapter_find e a u st = (Inr (Some b), st') \<Longrightarrow> backup_uuid b = u \<and> backup_adapter b = a"
  by (cases a)
    (auto simp: s3_find_def btrfs_find_def on_cache_def map_sum_def split: if_splits prod.splits sum.splits
      dest: wings_found zfs_find_named restic_find_named)

lemma find_all_named: "find_all e u st = (Inr (Some (a, b)), st') \<Longrightarrow> backup_uuid b = u \<and> backup_adapter b = a"
  unfolding find_all_def using find_in_spec adapter_find_named by metis

definition cache_ok :: "'w backup_state \<Rightarrow> bool" where
  "cache_ok st \<longleftrightarrow> (\<forall>u b t. bm_cached st u = Some (b, t) \<longrightarrow> backup_uuid b = u)"


lemma cache_ok_updates [simp]:
  "cache_ok (st\<lparr>bm_store := s\<rparr>) = cache_ok st" "cache_ok (st\<lparr>bm_adapters := a\<rparr>) = cache_ok st"
  "cache_ok (st\<lparr>bm_events := es\<rparr>) = cache_ok st" "cache_ok (st\<lparr>bm_known := k\<rparr>) = cache_ok st"
  by (simp_all add: cache_ok_def)

lemma cache_backup_ok: "cache_ok st \<Longrightarrow> backup_uuid b = u \<Longrightarrow> cache_ok (cache_backup now u b st)"
  by (auto simp: cache_ok_def cache_backup_def)

lemma on_store_ok: "on_store f st = (r, st') \<Longrightarrow> cache_ok st \<Longrightarrow> cache_ok st'"
  by (auto simp: on_store_def split: prod.splits)

lemma on_store_eq: "on_store f st = (r, st') \<longleftrightarrow> (\<exists>s. f (bm_store st) = (r, s) \<and> st' = st\<lparr>bm_store := s\<rparr>)"
  by (auto simp: on_store_def split: prod.splits)

lemma find_anywhere_named:
  assumes "find_anywhere e now u st = (r, st')" and "cache_ok st"
  shows "cache_ok st' \<and> (\<forall>b. r = Inr (Some b) \<longrightarrow> backup_uuid b = u \<and> bm_cached st' u = Some (b, now))"
  using assms
  by (auto simp: find_anywhere_def on_store_eq cache_backup_ok cache_backup_def [of now u]
      split: prod.splits sum.splits option.splits dest!: find_all_named intro: cache_backup_ok)
     (auto simp: cache_ok_def)

text \<open>
  C34: A backup that is found has the identifier it was searched under, is in the cache
  afterwards with the time of the search, and the cache never holds one backup under the
  identifier of another.
\<close>

theorem found_under_its_name:
  assumes "find_backup e now u st = (r, st')" and "cache_ok st"
  shows "cache_ok st' \<and> (\<forall>b. r = Inr (Some b) \<longrightarrow> backup_uuid b = u \<and> bm_cached st' u = Some (b, now))"
proof (cases "bm_cached st u")
  case (Some bt)
  then show ?thesis
    using assms by (cases bt) (auto simp: find_backup_def cache_backup_def cache_ok_def split: if_splits)
next
  case None
  show ?thesis
  proof (cases "bm_adapters st u")
    case None
    then show ?thesis
      using assms \<open>bm_cached st u = None\<close> find_anywhere_named by (simp add: find_backup_def)
  next
    case (Some a)
    obtain x s where x: "on_store (adapter_find e a u) st = (x, s)" by fastforce
    have s: "cache_ok s" by (rule on_store_ok [OF x assms(2)])
    have named: "backup_uuid b = u" if "x = Inr (Some b)" for b
      using x that by (auto simp: on_store_eq dest: adapter_find_named)
    have run: "find_backup e now u st = (case x of
          Inl err \<Rightarrow> (Inl err, s) | Inr None \<Rightarrow> find_anywhere e now u s | Inr (Some b) \<Rightarrow> (Inr (Some b), cache_backup now u b s))"
      using x Some None by (simp add: find_backup_def split: sum.split option.split)
    show ?thesis
    proof (cases x)
      case (Inr y)
      then show ?thesis
        using assms(1) run s named find_anywhere_named [OF _ s, of e now u]
        by (cases y) (auto simp: cache_backup_ok, auto simp: cache_backup_def)
    next
      case (Inl err)
      then have "find_backup e now u st = (Inl err, s)" using run by simp
      then show ?thesis using assms(1) s by simp
    qed
  qed
qed

theorem found_under_its_name_witness:
  "\<exists>st'. find_backup sample_adapters 5 7 backup_sample = (Inr (Some (WingsBackup 7 Zip (wings_file Zip 7))), st') \<and> cache_ok st'"
proof -
  have found: "find_all sample_adapters 7 sample_store = (Inr (Some (Wings, WingsBackup 7 Zip (wings_file Zip 7))), sample_store)"
    by (simp add: find_all_def variants_def wings_find_def get_first_file_name_def sample_store_def there_def)
  then obtain st' where run: "find_backup sample_adapters 5 7 backup_sample = (Inr (Some (WingsBackup 7 Zip (wings_file Zip 7))), st')"
    by (simp add: find_backup_def find_anywhere_def on_store_def backup_sample_def)
  have "cache_ok backup_sample" by (simp add: cache_ok_def backup_sample_def)
  then show ?thesis using found_under_its_name [OF run] run by blast
qed

text \<open>
  A deleted backup stays in the cache: although it was deleted with success, it is
  found again for five minutes after the deletion and each later request, whatever the
  store says by then, and a new backup under its identifier is refused.
\<close>

theorem deleted_backup_found_again:
  assumes "find_backup e now u st = (Inr (Some b), s)" and "cache_ok st"
    and "delete_backup_route e now u st = (reply, st')" and "later - now < 300"
  shows "reply = BackupAccepted \<and> fst (find_backup e' later u (cleanup_backups later st')) = Inr (Some b) \<and>
     create_backup_route e' c a u ignore (cleanup_backups later st') = (BackupConflict, cleanup_backups later st')"
proof -
  have "bm_cached s u = Some (b, now)" using found_under_its_name [OF assms(1,2)] by blast
  then have "bm_cached st' u = Some (b, now)" and "reply = BackupAccepted"
    using assms(1,3) by (auto simp: delete_backup_route_def delete_found_def on_store_def split: prod.splits)
  then have "bm_cached (cleanup_backups later st') u = Some (b, now)" and "reply = BackupAccepted"
    using assms(4) by (simp_all add: cleanup_backups_def fresh_only_def Let_def)
  then show ?thesis by (simp add: find_backup_def create_backup_route_def fast_contains_def)
qed

theorem deleted_backup_found_again_witness:
  "fst (find_backup sample_adapters 100 7 (cleanup_backups 100 (snd (delete_backup_route sample_adapters 5 7 backup_sample))))
     = Inr (Some (WingsBackup 7 Zip (wings_file Zip 7)))"
proof -
  have found: "find_all sample_adapters 7 sample_store = (Inr (Some (Wings, WingsBackup 7 Zip (wings_file Zip 7))), sample_store)"
    by (simp add: find_all_def variants_def wings_find_def get_first_file_name_def sample_store_def there_def)
  then obtain s where run: "find_backup sample_adapters 5 7 backup_sample = (Inr (Some (WingsBackup 7 Zip (wings_file Zip 7))), s)"
    by (simp add: find_backup_def find_anywhere_def on_store_def backup_sample_def)
  have "cache_ok backup_sample" by (simp add: cache_ok_def backup_sample_def)
  moreover obtain r t where "delete_backup_route sample_adapters 5 7 backup_sample = (r, t)" by fastforce
  ultimately show ?thesis
    using deleted_backup_found_again [OF run, where later = 100 and e' = sample_adapters] by simp
qed

end
