(* ===== verification/Backup_Browse.thy ===== *)
theory Backup_Browse
  imports Json
begin

text \<open>
  Browsing backups concurrently (\<open>BackupManager::browse\<close> and the task that runs every
  minute, \<open>server/backup/manager.rs\<close>): the tasks of the requests and the cleanup as a step
  relation over the three kinds of lock they take, the cache of open backups, the map of
  mutexes, and the mutex of a backup.

  A step is what a task does from one \<open>await\<close> to the next. A lock that is taken and given
  back without an \<open>await\<close> in between is not part of the state; the step waits until it is
  free. Readers may overtake waiting writers here, which only adds steps.
\<close>

section \<open>States\<close>

text \<open>
  \<open>Locking\<close> and what follows it carry the mutex of the backup and whether the task still
  holds the read guard of the map of mutexes, which it does when it found the mutex there.
\<close>

datatype browse_pc =
    Absent
  | Arrived uuid
  | Spawned uuid
  | Creating uuid
  | Locking uuid nat bool
  | Checking uuid nat bool
  | Mounting uuid nat bool
  | Storing uuid nat bool
  | Returned

record browsing =
  br_pc :: "nat \<Rightarrow> browse_pc"
  br_cleaning :: bool
  br_mutexes :: "uuid \<Rightarrow> nat option"
  br_open :: "uuid set"
  br_next :: nat

definition nothing_open :: browsing where
  "nothing_open =
     \<lparr>br_pc = \<lambda>_. Absent, br_cleaning = False, br_mutexes = Map.empty, br_open = {}, br_next = 0\<rparr>"

fun keeps_guard :: "browse_pc \<Rightarrow> bool" where
  "keeps_guard (Locking u m g) = g"
| "keeps_guard (Checking u m g) = g"
| "keeps_guard (Mounting u m g) = g"
| "keeps_guard (Storing u m g) = g"
| "keeps_guard _ = False"

fun holds_mutex :: "nat \<Rightarrow> browse_pc \<Rightarrow> bool" where
  "holds_mutex n (Checking u m g) \<longleftrightarrow> m = n"
| "holds_mutex n (Mounting u m g) \<longleftrightarrow> m = n"
| "holds_mutex n (Storing u m g) \<longleftrightarrow> m = n"
| "holds_mutex n _ \<longleftrightarrow> False"

definition guarded_map :: "browsing \<Rightarrow> bool" where
  "guarded_map s \<longleftrightarrow> (\<exists>i. keeps_guard (br_pc s i))"

definition mutex_taken :: "nat \<Rightarrow> browsing \<Rightarrow> bool" where
  "mutex_taken m s \<longleftrightarrow> (\<exists>i. holds_mutex m (br_pc s i))"

definition goes :: "nat \<Rightarrow> browse_pc \<Rightarrow> browsing \<Rightarrow> browsing" where
  "goes i pc s = s\<lparr>br_pc := (br_pc s)(i := pc)\<rparr>"

lemma goes_simps [simp]:
  "br_pc (goes i pc s) = (br_pc s)(i := pc)" "br_cleaning (goes i pc s) = br_cleaning s"
  "br_mutexes (goes i pc s) = br_mutexes s" "br_open (goes i pc s) = br_open s" "br_next (goes i pc s) = br_next s"
  by (simp_all add: goes_def)

section \<open>Steps\<close>

inductive task_step :: "nat \<Rightarrow> browsing \<Rightarrow> browsing \<Rightarrow> bool" for i :: nat and s :: browsing where
  cached: "br_pc s i = Arrived u \<Longrightarrow> \<not> br_cleaning s \<Longrightarrow> u \<in> br_open s \<Longrightarrow> task_step i s (goes i Returned s)"
| uncached: "br_pc s i = Arrived u \<Longrightarrow> \<not> br_cleaning s \<Longrightarrow> u \<notin> br_open s \<Longrightarrow> task_step i s (goes i (Spawned u) s)"
| not_found: "br_pc s i = Arrived u \<Longrightarrow> \<not> br_cleaning s \<Longrightarrow> u \<notin> br_open s \<Longrightarrow> task_step i s (goes i Returned s)"
| known: "br_pc s i = Spawned u \<Longrightarrow> br_mutexes s u = Some m \<Longrightarrow> task_step i s (goes i (Locking u m True) s)"
| unknown: "br_pc s i = Spawned u \<Longrightarrow> br_mutexes s u = None \<Longrightarrow> task_step i s (goes i (Creating u) s)"
| create: "br_pc s i = Creating u \<Longrightarrow> \<not> guarded_map s \<Longrightarrow> task_step i s
     (goes i (Locking u (br_next s) False) (s\<lparr>br_mutexes := (br_mutexes s)(u \<mapsto> br_next s), br_next := Suc (br_next s)\<rparr>))"
| lock: "br_pc s i = Locking u m g \<Longrightarrow> \<not> mutex_taken m s \<Longrightarrow> task_step i s (goes i (Checking u m g) s)"
| opened: "br_pc s i = Checking u m g \<Longrightarrow> \<not> br_cleaning s \<Longrightarrow> u \<in> br_open s \<Longrightarrow> task_step i s (goes i Returned s)"
| closed: "br_pc s i = Checking u m g \<Longrightarrow> \<not> br_cleaning s \<Longrightarrow> u \<notin> br_open s \<Longrightarrow> task_step i s (goes i (Mounting u m g) s)"
| mounted: "br_pc s i = Mounting u m g \<Longrightarrow> task_step i s (goes i (Storing u m g) s)"
| failed: "br_pc s i = Mounting u m g \<Longrightarrow> task_step i s (goes i Returned s)"
| store: "br_pc s i = Storing u m g \<Longrightarrow> \<not> br_cleaning s \<Longrightarrow>
     task_step i s (goes i Returned (s\<lparr>br_open := insert u (br_open s)\<rparr>))"

text \<open>The cleanup first takes the cache, and then the map of mutexes, for which it waits.\<close>

inductive clean_step :: "browsing \<Rightarrow> browsing \<Rightarrow> bool" for s :: browsing where
  expire: "\<not> br_cleaning s \<Longrightarrow> us \<subseteq> br_open s \<Longrightarrow> clean_step s (s\<lparr>br_cleaning := True, br_open := us\<rparr>)"
| retain: "br_cleaning s \<Longrightarrow> \<not> guarded_map s \<Longrightarrow>
     clean_step s (s\<lparr>br_cleaning := False, br_mutexes := br_mutexes s |` br_open s\<rparr>)"

inductive browse_step :: "browsing \<Rightarrow> browsing \<Rightarrow> bool" where
  arrive: "br_pc s i = Absent \<Longrightarrow> browse_step s (goes i (Arrived u) s)"
| task: "task_step i s s' \<Longrightarrow> browse_step s s'"
| clean: "clean_step s s' \<Longrightarrow> browse_step s s'"

inductive_cases task_stepE: "task_step i s s'"
inductive_cases clean_stepE: "clean_step s s'"
inductive_cases browse_stepE: "browse_step s s'"

text \<open>The same steps as a function, for the executions of the examples.\<close>

datatype move = Arrive nat uuid | Go nat bool | Expire "uuid set" | Retain

fun browse_move :: "move \<Rightarrow> browsing \<Rightarrow> browsing option" where
  "browse_move (Arrive i u) s = (if br_pc s i = Absent then Some (goes i (Arrived u) s) else None)"
| "browse_move (Go i ok) s =
     (case br_pc s i of
        Arrived u \<Rightarrow>
          if br_cleaning s then None else Some (goes i (if u \<notin> br_open s \<and> ok then Spawned u else Returned) s)
      | Spawned u \<Rightarrow>
          Some (goes i (case br_mutexes s u of Some m \<Rightarrow> Locking u m True | None \<Rightarrow> Creating u) s)
      | Creating u \<Rightarrow>
          if guarded_map s then None
          else Some (goes i (Locking u (br_next s) False)
                 (s\<lparr>br_mutexes := (br_mutexes s)(u \<mapsto> br_next s), br_next := Suc (br_next s)\<rparr>))
      | Locking u m g \<Rightarrow> if mutex_taken m s then None else Some (goes i (Checking u m g) s)
      | Checking u m g \<Rightarrow>
          if br_cleaning s then None else Some (goes i (if u \<in> br_open s then Returned else Mounting u m g) s)
      | Mounting u m g \<Rightarrow> Some (goes i (if ok then Storing u m g else Returned) s)
      | Storing u m g \<Rightarrow>
          if br_cleaning s then None else Some (goes i Returned (s\<lparr>br_open := insert u (br_open s)\<rparr>))
      | _ \<Rightarrow> None)"
| "browse_move (Expire us) s =
     (if br_cleaning s \<or> \<not> us \<subseteq> br_open s then None else Some (s\<lparr>br_cleaning := True, br_open := us\<rparr>))"
| "browse_move Retain s =
     (if \<not> br_cleaning s \<or> guarded_map s then None
      else Some (s\<lparr>br_cleaning := False, br_mutexes := br_mutexes s |` br_open s\<rparr>))"

fun browse_run :: "move list \<Rightarrow> browsing \<Rightarrow> browsing option" where
  "browse_run [] s = Some s"
| "browse_run (m # ms) s = (case browse_move m s of None \<Rightarrow> None | Some s \<Rightarrow> browse_run ms s)"

lemma browse_move_iff: "browse_step s s' \<longleftrightarrow> (\<exists>m. browse_move m s = Some s')"
proof
  assume "browse_step s s'"
  then show "\<exists>m. browse_move m s = Some s'"
  proof cases
    case (arrive i u)
    then have "browse_move (Arrive i u) s = Some s'" by simp
    then show ?thesis ..
  next
    case (task i)
    then have "\<exists>ok. browse_move (Go i ok) s = Some s'"
      by (cases rule: task_step.cases) (auto intro: exI [of _ True] exI [of _ False])
    then show ?thesis by blast
  next
    case clean
    then have "(\<exists>us. browse_move (Expire us) s = Some s') \<or> browse_move Retain s = Some s'" by cases auto
    then show ?thesis by blast
  qed
next
  assume "\<exists>m. browse_move m s = Some s'"
  then obtain m where "browse_move m s = Some s'" ..
  then show "browse_step s s'"
  proof (induction m s rule: browse_move.induct)
    case (2 i ok s)
    then have "task_step i s s'"
      by (auto split: browse_pc.splits if_splits option.splits intro: task_step.intros)
    then show ?case by (rule task)
  qed (auto split: if_splits intro: browse_step.intros clean_step.intros)
qed

lemma browse_run_reaches: "browse_run ms s = Some s' \<Longrightarrow> browse_step\<^sup>*\<^sup>* s s'"
  by (induction ms s rule: browse_run.induct)
    (auto split: option.splits intro: converse_rtranclp_into_rtranclp iffD2 [OF browse_move_iff])

text \<open>
  A task that holds the read guard and waits for the cache, or for a task that does, while
  the cleanup holds the cache and waits for the guard.
\<close>

fun wants_cache :: "browse_pc \<Rightarrow> bool" where
  "wants_cache (Checking u m g) = True"
| "wants_cache (Storing u m g) = True"
| "wants_cache _ = False"

definition blocked_guard :: "browsing \<Rightarrow> nat \<Rightarrow> bool" where
  "blocked_guard s i \<longleftrightarrow> keeps_guard (br_pc s i) \<and>
     (wants_cache (br_pc s i) \<or>
      (\<exists>u m g j. br_pc s i = Locking u m g \<and> holds_mutex m (br_pc s j) \<and> wants_cache (br_pc s j)))"

definition deadlocked :: "browsing \<Rightarrow> bool" where
  "deadlocked s \<longleftrightarrow> br_cleaning s \<and> (\<exists>i. blocked_guard s i)"

section \<open>Properties\<close>

definition mutexes_ok :: "browsing \<Rightarrow> bool" where
  "mutexes_ok s \<longleftrightarrow> (\<forall>i j m. holds_mutex m (br_pc s i) \<longrightarrow> holds_mutex m (br_pc s j) \<longrightarrow> i = j)"

lemma mutexes_ok_goes:
  "mutexes_ok s \<Longrightarrow> (\<And>m. holds_mutex m pc \<Longrightarrow> holds_mutex m (br_pc s i) \<or> \<not> mutex_taken m s) \<Longrightarrow>
     br_pc s' = (br_pc s)(i := pc) \<Longrightarrow> mutexes_ok s'"
  unfolding mutexes_ok_def mutex_taken_def by (auto split: if_splits) metis+

lemma task_step_mutexes: "task_step i s s' \<Longrightarrow> mutexes_ok s \<Longrightarrow> mutexes_ok s'"
  by (erule task_stepE) (erule mutexes_ok_goes [where i = i], auto)+

lemma browse_step_mutexes: "browse_step s s' \<Longrightarrow> mutexes_ok s \<Longrightarrow> mutexes_ok s'"
proof (erule browse_stepE)
  fix i u
  assume "mutexes_ok s" "br_pc s i = Absent" "s' = goes i (Arrived u) s"
  then show "mutexes_ok s'" by (auto intro: mutexes_ok_goes [where i = i and pc = "Arrived u"])
next
  assume "mutexes_ok s" "clean_step s s'"
  then show "mutexes_ok s'" by (auto simp: mutexes_ok_def elim!: clean_stepE)
qed (rule task_step_mutexes)

text \<open>
  No two tasks hold the same mutex, in any state that is reached; two tasks that open
  the same backup at once therefore hold different ones.
\<close>

theorem mutex_exclusive:
  assumes "browse_step\<^sup>*\<^sup>* nothing_open s" and "br_pc s i = Mounting u m g" and "br_pc s j = Mounting v n h" and "i \<noteq> j"
  shows "m \<noteq> n"
proof -
  have "mutexes_ok s"
    using assms(1) by induction (auto simp: nothing_open_def mutexes_ok_def [of "nothing_open"] dest: browse_step_mutexes,
      simp add: mutexes_ok_def)
  then show ?thesis using assms(2-4) unfolding mutexes_ok_def by (metis holds_mutex.simps(2))
qed

text \<open>Two requests that both find no mutex make one each, and open the backup twice.\<close>

theorem mutex_exclusive_witness:
  "\<exists>s m n. browse_step\<^sup>*\<^sup>* nothing_open s \<and> br_pc s 0 = Mounting 7 m False \<and> br_pc s 1 = Mounting 7 n False \<and> m \<noteq> n"
proof -
  let ?moves = "[Arrive 0 7, Arrive 1 7, Go 0 True, Go 1 True, Go 0 True, Go 1 True, Go 0 True, Go 1 True,
    Go 0 True, Go 1 True, Go 0 True, Go 1 True]"
  obtain s where run: "browse_run ?moves nothing_open = Some s" and "br_pc s 0 = Mounting 7 0 False" "br_pc s 1 = Mounting 7 1 False"
    by (simp add: nothing_open_def goes_def guarded_map_def mutex_taken_def
        if_distrib [of keeps_guard] if_distrib [of "holds_mutex m" for m] cong: if_cong)
  moreover have "(0 :: nat) \<noteq> 1"
    by (rule mutex_exclusive [OF browse_run_reaches [OF run], of 0 7 _ False 1 7 _ False]) (use calculation in simp_all)
  ultimately show ?thesis using browse_run_reaches [OF run] by blast
qed

lemma task_step_frame:
  "task_step k s s' \<Longrightarrow> br_cleaning s' = br_cleaning s \<and> (\<forall>j. j \<noteq> k \<longrightarrow> br_pc s' j = br_pc s j)"
  by (erule task_stepE) auto

lemma cleaning_stops:
  "task_step k s s' \<Longrightarrow> br_cleaning s \<Longrightarrow> \<not> wants_cache (br_pc s k) \<and> (\<forall>u. br_pc s k \<noteq> Arrived u)"
  by (erule task_stepE) auto

lemma locking_stops:
  "task_step k s s' \<Longrightarrow> br_pc s k = Locking u m g \<Longrightarrow> \<not> mutex_taken m s"
  by (erule task_stepE) auto

lemma blocked_stops:
  assumes "task_step k s s'" and "br_cleaning s" and "blocked_guard s i"
  shows "blocked_guard s' i"
proof -
  have frame: "br_pc s' j = br_pc s j" if "wants_cache (br_pc s j) \<or> (\<exists>u m g. br_pc s j = Locking u m g \<and> mutex_taken m s)" for j
    using task_step_frame [OF assms(1)] cleaning_stops [OF assms(1,2)] locking_stops [OF assms(1)] that by metis
  show ?thesis
    using assms(3) frame unfolding blocked_guard_def mutex_taken_def by metis
qed

lemma arrival_keeps_blocked: "br_pc s k = Absent \<Longrightarrow> blocked_guard s i \<Longrightarrow> blocked_guard (goes k (Arrived u) s) i"
  unfolding blocked_guard_def by (auto; metis wants_cache.simps(3))

lemma deadlock_step:
  assumes "browse_step s s'" and "deadlocked s"
  shows "deadlocked s' \<and> (br_pc s j \<in> insert Absent (range Arrived) \<longrightarrow> br_pc s' j \<in> insert Absent (range Arrived))"
proof -
  obtain i where i: "br_cleaning s" "blocked_guard s i" using assms(2) unfolding deadlocked_def by blast
  then have guard: "guarded_map s" unfolding guarded_map_def blocked_guard_def by blast
  show ?thesis
    using assms(1)
  proof cases
    case (arrive k u)
    then have "blocked_guard s' i" using i arrival_keeps_blocked by blast
    then show ?thesis using i arrive unfolding deadlocked_def by auto
  next
    case (task k)
    have "br_pc s j \<in> range Arrived \<Longrightarrow> j \<noteq> k" using cleaning_stops [OF task i(1)] by auto
    moreover have "br_pc s j = Absent \<Longrightarrow> j \<noteq> k" using task by (auto elim: task_stepE)
    moreover have "deadlocked s'"
      using i task_step_frame [OF task] blocked_stops [OF task i] unfolding deadlocked_def by blast
    ultimately show ?thesis using task_step_frame [OF task] by auto
  next
    case clean
    then show ?thesis using i guard by (auto elim: clean_stepE)
  qed
qed


text \<open>
  The deadlock is reached from the start by two requests for one backup, the first of
  which fails to open it, and one run of the cleanup.
\<close>

theorem browse_deadlock_reached:
  "\<exists>s. browse_step\<^sup>*\<^sup>* nothing_open s \<and> deadlocked s"
proof -
  let ?moves = "[Arrive 0 7, Go 0 True, Go 0 True, Go 0 True, Go 0 True, Go 0 True, Go 0 False,
    Arrive 1 7, Go 1 True, Go 1 True, Go 1 True, Expire {}]"
  obtain s where "browse_run ?moves nothing_open = Some s" and s: "br_pc s 1 = Checking 7 0 True" "br_cleaning s"
    by (simp add: nothing_open_def goes_def guarded_map_def mutex_taken_def
        if_distrib [of keeps_guard] if_distrib [of "holds_mutex m" for m] cong: if_cong)
  then have "browse_step\<^sup>*\<^sup>* nothing_open s" by (blast intro: browse_run_reaches)
  moreover have "blocked_guard s 1" using s by (simp add: blocked_guard_def)
  then have "deadlocked s" using s unfolding deadlocked_def by blast
  ultimately show ?thesis by blast
qed


text \<open>
  C32: Only the cleanup can stop a browse: whenever a request is under way, a task or the
  end of a cleanup that has begun is possible, unless there is the deadlock above.
\<close>

theorem browse_progress:
  assumes "br_pc s i \<noteq> Absent" and "br_pc s i \<noteq> Returned" and "\<not> deadlocked s"
  shows "(\<exists>j s'. task_step j s s') \<or> (br_cleaning s \<and> (\<exists>s'. clean_step s s'))"
proof (rule ccontr)
  assume stuck: "\<not> ((\<exists>j s'. task_step j s s') \<or> (br_cleaning s \<and> (\<exists>s'. clean_step s s')))"
  have busy: "wants_cache (br_pc s j) \<and> br_cleaning s" if "holds_mutex m (br_pc s j)" for m j
    using stuck that by (cases "br_pc s j"; cases "br_cleaning s") (auto, (meson task_step.intros)+)
  have blocked: "br_cleaning s \<and> blocked_guard s j" if g: "keeps_guard (br_pc s j)" for j
  proof (cases "br_pc s j")
    case (Locking u m g)
    then have "mutex_taken m s" using stuck by (blast intro: task_step.lock)
    then show ?thesis
      using busy g Locking unfolding mutex_taken_def blocked_guard_def by metis
  qed (use busy [of _ j] g in \<open>auto simp: blocked_guard_def\<close>)
  then have free: "\<not> guarded_map s" using assms(3) unfolding deadlocked_def guarded_map_def by blast
  then have calm: "\<not> br_cleaning s" using stuck by (blast intro: clean_step.retain)
  show False
  proof (cases "br_pc s i")
    case (Arrived u)
    then show False using stuck calm by (cases "u \<in> br_open s") (blast intro: task_step.intros)+
  next
    case (Spawned u)
    then show False using stuck by (cases "br_mutexes s u") (blast intro: task_step.intros)+
  next
    case (Creating u)
    then show False using stuck free by (blast intro: task_step.intros)
  next
    case (Locking u m g)
    then have "mutex_taken m s" using stuck by (blast intro: task_step.lock)
    then show False using busy calm unfolding mutex_taken_def by blast
  qed (use assms busy [of _ i] calm in auto)
qed

theorem browse_progress_witness:
  "\<exists>j s'. task_step j (nothing_open\<lparr>br_pc := (\<lambda>_. Absent)(0 := Mounting 7 0 True), br_cleaning := True\<rparr>) s'"
proof -
  let ?s = "nothing_open\<lparr>br_pc := (\<lambda>_. Absent)(0 := Mounting 7 0 True), br_cleaning := True\<rparr>"
  have "\<not> blocked_guard ?s i" for i by (simp add: blocked_guard_def)
  then have "\<not> deadlocked ?s" unfolding deadlocked_def by blast
  moreover have "\<not> clean_step ?s s'" for s' by (auto elim!: clean_stepE simp: guarded_map_def split: if_splits)
  ultimately show ?thesis using browse_progress [of ?s 0] by auto
qed

end
