(* ===== verification/Shell_Editor.thy ===== *)
theory Shell_Editor
  imports Cyro_Prelude
begin

text \<open>
  The line editor of the SSH shell (\<open>ssh/shell.rs\<close>): the line being typed, the cursor in
  it and the history of lines, what each key does to them, and the bytes sent back for it.
  The bytes are read by a terminal, one row of it, to say what the user sees. A byte is a
  \<open>char\<close>.
\<close>

section \<open>The editor\<close>

record editor =
  ed_line :: string
  ed_cursor :: nat
  ed_history :: "string list"
  ed_index :: "nat option"

definition new_editor :: editor where
  "new_editor = \<lparr>ed_line = [], ed_cursor = 0, ed_history = [], ed_index = None\<rparr>"

abbreviation ESC :: char where "ESC \<equiv> CHR 0x1B"

definition bell :: string where
  "bell = [CHR 0x07]"

definition erase_row :: string where
  "erase_row = [ESC] @ ''[2K''"

definition move_back :: "nat \<Rightarrow> string" where
  "move_back n = [ESC, CHR ''[''] @ nat_to_string n @ ''D''"

text \<open>The line at index \<open>i\<close> of the history replaces the line.\<close>

definition recall :: "nat \<Rightarrow> editor \<Rightarrow> string \<times> editor" where
  "recall i e =
     (let cmd = ed_history e ! i
      in ([CHR 0x0D] @ erase_row @ cmd, e\<lparr>ed_index := Some i, ed_line := cmd, ed_cursor := length cmd\<rparr>))"

definition key_up :: "editor \<Rightarrow> string \<times> editor" where
  "key_up e =
     (if ed_history e = [] then (bell, e)
      else case ed_index e of
        None \<Rightarrow>
          (let h = (if ed_line e = [] then ed_history e
                    else (if 20 \<le> length (ed_history e) then tl (ed_history e) else ed_history e) @ [ed_line e])
           in recall (length h - 1) (e\<lparr>ed_history := h\<rparr>))
      | Some i \<Rightarrow> if 0 < i then recall (i - 1) e else (bell, e))"

definition key_down :: "editor \<Rightarrow> string \<times> editor" where
  "key_down e =
     (case ed_index e of
        None \<Rightarrow> (bell, e)
      | Some i \<Rightarrow>
          if i < length (ed_history e) - 1 then recall (i + 1) e
          else ([CHR 0x0D] @ erase_row, e\<lparr>ed_index := None, ed_line := [], ed_cursor := 0\<rparr>))"

definition key_right :: "editor \<Rightarrow> string \<times> editor" where
  "key_right e =
     (if ed_cursor e < length (ed_line e) then ([ESC] @ ''[C'', e\<lparr>ed_cursor := ed_cursor e + 1\<rparr>) else (bell, e))"

definition key_left :: "editor \<Rightarrow> string \<times> editor" where
  "key_left e =
     (if 0 < ed_cursor e then ([ESC] @ ''[D'', e\<lparr>ed_cursor := ed_cursor e - 1\<rparr>) else (bell, e))"

definition handle_special_keys :: "char \<Rightarrow> editor \<Rightarrow> string \<times> editor" where
  "handle_special_keys c e =
     (if c = CHR ''A'' then key_up e
      else if c = CHR ''B'' then key_down e
      else if c = CHR ''C'' then key_right e
      else if c = CHR ''D'' then key_left e
      else ([], e))"

definition backspace :: "editor \<Rightarrow> string \<times> editor" where
  "backspace e =
     (let c = ed_cursor e; l = ed_line e in
      if 0 < c then
        (if c < length l then
           (let l' = take (c - 1) l @ drop c l
            in ([CHR 0x08, ESC] @ ''[K'' @ drop (c - 1) l' @
                  (if c - 1 < length l' then move_back (length l' - (c - 1)) else []),
                e\<lparr>ed_line := l', ed_cursor := c - 1\<rparr>))
         else ([CHR 0x08, CHR '' '', CHR 0x08], e\<lparr>ed_line := butlast l, ed_cursor := c - 1\<rparr>))
      else (bell, e))"

definition type_byte :: "char \<Rightarrow> editor \<Rightarrow> string \<times> editor" where
  "type_byte b e =
     (let c = ed_cursor e; l = ed_line e in
      if length l < 1024 then
        (if c < length l then
           (let l' = take c l @ b # drop c l
            in ([b] @ drop (c + 1) l' @
                  (if c + 1 < length l' then move_back (length l' - (c + 1)) else []),
                e\<lparr>ed_line := l', ed_cursor := c + 1\<rparr>))
         else ([b], e\<lparr>ed_line := l @ [b], ed_cursor := c + 1\<rparr>))
      else (bell, e))"

text \<open>What a return does to the history, and the empty line after it.\<close>

definition remember_line :: "editor \<Rightarrow> editor" where
  "remember_line e =
     e\<lparr>ed_history :=
         (let h = ed_history e in
          if h \<noteq> [] \<and> last h \<noteq> ed_line e then (if 16 \<le> length h then tl h else h) @ [ed_line e]
          else if h = [] then [ed_line e] else h),
       ed_index := None\<rparr>"

definition clear_line :: "editor \<Rightarrow> editor" where
  "clear_line e = e\<lparr>ed_line := [], ed_cursor := 0\<rparr>"

section \<open>Keys\<close>

text \<open>
  The bytes of the client are decoded into keys; an escape sequence that is not one of a
  cursor key is sent back.
\<close>

datatype key = Byte char | Special char | Unknown string

record keyboard =
  kb_escape :: bool
  kb_cursor :: bool
  kb_sequence :: string

definition new_keyboard :: keyboard where
  "new_keyboard = \<lparr>kb_escape = False, kb_cursor = False, kb_sequence = []\<rparr>"

definition decode_key :: "char \<Rightarrow> keyboard \<Rightarrow> key option \<times> keyboard" where
  "decode_key b k =
     (if kb_escape k then
        (let sq = kb_sequence k @ [b]; k = k\<lparr>kb_sequence := sq\<rparr> in
         if b = CHR ''['' \<and> length sq = 1 then (None, k\<lparr>kb_cursor := True\<rparr>)
         else if kb_cursor k \<and> length sq = 2 then (Some (Special b), new_keyboard)
         else if 3 \<le> length sq \<or> (\<not> kb_cursor k \<and> 2 \<le> length sq) then (Some (Unknown (ESC # sq)), new_keyboard)
         else (None, k))
      else if b = ESC then (None, k\<lparr>kb_escape := True, kb_sequence := []\<rparr>)
      else (Some (Byte b), k))"

text \<open>The keys that only edit: not a return, which needs the server.\<close>

definition is_return :: "char \<Rightarrow> bool" where
  "is_return b \<longleftrightarrow> b = CHR 0x0D \<or> b = CHR 0x0A"

definition edit_key :: "key \<Rightarrow> editor \<Rightarrow> string \<times> editor" where
  "edit_key k e =
     (case k of
        Special c \<Rightarrow> handle_special_keys c e
      | Unknown s \<Rightarrow> (s, e)
      | Byte b \<Rightarrow> if b = CHR 0x08 \<or> b = CHR 0x7F then backspace e else type_byte b e)"

fun edit_bytes :: "string \<Rightarrow> keyboard \<Rightarrow> editor \<Rightarrow> string \<times> keyboard \<times> editor" where
  "edit_bytes [] k e = ([], k, e)"
| "edit_bytes (b # bs) k e =
     (case decode_key b k of
        (None, k) \<Rightarrow> edit_bytes bs k e
      | (Some key, k) \<Rightarrow>
          (case edit_key key e of (out, e) \<Rightarrow> (case edit_bytes bs k e of (out', r) \<Rightarrow> (out @ out', r))))"

section \<open>The terminal\<close>

text \<open>The row with the cursor, long enough for every line, and what is left of an escape sequence.\<close>

datatype tm_mode = Ground | Escaped | Csi string

record terminal =
  tm_mode :: tm_mode
  tm_row :: "nat \<Rightarrow> char"
  tm_col :: nat

definition blank_row :: "nat \<Rightarrow> char" where
  "blank_row = (\<lambda>_. CHR '' '')"

definition erase_from :: "nat \<Rightarrow> (nat \<Rightarrow> char) \<Rightarrow> nat \<Rightarrow> char" where
  "erase_from c r = (\<lambda>k. if k < c then r k else CHR '' '')"

definition csi_count :: "string \<Rightarrow> nat" where
  "csi_count ps = (case parse_digits ps of Some n \<Rightarrow> n | None \<Rightarrow> 1)"

definition csi :: "string \<Rightarrow> char \<Rightarrow> terminal \<Rightarrow> terminal" where
  "csi ps c t =
     (if c = CHR ''C'' then t\<lparr>tm_col := tm_col t + csi_count ps\<rparr>
      else if c = CHR ''D'' then t\<lparr>tm_col := tm_col t - csi_count ps\<rparr>
      else if c = CHR ''K'' then
        (if ps = ''2'' then t\<lparr>tm_row := blank_row\<rparr>
         else if ps = [] then t\<lparr>tm_row := erase_from (tm_col t) (tm_row t)\<rparr>
         else t)
      else t)"

definition tm_byte :: "char \<Rightarrow> terminal \<Rightarrow> terminal" where
  "tm_byte c t =
     (case tm_mode t of
        Ground \<Rightarrow>
          if c = ESC then t\<lparr>tm_mode := Escaped\<rparr>
          else if c = CHR 0x0D then t\<lparr>tm_col := 0\<rparr>
          else if c = CHR 0x0A then t\<lparr>tm_row := blank_row\<rparr>
          else if c = CHR 0x08 then t\<lparr>tm_col := tm_col t - 1\<rparr>
          else if c = CHR 0x07 then t
          else t\<lparr>tm_row := (tm_row t)(tm_col t := c), tm_col := tm_col t + 1\<rparr>
      | Escaped \<Rightarrow> t\<lparr>tm_mode := (if c = CHR ''['' then Csi [] else Ground)\<rparr>
      | Csi ps \<Rightarrow>
          if is_digit c \<or> c = CHR '';'' then t\<lparr>tm_mode := Csi (ps @ [c])\<rparr>
          else csi ps c (t\<lparr>tm_mode := Ground\<rparr>))"

definition display :: "string \<Rightarrow> terminal \<Rightarrow> terminal" where
  "display s t = fold tm_byte s t"

lemma display_simps [simp]:
  "display [] t = t" "display (c # s) t = display s (tm_byte c t)" "display (s @ s') t = display s' (display s t)"
  by (simp_all add: display_def)

definition printable :: "char \<Rightarrow> bool" where
  "printable c \<longleftrightarrow> 32 \<le> (of_char c :: nat) \<and> (of_char c :: nat) < 127"

definition row_of :: "string \<Rightarrow> nat \<Rightarrow> char" where
  "row_of l k = (if k < length l then l ! k else CHR '' '')"

text \<open>The terminal shows the line, with the cursor where the editor has it.\<close>

definition shows_editor :: "terminal \<Rightarrow> editor \<Rightarrow> bool" where
  "shows_editor t e \<longleftrightarrow> tm_mode t = Ground \<and> tm_row t = row_of (ed_line e) \<and> tm_col t = ed_cursor e"

section \<open>Lemmas\<close>

lemma row_of_Nil [simp]: "row_of [] = blank_row"
  by (simp add: row_of_def blank_row_def fun_eq_iff)

lemma row_of_blank [simp]: "row_of (l @ [CHR '' '']) = row_of l"
  by (auto simp: row_of_def nth_append fun_eq_iff)

lemma erase_from_row [simp]: "erase_from c (row_of l) = row_of (take c l)"
  by (auto simp: erase_from_def row_of_def fun_eq_iff)

lemma ground_update [simp]: "tm_mode t = Ground \<Longrightarrow> t\<lparr>tm_mode := Ground\<rparr> = t"
  by (cases t) simp

lemma row_of_put: "c \<le> length l \<Longrightarrow> (row_of l)(c := b) = row_of (take c l @ b # drop (Suc c) l)"
  by (auto simp: row_of_def fun_eq_iff nth_append nth_Cons' min_def)

lemma printable_mode:
  "printable c \<Longrightarrow> c \<noteq> ESC \<and> c \<noteq> CHR 0x0D \<and> c \<noteq> CHR 0x0A \<and> c \<noteq> CHR 0x08 \<and> c \<noteq> CHR 0x07"
  by (auto simp: printable_def)

lemma display_printable:
  "list_all printable s \<Longrightarrow> tm_mode t = Ground \<Longrightarrow> tm_row t = row_of l \<Longrightarrow> tm_col t \<le> length l \<Longrightarrow>
     display s t = t\<lparr>tm_row := row_of (take (tm_col t) l @ s @ drop (tm_col t + length s) l), tm_col := tm_col t + length s\<rparr>"
proof (induction s arbitrary: t l)
  case Nil
  then show ?case by (cases t) simp
next
  case (Cons c s)
  have byte: "tm_byte c t = t\<lparr>tm_row := row_of (take (tm_col t) l @ c # drop (Suc (tm_col t)) l), tm_col := tm_col t + 1\<rparr>"
    using Cons.prems printable_mode [of c] by (simp add: tm_byte_def row_of_put)
  obtain xs ys where l: "l = xs @ ys" and xs: "tm_col t = length xs"
    using Cons.prems(4) by (metis append_take_drop_id length_take min.absorb2)
  show ?case
    using Cons.IH [of "tm_byte c t" "xs @ c # drop (Suc 0) ys"] Cons.prems
    by (simp add: byte l xs)
qed

lemma display_digits:
  "list_all is_digit ds \<Longrightarrow> tm_mode t = Csi ps \<Longrightarrow> display ds t = t\<lparr>tm_mode := Csi (ps @ ds)\<rparr>"
  by (induction ds arbitrary: t ps) (simp_all add: tm_byte_def)

lemma display_csi:
  assumes "tm_mode t = Ground" and "list_all is_digit ps" and "c \<in> {CHR ''C'', CHR ''D'', CHR ''K''}"
  shows "display (ESC # CHR ''['' # ps @ [c]) t = csi ps c t"
proof -
  have "\<not> is_digit c" "c \<noteq> CHR '';''" using assms(3) by (auto simp: is_digit_def)
  then show ?thesis
    using assms(1,2) by (simp add: tm_byte_def [of ESC] tm_byte_def [of "CHR ''[''"] display_digits [where ps = "[]"] tm_byte_def [of c])
qed

lemma display_move_back [simp]:
  "tm_mode t = Ground \<Longrightarrow> display (move_back n) t = t\<lparr>tm_col := tm_col t - n\<rparr>"
  using display_csi [of t "nat_to_string n" "CHR ''D''"] nat_to_string_digits [of n]
  by (simp add: move_back_def csi_def csi_count_def)

lemma display_erase_row [simp]: "tm_mode t = Ground \<Longrightarrow> display erase_row t = t\<lparr>tm_row := blank_row\<rparr>"
  using display_csi [of t "''2''" "CHR ''K''"] by (simp add: erase_row_def csi_def is_digit_def)

lemma display_keys:
  "tm_mode t = Ground \<Longrightarrow> display [ESC, CHR ''['', CHR ''C''] t = t\<lparr>tm_col := tm_col t + 1\<rparr>"
  "tm_mode t = Ground \<Longrightarrow> display [ESC, CHR ''['', CHR ''D''] t = t\<lparr>tm_col := tm_col t - 1\<rparr>"
  "tm_mode t = Ground \<Longrightarrow> display [ESC, CHR ''['', CHR ''K''] t =
     t\<lparr>tm_row := erase_from (tm_col t) (tm_row t)\<rparr>"
  "tm_mode t = Ground \<Longrightarrow> display bell t = t"
  using display_csi [of t "[]"] by (simp_all add: csi_def csi_count_def parse_digits_def bell_def tm_byte_def is_digit_def)

lemmas cursor_keys [simp] = display_keys [unfolded bell_def display_simps]

lemma display_bell [simp]: "tm_mode t = Ground \<Longrightarrow> display bell t = t"
  by (rule display_keys)

text \<open>What holds of the editor between two keys.\<close>

definition editor_ok :: "editor \<Rightarrow> bool" where
  "editor_ok e \<longleftrightarrow> ed_cursor e \<le> length (ed_line e) \<and> length (ed_line e) \<le> 1024 \<and>
     length (ed_history e) \<le> 20 \<and> (\<forall>l \<in> set (ed_history e). l \<noteq> [] \<and> length l \<le> 1024) \<and>
     (\<forall>i. ed_index e = Some i \<longrightarrow> i < length (ed_history e))"

definition clean_editor :: "editor \<Rightarrow> bool" where
  "clean_editor e \<longleftrightarrow> list_all printable (ed_line e) \<and> (\<forall>l \<in> set (ed_history e). list_all printable l)"

lemma recall_ok:
  "editor_ok e \<Longrightarrow> i < length (ed_history e) \<Longrightarrow> editor_ok (snd (recall i e))"
  by (auto simp: editor_ok_def recall_def Let_def)

lemma recall_clean: "clean_editor e \<Longrightarrow> i < length (ed_history e) \<Longrightarrow> clean_editor (snd (recall i e))"
  by (auto simp: clean_editor_def recall_def Let_def)

lemma pushed_history:
  assumes "editor_ok e" and "ed_line e \<noteq> []"
  shows "editor_ok (e\<lparr>ed_history := (if 20 \<le> length (ed_history e) then tl (ed_history e) else ed_history e) @ [ed_line e],
           ed_index := None\<rparr>)"
  using assms by (auto simp: editor_ok_def dest: list.set_sel(2) [rotated])

lemma recall_shown:
  assumes "tm_mode t = Ground" and "i < length (ed_history e)" and "clean_editor e"
  shows "shows_editor (display (fst (recall i e)) t) (snd (recall i e))"
proof -
  have "list_all printable (ed_history e ! i)" using assms(2,3) by (simp add: clean_editor_def)
  then show ?thesis
    using assms(1) display_printable [of "ed_history e ! i" "t\<lparr>tm_col := 0, tm_row := blank_row\<rparr>" "[]"]
    by (simp add: recall_def Let_def shows_editor_def tm_byte_def)
qed

lemmas editor_defs =
  key_up_def key_down_def key_right_def key_left_def backspace_def type_byte_def handle_special_keys_def

lemma special_ok: "editor_ok e \<Longrightarrow> editor_ok (snd (handle_special_keys c e))"
proof -
  assume ok: "editor_ok e"
  have up: "editor_ok (snd (key_up e))"
  proof (cases "ed_index e")
    case None
    let ?h = "if ed_line e = [] then ed_history e
      else (if 20 \<le> length (ed_history e) then tl (ed_history e) else ed_history e) @ [ed_line e]"
    have "editor_ok (e\<lparr>ed_history := ?h\<rparr>)"
      using ok pushed_history [OF ok] None by (cases e) auto
    then show ?thesis
      using recall_ok [of "e\<lparr>ed_history := ?h\<rparr>" "length ?h - 1"] ok None
      by (auto simp: key_up_def Let_def)
  next
    case (Some i)
    then show ?thesis using ok recall_ok [OF ok, of "i - 1"] by (auto simp: key_up_def editor_ok_def [of e])
  qed
  have down: "editor_ok (snd (key_down e))"
  proof (cases "\<exists>i. ed_index e = Some i \<and> i < length (ed_history e) - 1")
    case True
    then show ?thesis using recall_ok [OF ok] by (auto simp: key_down_def)
  next
    case False
    then show ?thesis using ok by (auto simp: key_down_def editor_ok_def split: option.split)
  qed
  show ?thesis
    using up down ok by (auto simp: handle_special_keys_def key_right_def key_left_def editor_ok_def)
qed

lemma typing_ok: "editor_ok e \<Longrightarrow> editor_ok (snd (backspace e)) \<and> editor_ok (snd (type_byte b e))"
  by (auto simp: backspace_def type_byte_def editor_ok_def Let_def)

lemma edit_key_ok: "editor_ok e \<Longrightarrow> editor_ok (snd (edit_key k e))"
  using special_ok typing_ok by (simp add: edit_key_def split: key.split)

text \<open>The keys a terminal follows: cursor keys, the deletion keys and printable bytes.\<close>

fun followed_key :: "key \<Rightarrow> bool" where
  "followed_key (Byte b) \<longleftrightarrow> printable b \<or> b = CHR 0x08 \<or> b = CHR 0x7F"
| "followed_key (Special c) \<longleftrightarrow> True"
| "followed_key (Unknown s) \<longleftrightarrow> False"

lemma special_clean: "clean_editor e \<Longrightarrow> editor_ok e \<Longrightarrow> clean_editor (snd (handle_special_keys c e))"
  by (auto simp: handle_special_keys_def key_up_def key_down_def key_right_def key_left_def recall_def Let_def
      clean_editor_def editor_ok_def nth_append split: option.split dest: list.set_sel(2) [rotated])

lemma typing_clean:
  "clean_editor e \<Longrightarrow> clean_editor (snd (backspace e)) \<and> (printable b \<longrightarrow> clean_editor (snd (type_byte b e)))"
  by (auto simp: backspace_def type_byte_def clean_editor_def Let_def list_all_iff dest: in_set_takeD in_set_dropD in_set_butlastD)

lemma edit_key_clean: "clean_editor e \<Longrightarrow> editor_ok e \<Longrightarrow> followed_key k \<Longrightarrow> clean_editor (snd (edit_key k e))"
  using special_clean typing_clean by (cases k) (auto simp: edit_key_def)

section \<open>What the terminal shows\<close>

lemma recall_step:
  "shows_editor t e \<Longrightarrow> clean_editor e \<Longrightarrow> i < length (ed_history e) \<Longrightarrow> shows_editor (display (fst (recall i e)) t) (snd (recall i e))"
  by (rule recall_shown) (simp_all add: shows_editor_def)

lemma special_shown:
  assumes "shows_editor t e" and "editor_ok e" and "clean_editor e"
  shows "shows_editor (display (fst (handle_special_keys c e)) t) (snd (handle_special_keys c e))"
proof -
  have up: "shows_editor (display (fst (key_up e)) t) (snd (key_up e))"
  proof (cases "ed_history e = [] \<or> (ed_index e \<noteq> None)")
    case True
    have "shows_editor (display (fst (recall (i - 1) e)) t) (snd (recall (i - 1) e))" if "ed_index e = Some i" for i
      using recall_step [OF assms(1,3), of "i - 1"] assms(2) that by (auto simp: editor_ok_def)
    moreover have "shows_editor (display bell t) e" using assms(1) by (simp add: shows_editor_def)
    ultimately show ?thesis using True by (auto simp: key_up_def)
  next
    case False
    let ?h = "if ed_line e = [] then ed_history e
      else (if 20 \<le> length (ed_history e) then tl (ed_history e) else ed_history e) @ [ed_line e]"
    have "clean_editor (e\<lparr>ed_history := ?h\<rparr>)"
      using assms(3) by (auto simp: clean_editor_def dest: list.set_sel(2) [rotated])
    moreover have "shows_editor t (e\<lparr>ed_history := ?h\<rparr>)" using assms(1) by (simp add: shows_editor_def)
    ultimately show ?thesis
      using recall_step [of t "e\<lparr>ed_history := ?h\<rparr>" "length ?h - 1"] False by (auto simp: key_up_def Let_def)
  qed
  have down: "shows_editor (display (fst (key_down e)) t) (snd (key_down e))"
  proof (cases "\<exists>i. ed_index e = Some i \<and> i < length (ed_history e) - 1")
    case True
    then show ?thesis using recall_step [OF assms(1,3)] by (auto simp: key_down_def)
  next
    case False
    then show ?thesis using assms(1) by (auto simp: key_down_def shows_editor_def tm_byte_def split: option.split)
  qed
  show ?thesis
    using up down assms(1) by (auto simp: handle_special_keys_def key_right_def key_left_def shows_editor_def)
qed

lemma printable_drop: "list_all printable l \<Longrightarrow> list_all printable (drop n l)"
  by (auto simp: list_all_iff dest: in_set_dropD)

lemma backspace_shown:
  assumes "shows_editor t e" and "editor_ok e" and "clean_editor e"
  shows "shows_editor (display (fst (backspace e)) t) (snd (backspace e))"
proof -
  obtain c l where cl: "ed_cursor e = c" "ed_line e = l" by blast
  have t: "tm_mode t = Ground" "tm_row t = row_of l" "tm_col t = c" and c: "c \<le> length l" and l: "list_all printable l"
    using assms cl by (auto simp: shows_editor_def editor_ok_def clean_editor_def)
  consider "c = 0" | "0 < c" "c < length l" | "0 < c" "c = length l" using c by fastforce
  then show ?thesis
  proof cases
    case 1
    then show ?thesis using assms(1) cl by (simp add: backspace_def shows_editor_def)
  next
    case 2
    let ?t = "t\<lparr>tm_col := c - 1, tm_row := row_of (take (c - 1) l)\<rparr>"
    have erased: "display ([CHR 0x08, ESC] @ ''[K'') t = ?t"
      using t 2 display_keys(3) [of "t\<lparr>tm_col := c - 1\<rparr>"] by (simp add: tm_byte_def [of "CHR 0x08"])
    have rest: "drop (c - 1) (take (c - 1) l @ drop c l) = drop c l" using c by simp
    have "display (drop c l) ?t = ?t\<lparr>tm_row := row_of (take (c - 1) l @ drop c l), tm_col := c - 1 + (length l - c)\<rparr>"
      using display_printable [of "drop c l" ?t "take (c - 1) l"] t 2 l by (simp add: printable_drop)
    then show ?thesis
      using t 2 cl erased rest by (auto simp: backspace_def shows_editor_def Let_def)
  next
    case 3
    have split: "row_of (take (c - 1) l @ CHR '' '' # drop c l) = row_of (butlast l)"
      using 3 by (simp add: butlast_conv_take)
    have "c - 1 \<le> length l" using 3 by simp
    then show ?thesis
      using t 3 cl split by (simp add: backspace_def shows_editor_def tm_byte_def row_of_put)
  qed
qed

lemma type_byte_shown:
  assumes "shows_editor t e" and "editor_ok e" and "clean_editor e" and "printable b"
  shows "shows_editor (display (fst (type_byte b e)) t) (snd (type_byte b e))"
proof -
  obtain c l where cl: "ed_cursor e = c" "ed_line e = l" by blast
  have t: "tm_mode t = Ground" "tm_row t = row_of l" "tm_col t = c" and c: "c \<le> length l" and l: "list_all printable l"
    using assms cl by (auto simp: shows_editor_def editor_ok_def clean_editor_def)
  have rest: "drop (Suc c) (take c l @ b # drop c l) = drop c l" using c by simp
  have typed: "display (drop c l) (tm_byte b t) = t\<lparr>tm_row := row_of (take c l @ b # drop c l), tm_col := Suc (length l)\<rparr>"
    using display_printable [of "b # drop c l" t l] t c l assms(4) by (simp add: printable_drop)
  show ?thesis
  proof (cases "c < length l")
    case True
    then show ?thesis
      using t cl typed rest assms(1)
      by (auto simp: type_byte_def shows_editor_def Let_def)
  next
    case False
    then show ?thesis
      using t cl typed c assms(1) by (auto simp: type_byte_def shows_editor_def Let_def)
  qed
qed

lemma edit_key_shown:
  "shows_editor t e \<Longrightarrow> editor_ok e \<Longrightarrow> clean_editor e \<Longrightarrow> followed_key k \<Longrightarrow>
     shows_editor (display (fst (edit_key k e)) t) (snd (edit_key k e))"
  using special_shown backspace_shown type_byte_shown by (cases k) (auto simp: edit_key_def)

fun encode_key :: "key \<Rightarrow> string" where
  "encode_key (Byte b) = [b]"
| "encode_key (Special c) = [ESC, CHR ''['', c]"
| "encode_key (Unknown s) = s"

lemma edit_encoded:
  "followed_key k \<Longrightarrow> edit_bytes (encode_key k @ bs) new_keyboard e =
     (case edit_key k e of (out, e) \<Rightarrow> (case edit_bytes bs new_keyboard e of (out', r) \<Rightarrow> (out @ out', r)))"
  by (cases k) (auto simp: decode_key_def new_keyboard_def printable_def split: prod.splits)

text \<open>
  C39: Whatever cursor keys, printable bytes and deletions the client sends, the terminal
  that is given the answers shows the line of the editor with the cursor at its place; the
  cursor stays in the line, the line within 1024 bytes, the history within 20 lines, and
  no access to the history is out of bounds.
\<close>

theorem editing_shown:
  assumes "list_all followed_key ks" and "shows_editor t e" and "editor_ok e" and "clean_editor e"
    and "edit_bytes (concat (map encode_key ks)) new_keyboard e = (out, k, e')"
  shows "shows_editor (display out t) e' \<and> editor_ok e' \<and> k = new_keyboard"
  using assms
proof (induction ks arbitrary: t e out)
  case (Cons key ks)
  obtain out1 e1 where key: "edit_key key e = (out1, e1)" by fastforce
  obtain out2 where rest: "edit_bytes (concat (map encode_key ks)) new_keyboard e1 = (out2, k, e')" and out: "out = out1 @ out2"
    using Cons.prems(1,5) key by (auto simp: edit_encoded split: prod.splits)
  have "shows_editor (display out1 t) e1" "editor_ok e1" "clean_editor e1"
    using Cons.prems key edit_key_shown [of t e key] edit_key_ok [of e key] edit_key_clean [of e key] by auto
  then show ?case using Cons.IH [OF _ _ _ _ rest] Cons.prems(1) out by simp
qed simp

theorem editing_shown_witness:
  "\<exists>out k. edit_bytes (''lst'' @ [ESC] @ ''[D'' @ [CHR 0x08] @ ''is'') new_keyboard new_editor =
       (out, k, new_editor\<lparr>ed_line := ''list'', ed_cursor := 3\<rparr>) \<and>
     shows_editor (display out \<lparr>tm_mode = Ground, tm_row = blank_row, tm_col = 0\<rparr>) (new_editor\<lparr>ed_line := ''list'', ed_cursor := 3\<rparr>)"
proof -
  let ?ks = "map Byte ''lst'' @ [Special CHR ''D'', Byte CHR 0x08] @ map Byte ''is''"
  have ks: "list_all followed_key ?ks" by (simp add: printable_def)
  obtain out k e' where run: "edit_bytes (concat (map encode_key ?ks)) new_keyboard new_editor = (out, k, e')"
    by (metis prod_cases3)
  have e': "e' = new_editor\<lparr>ed_line := ''list'', ed_cursor := 3\<rparr>"
    using run by (auto simp: new_editor_def new_keyboard_def decode_key_def edit_key_def editor_defs Let_def)
  have "shows_editor (display out \<lparr>tm_mode = Ground, tm_row = blank_row, tm_col = 0\<rparr>) e'"
    using editing_shown [OF ks _ _ _ run] by (simp add: shows_editor_def editor_ok_def clean_editor_def new_editor_def)
  moreover have "concat (map encode_key ?ks) = ''lst'' @ [ESC] @ ''[D'' @ [CHR 0x08] @ ''is''" by simp
  ultimately show ?thesis using run e' by metis
qed

text \<open>
  Longer escape sequences are cut after their third byte: the delete key, and each
  modified cursor key, types the rest of its sequence into the line.
\<close>

theorem delete_key_types_tilde:
  assumes "ed_cursor e \<le> length (ed_line e)" and "length (ed_line e) < 1024"
  shows "snd (edit_bytes ([ESC] @ ''[3~'') new_keyboard e) =
     (new_keyboard, e\<lparr>ed_line := take (ed_cursor e) (ed_line e) @ ''~'' @ drop (ed_cursor e) (ed_line e),
        ed_cursor := ed_cursor e + 1\<rparr>)"
  using assms
  by (auto simp: decode_key_def new_keyboard_def edit_key_def handle_special_keys_def type_byte_def Let_def)

theorem delete_key_types_tilde_witness:
  "ed_line (snd (snd (edit_bytes ([ESC] @ ''[3~'') new_keyboard (new_editor\<lparr>ed_line := ''stop''\<rparr>)))) = ''~stop''"
  using delete_key_types_tilde [of "new_editor\<lparr>ed_line := ''stop''\<rparr>"] by (simp add: new_editor_def del: edit_bytes.simps)

lemma remember_line_ok: "editor_ok e \<Longrightarrow> ed_line e \<noteq> [] \<Longrightarrow> editor_ok (clear_line (remember_line e))"
  by (auto simp: editor_ok_def clear_line_def remember_line_def Let_def dest: list.set_sel(2) [rotated])

end
