(* ===== verification/Ssh_Shell.thy ===== *)
theory Ssh_Shell
  imports Shell_Editor Utf8 Server_Routes Activity_Log File_Routes
begin

text \<open>
  The interactive shell and the single commands of an SSH connection (\<open>ssh/shell.rs\<close>,
  \<open>ssh/exec.rs\<close>): lines typed into the shell go to the console of the server, or to the
  daemon's own commands when they start with their name; an \<open>exec\<close> request unpacks or
  makes an archive, or goes to the console.

  The answers of the server's power actions are as in \<open>Server_Routes\<close>. Rendered texts
  (the prelude of daemon messages, the statistics) are parameters, and so is the archive
  code behind \<open>exec\<close>.
\<close>

section \<open>Words\<close>

lemma dropWhile_word:
  assumes "x = dropWhile is_ws s" and "x \<noteq> []"
  shows "length (dropWhile (\<lambda>c. \<not> is_ws c) x) < length s"
proof -
  obtain c cs where x: "x = c # cs" using assms(2) by (cases x) auto
  have "\<not> is_ws (hd x)" using assms hd_dropWhile [of is_ws s] by simp
  then have "\<not> is_ws c" using x by simp
  then have "length (dropWhile (\<lambda>c. \<not> is_ws c) x) \<le> length cs" using x by (simp add: length_dropWhile_le)
  moreover have "length x \<le> length s" using assms(1) by (simp add: length_dropWhile_le)
  ultimately show ?thesis using x by simp
qed

function split_whitespace :: "string \<Rightarrow> string list" where
  "split_whitespace s =
     (let s = dropWhile is_ws s in
      if s = [] then []
      else takeWhile (\<lambda>c. \<not> is_ws c) s # split_whitespace (dropWhile (\<lambda>c. \<not> is_ws c) s))"
  by pat_completeness auto
termination
  by (relation "measure length") (simp, simp only: in_measure, rule dropWhile_word [OF refl])

declare split_whitespace.simps [simp del]

definition quote :: string where
  "quote = [CHR 0x22]"

definition apostrophe :: string where
  "apostrophe = [CHR 0x27]"

definition trim_quotes :: "string \<Rightarrow> string" where
  "trim_quotes s = trim_end_matches quote (trim_start_matches quote s)"

section \<open>The session\<close>

record shell_env =
  sv_power :: power_env
  sv_clock :: int
  sv_now :: nat
  sv_user :: uuid
  sv_ip :: "string option"
  sv_cli_name :: string
  sv_prelude :: string
  sv_version :: string
  sv_stats :: "server \<Rightarrow> string list"
  sv_stdin_ok :: bool

datatype archive_event =
    OpenArchive string
  | ExtractArchive string string
  | CreateFile path
  | CreateTar path "path list"

record 'ov shell =
  sh_server :: server
  sh_perms :: "'ov user_permissions_map"
  sh_activities :: "Activity list"
  sh_winscp :: bool
  sh_out :: string
  sh_exits :: "nat list"
  sh_archives :: "archive_event list"

definition sh_write :: "string \<Rightarrow> 'ov shell \<Rightarrow> 'ov shell" where
  "sh_write s st = st\<lparr>sh_out := sh_out st @ s\<rparr>"

abbreviation crlf :: string where "crlf \<equiv> [CHR 0x0D, CHR 0x0A]"

definition writeln :: "shell_env \<Rightarrow> string \<Rightarrow> 'ov shell \<Rightarrow> 'ov shell" where
  "writeln e line = sh_write (sv_prelude e @ '' '' @ line @ crlf @ erase_row)"

definition sh_permitted :: "shell_env \<Rightarrow> Permission \<Rightarrow> 'ov shell \<Rightarrow> bool \<times> 'ov shell" where
  "sh_permitted e p st =
     (case upm_has_permission (sv_now e) (sv_user e) p (sh_perms st) of (b, m) \<Rightarrow> (b, st\<lparr>sh_perms := m\<rparr>))"

definition sh_log :: "shell_env \<Rightarrow> ActivityEvent \<Rightarrow> json option \<Rightarrow> 'ov shell \<Rightarrow> 'ov shell" where
  "sh_log e ev md st =
     st\<lparr>sh_activities := log_activity
        \<lparr>act_user = Some (sv_user e), act_event = ev, act_metadata = md, act_ip = sv_ip e, act_timestamp = sv_clock e\<rparr>
        (sh_activities st)\<rparr>"

subsection \<open>Power\<close>

text \<open>The message of a literal error is shown, any other error only announced.\<close>

definition power_done ::
  "shell_env \<Rightarrow> ActivityEvent \<Rightarrow> string list \<Rightarrow> string \<Rightarrow> unit result \<times> server \<Rightarrow> 'ov shell \<Rightarrow> 'ov shell" where
  "power_done e ev literals unexpected rs st =
     (let st = st\<lparr>sh_server := snd rs\<rparr> in
      case fst rs of
        Inl err \<Rightarrow> writeln e (if err \<in> set literals then err else unexpected) st
      | Inr _ \<Rightarrow> sh_log e ev None st)"

definition unexpected :: "string \<Rightarrow> string" where
  "unexpected doing =
     ''An unexpected error occurred while '' @ doing @ '' the server. Please contact an Administrator.''"

definition guarded_power ::
  "shell_env \<Rightarrow> Permission \<Rightarrow> string \<Rightarrow> (server \<Rightarrow> bool) \<Rightarrow> string \<Rightarrow> ActivityEvent \<Rightarrow> string list \<Rightarrow> string
     \<Rightarrow> (server \<Rightarrow> unit result \<times> server) \<Rightarrow> 'ov shell \<Rightarrow> 'ov shell" where
  "guarded_power e p missing refused why ev literals doing act st =
     (case sh_permitted e p st of
        (False, st) \<Rightarrow> writeln e (''You are missing the `'' @ missing @ ''` permission to do this.'') st
      | (True, st) \<Rightarrow>
          if refused (sh_server st) then writeln e why st
          else power_done e ev literals (unexpected doing) (act (sh_server st)) st)"

definition cli_auto_kill :: "shell_env \<Rightarrow> bool" where
  "cli_auto_kill e \<longleftrightarrow> pw_auto_kill (sv_power e) \<and> 0 < pw_auto_kill_seconds (sv_power e)"

definition cli_power :: "shell_env \<Rightarrow> string list \<Rightarrow> 'ov shell \<Rightarrow> 'ov shell" where
  "cli_power e segments st =
     (let pw = sv_power e; w = pw_world pw in
      if take 1 segments = [''start''] then
        guarded_power e ControlStart ''control.start'' (\<lambda>s. get_state s \<noteq> Offline) ''Server is already online.''
          AE_PowerStart literal_errors ''starting'' (start w (pw_disk_space pw) (pw_update pw) None False) st
      else if take 1 segments = [''restart''] then
        guarded_power e ControlRestart ''control.restart'' restarting ''Server is already restarting.''
          AE_PowerRestart literal_errors ''restarting''
          (if cli_auto_kill e
           then restart_with_kill_timeout w (pw_disk_space pw) (pw_update pw) (pw_waited pw) (pw_exited pw) None
                  (pw_auto_kill_seconds pw)
           else restart w (pw_disk_space pw) (pw_update pw) (pw_between pw) None) st
      else if take 1 segments = [''stop''] then
        guarded_power e ControlStop ''control.stop'' (\<lambda>s. get_state s \<in> {Offline, Stopping})
          ''Server is already offline or stopping.'' AE_PowerStop literal_errors ''stopping''
          (if cli_auto_kill e
           then stop_with_kill_timeout w (pw_waited pw) (pw_exited pw) (pw_auto_kill_seconds pw) False
           else stop w None False) st
      else if take 1 segments = [''kill''] then
        guarded_power e ControlStop ''control.kill'' (\<lambda>s. get_state s = Offline) ''Server is already offline.''
          AE_PowerKill [] ''killing'' (kill w False) st
      else writeln e (''Usage: '' @ sv_cli_name e @ '' power <start|restart|stop|kill>'') st)"

definition handle_cli_command :: "shell_env \<Rightarrow> string \<Rightarrow> 'ov shell \<Rightarrow> 'ov shell" where
  "handle_cli_command e line st =
     (let st = sh_write crlf st; segments = tl (split_whitespace line) in
      if take 1 segments = [''help''] then
        fold (writeln e)
          [''Available commands:'', ''  help    - Show this help message'', ''  version - Show the current version'',
           ''  power   - Send a power action to the server'', ''  stats   - Show server statistics''] st
      else if take 1 segments = [''version''] then writeln e (''Current version: '' @ sv_version e) st
      else if take 1 segments = [''power''] then cli_power e (tl segments) st
      else if take 1 segments = [''stats''] then
        fold (writeln e) (''Server Statistics:'' # sv_stats e (sh_server st)) st
      else writeln e (''Unknown command. Type '' @ apostrophe @ ''.wings help'' @ apostrophe @ '' for a list of commands.'') st)"


section \<open>Lines\<close>

definition offline_text :: string where
  "offline_text = ''The server is currently offline.''"

definition console_metadata :: "string \<Rightarrow> json option" where
  "console_metadata line = Some (JObject [(''command'', JString line)])"

text \<open>A line for the console of the server.\<close>

definition console_line :: "shell_env \<Rightarrow> string \<Rightarrow> 'ov shell \<Rightarrow> 'ov shell" where
  "console_line e line st =
     (case sh_permitted e ControlConsole st of
        (False, st) \<Rightarrow>
          writeln e ''You are missing the `control.console` permission to do this.'' (sh_write crlf st)
      | (True, st) \<Rightarrow>
          (case (get_state (sh_server st) = Offline, container (sh_server st)) of
             (False, Some c) \<Rightarrow>
               if sv_stdin_ok e then
                 sh_log e AE_ConsoleCommand (console_metadata line)
                   (sh_write [CHR 0x0D] (st\<lparr>sh_server := emit [Stdin c (line @ newline)] (sh_server st)\<rparr>))
               else sh_write crlf st
           | _ \<Rightarrow> writeln e offline_text (sh_write crlf st)))"

definition winscp_line :: "string \<Rightarrow> 'ov shell \<Rightarrow> 'ov shell" where
  "winscp_line line st =
     (case split_whitespace line of
        w # segments \<Rightarrow>
          if w = ''echo'' then
            (sh_write (crlf @ trim_quotes (str_join '' '' segments)) st)\<lparr>sh_exits := sh_exits st @ [0]\<rparr>
          else st
      | [] \<Rightarrow> st)"

definition winscp_mark :: string where
  "winscp_mark = ''echo '' @ quote @ ''WinSCP: this is end-of-file:0'' @ quote"

definition shell_line :: "shell_env \<Rightarrow> string \<Rightarrow> 'ov shell \<Rightarrow> 'ov shell" where
  "shell_line e line st =
     (let st = (if starts_with line winscp_mark then st\<lparr>sh_winscp := True\<rparr> else st) in
      if sh_winscp st then winscp_line line st
      else if starts_with line (sv_cli_name e) then handle_cli_command e line st
      else console_line e line st)"

definition handle_input_byte :: "shell_env \<Rightarrow> char \<Rightarrow> editor \<Rightarrow> 'ov shell \<Rightarrow> editor \<times> 'ov shell" where
  "handle_input_byte e b ed st =
     (if is_return b then
        (if ed_line ed = [] then (ed, st)
         else (clear_line (remember_line ed), shell_line e (from_utf8_lossy (ed_line ed)) st))
      else case edit_key (Byte b) ed of (out, ed) \<Rightarrow> (ed, sh_write out st))"

text \<open>The task that reads the client, each byte with the answers at its time.\<close>

fun shell_input ::
  "(shell_env \<times> char) list \<Rightarrow> keyboard \<Rightarrow> editor \<Rightarrow> 'ov shell \<Rightarrow> keyboard \<times> editor \<times> 'ov shell" where
  "shell_input [] k ed st = (k, ed, st)"
| "shell_input ((e, b) # bs) k ed st =
     (case decode_key b k of
        (None, k) \<Rightarrow> shell_input bs k ed st
      | (Some (Byte b), k) \<Rightarrow> (case handle_input_byte e b ed st of (ed, st) \<Rightarrow> shell_input bs k ed st)
      | (Some key, k) \<Rightarrow> (case edit_key key ed of (out, ed) \<Rightarrow> shell_input bs k ed (sh_write out st)))"

subsection \<open>What the shell shows\<close>

definition shell_greeting :: "shell_env \<Rightarrow> string \<Rightarrow> bool \<Rightarrow> 'ov shell \<Rightarrow> 'ov shell" where
  "shell_greeting e logs send_offline st =
     (let st = writeln e (''Server marked as '' @ to_str (get_state (sh_server st)) @ ''...'') st in
      if get_state (sh_server st) \<noteq> Offline \<or> send_offline then sh_write logs st else st)"

definition shown_line :: "string \<Rightarrow> string" where
  "shown_line s = s @ crlf @ erase_row"

definition shell_broadcast :: "shell_env \<Rightarrow> WebsocketMessage \<Rightarrow> 'ov shell \<Rightarrow> 'ov shell" where
  "shell_broadcast e m st =
     (let show_if = (\<lambda>p st. case sh_permitted e p st of (b, st) \<Rightarrow>
            if b then sh_write (shown_line (str_join '' '' (args m))) st else st) in
      case event m of
        ServerInstallOutput \<Rightarrow> show_if AdminWebsocketInstall st
      | ServerTransferLogs \<Rightarrow> show_if AdminWebsocketTransfer st
      | ServerConsoleOutput \<Rightarrow> sh_write (shown_line (str_join '' '' (args m))) st
      | ServerDaemonMessage \<Rightarrow> sh_write (shown_line (str_join '' '' (args m))) st
      | ServerStatus \<Rightarrow> writeln e (''Server marked as '' @ hd (args m) @ ''...'') st
      | _ \<Rightarrow> st)"

section \<open>Single commands\<close>

text \<open>
  \<open>xe_open\<close> tells whether a path holds an archive; the others are the results of unpacking
  it, of opening the file for a new archive, and of writing one.
\<close>

record exec_env = shell_env +
  xe_open :: "string \<Rightarrow> bool"
  xe_extract :: "unit result"
  xe_writer :: "unit result"
  xe_create :: "unit result"

definition unescape :: "string \<Rightarrow> string" where
  "unescape s = filter (\<lambda>c. c \<noteq> CHR 0x5C) s"

text \<open>The words before \<open>-C\<close> and after it.\<close>

fun tar_words :: "string list \<Rightarrow> bool \<Rightarrow> string \<Rightarrow> string \<Rightarrow> string \<times> string" where
  "tar_words [] reached p d = (p, d)"
| "tar_words (s # ss) reached p d =
     (if s = ''-C'' then tar_words ss True p d
      else if reached then tar_words ss reached p (d @ unescape s @ '' '')
      else tar_words ss reached (p @ unescape s @ '' '') d)"

text \<open>The name of the archive, and the paths that are complete; a word that ends with a backslash goes on.\<close>

fun cd_words :: "path \<Rightarrow> string list \<Rightarrow> bool \<Rightarrow> string \<Rightarrow> string \<Rightarrow> path list \<Rightarrow> string \<times> path list" where
  "cd_words base [] reached d p ps = (d, ps)"
| "cd_words base (s # ss) reached d p ps =
     (let word = unescape s @ '' '';
          d = (if reached then d else d @ word);
          p = (if reached then p @ word else p);
          ends = (s \<noteq> [] \<and> last s = CHR 0x5C) in
      if \<not> ends \<and> \<not> reached then cd_words base ss True d p ps
      else if \<not> ends then cd_words base ss reached d [] (ps @ [path_join base (components (trim p))])
      else cd_words base ss reached d p ps)"

datatype exec_result = Exited nat | Failed

definition exec_denied :: "'ov shell \<Rightarrow> exec_result \<times> 'ov shell" where
  "exec_denied st = (Exited 1, sh_write (''Permission denied.'' @ crlf) st)"

definition archived :: "archive_event \<Rightarrow> 'ov shell \<Rightarrow> 'ov shell" where
  "archived ev st = st\<lparr>sh_archives := sh_archives st @ [ev]\<rparr>"

definition exec_extract :: "exec_env \<Rightarrow> string list \<Rightarrow> 'ov shell \<Rightarrow> exec_result \<times> 'ov shell" where
  "exec_extract e segments st =
     (case sh_permitted (shell_env.truncate e) FileCreate st of
        (False, st) \<Rightarrow> exec_denied st
      | (True, st) \<Rightarrow>
          (case tar_words segments False [] [] of
             (p, d) \<Rightarrow>
               (let st = archived (OpenArchive (trim p)) st in
                if \<not> xe_open e (trim p) then (Failed, st)
                else
                  (let st = sh_log (shell_env.truncate e) AE_FileDecompress
                         (Some (JObject [(''directory'', JString (trim d)), (''file'', JString (trim p))])) st;
                       st = archived (ExtractArchive (trim p) (trim d)) st in
                   case xe_extract e of Inl err \<Rightarrow> (Failed, st) | Inr _ \<Rightarrow> (Exited 0, st)))))"

definition known_extension :: "path \<Rightarrow> bool" where
  "known_extension p \<longleftrightarrow>
     (case p of [] \<Rightarrow> False
      | _ \<Rightarrow> (case last p of
                Normal n \<Rightarrow>
                  (case snd (split_name n) of
                     Some x \<Rightarrow> x \<in> {''tar'', ''gz'', ''xz'', ''bz2'', ''lz4'', ''zst''}
                   | None \<Rightarrow> False)
              | _ \<Rightarrow> False))"

definition shown_path :: "path \<Rightarrow> path \<Rightarrow> string" where
  "shown_path base p = path_text (case strip_prefix base p of Some q \<Rightarrow> q | None \<Rightarrow> p)"

text \<open>The format is looked at after the file was opened.\<close>

definition exec_create :: "exec_env \<Rightarrow> string \<Rightarrow> string list \<Rightarrow> 'ov shell \<Rightarrow> exec_result \<times> 'ov shell" where
  "exec_create e base segments st =
     (case sh_permitted (shell_env.truncate e) FileArchive st of
        (False, st) \<Rightarrow> exec_denied st
      | (True, st) \<Rightarrow>
          (let base = components (trim_end_matches '';'' (trim base)) in
           case cd_words base segments False [] [] [] of
             (d, ps) \<Rightarrow>
               (let dest = path_join base (components (trim d));
                    st = sh_log (shell_env.truncate e) AE_FileCompress
                      (Some (JObject [(''files'', JArray (map (JString \<circ> shown_path base) ps)),
                         (''directory'', JString (path_text base)), (''name'', JString (path_text dest))])) st;
                    st = archived (CreateFile dest) st in
                case xe_writer e of
                  Inl err \<Rightarrow> (Failed, st)
                | Inr _ \<Rightarrow>
                    if \<not> known_extension dest then (Failed, st)
                    else
                      (let st = archived (CreateTar base ps) st in
                       case xe_create e of
                         Inl err \<Rightarrow> (Failed, st)
                       | Inr _ \<Rightarrow> (Exited 0, sh_write (''Archive created successfully.'' @ crlf) st)))))"

definition exec_console :: "shell_env \<Rightarrow> string \<Rightarrow> 'ov shell \<Rightarrow> exec_result \<times> 'ov shell" where
  "exec_console e command st =
     (case sh_permitted e ControlConsole st of
        (False, st) \<Rightarrow> (Exited 0, sh_write (''Permission denied.'' @ crlf) st)
      | (True, st) \<Rightarrow>
          (Exited 0,
           case (get_state (sh_server st) = Offline, container (sh_server st)) of
             (False, Some c) \<Rightarrow>
               if sv_stdin_ok e then
                 sh_log e AE_ConsoleCommand (console_metadata command)
                   (st\<lparr>sh_server := emit [Stdin c (command @ newline)] (sh_server st)\<rparr>)
               else st
           | _ \<Rightarrow> sh_write (''Server is not running.'' @ crlf) st))"

definition exec_run :: "exec_env \<Rightarrow> string \<Rightarrow> 'ov shell \<Rightarrow> exec_result \<times> 'ov shell" where
  "exec_run e command st =
     (case split_whitespace command of
        a # b # segments \<Rightarrow>
          if a = ''tar'' \<and> b = ''-xzpPf'' then exec_extract e segments st
          else if a = ''cd'' \<and> take 1 segments = [''tar''] \<and> 2 \<le> length segments
          then exec_create e b (drop 2 segments) st
          else exec_console (shell_env.truncate e) command st
      | _ \<Rightarrow> exec_console (shell_env.truncate e) command st)"

text \<open>The exit status the client is given.\<close>

definition exec_command :: "exec_env \<Rightarrow> string \<Rightarrow> 'ov shell \<Rightarrow> 'ov shell" where
  "exec_command e command st =
     (case exec_run e command st of
        (Exited n, st) \<Rightarrow> st\<lparr>sh_exits := sh_exits st @ [n]\<rparr>
      | (Failed, st) \<Rightarrow> st\<lparr>sh_exits := sh_exits st @ [1]\<rparr>)"


section \<open>Lemmas\<close>

lemma sh_write_simps [simp]:
  "sh_server (sh_write s st) = sh_server st" "sh_perms (sh_write s st) = sh_perms st"
  "sh_activities (sh_write s st) = sh_activities st" "sh_winscp (sh_write s st) = sh_winscp st"
  "sh_exits (sh_write s st) = sh_exits st" "sh_archives (sh_write s st) = sh_archives st"
  by (simp_all add: sh_write_def)

lemma writeln_simps [simp]:
  "sh_server (writeln e s st) = sh_server st" "sh_perms (writeln e s st) = sh_perms st"
  "sh_activities (writeln e s st) = sh_activities st" "sh_winscp (writeln e s st) = sh_winscp st"
  "sh_archives (writeln e s st) = sh_archives st"
  by (simp_all add: writeln_def)

text \<open>What the permissions are about: the server, the activities and the archives.\<close>

definition acted :: "'ov shell \<Rightarrow> server \<times> Activity list \<times> archive_event list" where
  "acted st = (sh_server st, sh_activities st, sh_archives st)"

lemma acted_simps [simp]:
  "acted (sh_write s st) = acted st" "acted (writeln e s st) = acted st" "acted (st\<lparr>sh_perms := m\<rparr>) = acted st"
  "acted (st\<lparr>sh_winscp := b\<rparr>) = acted st" "acted (st\<lparr>sh_exits := x\<rparr>) = acted st" "acted (fold (writeln e) ls st) = acted st"
  by (simp_all add: acted_def) (induction ls arbitrary: st; simp)

definition sh_granted :: "uuid \<Rightarrow> 'ov shell \<Rightarrow> permissions" where
  "sh_granted u st = (case upm_granted (sh_perms st) u of Some ps \<Rightarrow> ps | None \<Rightarrow> {})"

lemma granted_simps [simp]:
  "sh_granted u (sh_write s st) = sh_granted u st" "sh_granted u (writeln e s st) = sh_granted u st"
  "sh_granted u (st\<lparr>sh_server := x\<rparr>) = sh_granted u st" "sh_granted u (st\<lparr>sh_winscp := b\<rparr>) = sh_granted u st"
  "sh_granted u (st\<lparr>sh_exits := xs\<rparr>) = sh_granted u st" "sh_granted u (sh_log e ev md st) = sh_granted u st"
  "sh_granted u (archived a st) = sh_granted u st" "sh_granted u (fold (writeln e) ls st) = sh_granted u st"
  by (simp_all add: sh_granted_def sh_log_def archived_def) (induction ls arbitrary: st; simp)

lemma sh_permitted_spec:
  "sh_permitted e p st = (b, st') \<Longrightarrow>
     b = has_permission (sh_granted (sv_user e) st) p \<and> sh_granted u st' = sh_granted u st \<and> acted st' = acted st \<and>
     sh_server st' = sh_server st \<and> sh_winscp st' = sh_winscp st"
  using upm_has_permission_granted [of "sv_now e" "sv_user e" p "sh_perms st"]
  by (auto simp: sh_permitted_def sh_granted_def has_permission_iff split: prod.splits option.splits)

lemma guarded_power_denied:
  "\<not> has_permission (sh_granted (sv_user e) st) p \<Longrightarrow> acted (guarded_power e p m r w ev ls d act st) = acted st"
  by (auto simp: guarded_power_def split: prod.split bool.split dest!: sh_permitted_spec)

lemma guarded_power_granted [simp]:
  "sh_granted u (guarded_power e p m r w ev ls d act st) = sh_granted u st"
  by (auto simp: guarded_power_def power_done_def Let_def split: prod.split bool.split sum.split dest!: sh_permitted_spec)

text \<open>The permission a line needs, \<open>None\<close> when it does nothing to the server.\<close>

definition cli_permission :: "string list \<Rightarrow> Permission option" where
  "cli_permission segments =
     (if take 1 segments \<noteq> [''power''] then None
      else if take 1 (tl segments) = [''start''] then Some ControlStart
      else if take 1 (tl segments) = [''restart''] then Some ControlRestart
      else if take 1 (tl segments) \<in> {[''stop''], [''kill'']} then Some ControlStop
      else None)"

definition line_permission :: "shell_env \<Rightarrow> string \<Rightarrow> Permission option" where
  "line_permission e line =
     (if starts_with line (sv_cli_name e) then cli_permission (tl (split_whitespace line)) else Some ControlConsole)"

lemma cli_power_denied:
  "\<forall>p. cli_permission (''power'' # ss) = Some p \<longrightarrow> \<not> has_permission (sh_granted (sv_user e) st) p \<Longrightarrow>
     acted (cli_power e ss st) = acted st"
  by (auto simp: cli_power_def cli_permission_def Let_def guarded_power_denied split: if_splits)

lemma cli_denied:
  assumes "\<forall>p. cli_permission (tl (split_whitespace line)) = Some p \<longrightarrow> \<not> has_permission (sh_granted (sv_user e) st) p"
  shows "acted (handle_cli_command e line st) = acted st"
proof (cases "tl (split_whitespace line)")
  case (Cons w ss)
  show ?thesis
  proof (cases "w = ''power''")
    case True
    then have "acted (cli_power e ss (sh_write crlf st)) = acted (sh_write crlf st)"
      using assms Cons by (intro cli_power_denied) simp
    then show ?thesis using Cons True by (simp add: handle_cli_command_def)
  qed (simp add: handle_cli_command_def Cons Let_def)
qed (simp add: handle_cli_command_def)

lemma cli_granted [simp]: "sh_granted u (handle_cli_command e line st) = sh_granted u st"
  by (simp add: handle_cli_command_def cli_power_def Let_def)

lemma console_denied:
  "\<not> has_permission (sh_granted (sv_user e) st) ControlConsole \<Longrightarrow> acted (console_line e line st) = acted st"
  by (auto simp: console_line_def split: prod.split bool.split dest!: sh_permitted_spec)

lemma console_granted [simp]: "sh_granted u (console_line e line st) = sh_granted u st"
  by (auto simp: console_line_def split: prod.split bool.split option.split dest!: sh_permitted_spec)

lemma winscp_acted [simp]: "acted (winscp_line line st) = acted st" "sh_granted u (winscp_line line st) = sh_granted u st"
  by (auto simp: winscp_line_def split: list.split)

lemma shell_line_granted [simp]: "sh_granted u (shell_line e line st) = sh_granted u st"
  by (simp add: shell_line_def Let_def)

lemma shell_line_denied:
  assumes "\<forall>p. line_permission e line = Some p \<longrightarrow> \<not> has_permission (sh_granted (sv_user e) st) p"
  shows "acted (shell_line e line st) = acted st"
proof -
  let ?st = "if starts_with line winscp_mark then st\<lparr>sh_winscp := True\<rparr> else st"
  have same: "sh_granted (sv_user e) ?st = sh_granted (sv_user e) st" "acted ?st = acted st" by simp_all
  show ?thesis
    using assms cli_denied [of line e ?st] console_denied [of e ?st line] same
    by (auto simp: shell_line_def line_permission_def Let_def simp del: same)
qed

section \<open>Properties\<close>

definition control_permissions :: "Permission set" where
  "control_permissions = {ControlConsole, ControlStart, ControlRestart, ControlStop}"

lemma shell_line_harmless:
  "\<forall>p \<in> control_permissions. \<not> has_permission (sh_granted (sv_user e) st) p \<Longrightarrow> acted (shell_line e line st) = acted st"
  by (rule shell_line_denied)
     (auto simp: line_permission_def cli_permission_def control_permissions_def split: if_splits)

text \<open>
  C21: Whatever bytes a user without the console permission and without the permissions to
  start, restart and stop types into the shell, the server stays as it is and nothing is
  logged; and each single line acts only with the permission it needs.
\<close>

theorem shell_needs_permissions:
  assumes "\<forall>(e, b) \<in> set input. sv_user e = u"
    and "\<forall>p \<in> control_permissions. \<not> has_permission (sh_granted u st) p"
    and "shell_input input k ed st = (k', ed', st')"
  shows "sh_server st' = sh_server st \<and> sh_activities st' = sh_activities st \<and>
     (\<forall>e line p. line_permission e line = Some p \<and> \<not> has_permission (sh_granted (sv_user e) st) p \<longrightarrow>
        sh_server (shell_line e line st) = sh_server st)"
proof -
  have "acted st' = acted st"
    using assms
  proof (induction input k ed st rule: shell_input.induct)
    case (2 e b bs k ed st)
    have line: "acted (shell_line e line st) = acted st" for line
      using 2(5,6) by (intro shell_line_harmless) auto
    obtain key k1 where dec: "decode_key b k = (key, k1)" by fastforce
    show ?case
    proof (cases key)
      case None
      then show ?thesis using 2 dec by simp
    next
      case (Some x)
      show ?thesis
      proof (cases x)
        case (Byte c)
        obtain ed1 st1 where h: "handle_input_byte e c ed st = (ed1, st1)" by fastforce
        have "acted st1 = acted st" "sh_granted u st1 = sh_granted u st"
          using h line by (auto simp: handle_input_byte_def split: if_splits prod.splits)
        then show ?thesis using 2(2) [OF dec [symmetric] _ Byte h [symmetric]] 2(5-7) dec Some Byte h by auto
      next
        case (Special c)
        then show ?thesis using 2 dec Some by (auto split: prod.splits)
      next
        case (Unknown s)
        then show ?thesis using 2 dec Some by (auto split: prod.splits)
      qed
    qed
  qed simp
  moreover have "acted (shell_line e line st) = acted st"
    if "line_permission e line = Some p" "\<not> has_permission (sh_granted (sv_user e) st) p" for e line p
    using that by (intro shell_line_denied) auto
  ultimately show ?thesis by (auto simp: acted_def)
qed


definition shell_sample_env :: shell_env where
  "shell_sample_env =
     \<lparr>sv_power = power_sample_env,
      sv_clock = 0, sv_now = 5, sv_user = 3, sv_ip = None, sv_cli_name = ''.wings'', sv_prelude = ''[Daemon]:'',
      sv_version = ''1'', sv_stats = \<lambda>_. [], sv_stdin_ok = True\<rparr>"

definition shell_sample :: "permissions \<Rightarrow> unit shell" where
  "shell_sample ps =
     \<lparr>sh_server = new_server\<lparr>container := Some ''c1'', sl_state := Running\<rparr>, sh_perms = [3 \<mapsto> (ps, None, 0)],
      sh_activities = [], sh_winscp = False, sh_out = [], sh_exits = [], sh_archives = []\<rparr>"

theorem shell_needs_permissions_witness:
  "\<exists>k ed st'. shell_input [(shell_sample_env, CHR ''x''), (shell_sample_env, CHR 0x0D)] new_keyboard new_editor
       (shell_sample {FileRead}) = (k, ed, st') \<and> sh_activities st' = []"
proof -
  let ?input = "[(shell_sample_env, CHR ''x''), (shell_sample_env, CHR 0x0D)]"
  obtain k ed st' where run: "shell_input ?input new_keyboard new_editor (shell_sample {FileRead}) = (k, ed, st')"
    by (metis prod_cases3)
  have "\<forall>p \<in> control_permissions. \<not> has_permission (sh_granted 3 (shell_sample {FileRead})) p"
    by (simp add: control_permissions_def sh_granted_def shell_sample_def upm_granted_def has_permission_iff)
  moreover have "\<forall>(e, b) \<in> set ?input. sv_user e = 3" by (simp add: shell_sample_env_def)
  ultimately have "sh_activities st' = sh_activities (shell_sample {FileRead})"
    using shell_needs_permissions [OF _ _ run] by blast
  then show ?thesis using run by (simp add: shell_sample_def)
qed

text \<open>
  A line that is not for the daemon is sent to a running server as it is, with a
  newline, and logged with the user, when the user has the console permission.
\<close>

theorem shell_line_sent:
  assumes "has_permission (sh_granted (sv_user e) st) ControlConsole" and "\<not> sh_winscp st"
    and "\<not> starts_with line winscp_mark" and "\<not> starts_with line (sv_cli_name e)"
    and "get_state (sh_server st) \<noteq> Offline" and "container (sh_server st) = Some c" and "sv_stdin_ok e"
  shows "sh_server (shell_line e line st) = emit [Stdin c (line @ newline)] (sh_server st) \<and>
     sh_activities (shell_line e line st) = sh_activities st @
       [\<lparr>act_user = Some (sv_user e), act_event = AE_ConsoleCommand, act_metadata = console_metadata line,
         act_ip = sv_ip e, act_timestamp = sv_clock e\<rparr>]"
proof -
  obtain b st' where p: "sh_permitted e ControlConsole st = (b, st')" by fastforce
  have "b \<and> acted st' = acted st" using sh_permitted_spec [OF p] assms(1) by simp
  then show ?thesis
    using assms(2-7) p by (auto simp: shell_line_def console_line_def sh_log_def log_activity_def acted_def)
qed

theorem shell_line_sent_witness:
  "length (sh_activities (shell_line shell_sample_env ''say hi'' (shell_sample {ControlConsole}))) = 1"
proof -
  have "get_state (sh_server (shell_sample {ControlConsole})) = Running"
    by (simp add: shell_sample_def get_state_def)
  moreover have "has_permission (sh_granted (sv_user shell_sample_env) (shell_sample {ControlConsole})) ControlConsole"
    by (simp add: sh_granted_def shell_sample_def shell_sample_env_def upm_granted_def has_permission_iff)
  ultimately show ?thesis
    using shell_line_sent [where e = shell_sample_env and st = "shell_sample {ControlConsole}" and line = "''say hi''" and c = "''c1''"]
    by (simp add: shell_sample_def shell_sample_env_def starts_with_def winscp_mark_def)
qed

definition exec_permission :: "string \<Rightarrow> Permission" where
  "exec_permission command =
     (case split_whitespace command of
        a # b # segments \<Rightarrow>
          if a = ''tar'' \<and> b = ''-xzpPf'' then FileCreate
          else if a = ''cd'' \<and> take 1 segments = [''tar''] \<and> 2 \<le> length segments then FileArchive
          else ControlConsole
      | _ \<Rightarrow> ControlConsole)"

lemma exec_denied_acted [simp]: "acted (snd (exec_denied st)) = acted st"
  by (simp add: exec_denied_def)

lemma exec_console_denied:
  "\<not> has_permission (sh_granted (sv_user e) st) ControlConsole \<Longrightarrow>
     acted (snd (exec_console e command st)) = acted st \<and> fst (exec_console e command st) = Exited 0"
  by (auto simp: exec_console_def split: prod.split bool.split dest!: sh_permitted_spec)

lemma truncate_user [simp]: "sv_user (shell_env.truncate e) = sv_user e"
  by (simp add: shell_env.truncate_def)

text \<open>
  C22: A single command changes the server, logs, reads or writes an archive only with the
  permission its first words ask for. Without it the client is told so, with exit status 1
  for an archive, but with 0, as for a command that was run, for the console.
\<close>

theorem exec_needs_permission:
  assumes "\<not> has_permission (sh_granted (sv_user e) st) (exec_permission command)"
  shows "acted (exec_command e command st) = acted st \<and>
     sh_exits (exec_command e command st) = sh_exits st @ [if exec_permission command = ControlConsole then 0 else 1]"
proof -
  let ?r = "exec_run e command st"
  have exits: "sh_exits (snd (sh_permitted x p st)) = sh_exits st" for x p
    by (simp add: sh_permitted_def split: prod.split)
  have unpack: "exec_extract e ss st = exec_denied (snd (sh_permitted (shell_env.truncate e) FileCreate st))"
    if "exec_permission command = FileCreate" for ss
    using assms that by (auto simp: exec_extract_def split: prod.split bool.split dest!: sh_permitted_spec)
  have create: "exec_create e b ss st = exec_denied (snd (sh_permitted (shell_env.truncate e) FileArchive st))"
    if "exec_permission command = FileArchive" for b ss
    using assms that by (auto simp: exec_create_def split: prod.split bool.split dest!: sh_permitted_spec)
  have acted_after: "acted (snd (sh_permitted x p st)) = acted st" for x p
    using sh_permitted_spec [of x p st] by (metis prod.collapse)
  have "acted (snd ?r) = acted st \<and> sh_exits (snd ?r) = sh_exits st \<and>
      fst ?r = Exited (if exec_permission command = ControlConsole then 0 else 1)"
  proof (cases "exec_permission command = ControlConsole")
    case True
    then have run: "?r = exec_console (shell_env.truncate e) command st"
      by (auto simp: exec_run_def exec_permission_def split: list.splits if_splits)
    have "sh_exits (snd (exec_console (shell_env.truncate e) command st)) = sh_exits st"
      using assms True by (auto simp: exec_console_def sh_permitted_def split: prod.split bool.split)
        (auto simp: sh_granted_def upm_has_permission_def upm_granted_def split: option.splits prod.splits)
    then show ?thesis using exec_console_denied [of "shell_env.truncate e" st command] assms True run by simp
  next
    case False
    then have "?r = exec_denied (snd (sh_permitted (shell_env.truncate e) (exec_permission command) st))"
      using unpack create by (auto simp: exec_run_def exec_permission_def split: list.splits if_splits)
    then show ?thesis using False exits acted_after by (simp add: exec_denied_def)
  qed
  then show ?thesis
    by (auto simp: exec_command_def split: prod.split exec_result.split)
qed

definition exec_sample_env :: exec_env where
  "exec_sample_env = shell_env.extend shell_sample_env
     \<lparr>xe_open = \<lambda>_. True, xe_extract = Inr (), xe_writer = Inr (), xe_create = Inr ()\<rparr>"

theorem exec_needs_permission_witness:
  "sh_exits (exec_command exec_sample_env ''say hi'' (shell_sample {FileRead})) = [0]"
proof -
  have "exec_permission ''say hi'' = ControlConsole" by (simp add: exec_permission_def split_whitespace.simps is_ws_def)
  then show ?thesis
    using exec_needs_permission [of exec_sample_env "shell_sample {FileRead}" "''say hi''"]
    by (simp add: exec_sample_env_def shell_env.extend_def shell_sample_env_def sh_granted_def shell_sample_def
        upm_granted_def has_permission_iff)
qed

text \<open>
  An archive whose name has no known extension is refused only after its file was
  opened for writing, and the attempt is logged as a compression.
\<close>

theorem refused_archive_opens_file:
  assumes "has_permission (sh_granted (sv_user e) st) FileArchive" and "xe_writer e = Inr ()"
    and "cd_words (components (trim_end_matches '';'' (trim b))) segments False [] [] [] = (d, ps)"
    and "\<not> known_extension (path_join (components (trim_end_matches '';'' (trim b))) (components (trim d)))"
  shows "fst (exec_create e b segments st) = Failed \<and>
     sh_archives (snd (exec_create e b segments st)) =
       sh_archives st @ [CreateFile (path_join (components (trim_end_matches '';'' (trim b))) (components (trim d)))] \<and>
     length (sh_activities (snd (exec_create e b segments st))) = length (sh_activities st) + 1"
proof -
  obtain x st' where p: "sh_permitted (shell_env.truncate e) FileArchive st = (x, st')" by fastforce
  have "x \<and> acted st' = acted st" using sh_permitted_spec [OF p] assms(1) by simp
  then show ?thesis
    using assms(2-4) p by (auto simp: exec_create_def Let_def archived_def sh_log_def log_activity_def acted_def)
qed

theorem refused_archive_opens_file_witness:
  "fst (exec_create exec_sample_env ''/data;'' [''world.rar'', ''region''] (shell_sample {FileArchive})) = Failed"
proof -
  have b: "components (trim_end_matches '';'' (trim ''/data;'')) = [RootDir, Normal ''data'']" by code_simp
  obtain d ps where w: "cd_words [RootDir, Normal ''data''] [''world.rar'', ''region''] False [] [] [] = (d, ps)" by fastforce
  have d: "trim d = ''world.rar''" using w by (auto simp: unescape_def trim_def trim_start_def trim_end_def is_ws_def)
  have "\<not> known_extension (path_join [RootDir, Normal ''data''] (components ''world.rar''))" by code_simp
  then show ?thesis
    using refused_archive_opens_file [where e = exec_sample_env and st = "shell_sample {FileArchive}" and b = "''/data;''"
        and segments = "[''world.rar'', ''region'']"] w
    by (simp add: b d exec_sample_env_def shell_env.extend_def shell_sample_env_def sh_granted_def shell_sample_def
        upm_granted_def has_permission_iff del: cd_words.simps)
qed

end
