(* ===== verification/Ssh_Auth.thy ===== *)
theory Ssh_Auth
  imports Power_Actions Permissions Json
begin

text \<open>
  An SSH connection up to the sessions on its channels (\<open>ssh/auth.rs\<close>): authentication by
  the panel, the channels, and the requests for a shell, a command or SFTP on one of them.

  The panel is a parameter, asked anew in each step. The servers are a map from their
  identifiers, which are unique, to the server and the permissions of its users. \<open>russh\<close>
  calls the handlers of channels only on a connection that is authenticated, and the
  handlers of authentication only before. An error of a handler ends the connection; a run
  that goes on after one is one more than the program has.
\<close>

section \<open>User names\<close>

definition is_hexdigit :: "char \<Rightarrow> bool" where
  "is_hexdigit c \<longleftrightarrow>
     (let n = of_char c :: nat in 48 \<le> n \<and> n \<le> 57 \<or> 65 \<le> n \<and> n \<le> 70 \<or> 97 \<le> n \<and> n \<le> 102)"

definition validate_username :: "string \<Rightarrow> bool" where
  "validate_username username =
     (let splits = str_split CHR ''.'' username in
      if length splits < 2 then False
      else if splits = [] then False
      else length (last splits) = 8 \<and> list_all is_hexdigit (last splits))"

section \<open>State\<close>

type_synonym 'ov ssh_servers = "uuid \<Rightarrow> (server \<times> 'ov user_permissions_map) option"

datatype auth_method = PasswordMethod | PublicKeyMethod

datatype auth_reply = Accept | Reject "auth_method list option" | AuthFailed

datatype auth_type = Password | PublicKey

record ssh_grant =
  gr_user :: uuid
  gr_server :: uuid
  gr_permissions :: permissions
  gr_ignored :: "string list"

record 'ov auth_env =
  au_disable_password :: bool
  au_shell_enabled :: bool
  au_panel :: "auth_type \<Rightarrow> string \<Rightarrow> string \<Rightarrow> ssh_grant result"
  au_overrides :: "string list \<Rightarrow> 'ov option"
  au_now :: nat

text \<open>\<open>shell_clients\<close> are the channels with a shell.\<close>

record ssh_session =
  ss_server :: "uuid option"
  ss_user :: "uuid option"
  ss_clients :: "nat set"
  ss_shells :: "nat set"

definition new_ssh_client :: ssh_session where
  "new_ssh_client = \<lparr>ss_server = None, ss_user = None, ss_clients = {}, ss_shells = {}\<rparr>"

definition get_auth_methods :: "'ov auth_env \<Rightarrow> auth_method list" where
  "get_auth_methods e = (if au_disable_password e then [] else [PasswordMethod]) @ [PublicKeyMethod]"

section \<open>Authentication\<close>

definition auth_none :: "'ov auth_env \<Rightarrow> auth_reply" where
  "auth_none e = Reject (Some (get_auth_methods e))"

text \<open>
  What both kinds of authentication do with the answer of the panel. They differ in the
  methods they offer when the panel refuses (\<open>r\<close>) and when the server is not here (\<open>m\<close>).
\<close>

definition grant_access ::
  "'ov auth_env \<Rightarrow> auth_method list option \<Rightarrow> auth_method list option \<Rightarrow> ssh_grant result
     \<Rightarrow> ssh_session \<times> 'ov ssh_servers \<Rightarrow> auth_reply \<times> ssh_session \<times> 'ov ssh_servers" where
  "grant_access e r m answer st =
     (case st of (s, svs) \<Rightarrow>
        (case answer of
           Inl err \<Rightarrow> (Reject r, s, svs)
         | Inr g \<Rightarrow>
             (let s = s\<lparr>ss_user := Some (gr_user g)\<rparr> in
              case svs (gr_server g) of
                None \<Rightarrow> (Reject m, s, svs)
              | Some (sv, perms) \<Rightarrow>
                  if is_locked_state sv then (Reject None, s, svs)
                  else (Accept, s\<lparr>ss_server := Some (gr_server g)\<rparr>,
                        svs(gr_server g \<mapsto>
                          (sv, upm_set_permissions (au_overrides e) (au_now e) (gr_user g) (gr_permissions g)
                                 (gr_ignored g) perms))))))"

definition auth_password ::
  "'ov auth_env \<Rightarrow> string \<Rightarrow> string \<Rightarrow> ssh_session \<times> 'ov ssh_servers \<Rightarrow> auth_reply \<times> ssh_session \<times> 'ov ssh_servers" where
  "auth_password e username password st =
     (if au_disable_password e then (Reject (Some (get_auth_methods e)), st)
      else if \<not> validate_username username then (Reject (Some (get_auth_methods e)), st)
      else grant_access e None (Some (get_auth_methods e)) (au_panel e Password username password) st)"

text \<open>\<open>key\<close> is the key in text form, if it has one.\<close>

definition auth_publickey ::
  "'ov auth_env \<Rightarrow> string \<Rightarrow> string option \<Rightarrow> ssh_session \<times> 'ov ssh_servers \<Rightarrow> auth_reply \<times> ssh_session \<times> 'ov ssh_servers" where
  "auth_publickey e username key st =
     (if \<not> validate_username username then (Reject (Some (get_auth_methods e)), st)
      else case key of
             None \<Rightarrow> (AuthFailed, st)
           | Some k \<Rightarrow> grant_access e (Some (get_auth_methods e)) None (au_panel e PublicKey username k) st)"

section \<open>Channels\<close>

datatype started = RunShell nat uuid uuid | RunExec nat uuid uuid string | RunSftp nat uuid uuid

datatype channel_reply = Nothing | Started started | PermissionDenied | ChannelFailure | Disconnect

definition channel_open_session :: "nat \<Rightarrow> ssh_session \<Rightarrow> ssh_session" where
  "channel_open_session c s = s\<lparr>ss_clients := insert c (ss_clients s)\<rparr>"

definition channel_eof :: "nat \<Rightarrow> ssh_session \<Rightarrow> ssh_session" where
  "channel_eof c s = s\<lparr>ss_clients := ss_clients s - {c}, ss_shells := ss_shells s - {c}\<rparr>"

definition get_channel :: "nat \<Rightarrow> ssh_session \<Rightarrow> bool \<times> ssh_session" where
  "get_channel c s = (c \<in> ss_clients s, s\<lparr>ss_clients := ss_clients s - {c}\<rparr>)"

text \<open>The user and the server of the session, and then the channel, which is taken.\<close>

definition with_channel ::
  "nat \<Rightarrow> (uuid \<Rightarrow> uuid \<Rightarrow> ssh_session \<Rightarrow> channel_reply \<times> ssh_session) \<Rightarrow> ssh_session \<Rightarrow> channel_reply \<times> ssh_session" where
  "with_channel c k s =
     (case (ss_user s, ss_server s) of
        (Some u, Some v) \<Rightarrow>
          (case get_channel c s of (True, s) \<Rightarrow> k u v s | (False, s) \<Rightarrow> (PermissionDenied, s))
      | _ \<Rightarrow> (PermissionDenied, s))"

definition shell_request :: "'ov auth_env \<Rightarrow> nat \<Rightarrow> ssh_session \<Rightarrow> channel_reply \<times> ssh_session" where
  "shell_request e c s =
     (if \<not> au_shell_enabled e then (PermissionDenied, s)
      else with_channel c (\<lambda>u v s. (Started (RunShell c v u), s\<lparr>ss_shells := insert c (ss_shells s)\<rparr>)) s)"

definition exec_request :: "nat \<Rightarrow> string \<Rightarrow> ssh_session \<Rightarrow> channel_reply \<times> ssh_session" where
  "exec_request c command = with_channel c (\<lambda>u v s. (Started (RunExec c v u command), s))"

definition channel_data :: "nat \<Rightarrow> string \<Rightarrow> ssh_session \<Rightarrow> channel_reply" where
  "channel_data c bytes s = (if bytes = [CHR 0x03] \<and> c \<in> ss_shells s then Disconnect else Nothing)"

definition subsystem_request :: "nat \<Rightarrow> string \<Rightarrow> ssh_session \<Rightarrow> channel_reply \<times> ssh_session" where
  "subsystem_request c subsystem s =
     (if subsystem = ''sftp'' then with_channel c (\<lambda>u v s. (Started (RunSftp c v u), s)) s
      else if ss_user s = None \<or> ss_server s = None then (PermissionDenied, s)
      else (ChannelFailure, s))"

section \<open>A connection\<close>

datatype ssh_event =
    TryNone
  | TryPassword string string
  | TryKey string "string option"
  | OpenChannel nat
  | Eof nat
  | AskShell nat
  | AskExec nat string
  | AskSubsystem nat string
  | SendData nat string

record 'ov connection =
  cn_session :: ssh_session
  cn_servers :: "'ov ssh_servers"
  cn_accepted :: bool

definition new_connection :: "'ov ssh_servers \<Rightarrow> 'ov connection" where
  "new_connection svs = \<lparr>cn_session = new_ssh_client, cn_servers = svs, cn_accepted = False\<rparr>"

definition auth_step ::
  "(ssh_session \<times> 'ov ssh_servers \<Rightarrow> auth_reply \<times> ssh_session \<times> 'ov ssh_servers) \<Rightarrow> 'ov connection
     \<Rightarrow> channel_reply \<times> 'ov connection" where
  "auth_step f cn =
     (if cn_accepted cn then (Nothing, cn)
      else case f (cn_session cn, cn_servers cn) of
             (r, s, svs) \<Rightarrow> (Nothing, \<lparr>cn_session = s, cn_servers = svs, cn_accepted = (r = Accept)\<rparr>))"

definition channel_step ::
  "(ssh_session \<Rightarrow> channel_reply \<times> ssh_session) \<Rightarrow> 'ov connection \<Rightarrow> channel_reply \<times> 'ov connection" where
  "channel_step f cn =
     (if \<not> cn_accepted cn then (Nothing, cn)
      else case f (cn_session cn) of (r, s) \<Rightarrow> (r, cn\<lparr>cn_session := s\<rparr>))"

fun ssh_step :: "'ov auth_env \<Rightarrow> ssh_event \<Rightarrow> 'ov connection \<Rightarrow> channel_reply \<times> 'ov connection" where
  "ssh_step e TryNone cn = (Nothing, cn)"
| "ssh_step e (TryPassword u p) cn = auth_step (auth_password e u p) cn"
| "ssh_step e (TryKey u k) cn = auth_step (auth_publickey e u k) cn"
| "ssh_step e (OpenChannel c) cn = channel_step (\<lambda>s. (Nothing, channel_open_session c s)) cn"
| "ssh_step e (Eof c) cn = channel_step (\<lambda>s. (Nothing, channel_eof c s)) cn"
| "ssh_step e (AskShell c) cn = channel_step (shell_request e c) cn"
| "ssh_step e (AskExec c command) cn = channel_step (exec_request c command) cn"
| "ssh_step e (AskSubsystem c n) cn = channel_step (subsystem_request c n) cn"
| "ssh_step e (SendData c bytes) cn = channel_step (\<lambda>s. (channel_data c bytes s, s)) cn"

fun ssh_run :: "('ov auth_env \<times> ssh_event) list \<Rightarrow> 'ov connection \<Rightarrow> channel_reply list \<times> 'ov connection" where
  "ssh_run [] cn = ([], cn)"
| "ssh_run ((e, ev) # evs) cn =
     (case ssh_step e ev cn of (r, cn) \<Rightarrow> (case ssh_run evs cn of (rs, cn) \<Rightarrow> (r # rs, cn)))"

section \<open>Lemmas\<close>

text \<open>What the panel says to an attempt that the daemon lets through to it.\<close>

fun granted :: "'ov auth_env \<Rightarrow> ssh_event \<Rightarrow> ssh_grant option" where
  "granted e (TryPassword u p) =
     (if au_disable_password e \<or> \<not> validate_username u then None
      else case au_panel e Password u p of Inr g \<Rightarrow> Some g | Inl _ \<Rightarrow> None)"
| "granted e (TryKey u (Some k)) =
     (if \<not> validate_username u then None else case au_panel e PublicKey u k of Inr g \<Rightarrow> Some g | Inl _ \<Rightarrow> None)"
| "granted e _ = None"

definition stands_for :: "ssh_session \<Rightarrow> ssh_grant \<Rightarrow> bool" where
  "stands_for s g \<longleftrightarrow> ss_user s = Some (gr_user g) \<and> ss_server s = Some (gr_server g)"

definition session_for :: "ssh_grant \<Rightarrow> 'ov connection \<Rightarrow> bool" where
  "session_for g cn \<longleftrightarrow> cn_accepted cn \<and> stands_for (cn_session cn) g"

fun started_for :: "started \<Rightarrow> uuid \<times> uuid" where
  "started_for (RunShell c v u) = (u, v)"
| "started_for (RunExec c v u command) = (u, v)"
| "started_for (RunSftp c v u) = (u, v)"

fun started_channel :: "started \<Rightarrow> nat" where
  "started_channel (RunShell c v u) = c"
| "started_channel (RunExec c v u command) = c"
| "started_channel (RunSftp c v u) = c"

text \<open>A channel event, on an accepted connection: who the session stands for does not change.\<close>

lemma channel_event_keeps:
  assumes "ssh_step e ev cn = (r, cn')" and "session_for g cn"
  shows "session_for g cn' \<and> (\<forall>x. r = Started x \<longrightarrow> started_for x = (gr_user g, gr_server g))"
  using assms
  by (cases ev)
    (auto simp: auth_step_def channel_step_def session_for_def stands_for_def shell_request_def exec_request_def
      subsystem_request_def channel_open_session_def channel_eof_def channel_data_def with_channel_def get_channel_def
      split: prod.splits bool.splits if_splits)

lemma auth_event_grants:
  assumes "ssh_step e ev cn = (r, cn')" and "\<not> cn_accepted cn"
  shows "(\<forall>x. r \<noteq> Started x) \<and>
     (cn_accepted cn' \<longrightarrow> (\<exists>g sv m. granted e ev = Some g \<and> session_for g cn' \<and> cn_servers cn (gr_server g) = Some (sv, m) \<and>
        \<not> is_locked_state sv \<and> upm_granted (snd (the (cn_servers cn' (gr_server g)))) (gr_user g) = Some (gr_permissions g))) \<and>
     (\<not> cn_accepted cn' \<longrightarrow> cn_servers cn' = cn_servers cn)"
  using assms
  by (cases ev)
    (auto simp: auth_step_def channel_step_def auth_password_def auth_publickey_def grant_access_def session_for_def
      stands_for_def upm_set_permissions_granted Let_def split: prod.splits option.splits sum.splits if_splits)

lemma ssh_run_keeps:
  "ssh_run evs cn = (rs, cn') \<Longrightarrow> session_for g cn \<Longrightarrow>
     session_for g cn' \<and> (\<forall>x. Started x \<in> set rs \<longrightarrow> started_for x = (gr_user g, gr_server g))"
proof (induction evs cn arbitrary: rs rule: ssh_run.induct)
  case (2 e ev evs cn)
  obtain r cn1 where step: "ssh_step e ev cn = (r, cn1)" by fastforce
  obtain rs1 where "ssh_run evs cn1 = (rs1, cn')" "rs = r # rs1"
    using 2(2) step by (auto split: prod.splits)
  then show ?case using 2(1) [OF step [symmetric]] channel_event_keeps [OF step 2(3)] by auto
qed simp

lemma ssh_run_authorised:
  "ssh_run evs cn = (rs, cn') \<Longrightarrow> \<not> cn_accepted cn \<Longrightarrow> Started x \<in> set rs \<Longrightarrow>
     \<exists>e ev g sv m. (e, ev) \<in> set evs \<and> granted e ev = Some g \<and> started_for x = (gr_user g, gr_server g) \<and>
       cn_servers cn (gr_server g) = Some (sv, m) \<and> \<not> is_locked_state sv"
proof (induction evs cn arbitrary: rs rule: ssh_run.induct)
  case (2 e ev evs cn)
  obtain r cn1 where step: "ssh_step e ev cn = (r, cn1)" by fastforce
  obtain rs1 where rest: "ssh_run evs cn1 = (rs1, cn')" and rs: "rs = r # rs1"
    using 2(2) step by (auto split: prod.splits)
  note auth = auth_event_grants [OF step 2(3)]
  have x: "Started x \<in> set rs1" using auth rs 2(4) by auto
  show ?case
  proof (cases "cn_accepted cn1")
    case True
    then obtain g sv m where g: "granted e ev = Some g" "session_for g cn1" "cn_servers cn (gr_server g) = Some (sv, m)"
      "\<not> is_locked_state sv" using auth by blast
    then have "started_for x = (gr_user g, gr_server g)" using ssh_run_keeps [OF rest] x by blast
    then show ?thesis using g by (metis list.set_intros(1))
  next
    case False
    then show ?thesis using 2(1) [OF step [symmetric] rest False x] auth by (metis list.set_intros(2))
  qed
qed simp

section \<open>Properties\<close>

text \<open>
  C20: A shell, a command or SFTP is started only for the user and the server the panel
  granted in an earlier step of the same connection, to a user name of the right form and
  with a method that is not disabled; the server is one of this daemon and was not locked.
\<close>

theorem ssh_sessions_authorised:
  assumes "ssh_run evs (new_connection svs) = (rs, cn)" and "Started x \<in> set rs"
  shows "\<exists>e ev g sv m. (e, ev) \<in> set evs \<and> granted e ev = Some g \<and> started_for x = (gr_user g, gr_server g) \<and>
     svs (gr_server g) = Some (sv, m) \<and> \<not> is_locked_state sv"
  using ssh_run_authorised [OF assms(1) _ assms(2)] by (simp add: new_connection_def)

definition ssh_sample_grant :: ssh_grant where
  "ssh_sample_grant = \<lparr>gr_user = 3, gr_server = 8, gr_permissions = {FileRead}, gr_ignored = []\<rparr>"

definition ssh_sample_env :: "unit auth_env" where
  "ssh_sample_env =
     \<lparr>au_disable_password = False, au_shell_enabled = False, au_panel = \<lambda>t u p. Inr ssh_sample_grant,
      au_overrides = \<lambda>_. None, au_now = 0\<rparr>"

theorem ssh_sessions_authorised_witness:
  "\<exists>rs cn. ssh_run [(ssh_sample_env, TryPassword ''kim.0000abcd'' ''pw''), (ssh_sample_env, OpenChannel 0),
       (ssh_sample_env, AskSubsystem 0 ''sftp'')] (new_connection [8 \<mapsto> (new_server, Map.empty)]) = (rs, cn) \<and>
     started_for (RunSftp 0 8 3) = (gr_user ssh_sample_grant, gr_server ssh_sample_grant)"
proof -
  let ?evs = "[(ssh_sample_env, TryPassword ''kim.0000abcd'' ''pw''), (ssh_sample_env, OpenChannel 0),
       (ssh_sample_env, AskSubsystem 0 ''sftp'')]"
  obtain rs cn where run: "ssh_run ?evs (new_connection [8 \<mapsto> (new_server, Map.empty)]) = (rs, cn)" by fastforce
  have "validate_username ''kim.0000abcd''" by code_simp
  moreover have "\<not> is_locked_state new_server" by (simp add: is_locked_state_def new_server_def ServerStateLock.extend_def)
  ultimately have "Started (RunSftp 0 8 3) \<in> set rs"
    using run by (auto simp: new_connection_def new_ssh_client_def auth_step_def channel_step_def auth_password_def
        grant_access_def ssh_sample_env_def ssh_sample_grant_def subsystem_request_def with_channel_def get_channel_def
        channel_open_session_def Let_def)
  from ssh_sessions_authorised [OF run this]
  have "started_for (RunSftp 0 8 3) = (gr_user ssh_sample_grant, gr_server ssh_sample_grant)"
    by (auto simp: ssh_sample_env_def ssh_sample_grant_def split: if_splits)
  then show ?thesis using run by blast
qed

lemma started_on_channel:
  assumes "ssh_step e ev cn = (r, cn')"
  shows "(if \<exists>x. r = Started x \<and> started_channel x = c then 1 else 0) + (if c \<in> ss_clients (cn_session cn') then 1 else 0)
     \<le> (if ev = OpenChannel c then 1 else 0) + (if c \<in> ss_clients (cn_session cn) then 1 else (0 :: nat))"
  using assms
  by (cases ev)
    (auto simp: auth_step_def channel_step_def shell_request_def exec_request_def auth_password_def auth_publickey_def
      subsystem_request_def channel_open_session_def channel_eof_def channel_data_def with_channel_def get_channel_def
      grant_access_def Let_def split: prod.splits bool.splits if_splits option.splits sum.splits)

text \<open>
  A channel is good for one session: no more sessions are started on a channel than it
  was opened.
\<close>

theorem channel_starts_once:
  assumes "ssh_run evs (new_connection svs) = (rs, cn)"
  shows "length (filter (\<lambda>r. \<exists>x. r = Started x \<and> started_channel x = c) rs)
     \<le> length (filter (\<lambda>(e, ev). ev = OpenChannel c) evs)"
proof -
  have "ssh_run evs cn0 = (rs, cn) \<Longrightarrow>
      length (filter (\<lambda>r. \<exists>x. r = Started x \<and> started_channel x = c) rs)
        \<le> length (filter (\<lambda>(e, ev). ev = OpenChannel c) evs) + (if c \<in> ss_clients (cn_session cn0) then 1 else 0)"
    for cn0 :: "'a connection" and rs
  proof (induction evs cn0 arbitrary: rs rule: ssh_run.induct)
    case (2 e ev evs cn0)
    obtain r cn1 where step: "ssh_step e ev cn0 = (r, cn1)" by fastforce
    obtain rs1 where "ssh_run evs cn1 = (rs1, cn)" "rs = r # rs1"
      using 2(2) step by (auto split: prod.splits)
    then show ?case
      using 2(1) [OF step [symmetric]] started_on_channel [OF step, of c] by (auto split: if_splits)
  qed simp
  from this [OF assms] show ?thesis by (simp add: new_connection_def new_ssh_client_def)
qed

theorem channel_starts_once_witness:
  "length (filter (\<lambda>r. \<exists>x. r = Started x \<and> started_channel x = 0)
     (fst (ssh_run [(ssh_sample_env, OpenChannel 0), (ssh_sample_env, AskExec 0 ''stop'')] (new_connection Map.empty)))) \<le> 1"
proof -
  let ?evs = "[(ssh_sample_env, OpenChannel 0), (ssh_sample_env, AskExec 0 ''stop'')]"
  obtain rs cn where run: "ssh_run ?evs (new_connection Map.empty) = (rs, cn)" by fastforce
  show ?thesis using channel_starts_once [OF run, of 0] run by simp
qed

text \<open>
  With the shell disabled, a request for a shell is denied, while one for a command on
  the same channel is run all the same.
\<close>

theorem exec_despite_disabled_shell:
  assumes "session_for g cn" and "\<not> au_shell_enabled e" and "c \<in> ss_clients (cn_session cn)"
  shows "ssh_step e (AskShell c) cn = (PermissionDenied, cn) \<and>
     fst (ssh_step e (AskExec c command) cn) = Started (RunExec c (gr_server g) (gr_user g) command)"
  using assms
  by (auto simp: session_for_def stands_for_def channel_step_def shell_request_def exec_request_def with_channel_def get_channel_def)

theorem exec_despite_disabled_shell_witness:
  "fst (ssh_step ssh_sample_env (AskExec 0 ''stop'')
     \<lparr>cn_session = \<lparr>ss_server = Some 8, ss_user = Some 3, ss_clients = {0}, ss_shells = {}\<rparr>, cn_servers = Map.empty,
      cn_accepted = True\<rparr>) = Started (RunExec 0 8 3 ''stop'')"
  using exec_despite_disabled_shell [where g = ssh_sample_grant and e = ssh_sample_env and c = 0 and command = "''stop''"
      and cn = "\<lparr>cn_session = \<lparr>ss_server = Some 8, ss_user = Some 3, ss_clients = {0}, ss_shells = {}\<rparr>,
         cn_servers = Map.empty, cn_accepted = True\<rparr>"]
  by (simp add: session_for_def stands_for_def ssh_sample_env_def ssh_sample_grant_def)

lemma split_last: "c \<notin> set t \<Longrightarrow> last (str_split c (a @ c # t)) = t \<and> 2 \<le> length (str_split c (a @ c # t))"
proof (induction a)
  case (Cons x a)
  then show ?case
    by (cases "str_split c (a @ c # t)") (auto split: list.split)
qed (simp add: str_split_no_sep)

lemma split_last_part: "str_split c s = ps @ [t] \<Longrightarrow> ps \<noteq> [] \<Longrightarrow> s = str_join [c] ps @ c # t"
  using str_join_split [of c s] by (simp add: str_join_snoc)

text \<open>
  A user name is accepted exactly when it ends with a dot and eight hexadecimal digits.
\<close>

theorem validate_username_spec:
  "validate_username u \<longleftrightarrow> (\<exists>name digits. u = name @ ''.'' @ digits \<and> length digits = 8 \<and> list_all is_hexdigit digits)"
proof
  assume ok: "validate_username u"
  let ?ps = "str_split CHR ''.'' u"
  have "?ps = butlast ?ps @ [last ?ps]" by simp
  moreover have "butlast ?ps \<noteq> []"
    using ok by (cases ?ps rule: rev_cases) (auto simp: validate_username_def)
  ultimately have "u = str_join ''.'' (butlast ?ps) @ ''.'' @ last ?ps" using split_last_part by fastforce
  then show "\<exists>name digits. u = name @ ''.'' @ digits \<and> length digits = 8 \<and> list_all is_hexdigit digits"
    using ok by (auto simp: validate_username_def Let_def split: if_splits)
next
  assume "\<exists>name digits. u = name @ ''.'' @ digits \<and> length digits = 8 \<and> list_all is_hexdigit digits"
  then obtain name digits where u: "u = name @ CHR ''.'' # digits" "length digits = 8" "list_all is_hexdigit digits" by auto
  have "CHR ''.'' \<notin> set digits" using u(3) by (auto simp: list_all_iff is_hexdigit_def Let_def)
  then show "validate_username u" using split_last [of "CHR ''.''" digits name] u by (auto simp: validate_username_def Let_def)
qed

end
