(* ===== verification/Archives.thy ===== *)
theory Archives
  imports File_Routes Fs_Writer
begin

unbundle bit_operations_syntax

text \<open>
  Opening an archive and unpacking it into a server's files
  (\<open>server/filesystem/archive/mod.rs\<close>). What the crates for the formats read is a parameter:
  the entries of an archive, and for each its data as the pieces that one read gives and one
  write takes, up to an error. The count of bytes for the progress, and archives of the
  format \<open>ddup\<close>, are left out; an abort is an error of a read.
\<close>

section \<open>Opening\<close>

datatype CompressionType = NoCompression | Gz | Xz | Bz2 | Lz4 | Zstd

datatype ArchiveType = NoArchive | Tar | Zip | Rar | SevenZip | Ddup

record Archive =
  ar_compression :: CompressionType
  ar_type :: ArchiveType
  ar_header :: "u8 list"
  ar_file :: nat
  ar_path :: path

definition compression_of :: "string option \<Rightarrow> CompressionType" where
  "compression_of mime =
     (if mime = Some ''application/gzip'' then Gz
      else if mime = Some ''application/x-bzip2'' then Bz2
      else if mime = Some ''application/x-xz'' then Xz
      else if mime = Some ''application/x-lz4'' then Lz4
      else if mime = Some ''application/zstd'' then Zstd
      else NoCompression)"

definition tar_extensions :: "string set" where
  "tar_extensions = {''tar'', ''tgz'', ''tbz'', ''tbz2'', ''txz'', ''tlz'', ''tlz4'', ''tzst''}"

definition archive_type :: "path \<Rightarrow> ArchiveType" where
  "archive_type path =
     (case map_option split_name (file_name path) of
        None \<Rightarrow> NoArchive
      | Some (stem, ext) \<Rightarrow>
          if ext \<noteq> None \<and> the ext \<in> tar_extensions then Tar
          else if ext = Some ''zip'' then Zip
          else if ext = Some ''rar'' then Rar
          else if ext = Some ''7z'' then SevenZip
          else if ext = Some ''ddup'' then Ddup
          else if ends_with stem ''.tar'' then Tar else NoArchive)"

text \<open>The header is a buffer of 16 zeros, filled by one read.\<close>

definition header_bytes :: "string \<Rightarrow> u8 list" where
  "header_bytes s = map of_char (take 16 (s @ replicate 16 (CHR 0x00)))"

definition archive_open ::
  "'gi http_env \<Rightarrow> path \<Rightarrow> ('gi, 's) file_state_scheme \<Rightarrow> Archive option \<times> ('gi, 's) file_state_scheme" where
  "archive_open e path st =
     (case file_open e path st of
        (Inl err, st) \<Rightarrow> (None, st)
      | (Inr f, st) \<Rightarrow>
          (case he_open_read e f 16 of
             Inl err \<Rightarrow> (None, st)
           | Inr s \<Rightarrow>
               (Some \<lparr>ar_compression = compression_of (he_infer e (take 16 (s @ replicate 16 (CHR 0x00)))),
                      ar_type = archive_type path, ar_header = header_bytes s, ar_file = f, ar_path = path\<rparr>, st)))"

section \<open>The estimated size\<close>

definition le_bytes :: "u8 list \<Rightarrow> nat" where
  "le_bytes bs = foldr (\<lambda>b n. unat b + 256 * n) bs 0"

definition lz4_size :: "u8 list \<Rightarrow> nat option" where
  "lz4_size header =
     (if take 4 header \<noteq> [0x04, 0x22, 0x4D, 0x18] then None
      else if header ! 4 AND 0x08 = 0 \<or> length header < 13 then None
      else Some (le_bytes (take 8 (drop 5 header))))"

definition zstd_size :: "u8 list \<Rightarrow> nat option" where
  "zstd_size header =
     (if take 4 header \<noteq> [0x28, 0xB5, 0x2F, 0xFD] then None
      else
        let descriptor = header ! 4; flag = descriptor AND 0x03; single = (descriptor AND 0x20 \<noteq> 0);
            buffer = take 8 (drop 5 header) in
        if flag = 0 \<and> \<not> single then None
        else if flag = 0 then Some (le_bytes (take 1 buffer))
        else if flag = 1 then Some (le_bytes (take 2 buffer))
        else if flag = 2 then Some (le_bytes (take 4 buffer))
        else Some (le_bytes buffer))"

text \<open>\<open>len\<close>: the length of the file; \<open>tail\<close>: its last four bytes.\<close>

definition estimated_size :: "Archive \<Rightarrow> nat option \<Rightarrow> u8 list option \<Rightarrow> nat option" where
  "estimated_size a len tail =
     (case ar_compression a of
        NoCompression \<Rightarrow> len
      | Gz \<Rightarrow> (case len of None \<Rightarrow> None | Some n \<Rightarrow> if n < 4 then None else map_option le_bytes tail)
      | Xz \<Rightarrow> None
      | Bz2 \<Rightarrow> None
      | Lz4 \<Rightarrow> lz4_size (ar_header a)
      | Zstd \<Rightarrow> zstd_size (ar_header a))"

section \<open>Times\<close>

definition leap_year :: "nat \<Rightarrow> bool" where
  "leap_year y \<longleftrightarrow> y mod 4 = 0 \<and> (y mod 100 \<noteq> 0 \<or> y mod 400 = 0)"

definition days_in_month :: "nat \<Rightarrow> nat \<Rightarrow> nat" where
  "days_in_month y m =
     (if m = 2 then (if leap_year y then 29 else 28) else if m \<in> {4, 6, 9, 11} then 30 else 31)"

definition valid_date :: "nat \<Rightarrow> nat \<Rightarrow> nat \<Rightarrow> bool" where
  "valid_date y m d \<longleftrightarrow> 1 \<le> m \<and> m \<le> 12 \<and> 1 \<le> d \<and> d \<le> days_in_month y m"

definition valid_time :: "nat \<Rightarrow> nat \<Rightarrow> nat \<Rightarrow> bool" where
  "valid_time h mi s \<longleftrightarrow> h < 24 \<and> mi < 60 \<and> s < 60"

text \<open>Seconds from the epoch, for years from 1970.\<close>

definition unix_seconds :: "nat \<Rightarrow> nat \<Rightarrow> nat \<Rightarrow> nat \<Rightarrow> nat \<Rightarrow> nat \<Rightarrow> nat" where
  "unix_seconds y m d h mi s =
     ((\<Sum>k\<leftarrow>[1970..<y]. if leap_year k then 366 else 365) + (\<Sum>k\<leftarrow>[1..<m]. days_in_month y k) + (d - 1)) * 86400
       + h * 3600 + mi * 60 + s"

definition dos_time_to_unix :: "u32 \<Rightarrow> nat option" where
  "dos_time_to_unix t =
     (let seconds = unat ((t AND 0x1F) * 2); minutes = unat (drop_bit 5 t AND 0x3F);
          hours = unat (drop_bit 11 t AND 0x1F); day = unat (drop_bit 16 t AND 0x1F);
          month = unat (drop_bit 21 t AND 0x0F); year = unat ((drop_bit 25 t AND 0x7F) + 1980) in
      if 60 \<le> seconds \<or> 60 \<le> minutes \<or> 24 \<le> hours \<or> \<not> (1 \<le> day \<and> day \<le> 31) \<or> \<not> (1 \<le> month \<and> month \<le> 12)
      then None
      else if valid_date year month day \<and> valid_time hours minutes seconds
      then Some (unix_seconds year month day hours minutes seconds) else None)"

section \<open>Writing an entry\<close>

type_synonym ('gi, 's, 'a) unpack = "(('gi, 's) file_state_scheme, string, 'a) handler"

definition make_dirs :: "'gi http_env \<Rightarrow> path \<Rightarrow> ('gi, 's, unit) unpack" where
  "make_dirs e p = cap_unit e (\<lambda>run. cap_create_dir_all run p)"

definition parent_dirs :: "'gi http_env \<Rightarrow> path \<Rightarrow> ('gi, 's, unit) unpack" where
  "parent_dirs e p = (case parent p of None \<Rightarrow> succeed () | Some par \<Rightarrow> make_dirs e par)"

definition set_mode :: "'gi http_env \<Rightarrow> path \<Rightarrow> u32 option \<Rightarrow> ('gi, 's, unit) unpack" where
  "set_mode e p mode =
     (case mode of None \<Rightarrow> succeed () | Some m \<Rightarrow> cap_unit e (\<lambda>run. cap_set_permissions run p (unat m)))"

text \<open>\<open>now\<close> is the time of the access, in nanoseconds; \<open>t\<close> is in seconds.\<close>

definition set_time :: "'gi http_env \<Rightarrow> int \<Rightarrow> path \<Rightarrow> int \<Rightarrow> ('gi, 's, unit) unpack" where
  "set_time e now p t = cap_unit e (\<lambda>run. cap_set_times run p (1000000000 * t) None now)"

definition writer_new ::
  "'gi http_env \<Rightarrow> path \<Rightarrow> u32 option \<Rightarrow> int option \<Rightarrow> ('gi, 's, nat \<times> FileSystemWriter) unpack" where
  "writer_new e dest mode modified =
     and_then (from_option (parent dest) ''Destination has no parent'') (\<lambda>_.
     and_then (with_cap e (\<lambda>run self. apfst (typed the_file) (cap_create run dest self))) (\<lambda>f.
     and_then (set_mode e dest mode) (\<lambda>_.
     and_then (\<lambda>st. (fw_new (sf_fs st) (Inr ()) None dest (map_option word_of_int modified), st)) (\<lambda>w.
       succeed (f, w)))))"

definition write_piece ::
  "'gi http_env \<Rightarrow> nat \<Rightarrow> string \<Rightarrow> FileSystemWriter \<Rightarrow> ('gi, 's) file_state_scheme
     \<Rightarrow> (unit result \<times> FileSystemWriter) \<times> ('gi, 's) file_state_scheme" where
  "write_piece e f chunk w st =
     (case do_io e (IoWrite f chunk) st of (r, st) \<Rightarrow>
        (case fw_write allocate_in_path_slice (map_sum id (\<lambda>_. word_of_nat (length chunk)) r) w (sf_fs st) of
           (r, w, fs) \<Rightarrow> ((map_sum id (\<lambda>_. ()) r, w), st\<lparr>sf_fs := fs\<rparr>)))"

text \<open>\<open>crate::io::copy_shared\<close>\<close>

fun copy_data ::
  "'gi http_env \<Rightarrow> nat \<Rightarrow> string result list \<Rightarrow> FileSystemWriter \<Rightarrow> ('gi, 's) file_state_scheme
     \<Rightarrow> (unit result \<times> FileSystemWriter) \<times> ('gi, 's) file_state_scheme" where
  "copy_data e f [] w st = ((Inr (), w), st)"
| "copy_data e f (Inl err # data) w st = ((Inl err, w), st)"
| "copy_data e f (Inr chunk # data) w st =
     (if chunk = [] then ((Inr (), w), st)
      else case write_piece e f chunk w st of
             ((Inl err, w), st) \<Rightarrow> ((Inl err, w), st)
           | ((Inr _, w), st) \<Rightarrow> copy_data e f data w st)"

definition flush_file :: "'gi http_env \<Rightarrow> nat \<Rightarrow> FileSystemWriter \<Rightarrow> ('gi, 's, unit) unpack" where
  "flush_file e f w st =
     (case allocate_accumulated allocate_in_path_slice w (sf_fs st) of
        (Inl err, w, fs) \<Rightarrow> (Inl err, st\<lparr>sf_fs := fs\<rparr>)
      | (Inr _, w, fs) \<Rightarrow> do_io e (IoFlush f) (st\<lparr>sf_fs := fs\<rparr>))"

definition drop_file ::
  "'gi http_env \<Rightarrow> nat \<Rightarrow> int option \<Rightarrow> ('gi, 's) file_state_scheme \<Rightarrow> ('gi, 's) file_state_scheme" where
  "drop_file e f modified st = (case modified of None \<Rightarrow> st | Some t \<Rightarrow> snd (do_io e (IoSetModified f t) st))"

text \<open>The end of the writer: the flush after a copy that went well, and what dropping it does.\<close>

definition unpack_file ::
  "'gi http_env \<Rightarrow> path \<Rightarrow> u32 option \<Rightarrow> int option \<Rightarrow> string result list \<Rightarrow> ('gi, 's, unit) unpack" where
  "unpack_file e dest mode modified data =
     and_then (writer_new e dest mode modified) (\<lambda>(f, w) st.
       case copy_data e f data w st of
         ((Inl err, w), st) \<Rightarrow> (Inl err, drop_file e f modified st)
       | ((Inr _, w), st) \<Rightarrow> apsnd (drop_file e f modified) (flush_file e f w st))"

text \<open>A link that cannot be made is left out.\<close>

definition unpack_link :: "'gi http_env \<Rightarrow> int \<Rightarrow> string \<Rightarrow> path \<Rightarrow> int option \<Rightarrow> ('gi, 's, unit) unpack" where
  "unpack_link e now target dest modified st =
     (case cap_unit e (\<lambda>run. cap_symlink run (components target) dest) st of
        (Inl err, st) \<Rightarrow> (Inr (), st)
      | (Inr _, st) \<Rightarrow> (case modified of None \<Rightarrow> (Inr (), st) | Some t \<Rightarrow> set_time e now dest t st))"

definition is_absolute :: "path \<Rightarrow> bool" where
  "is_absolute p \<longleftrightarrow> p \<noteq> [] \<and> hd p = RootDir"

definition skip_ignored :: "'gi http_env \<Rightarrow> path \<Rightarrow> bool \<Rightarrow> 'a \<Rightarrow> ('gi, 's, 'a) unpack \<Rightarrow> ('gi, 's, 'a) unpack" where
  "skip_ignored e p is_dir x m st = (if route_ignored e p is_dir st then succeed x st else m st)"

fun dir_times :: "'gi http_env \<Rightarrow> int \<Rightarrow> (path \<times> int) list \<Rightarrow> ('gi, 's, unit) unpack" where
  "dir_times e now [] = succeed ()"
| "dir_times e now ((p, t) # dirs) = and_then (set_time e now p t) (\<lambda>_. dir_times e now dirs)"

section \<open>Formats\<close>

datatype entry_kind = Folder | Plain | Link | OtherKind

subsection \<open>A compressed file\<close>

definition unpack_single :: "'gi http_env \<Rightarrow> path \<Rightarrow> path \<Rightarrow> string result list \<Rightarrow> ('gi, 's, unit) unpack" where
  "unpack_single e path destination data =
     and_then (from_option (map_option (fst \<circ> split_name) (file_name path)) ''Invalid file name'') (\<lambda>stem.
     and_then (file_metadata e path) (\<lambda>md.
       unpack_file e (path_join destination (components stem)) (Some (md_mode md)) (md_modified md) data))"

subsection \<open>Tar\<close>

record archive_entry =
  en_path :: string
  en_kind :: entry_kind
  en_mode :: "u32 option"
  en_mtime :: "int option"
  en_link :: string
  en_data :: "string result list"

definition tar_one ::
  "'gi http_env \<Rightarrow> int \<Rightarrow> path \<Rightarrow> archive_entry \<Rightarrow> (path \<times> int) list \<Rightarrow> ('gi, 's, (path \<times> int) list) unpack" where
  "tar_one e now destination en dirs =
     (let p = components (en_path en); dest = path_join destination p in
      if is_absolute p then succeed dirs
      else skip_ignored e dest (en_kind en = Folder) dirs
        (case en_kind en of
           Folder \<Rightarrow>
             guarded [make_dirs e dest, set_mode e dest (en_mode en)]
               (succeed (case en_mtime en of None \<Rightarrow> dirs | Some t \<Rightarrow> dirs @ [(dest, t)]))
         | Plain \<Rightarrow>
             guarded [parent_dirs e dest, unpack_file e dest (en_mode en) (en_mtime en) (en_data en)] (succeed dirs)
         | Link \<Rightarrow> guarded [unpack_link e now (en_link en) dest (en_mtime en)] (succeed dirs)
         | OtherKind \<Rightarrow> succeed dirs))"

text \<open>\<open>while let Some(Ok(mut entry)) = entries.next()\<close>: an entry that cannot be read ends the loop.\<close>

fun tar_all ::
  "'gi http_env \<Rightarrow> int \<Rightarrow> path \<Rightarrow> archive_entry result list \<Rightarrow> (path \<times> int) list \<Rightarrow> ('gi, 's, unit) unpack" where
  "tar_all e now destination [] dirs = dir_times e now dirs"
| "tar_all e now destination (Inl err # es) dirs = dir_times e now dirs"
| "tar_all e now destination (Inr en # es) dirs =
     and_then (tar_one e now destination en dirs) (tar_all e now destination es)"

definition unpack_tar ::
  "'gi http_env \<Rightarrow> int \<Rightarrow> path \<Rightarrow> archive_entry result list result \<Rightarrow> ('gi, 's, unit) unpack" where
  "unpack_tar e now destination tape =
     (case tape of Inl err \<Rightarrow> fail err | Inr es \<Rightarrow> tar_all e now destination es [])"

subsection \<open>Rar\<close>

text \<open>The path that is handed to the library, and the entries with whether an abort came before.\<close>

definition rar_file :: "path \<Rightarrow> path \<Rightarrow> path" where
  "rar_file base path = path_join base path"

record rar_entry =
  re_path :: string
  re_dir :: bool
  re_dos_time :: u32
  re_data :: "string result list"

definition rar_unpack_file ::
  "'gi http_env \<Rightarrow> path \<Rightarrow> int option \<Rightarrow> string result list \<Rightarrow> ('gi, 's, unit) unpack" where
  "rar_unpack_file e dest modified data =
     and_then (writer_new e dest None modified) (\<lambda>(f, w) st.
       case copy_data e f data w st of
         ((r, w), st) \<Rightarrow>
           (case flush_file e f w st of
              (Inl err, st) \<Rightarrow> (Inl err, drop_file e f modified st)
            | (Inr _, st) \<Rightarrow> (r, drop_file e f modified st)))"

definition rar_one ::
  "'gi http_env \<Rightarrow> path \<Rightarrow> bool \<times> rar_entry \<Rightarrow> (path \<times> int) list \<Rightarrow> ('gi, 's, (path \<times> int) list) unpack" where
  "rar_one e destination x dirs =
     (let (aborted, en) = x; p = components (re_path en); dest = path_join destination p;
          modified = map_option int (dos_time_to_unix (re_dos_time en)) in
      if is_absolute p then succeed dirs
      else skip_ignored e p (re_dir en) dirs
        (if aborted then fail ''operation aborted''
         else if re_dir en then
           guarded [make_dirs e dest] (succeed (case modified of None \<Rightarrow> dirs | Some t \<Rightarrow> dirs @ [(dest, t)]))
         else guarded [parent_dirs e dest, rar_unpack_file e dest modified (re_data en)] (succeed dirs)))"

fun rar_all ::
  "'gi http_env \<Rightarrow> int \<Rightarrow> path \<Rightarrow> (bool \<times> rar_entry) result list \<Rightarrow> (path \<times> int) list \<Rightarrow> ('gi, 's, unit) unpack" where
  "rar_all e now destination [] dirs = dir_times e now dirs"
| "rar_all e now destination (Inl err # es) dirs = fail err"
| "rar_all e now destination (Inr x # es) dirs =
     and_then (rar_one e destination x dirs) (rar_all e now destination es)"

text \<open>\<open>library\<close>: what the library reads from a file of the host.\<close>

definition unpack_rar ::
  "'gi http_env \<Rightarrow> int \<Rightarrow> (path \<Rightarrow> (bool \<times> rar_entry) result list result) \<Rightarrow> path \<Rightarrow> path \<Rightarrow> ('gi, 's, unit) unpack" where
  "unpack_rar e now library path destination st =
     (case library (rar_file (fs_base_path (sf_fs st)) path) of
        Inl err \<Rightarrow> (Inl err, st) | Inr es \<Rightarrow> rar_all e now destination es [] st)"

subsection \<open>Zip\<close>

text \<open>
  \<open>ze_path\<close>: the name as \<open>enclosed_name\<close> gives it; \<open>ze_extended\<close>: the modification times of the
  extended timestamps; \<open>ze_last\<close>: the date and time of the entry, when it is valid.
\<close>

record zip_entry =
  ze_path :: "string option"
  ze_kind :: entry_kind
  ze_mode :: "u32 option"
  ze_extended :: "nat option list"
  ze_last :: "(nat \<times> nat \<times> nat \<times> nat \<times> nat \<times> nat) option"
  ze_size :: nat
  ze_link :: string
  ze_data :: "string result list"

definition zip_entry_get_modified_time :: "zip_entry \<Rightarrow> int option" where
  "zip_entry_get_modified_time en =
     (case List.find (\<lambda>t. t \<noteq> None) (ze_extended en) of
        Some (Some t) \<Rightarrow> Some (int t)
      | _ \<Rightarrow>
          (case ze_last en of
             None \<Rightarrow> None
           | Some (y, m, d, h, mi, s) \<Rightarrow>
               if valid_date y m d \<and> valid_time h mi s then Some (int (unix_seconds y m d h mi s)) else None))"

definition zip_one ::
  "'gi http_env \<Rightarrow> int \<Rightarrow> path \<Rightarrow> zip_entry result \<Rightarrow> ('gi, 's, unit) unpack" where
  "zip_one e now destination x =
     (case x of
        Inl err \<Rightarrow> fail err
      | Inr en \<Rightarrow>
          (case ze_path en of
             None \<Rightarrow> succeed ()
           | Some raw \<Rightarrow>
               (let p = components raw; dest = path_join destination p in
                if is_absolute p then succeed ()
                else skip_ignored e dest (ze_kind en = Folder) ()
                  (case ze_kind en of
                     Folder \<Rightarrow>
                       guarded [make_dirs e dest]
                         (set_mode e dest (Some (case ze_mode en of Some m \<Rightarrow> m | None \<Rightarrow> 493)))
                   | Plain \<Rightarrow>
                       guarded [parent_dirs e dest]
                         (unpack_file e dest (ze_mode en) (zip_entry_get_modified_time en) (ze_data en))
                   | Link \<Rightarrow>
                       if 1 \<le> ze_size en \<and> ze_size en \<le> 2048
                       then unpack_link e now (ze_link en) dest (zip_entry_get_modified_time en)
                       else succeed ()
                   | OtherKind \<Rightarrow> succeed ()))))"

fun zip_dir_times :: "'gi http_env \<Rightarrow> int \<Rightarrow> path \<Rightarrow> zip_entry result list \<Rightarrow> ('gi, 's, unit) unpack" where
  "zip_dir_times e now destination [] = succeed ()"
| "zip_dir_times e now destination (Inl err # es) = fail err"
| "zip_dir_times e now destination (Inr en # es) =
     and_then
       (case (ze_kind en, ze_path en) of
          (Folder, Some raw) \<Rightarrow>
            (let p = components raw; dest = path_join destination p in
             if is_absolute p then succeed ()
             else skip_ignored e dest True ()
               (case zip_entry_get_modified_time en of None \<Rightarrow> succeed () | Some t \<Rightarrow> set_time e now dest t))
        | _ \<Rightarrow> succeed ())
       (\<lambda>_. zip_dir_times e now destination es)"

subsection \<open>7z\<close>

record seven_entry =
  se_path :: string
  se_dir :: bool
  se_modified :: "int option"
  se_data :: "string result list"

definition slashed :: "string \<Rightarrow> bool" where
  "slashed s \<longleftrightarrow> starts_with s ''/'' \<or> starts_with s [CHR 0x5C]"

definition seven_one :: "'gi http_env \<Rightarrow> path \<Rightarrow> seven_entry \<Rightarrow> ('gi, 's, unit) unpack" where
  "seven_one e destination en =
     (let dest = path_join destination (components (se_path en)) in
      if slashed (se_path en) then succeed ()
      else skip_ignored e dest (se_dir en) ()
        (if se_dir en then make_dirs e dest
         else guarded [parent_dirs e dest] (unpack_file e dest None (se_modified en) (se_data en))))"

text \<open>The entries of a block, one after the other, until one fails.\<close>

fun seven_block :: "'gi http_env \<Rightarrow> path \<Rightarrow> seven_entry result list \<Rightarrow> ('gi, 's, unit) unpack" where
  "seven_block e destination [] = succeed ()"
| "seven_block e destination (Inl err # es) = fail err"
| "seven_block e destination (Inr en # es) = and_then (seven_one e destination en) (\<lambda>_. seven_block e destination es)"

fun seven_dir_times :: "'gi http_env \<Rightarrow> int \<Rightarrow> path \<Rightarrow> seven_entry list \<Rightarrow> ('gi, 's, unit) unpack" where
  "seven_dir_times e now destination [] = succeed ()"
| "seven_dir_times e now destination (en # es) =
     and_then
       (case (se_dir en, se_modified en) of
          (True, Some t) \<Rightarrow>
            (let dest = path_join destination (components (se_path en)) in
             if slashed (se_path en) then succeed ()
             else skip_ignored e dest True () (set_time e now dest t))
        | _ \<Rightarrow> succeed ())
       (\<lambda>_. seven_dir_times e now destination es)"

section \<open>Parallel work\<close>

text \<open>
  Zip entries and 7z blocks are unpacked by the threads of a pool. A thread takes an item
  that no thread took before, unless an error has been recorded, and records the error its
  item ends with. The work on an item is one step, and so the items that are worked on at
  the same time end in any order; so is the look at the recorded error with the taking that
  follows it.
\<close>

record 'st pool =
  po_state :: 'st
  po_taken :: "nat set"
  po_running :: "nat set"
  po_done :: "nat list"
  po_error :: "string option"

definition new_pool :: "'st \<Rightarrow> 'st pool" where
  "new_pool s = \<lparr>po_state = s, po_taken = {}, po_running = {}, po_done = [], po_error = None\<rparr>"

inductive pool_step :: "(nat \<Rightarrow> ('st, string, unit) handler) \<Rightarrow> nat \<Rightarrow> 'st pool \<Rightarrow> 'st pool \<Rightarrow> bool"
  for work :: "nat \<Rightarrow> ('st, string, unit) handler" and n :: nat where
  take_item: "i < n \<Longrightarrow> i \<notin> po_taken p \<Longrightarrow> po_error p = None \<Longrightarrow>
    pool_step work n p (p\<lparr>po_taken := insert i (po_taken p), po_running := insert i (po_running p)\<rparr>)"
| end_item: "i \<in> po_running p \<Longrightarrow> work i (po_state p) = (r, s) \<Longrightarrow>
    pool_step work n p
      (p\<lparr>po_state := s, po_running := po_running p - {i}, po_done := po_done p @ [i],
         po_error := (case r of Inl err \<Rightarrow> Some err | Inr _ \<Rightarrow> po_error p)\<rparr>)"

definition pool_finished :: "nat \<Rightarrow> 'st pool \<Rightarrow> bool" where
  "pool_finished n p \<longleftrightarrow> po_running p = {} \<and> (po_error p \<noteq> None \<or> {..<n} \<subseteq> po_taken p)"

section \<open>Unpacking\<close>

datatype content =
    SingleFile "string result list"
  | TarFile "archive_entry result list result"
  | RarFile "path \<Rightarrow> (bool \<times> rar_entry) result list result"
  | ZipFile "zip_entry result list result"
  | SevenFile "(seven_entry result list list \<times> seven_entry list) result"

inductive pooled ::
  "(nat \<Rightarrow> ('st, string, unit) handler) \<Rightarrow> nat \<Rightarrow> ('st, string, unit) handler \<Rightarrow> 'st \<Rightarrow> unit result \<Rightarrow> 'st \<Rightarrow> bool"
  for work :: "nat \<Rightarrow> ('st, string, unit) handler" and n :: nat and after :: "('st, string, unit) handler" where
  pooled_error: "(pool_step work n)\<^sup>*\<^sup>* (new_pool s) p \<Longrightarrow> pool_finished n p \<Longrightarrow> po_error p = Some err \<Longrightarrow>
    pooled work n after s (Inl err) (po_state p)"
| pooled_done: "(pool_step work n)\<^sup>*\<^sup>* (new_pool s) p \<Longrightarrow> pool_finished n p \<Longrightarrow> po_error p = None \<Longrightarrow>
    after (po_state p) = (r, t) \<Longrightarrow> pooled work n after s r t"

text \<open>\<open>Archive::extract\<close>: what it may return and leave.\<close>

inductive unpacks ::
  "'gi http_env \<Rightarrow> int \<Rightarrow> path \<Rightarrow> path \<Rightarrow> content \<Rightarrow> ('gi, 's) file_state_scheme \<Rightarrow> unit result
     \<Rightarrow> ('gi, 's) file_state_scheme \<Rightarrow> bool"
  for e :: "'gi http_env" and now :: int and path destination :: path where
  u_single: "unpack_single e path destination data st = (r, st') \<Longrightarrow>
    unpacks e now path destination (SingleFile data) st r st'"
| u_tar: "unpack_tar e now destination tape st = (r, st') \<Longrightarrow>
    unpacks e now path destination (TarFile tape) st r st'"
| u_rar: "unpack_rar e now library path destination st = (r, st') \<Longrightarrow>
    unpacks e now path destination (RarFile library) st r st'"
| u_zip_unread: "unpacks e now path destination (ZipFile (Inl err)) st (Inl err) st"
| u_zip: "pooled (\<lambda>i. zip_one e now destination (es ! i)) (length es) (zip_dir_times e now destination es) st r st' \<Longrightarrow>
    unpacks e now path destination (ZipFile (Inr es)) st r st'"
| u_seven_unread: "unpacks e now path destination (SevenFile (Inl err)) st (Inl err) st"
| u_seven: "pooled (\<lambda>i. seven_block e destination (bs ! i)) (length bs) (seven_dir_times e now destination es) st r st' \<Longrightarrow>
    unpacks e now path destination (SevenFile (Inr (bs, es))) st r st'"

end
