(* ===== verification/Archive_Create.thy ===== *)
theory Archive_Create
  imports Archives Dir_Walk
begin

unbundle bit_operations_syntax

text \<open>
  Making an archive of files of a server (\<open>server/filesystem/archive/create\<close>) and the routes
  that compress and decompress. The formats are written by crates: \<open>put\<close> hands a member to
  the crate, which may refuse it and may write to the destination. What a walk yields and what
  an open file holds are parameters; theory \<open>Dir_Walk\<close> has the walk itself. A file is read in
  full buffers.
\<close>

section \<open>Members\<close>

text \<open>\<open>mb_counted\<close>: what is added to the progress for the member. Times are in seconds.\<close>

record member =
  mb_name :: path
  mb_kind :: entry_kind
  mb_mode :: "u32 option"
  mb_mtime :: "int option"
  mb_size :: u64
  mb_link :: path
  mb_data :: string
  mb_counted :: u64

record archiver =
  av_walk :: "(path \<Rightarrow> bool \<Rightarrow> bool) list \<Rightarrow> path \<Rightarrow> (bool \<times> path) result list result"
  av_content :: "nat \<Rightarrow> string result"
  av_link_ok :: "path \<Rightarrow> bool"

type_synonym ('gi, 's, 'k) sink = "member \<Rightarrow> 'k \<Rightarrow> ('gi, 's, 'k) unpack"
type_synonym ('gi, 's, 'k) adder = "path \<Rightarrow> path \<Rightarrow> Metadata \<Rightarrow> Metadata \<Rightarrow> 'k \<Rightarrow> ('gi, 's, 'k) unpack"

definition file_read_link_contents ::
  "('gi, 'e) file_env_scheme \<Rightarrow> path \<Rightarrow> ('gi, 's) file_state_scheme \<Rightarrow> path result \<times> ('gi, 's) file_state_scheme" where
  "file_read_link_contents e p = with_cap e (\<lambda>run self. apfst (typed the_path) (cap_read_link_contents run p self))"

definition from_result :: "'a result \<Rightarrow> ('gi, 's, 'a) unpack" where
  "from_result r st = (r, st)"

text \<open>\<open>FixedReader\<close>: as many bytes as announced, zeros behind the end of the file.\<close>

definition fixed_content :: "nat \<Rightarrow> string \<Rightarrow> string" where
  "fixed_content n s = take n s @ replicate (n - length s) (CHR 0x00)"

definition opened_content :: "'gi http_env \<Rightarrow> archiver \<Rightarrow> path \<Rightarrow> ('gi, 's, string) unpack" where
  "opened_content e v path = and_then (file_open e path) (\<lambda>f. from_result (av_content v f))"

text \<open>A link that cannot be read is left out.\<close>

definition link_or :: "'gi http_env \<Rightarrow> path \<Rightarrow> 'k \<Rightarrow> (path \<Rightarrow> ('gi, 's, 'k) unpack) \<Rightarrow> ('gi, 's, 'k) unpack" where
  "link_or e path k m st =
     (case file_read_link_contents e path st of
        (Inl err, st) \<Rightarrow> (Inr k, st)
      | (Inr target, st) \<Rightarrow> m target st)"

section \<open>Formats\<close>

definition tar_add :: "'gi http_env \<Rightarrow> archiver \<Rightarrow> ('gi, 's, 'k) sink \<Rightarrow> ('gi, 's, 'k) adder" where
  "tar_add e v put nam path md source_md k =
     (let header = \<lparr>mb_name = nam, mb_kind = Folder, mb_mode = Some (md_mode md),
                    mb_mtime = Some (case md_modified md of Some t \<Rightarrow> max 0 t | None \<Rightarrow> 0),
                    mb_size = 0, mb_link = [], mb_data = [], mb_counted = md_len md\<rparr> in
      if md_is_dir md then put header k
      else if md_is_file md then
        and_then (opened_content e v path) (\<lambda>s.
          put (header\<lparr>mb_kind := Plain, mb_size := md_len md, mb_data := fixed_content (unat (md_len md)) s,
                      mb_counted := word_of_nat (min (length s) (unat (md_len md)))\<rparr>) k)
      else link_or e path k (\<lambda>target.
        if av_link_ok v target
        then put (header\<lparr>mb_kind := Link, mb_link := target, mb_counted := md_len source_md\<rparr>) k
        else succeed k))"

text \<open>
  \<open>zip::DateTime::from_date_and_time\<close> takes the years 1980 to 2107; the cast of the year to 16
  bits matters only after the year 65535.
\<close>

definition zip_time :: "int option \<Rightarrow> int option" where
  "zip_time t =
     (case t of
        Some s \<Rightarrow> if 315532800 \<le> s \<and> s < 4354819200 then Some s else None
      | None \<Rightarrow> None)"

definition zip_add :: "'gi http_env \<Rightarrow> archiver \<Rightarrow> ('gi, 's, 'k) sink \<Rightarrow> ('gi, 's, 'k) adder" where
  "zip_add e v put nam path md source_md k =
     (let options = \<lparr>mb_name = nam, mb_kind = Folder, mb_mode = Some (md_mode md), mb_mtime = zip_time (md_modified md),
                     mb_size = 0, mb_link = [], mb_data = [], mb_counted = md_len md\<rparr> in
      if md_is_dir md then put options k
      else if md_is_file md then
        and_then (opened_content e v path) (\<lambda>s.
          put (options\<lparr>mb_kind := Plain, mb_size := word_of_nat (length s), mb_data := s,
                       mb_counted := word_of_nat (length s)\<rparr>) k)
      else link_or e path k (\<lambda>target.
        put (options\<lparr>mb_kind := Link, mb_link := target, mb_counted := md_len source_md\<rparr>) k))"

text \<open>A time before 1601 has no \<open>NtTime\<close>.\<close>

definition seven_add :: "'gi http_env \<Rightarrow> archiver \<Rightarrow> ('gi, 's, 'k) sink \<Rightarrow> ('gi, 's, 'k) adder" where
  "seven_add e v put nam path md source_md k =
     (let entry = \<lparr>mb_name = nam, mb_kind = Folder, mb_mode = None,
                   mb_mtime = (case md_modified md of
                                 Some t \<Rightarrow> if - 11644473600 \<le> t then Some t else None | None \<Rightarrow> None),
                   mb_size = 0, mb_link = [], mb_data = [], mb_counted = md_len md\<rparr> in
      if md_is_dir md then put entry k
      else if md_is_file md then
        and_then (opened_content e v path) (\<lambda>s.
          put (entry\<lparr>mb_kind := Plain, mb_size := md_len md, mb_data := s, mb_counted := word_of_nat (length s)\<rparr>) k)
      else succeed k)"

section \<open>Sources\<close>

text \<open>\<open>while let Some(Ok((_, path))) = walker.next_entry()\<close>: an entry that cannot be read ends the walk.\<close>

fun add_walked ::
  "'gi http_env \<Rightarrow> ('gi, 's, 'k) adder \<Rightarrow> path \<Rightarrow> Metadata \<Rightarrow> (bool \<times> path) result list \<Rightarrow> 'k \<Rightarrow> ('gi, 's, 'k) unpack" where
  "add_walked e add base source_md [] k = succeed k"
| "add_walked e add base source_md (Inl err # ps) k = succeed k"
| "add_walked e add base source_md (Inr (d, path) # ps) k =
     (case strip_prefix path base of
        None \<Rightarrow> add_walked e add base source_md ps k
      | Some nam \<Rightarrow> (\<lambda>st.
          case file_symlink_metadata e path st of
            (Inl err, st) \<Rightarrow> add_walked e add base source_md ps k st
          | (Inr md, st) \<Rightarrow> and_then (add nam path md source_md k) (add_walked e add base source_md ps) st))"

definition add_source ::
  "'gi http_env \<Rightarrow> archiver \<Rightarrow> ('gi, 's, 'k) adder \<Rightarrow> (path \<Rightarrow> bool \<Rightarrow> bool) list \<Rightarrow> path \<Rightarrow> path \<Rightarrow> 'k \<Rightarrow> ('gi, 's, 'k) unpack" where
  "add_source e v add ignored base relative k st =
     (let source = path_join base relative in
      case file_symlink_metadata e source st of
        (Inl err, st) \<Rightarrow> (Inr k, st)
      | (Inr md, st) \<Rightarrow>
          if any_ignored ignored source (md_is_dir md) then (Inr k, st)
          else and_then (add relative source md md k) (\<lambda>k.
                 if md_is_dir md
                 then and_then (from_result (av_walk v ignored source)) (\<lambda>ps. add_walked e add base md ps k)
                 else succeed k) st)"

fun add_sources ::
  "'gi http_env \<Rightarrow> archiver \<Rightarrow> ('gi, 's, 'k) adder \<Rightarrow> (path \<Rightarrow> bool \<Rightarrow> bool) list \<Rightarrow> path \<Rightarrow> path list \<Rightarrow> 'k \<Rightarrow> ('gi, 's, 'k) unpack" where
  "add_sources e v add ignored base [] k = succeed k"
| "add_sources e v add ignored base (source # sources) k =
     and_then (add_source e v add ignored base source k) (add_sources e v add ignored base sources)"

definition create_archive ::
  "'gi http_env \<Rightarrow> archiver \<Rightarrow> ('gi, 's, 'k) adder \<Rightarrow> ('k \<Rightarrow> ('gi, 's, 'k) unpack) \<Rightarrow> path \<Rightarrow> path list
     \<Rightarrow> (path \<Rightarrow> bool \<Rightarrow> bool) list \<Rightarrow> 'k \<Rightarrow> ('gi, 's, 'k) unpack" where
  "create_archive e v add finish base sources ignored k st =
     and_then (add_sources e v add ignored (rel (cap_of (sf_fs st)) base) sources k) finish st"

definition create_tar ::
  "'gi http_env \<Rightarrow> archiver \<Rightarrow> ('gi, 's, 'k) sink \<Rightarrow> ('k \<Rightarrow> ('gi, 's, 'k) unpack) \<Rightarrow> path \<Rightarrow> path list
     \<Rightarrow> (path \<Rightarrow> bool \<Rightarrow> bool) list \<Rightarrow> 'k \<Rightarrow> ('gi, 's, 'k) unpack" where
  "create_tar e v put = create_archive e v (tar_add e v put)"

definition create_zip ::
  "'gi http_env \<Rightarrow> archiver \<Rightarrow> ('gi, 's, 'k) sink \<Rightarrow> ('k \<Rightarrow> ('gi, 's, 'k) unpack) \<Rightarrow> path \<Rightarrow> path list
     \<Rightarrow> (path \<Rightarrow> bool \<Rightarrow> bool) list \<Rightarrow> 'k \<Rightarrow> ('gi, 's, 'k) unpack" where
  "create_zip e v put = create_archive e v (zip_add e v put)"

text \<open>The streamed zip differs in what the crate writes.\<close>

definition create_zip_streaming ::
  "'gi http_env \<Rightarrow> archiver \<Rightarrow> ('gi, 's, 'k) sink \<Rightarrow> ('k \<Rightarrow> ('gi, 's, 'k) unpack) \<Rightarrow> path \<Rightarrow> path list
     \<Rightarrow> (path \<Rightarrow> bool \<Rightarrow> bool) list \<Rightarrow> 'k \<Rightarrow> ('gi, 's, 'k) unpack" where
  "create_zip_streaming e v put = create_archive e v (zip_add e v put)"

definition create_7z ::
  "'gi http_env \<Rightarrow> archiver \<Rightarrow> ('gi, 's, 'k) sink \<Rightarrow> ('k \<Rightarrow> ('gi, 's, 'k) unpack) \<Rightarrow> path \<Rightarrow> path list
     \<Rightarrow> (path \<Rightarrow> bool \<Rightarrow> bool) list \<Rightarrow> 'k \<Rightarrow> ('gi, 's, 'k) unpack" where
  "create_7z e v put = create_archive e v (seven_add e v put)"

section \<open>Destinations\<close>

text \<open>A stream to a client: \<open>accepts\<close> is the answer of the crate and of the client.\<close>

definition stream_put :: "(member list \<Rightarrow> member \<Rightarrow> unit result) \<Rightarrow> ('gi, 's, member list) sink" where
  "stream_put accepts m ms = and_then (from_result (accepts ms m)) (\<lambda>_. succeed (ms @ [m]))"

definition stream_finish :: "(member list \<Rightarrow> unit result) \<Rightarrow> member list \<Rightarrow> ('gi, 's, member list) unpack" where
  "stream_finish ends ms = and_then (from_result (ends ms)) (\<lambda>_. succeed ms)"

text \<open>
  A file of the server: what the crate does to the destination for a member and at the end, up
  to an error of its own or an abort, is \<open>encode\<close>; the writer is a \<open>FileSystemWriter\<close>.
\<close>

datatype sink_op = PutBytes string | SeekTo u64

record file_sink =
  fk_members :: "member list"
  fk_file :: nat
  fk_writer :: FileSystemWriter

definition seek_to :: "'gi http_env \<Rightarrow> nat \<Rightarrow> u64 \<Rightarrow> FileSystemWriter \<Rightarrow> ('gi, 's, FileSystemWriter) unpack" where
  "seek_to e f pos w st =
     (case fw_seek allocate_in_path_slice (map_sum id (\<lambda>_. pos) (he_seek e f)) w (sf_fs st) of
        (r, w, fs) \<Rightarrow> (map_sum id (\<lambda>_. w) r, st\<lparr>sf_fs := fs\<rparr>))"

definition put_bytes :: "'gi http_env \<Rightarrow> nat \<Rightarrow> string \<Rightarrow> FileSystemWriter \<Rightarrow> ('gi, 's, FileSystemWriter) unpack" where
  "put_bytes e f chunk w st =
     (case write_piece e f chunk w st of ((r, w), st) \<Rightarrow> (map_sum id (\<lambda>_. w) r, st))"

fun sink_ops :: "'gi http_env \<Rightarrow> nat \<Rightarrow> sink_op result list \<Rightarrow> FileSystemWriter \<Rightarrow> ('gi, 's, FileSystemWriter) unpack" where
  "sink_ops e f [] w = succeed w"
| "sink_ops e f (Inl err # ops) w = fail err"
| "sink_ops e f (Inr (PutBytes chunk) # ops) w = and_then (put_bytes e f chunk w) (sink_ops e f ops)"
| "sink_ops e f (Inr (SeekTo pos) # ops) w = and_then (seek_to e f pos w) (sink_ops e f ops)"

definition file_put ::
  "'gi http_env \<Rightarrow> (member list \<Rightarrow> member \<Rightarrow> sink_op result list) \<Rightarrow> ('gi, 's, file_sink) sink" where
  "file_put e encode m k =
     and_then (sink_ops e (fk_file k) (encode (fk_members k) m) (fk_writer k)) (\<lambda>w.
       succeed (k\<lparr>fk_members := fk_members k @ [m], fk_writer := w\<rparr>))"

text \<open>
  The end of an archive. An uncompressed tar, a zip and a 7z flush the writer; the encoder of
  a compressed tar writes its rest and gives the writer back, flushed or not.
\<close>

definition file_finish ::
  "'gi http_env \<Rightarrow> (member list \<Rightarrow> sink_op result list) \<Rightarrow> bool \<Rightarrow> file_sink \<Rightarrow> ('gi, 's, file_sink) unpack" where
  "file_finish e trailer flushes k =
     and_then (sink_ops e (fk_file k) (trailer (fk_members k)) (fk_writer k)) (\<lambda>w.
       and_then (if flushes then flush_file e (fk_file k) w else succeed ()) (\<lambda>_.
         succeed (k\<lparr>fk_writer := w\<rparr>)))"

section \<open>The routes\<close>

datatype ArchiveFormat = FormatTar CompressionType | FormatZip | FormatSevenZip

fun compression_suffix :: "CompressionType \<Rightarrow> string" where
  "compression_suffix NoCompression = ''tar''"
| "compression_suffix Gz = ''tar.gz''"
| "compression_suffix Xz = ''tar.xz''"
| "compression_suffix Bz2 = ''tar.bz2''"
| "compression_suffix Lz4 = ''tar.lz4''"
| "compression_suffix Zstd = ''tar.zst''"

fun format_suffix_of :: "ArchiveFormat \<Rightarrow> string" where
  "format_suffix_of (FormatTar c) = compression_suffix c"
| "format_suffix_of FormatZip = ''zip''"
| "format_suffix_of FormatSevenZip = ''7z''"

text \<open>The writer of a tar archive cannot seek.\<close>

definition sequential :: "string result list \<Rightarrow> sink_op result list" where
  "sequential = map (map_sum id PutBytes)"

record encoder =
  ec_tar :: "CompressionType \<Rightarrow> member list \<Rightarrow> member \<Rightarrow> string result list"
  ec_tar_end :: "CompressionType \<Rightarrow> member list \<Rightarrow> string result list"
  ec_flushes :: "CompressionType \<Rightarrow> bool"
  ec_encode :: "ArchiveFormat \<Rightarrow> member list \<Rightarrow> member \<Rightarrow> sink_op result list"
  ec_end :: "ArchiveFormat \<Rightarrow> member list \<Rightarrow> sink_op result list"

definition tar_flushes :: "encoder \<Rightarrow> CompressionType \<Rightarrow> bool" where
  "tar_flushes c t \<longleftrightarrow> t = NoCompression \<or> ec_flushes c t"

definition create_format ::
  "'gi http_env \<Rightarrow> archiver \<Rightarrow> encoder \<Rightarrow> ArchiveFormat \<Rightarrow> path \<Rightarrow> path list
     \<Rightarrow> (path \<Rightarrow> bool \<Rightarrow> bool) list \<Rightarrow> file_sink \<Rightarrow> ('gi, 's, file_sink) unpack" where
  "create_format e v c fmt =
     (case fmt of
        FormatTar t \<Rightarrow>
          create_tar e v (file_put e (\<lambda>ms m. sequential (ec_tar c t ms m)))
            (file_finish e (\<lambda>ms. sequential (ec_tar_end c t ms)) (tar_flushes c t))
      | FormatZip \<Rightarrow> create_zip e v (file_put e (ec_encode c fmt)) (file_finish e (ec_end c fmt) True)
      | FormatSevenZip \<Rightarrow> create_7z e v (file_put e (ec_encode c fmt)) (file_finish e (ec_end c fmt) True))"

text \<open>The size the progress is measured against.\<close>

fun compress_total :: "'gi http_env \<Rightarrow> string list \<Rightarrow> u64 \<Rightarrow> ('gi, 's) file_state_scheme \<Rightarrow> u64 \<times> ('gi, 's) file_state_scheme" where
  "compress_total e [] n st = (n, st)"
| "compress_total e (file # files) n st =
     (case file_metadata e (components file) st of
        (Inl err, st) \<Rightarrow> compress_total e files n st
      | (Inr md, st) \<Rightarrow>
          compress_total e files
            (n + (if md_is_dir md
                  then (case get_size (disk_usage (sf_fs st)) (components file) of Some s \<Rightarrow> s | None \<Rightarrow> 0)
                  else md_len md)) st)"

definition compress_files ::
  "'gi http_env \<Rightarrow> archiver \<Rightarrow> encoder \<Rightarrow> ArchiveFormat \<Rightarrow> path \<Rightarrow> path \<Rightarrow> string list \<Rightarrow> ('gi, 's, file_sink) unpack" where
  "compress_files e v c fmt dir archive_path files =
     and_then (inspect (\<lambda>st. fe_ignores e (disk_ignored (sf_fs st)))) (\<lambda>ignored.
     and_then (writer_new e archive_path None None) (\<lambda>(f, w).
     and_then (perform (compress_total e files 0)) (\<lambda>_.
       create_format e v c fmt dir (map components files) [ignored]
         \<lparr>fk_members = [], fk_file = f, fk_writer = w\<rparr>)))"

text \<open>The route up to the start of the operation: the directory and the path of the archive.\<close>

definition compress_start ::
  "'gi http_env \<Rightarrow> ArchiveFormat \<Rightarrow> string option \<Rightarrow> string \<Rightarrow> ('gi, 's, path \<times> path) route" where
  "compress_start e fmt name raw =
     and_then (canonical_root e raw ''root not found'') (\<lambda>dir.
       let archive_path = path_join dir (components
             (case name of Some n \<Rightarrow> n | None \<Rightarrow> ''archive-'' @ he_now e @ ''.'' @ format_suffix_of fmt)) in
       guarded [ensure_run (symlink_dir_or True e dir) (Refused EXPECTATION_FAILED ''root is not a directory''),
                not_ignored e archive_path False (Refused EXPECTATION_FAILED ''file not found'')]
         (succeed (dir, archive_path)))"

text \<open>The route in the foreground, for an operation that nobody aborts.\<close>

definition operation_error :: "string \<Rightarrow> string \<Rightarrow> http_error" where
  "operation_error msg err = Refused EXPECTATION_FAILED (msg @ err)"

definition with_message :: "string \<Rightarrow> ('gi, 's, 'a) unpack \<Rightarrow> ('gi, 's, 'a) route" where
  "with_message msg m st = apfst (map_sum (operation_error msg) id) (m st)"

definition compress_route ::
  "'gi http_env \<Rightarrow> archiver \<Rightarrow> encoder \<Rightarrow> ArchiveFormat \<Rightarrow> string option \<Rightarrow> string \<Rightarrow> string list \<Rightarrow> ('gi, 's, DirectoryEntry) route" where
  "compress_route e v c fmt name raw files =
     and_then (compress_start e fmt name raw) (\<lambda>(dir, archive_path).
     and_then (with_message ''failed to compress files: '' (compress_files e v c fmt dir archive_path files)) (\<lambda>_.
     and_then (attempt (file_symlink_metadata e archive_path) Internal) (\<lambda>md.
       perform (to_api_entry e archive_path md))))"

definition decompress_start :: "'gi http_env \<Rightarrow> string \<Rightarrow> string \<Rightarrow> ('gi, 's, path \<times> Archive) route" where
  "decompress_start e raw file =
     and_then (canonical_root e raw ''root not found'') (\<lambda>dir.
       let source = path_join dir (components file) in
       guarded [ensure_run (dir_or True e dir) (Refused EXPECTATION_FAILED ''root is not a directory'')]
         (and_then (perform (dir_or False e source)) (\<lambda>is_dir.
            guarded [not_ignored e source is_dir (Refused NOT_FOUND ''file not found'')]
              (and_then (perform (archive_open e source)) (\<lambda>a.
               and_then (from_option a (Refused EXPECTATION_FAILED ''failed to open archive'')) (\<lambda>a.
                 succeed (dir, a)))))))"

text \<open>\<open>contents\<close>: what the crates read from the archive.\<close>

inductive decompresses ::
  "'gi http_env \<Rightarrow> int \<Rightarrow> (Archive \<Rightarrow> content) \<Rightarrow> string \<Rightarrow> string \<Rightarrow> ('gi, 's) file_state_scheme
     \<Rightarrow> http_error + unit \<Rightarrow> ('gi, 's) file_state_scheme \<Rightarrow> bool"
  for e :: "'gi http_env" and now :: int and contents :: "Archive \<Rightarrow> content" and raw name :: string where
  d_refused: "decompress_start e raw name st = (Inl err, st') \<Longrightarrow> decompresses e now contents raw name st (Inl err) st'"
| d_unpacked: "decompress_start e raw name st = (Inr (dir, a), st1) \<Longrightarrow>
    unpacks e now (ar_path a) dir (contents a) st1 r st2 \<Longrightarrow>
    and_then (with_message ''failed to decompress archive: '' (\<lambda>st. (r, st))) (\<lambda>_. attempt (file_chown e dir) Internal) st2
      = (r', st') \<Longrightarrow>
    decompresses e now contents raw name st r' st'"

end
