(* ===== verification/Archive_Safety.thy ===== *)
theory Archive_Safety
  imports Archives File_Routes_Safety
begin

unbundle bit_operations_syntax

text \<open>
  Properties of opening and unpacking archives (theory \<open>Archives\<close>): where it writes, what it
  charges, what a parallel extraction does, and what is read from headers and times.
\<close>

section \<open>Steps of unpacking\<close>

lemma accounts_slice [simp]: "accounts a (snd (allocate_in_path_slice q n b fs)) = accounts a fs"
  by (simp add: allocate_in_path_slice_def charge_cached_def accounts_def Let_def)

lemma accounts_allocate_accumulated [simp]:
  "accounts a (snd (snd (allocate_accumulated allocate_in_path_slice w fs))) = accounts a fs"
  using accounts_slice [of a "fw_parent w" "accumulated_bytes w" "fw_ignorant w" fs]
  by (auto simp: allocate_accumulated_def simp del: accounts_slice split: prod.split bool.split)

lemma accounts_fw_write [simp]:
  "accounts a (snd (snd (fw_write allocate_in_path_slice io w fs))) = accounts a fs"
  using accounts_allocate_accumulated [of a _ fs]
  by (auto simp: fw_write_def Let_def simp del: accounts_allocate_accumulated
      split: prod.split sum.split) (metis snd_conv)+

lemma on_account:
  fixes op :: "'gi Filesystem \<Rightarrow> 'r \<times> 'gi Filesystem"
  assumes "\<And>fs. accounts fs (snd (op fs))" and "Accounts \<in> L"
  shows "route_in L (\<lambda>st :: ('gi, 's) file_state_scheme. case op (sf_fs st) of (r, fs) \<Rightarrow> (g r, st\<lparr>sf_fs := fs\<rparr>)) anything"
proof (rule routes.stays_inI)
  fix s :: "('gi, 's) file_state_scheme"
  assume s: "wf_files s"
  obtain r fs where op: "op (sf_fs s) = (r, fs)" by fastforce
  have acc: "accounts (sf_fs s) fs" using assms(1) [of "sf_fs s"] op by simp
  then have "steps_of file_step L s (s\<lparr>sf_fs := fs\<rparr>)" using f_account assms(2) unfolding steps_of_def by blast
  then show "steps_of file_step L s (snd (case op (sf_fs s) of (r, fs) \<Rightarrow> (g r, s\<lparr>sf_fs := fs\<rparr>))) \<and>
      wf_files (snd (case op (sf_fs s) of (r, fs) \<Rightarrow> (g r, s\<lparr>sf_fs := fs\<rparr>))) \<and>
      anything (fst (case op (sf_fs s) of (r, fs) \<Rightarrow> (g r, s\<lparr>sf_fs := fs\<rparr>)))"
    using routes.wf_fs [OF s acc] op by simp
qed

lemma changing_stays:
  assumes "wf_path p" and "Changes \<in> L"
  shows "route_in L (cap_unit e (\<lambda>run. cap_set_permissions run p m)) (on_ok anything)"
    and "route_in L (cap_unit e (\<lambda>run. cap_set_times run p t a now)) (on_ok anything)"
  unfolding cap_unit_def
  by (rule routes.with_cap_stays [where l = Changes];
      use assms rel_confined [OF assms(1)] in \<open>simp add: cap_defs in_dir_confined on_ok_anything Let_def\<close>)+

lemma make_dirs_stay [stays]: "wf_path p \<Longrightarrow> Changes \<in> L \<Longrightarrow> route_in L (make_dirs e p) (on_ok anything)"
  unfolding make_dirs_def by (rule routes.changes_stay)

lemma parent_dirs_stay [stays]: "wf_path p \<Longrightarrow> Changes \<in> L \<Longrightarrow> route_in L (parent_dirs e p) (on_ok anything)"
  unfolding parent_dirs_def by (rule stays | (use wf_parent in blast))+

lemma set_mode_stays [stays]: "wf_path p \<Longrightarrow> Changes \<in> L \<Longrightarrow> route_in L (set_mode e p m) (on_ok anything)"
  unfolding set_mode_def by (rule stays changing_stays | assumption)+

lemma set_time_stays [stays]: "wf_path p \<Longrightarrow> Changes \<in> L \<Longrightarrow> route_in L (set_time e now p t) (on_ok anything)"
  unfolding set_time_def by (rule changing_stays)

lemma writer_new_stays [stays]:
  "wf_path p \<Longrightarrow> Changes \<in> L \<Longrightarrow> route_in L (writer_new e p m t) (on_ok anything)"
proof -
  have new: "route_in L (\<lambda>st. (fw_new (sf_fs st) c q p u, st)) (on_ok anything)" for c q u
    by (simp add: confines_def on_ok_anything)
  show "wf_path p \<Longrightarrow> Changes \<in> L \<Longrightarrow> route_in L (writer_new e p m t) (on_ok anything)"
    unfolding writer_new_def by (rule stays new | (simp add: confines_def from_option_def on_ok_anything split: option.split; fail))+
qed

lemma write_piece_stays:
  assumes "Writes \<in> L" and "Accounts \<in> L"
  shows "route_in L (write_piece e f c w) anything"
proof -
  have charge: "route_in L (\<lambda>st. case fw_write allocate_in_path_slice io w (sf_fs st) of
      (r, w, fs) \<Rightarrow> ((map_sum id (\<lambda>_. ()) r, w), st\<lparr>sf_fs := fs\<rparr>)) anything" for io
    using on_account [where op = "\<lambda>fs. case fw_write allocate_in_path_slice io w fs of (r, w, fs) \<Rightarrow> ((r, w), fs)"
        and g = "\<lambda>(r, w). (map_sum id (\<lambda>_. ()) r, w)" and L = L] assms(2)
      accounts_fw_write [of _ io w]
    by (simp add: case_prod_beta)
  show ?thesis
    unfolding write_piece_def by (rule confines_seq [OF io_stay [OF assms(1)]], rule charge)
qed

lemma copy_data_stays:
  fixes e :: "'gi http_env"
  assumes "Writes \<in> L" and "Accounts \<in> L"
  shows "route_in L (copy_data e f data w :: ('gi, 's) file_state_scheme \<Rightarrow> _) anything"
proof (induction data arbitrary: w)
  case (Cons x data)
  show ?case
  proof (cases "\<exists>chunk. x = Inr chunk \<and> chunk \<noteq> []")
    case True
    then obtain chunk where x: "x = Inr chunk" "chunk \<noteq> []" by blast
    have rest: "route_in L (\<lambda>st :: ('gi, 's) file_state_scheme. case y of (Inl err, w) \<Rightarrow> ((Inl err, w), st) | (Inr _, w) \<Rightarrow> copy_data e f data w st) anything"
      for y :: "unit result \<times> FileSystemWriter"
      using Cons.IH by (cases y; cases "fst y") (auto simp: confines_def)
    from confines_seq [OF write_piece_stays [OF assms], OF rest]
    show ?thesis using x by (simp add: case_prod_beta)
  next
    case False
    then show ?thesis by (cases x) (simp_all add: confines_def)
  qed
qed (simp add: confines_def)

lemma flush_file_stays [stays]:
  assumes "Writes \<in> L" and "Accounts \<in> L"
  shows "route_in L (flush_file e f w) (on_ok anything)"
proof -
  have charge: "route_in L (\<lambda>st. case allocate_accumulated allocate_in_path_slice w (sf_fs st) of
      (r, w, fs) \<Rightarrow> (r, st\<lparr>sf_fs := fs\<rparr>)) anything"
    using on_account [where op = "\<lambda>fs. case allocate_accumulated allocate_in_path_slice w fs of (r, w, fs) \<Rightarrow> (r, fs)"
        and g = id and L = L] assms(2) accounts_allocate_accumulated [of _ w]
    by (simp add: case_prod_beta)
  have "route_in L (\<lambda>st. case (case allocate_accumulated allocate_in_path_slice w (sf_fs st) of
      (r, w, fs) \<Rightarrow> (r, st\<lparr>sf_fs := fs\<rparr>)) of (x, st) \<Rightarrow> (case x of Inl err \<Rightarrow> (Inl err, st) | Inr _ \<Rightarrow> do_io e (IoFlush f) st))
      (on_ok anything)"
    by (rule confines_seq [OF charge], rule confines_case_sum_at)
      (simp_all add: confines_def on_ok_anything io_stay [OF assms(1), unfolded confines_def, rule_format])
  then show ?thesis
    by (simp add: flush_file_def [abs_def] case_prod_beta sum.case_distrib cong: sum.case_cong)
qed

lemma drop_file_stays:
  assumes "Writes \<in> L"
  shows "route_in L (\<lambda>st. (r, drop_file e f m st)) (on_ok anything)"
proof (cases m)
  case (Some t)
  have "route_in L (\<lambda>st. case do_io e (IoSetModified f t) st of (x, st) \<Rightarrow> (r, st)) (on_ok anything)"
    by (rule confines_seq [OF io_stay [OF assms]]) (simp add: confines_def on_ok_anything)
  then show ?thesis by (simp add: drop_file_def Some case_prod_beta)
qed (simp add: drop_file_def confines_def on_ok_anything)

lemma ending_stays:
  assumes "route_in L m (on_ok anything)" and "Writes \<in> L"
  shows "route_in L (\<lambda>st. apsnd (drop_file e f t) (m st)) (on_ok anything)"
proof -
  have "route_in L (\<lambda>st. case m st of (r, st) \<Rightarrow> (r, drop_file e f t st)) (on_ok anything)"
    by (rule confines_seq [OF assms(1)], rule drop_file_stays [OF assms(2)])
  then show ?thesis by (simp add: apsnd_def map_prod_def case_prod_beta)
qed

text \<open>A file: the copy, and what follows it.\<close>

lemma copied_stays:
  assumes "Writes \<in> L" and "Accounts \<in> L" and "\<And>r w. route_in L (k r w) (on_ok anything)"
  shows "route_in L (\<lambda>st. case copy_data e f data w st of ((r, w), st) \<Rightarrow> k r w st) (on_ok anything)"
  using confines_seq [OF copy_data_stays [OF assms(1,2)], where f = "\<lambda>x. k (fst x) (snd x)" and A = "on_ok anything"] assms(3)
  by (simp add: case_prod_beta)

lemma files_stay [stays]:
  assumes "wf_path p" and "Changes \<in> L" and "Writes \<in> L" and "Accounts \<in> L"
  shows "route_in L (unpack_file e p m t data) (on_ok anything)"
    and "route_in L (rar_unpack_file e p t data) (on_ok anything)"
proof -
  have flush: "route_in L (flush_file e f w) (on_ok anything)" for f w
    by (rule flush_file_stays [OF assms(3,4)])
  show "route_in L (unpack_file e p m t data) (on_ok anything)"
  proof -
    have "route_in L (case r of Inl err \<Rightarrow> (\<lambda>st. (Inl err, drop_file e f t st))
        | Inr _ \<Rightarrow> (\<lambda>st. apsnd (drop_file e f t) (flush_file e f w st))) (on_ok anything)" for r :: "unit result" and f w
      by (rule confines_case_sum; rule drop_file_stays [OF assms(3)] ending_stays [OF flush assms(3)])
    from copied_stays [OF assms(3,4) this, where e = e and data = data]
    show ?thesis
      unfolding unpack_file_def
      by (intro confines_and_then [OF writer_new_stays [OF assms(1,2)]])
        (simp add: case_prod_beta sum.case_distrib [where h = "\<lambda>g. g _"] cong: sum.case_cong)
  qed
  show "route_in L (rar_unpack_file e p t data) (on_ok anything)"
  proof -
    have "route_in L (\<lambda>st. case flush_file e f w st of (x, st) \<Rightarrow> (case x of Inl err \<Rightarrow> (Inl err, drop_file e f t st)
        | Inr _ \<Rightarrow> (r, drop_file e f t st))) (on_ok anything)" for r :: "unit result" and f w
      by (rule confines_seq [OF flush], rule confines_case_sum_at; rule drop_file_stays [OF assms(3)])
    from copied_stays [OF assms(3,4) this, where e = e and data = data]
    show ?thesis
      unfolding rar_unpack_file_def
      by (intro confines_and_then [OF writer_new_stays [OF assms(1,2)]])
        (simp add: case_prod_beta sum.case_distrib cong: sum.case_cong)
  qed
qed

lemma link_stays [stays]:
  assumes "wf_path p" and "Changes \<in> L"
  shows "route_in L (unpack_link e now target p t) (on_ok anything)"
proof -
  have timed: "route_in L (\<lambda>st. case t of None \<Rightarrow> (Inr (), st) | Some t \<Rightarrow> set_time e now p t st) (on_ok anything)"
    by (rule confines_case_option_at) (use set_time_stays [OF assms] in \<open>auto simp: confines_def\<close>)
  show ?thesis
    unfolding unpack_link_def
    by (rule confines_seq [OF routes.changes_stay(9) [OF _ assms(2)]], rule wf_components, rule assms(1),
        rule confines_case_sum_at, simp add: confines_def, rule timed)
qed

lemma skip_stays [stays]:
  "route_in L m (on_ok A) \<Longrightarrow> A x \<Longrightarrow> route_in L (skip_ignored e p d x m) (on_ok A)"
  unfolding skip_ignored_def [abs_def] by (rule confines_choice) (auto simp: confines_def succeed_def)

definition timed_dirs :: "(path \<times> int) list \<Rightarrow> bool" where
  "timed_dirs dirs \<longleftrightarrow> list_all (wf_path \<circ> fst) dirs"

lemma timed_dirs_simps [simp]:
  "timed_dirs []" "timed_dirs (dirs @ [(p, t)]) \<longleftrightarrow> timed_dirs dirs \<and> wf_path p"
  by (auto simp: timed_dirs_def)

lemma dir_times_stay [stays]: "timed_dirs dirs \<Longrightarrow> Changes \<in> L \<Longrightarrow> route_in L (dir_times e now dirs) (on_ok anything)"
proof (induction e now dirs rule: dir_times.induct)
  case (2 e now p t dirs)
  then show ?case
    unfolding dir_times.simps by (intro confines_and_then [OF set_time_stays]) (auto simp: timed_dirs_def)
qed (simp add: confines_pure)

lemma succeed_stays: "A x \<Longrightarrow> confines r I (succeed x) (on_ok A)"
  by (simp add: confines_def succeed_def)

lemmas unpacking =
  skip_stays confines_and_then [where A = anything] make_dirs_stay set_mode_stays parent_dirs_stay files_stay link_stays
  succeed_stays confines_pure(2-)

lemma tar_one_stays:
  assumes "wf_path dest" and "timed_dirs dirs"
  shows "route_in editing (tar_one e now dest en dirs) (on_ok timed_dirs)"
proof -
  have p: "wf_path (path_join dest (components (en_path en)))" by (rule wf_joined [OF assms(1)])
  have times: "route_in editing (succeed (case m of None \<Rightarrow> dirs | Some t \<Rightarrow> dirs @ [(path_join dest (components (en_path en)), t)]))
      (on_ok timed_dirs)" for m
    by (rule succeed_stays) (use p assms(2) in \<open>simp split: option.split\<close>)
  have unchanged: "route_in editing (succeed dirs) (on_ok timed_dirs)" by (rule succeed_stays, rule assms(2))
  show ?thesis
    using p assms(2)
    by (cases "en_kind en")
      (auto simp: tar_one_def Let_def unchanged intro!: unpacking times)
qed

lemma tar_all_stays: "wf_path dest \<Longrightarrow> timed_dirs dirs \<Longrightarrow> route_in editing (tar_all e now dest es dirs) (on_ok anything)"
proof (induction es arbitrary: dirs)
  case (Cons x es)
  show ?case
  proof (cases x)
    case (Inr en)
    show ?thesis
      unfolding Inr tar_all.simps
      by (rule confines_and_then [OF tar_one_stays [OF Cons.prems]], rule Cons.IH [OF Cons.prems(1)])
  qed (simp add: dir_times_stay Cons.prems)
qed (simp add: dir_times_stay)

lemma rar_one_stays:
  assumes "wf_path dest" and "timed_dirs dirs"
  shows "route_in editing (rar_one e dest x dirs) (on_ok timed_dirs)"
proof -
  obtain aborted en where x: "x = (aborted, en)" by fastforce
  let ?p = "path_join dest (components (re_path en))"
  have p: "wf_path ?p" by (rule wf_joined [OF assms(1)])
  have unchanged: "route_in editing (succeed dirs) (on_ok timed_dirs)" by (rule succeed_stays, rule assms(2))
  show ?thesis
    using p assms(2) by (auto simp: rar_one_def x Let_def unchanged split: option.split intro!: unpacking)
qed

lemma rar_all_stays: "wf_path dest \<Longrightarrow> timed_dirs dirs \<Longrightarrow> route_in editing (rar_all e now dest es dirs) (on_ok anything)"
proof (induction es arbitrary: dirs)
  case (Cons x es)
  show ?case
  proof (cases x)
    case (Inr en)
    show ?thesis
      unfolding Inr rar_all.simps
      by (rule confines_and_then [OF rar_one_stays [OF Cons.prems]], rule Cons.IH [OF Cons.prems(1)])
  qed (simp add: confines_pure)
qed (simp add: dir_times_stay)

lemma rar_stays:
  assumes "wf_path dest"
  shows "route_in editing (unpack_rar e now library path dest) (on_ok anything)"
proof -
  have "route_in editing (\<lambda>st. rar_all e now dest es [] st) (on_ok anything)" for es
    using rar_all_stays [OF assms, of "[]"] by simp
  then show ?thesis
    by (fastforce simp: unpack_rar_def confines_def on_ok_anything split: sum.split)
qed

lemma zip_one_stays:
  assumes "wf_path dest"
  shows "route_in editing (zip_one e now dest x) (on_ok anything)"
proof (cases x)
  case (Inr en)
  show ?thesis
  proof (cases "ze_path en")
    case (Some raw)
    have "wf_path (path_join dest (components raw))" by (rule wf_joined [OF assms])
    then show ?thesis
      by (cases "ze_kind en") (auto simp: zip_one_def Inr Some Let_def confines_pure intro!: unpacking)
  qed (simp add: zip_one_def Inr confines_pure)
qed (simp add: zip_one_def confines_pure)

lemma zip_dir_times_stay:
  assumes "wf_path dest"
  shows "route_in editing (zip_dir_times e now dest es) (on_ok anything)"
proof (induction es)
  case (Cons x es)
  show ?case
  proof (cases x)
    case (Inr en)
    have "wf_path (path_join dest (components raw))" for raw by (rule wf_joined [OF assms])
    then show ?thesis
      unfolding Inr zip_dir_times.simps
      by (intro confines_and_then [where A = anything, OF _ Cons.IH])
        (auto simp: Let_def confines_pure set_time_stays split: entry_kind.split option.split intro!: skip_stays)
  qed (simp add: confines_pure)
qed (simp add: confines_pure)

lemma seven_one_stays:
  assumes "wf_path dest"
  shows "route_in editing (seven_one e dest en) (on_ok anything)"
proof -
  have "wf_path (path_join dest (components (se_path en)))" by (rule wf_joined [OF assms])
  then show ?thesis by (auto simp: seven_one_def Let_def confines_pure intro!: unpacking)
qed

lemma seven_block_stays:
  assumes "wf_path dest"
  shows "route_in editing (seven_block e dest es) (on_ok anything)"
proof (induction es)
  case (Cons x es)
  then show ?case by (cases x) (auto simp: confines_pure intro!: confines_and_then [OF seven_one_stays [OF assms]])
qed (simp add: confines_pure)

lemma seven_dir_times_stay:
  assumes "wf_path dest"
  shows "route_in editing (seven_dir_times e now dest es) (on_ok anything)"
proof (induction es)
  case (Cons en es)
  have "wf_path (path_join dest (components (se_path en)))" by (rule wf_joined [OF assms])
  then show ?case
    unfolding seven_dir_times.simps
    by (intro confines_and_then [where A = anything, OF _ Cons.IH])
      (auto simp: Let_def confines_pure set_time_stays split: bool.split option.split intro!: skip_stays)
qed (simp add: confines_pure)

lemma single_stays:
  assumes "wf_path path" and "wf_path dest"
  shows "route_in editing (unpack_single e path dest data) (on_ok anything)"
  unfolding unpack_single_def
  by (intro confines_and_then [where A = anything] confines_pure routes.lookups_stay files_stay wf_joined)
    (use assms in simp_all)

section \<open>The pool\<close>

text \<open>The items that are done, one after the other.\<close>

fun in_order :: "(nat \<Rightarrow> ('st, string, unit) handler) \<Rightarrow> nat list \<Rightarrow> 'st \<Rightarrow> unit result list \<times> 'st" where
  "in_order work [] s = ([], s)"
| "in_order work (i # is) s = (case work i s of (r, s) \<Rightarrow> apfst (Cons r) (in_order work is s))"

lemma in_order_snoc:
  "in_order work (is @ [i]) s =
     (case in_order work is s of (rs, s) \<Rightarrow> (case work i s of (r, s) \<Rightarrow> (rs @ [r], s)))"
  by (induction "is" arbitrary: s) (simp_all split: prod.split)

text \<open>The error a pool records is one of its items, and there is none when all went well.\<close>

definition recorded :: "string option \<Rightarrow> unit result list \<Rightarrow> bool" where
  "recorded err rs \<longleftrightarrow>
     (case err of None \<Rightarrow> list_all (\<lambda>r. \<not> isl r) rs | Some x \<Rightarrow> Inl x \<in> set rs)"

lemma recorded_snoc: "recorded err rs \<Longrightarrow> recorded (case r of Inl x \<Rightarrow> Some x | Inr _ \<Rightarrow> err) (rs @ [r])"
  by (cases r; cases err) (simp_all add: recorded_def)

definition pool_ok :: "(nat \<Rightarrow> ('st, string, unit) handler) \<Rightarrow> nat \<Rightarrow> 'st \<Rightarrow> 'st pool \<Rightarrow> bool" where
  "pool_ok work n s p \<longleftrightarrow>
     distinct (po_done p) \<and> po_running p \<inter> set (po_done p) = {} \<and> po_taken p = po_running p \<union> set (po_done p) \<and>
     po_taken p \<subseteq> {..<n} \<and>
     (\<exists>rs. in_order work (po_done p) s = (rs, po_state p) \<and> recorded (po_error p) rs)"

lemma pool_ok_new: "pool_ok work n s (new_pool s)"
  by (simp add: pool_ok_def new_pool_def recorded_def)

lemma pool_ok_step: "pool_step work n p q \<Longrightarrow> pool_ok work n s p \<Longrightarrow> pool_ok work n s q"
proof (induction rule: pool_step.induct)
  case (end_item i p r t)
  then obtain rs where rs: "in_order work (po_done p) s = (rs, po_state p)" "recorded (po_error p) rs"
    by (auto simp: pool_ok_def)
  then have "in_order work (po_done p @ [i]) s = (rs @ [r], t)" using end_item(2) by (simp add: in_order_snoc)
  then show ?case using end_item(1,3) recorded_snoc [OF rs(2), of r] by (auto simp: pool_ok_def)
qed (auto simp: pool_ok_def)

lemma pool_ok_reach: "(pool_step work n)\<^sup>*\<^sup>* (new_pool s) p \<Longrightarrow> pool_ok work n s p"
  by (induction rule: rtranclp_induct) (auto intro: pool_ok_new pool_ok_step)

text \<open>What the work on every item may do, the pool may do.\<close>

lemma pool_stays:
  assumes "(pool_step work n)\<^sup>*\<^sup>* (new_pool s) p" and "\<And>i. confines r I (work i) A" and "I s"
  shows "r\<^sup>*\<^sup>* s (po_state p) \<and> I (po_state p)"
  using assms(1)
proof (induction rule: rtranclp_induct)
  case base
  then show ?case using assms(3) by (simp add: new_pool_def)
next
  case (step p q)
  from step(2) show ?case
  proof cases
    case (end_item i x t)
    then have "r\<^sup>*\<^sup>* (po_state p) t" "I t" using confinesD [OF assms(2) conjunct2 [OF step.IH], of i] by auto
    then show ?thesis using end_item(1) step.IH by auto
  qed (use step.IH in simp)
qed

lemma pooled_stays:
  assumes "pooled work n after s x t" and "\<And>i. confines r I (work i) A" and "confines r I after B" and "I s"
  shows "r\<^sup>*\<^sup>* s t \<and> I t"
  using assms(1)
proof cases
  case (pooled_error p err)
  then show ?thesis using pool_stays [where work = work, OF pooled_error(3) assms(2,4)] by simp
next
  case (pooled_done p)
  note p = pool_stays [where work = work, OF pooled_done(1) assms(2,4)]
  then have "r\<^sup>*\<^sup>* (po_state p) t" "I t" using confinesD [OF assms(3) conjunct2 [OF p]] pooled_done(4) by auto
  then show ?thesis using p by auto
qed

section \<open>Properties\<close>

lemma unpacks_stays:
  assumes "unpacks e now path dest content st r st'" and "wf_path path" and "wf_path dest" and "wf_files st"
  shows "(steps_of file_step editing)\<^sup>*\<^sup>* st st'"
  using assms(1)
proof cases
  case (u_single data)
  then show ?thesis using confinesD(1) [OF single_stays [OF assms(2,3), of e data] assms(4)] by simp
next
  case (u_tar tape)
  have stays: "route_in editing (unpack_tar e now dest tape) (on_ok anything)"
    using tar_all_stays [OF assms(3) timed_dirs_simps(1)] by (auto simp: unpack_tar_def confines_pure split: sum.split)
  show ?thesis using u_tar confinesD(1) [OF stays assms(4)] by simp
next
  case (u_rar library)
  then show ?thesis using confinesD(1) [OF rar_stays [OF assms(3), of e now library path] assms(4)] by simp
next
  case (u_zip es)
  show ?thesis using pooled_stays [OF u_zip(2) zip_one_stays [OF assms(3)] zip_dir_times_stay [OF assms(3)] assms(4)] by simp
next
  case (u_seven bs es)
  show ?thesis
    using pooled_stays [OF u_seven(2) seven_block_stays [OF assms(3)] seven_dir_times_stay [OF assms(3)] assms(4)] by simp
qed simp_all

lemma unpacks_accounts:
  assumes "unpacks e now path dest content st r st'" and "wf_path path" and "wf_path dest"
    and "fs_base_path (sf_fs st) \<noteq> []"
  shows "accounts (sf_fs st) (sf_fs st')"
    and "\<exists>cs. sf_calls st' = sf_calls st @ cs \<and> list_all (confined (cap_of (sf_fs st))) cs"
  using file_steps_inv [OF unpacks_stays [OF assms(1-3)]] assms(4) by (auto simp: wf_files_def)

text \<open>
  C0: Whatever is in an archive, and however the threads that unpack it are scheduled, every
  file, directory and link is made inside the server's directory: each call on the directory
  handle has only paths without a root and without \<open>..\<close>, each other call is on the server's
  directory itself, and the server's directory and its limit stay as they are.
\<close>

theorem unpacking_confined:
  assumes "unpacks e now path dest content st r st'" and "wf_path path" and "wf_path dest"
    and "fs_base_path (sf_fs st) \<noteq> []"
  shows "accounts (sf_fs st) (sf_fs st') \<and>
     (\<exists>cs. sf_calls st' = sf_calls st @ cs \<and> list_all (confined (cap_of (sf_fs st))) cs)"
  using unpacks_accounts [OF assms] by blast

definition evil_entry :: archive_entry where
  "evil_entry = \<lparr>en_path = ''../../etc/cron.d/x'', en_kind = Plain, en_mode = None, en_mtime = None, en_link = [],
     en_data = [Inr ''root'']\<rparr>"

theorem unpacking_confined_witness:
  "\<exists>r st'. unpack_tar http_sample_env 0 [] (Inr [Inr evil_entry]) http_sample_state = (r, st') \<and>
     accounts (sf_fs http_sample_state) (sf_fs st')"
proof -
  obtain r st' where run: "unpack_tar http_sample_env 0 [] (Inr [Inr evil_entry]) http_sample_state = (r, st')" by fastforce
  have "fs_base_path (sf_fs http_sample_state) \<noteq> []" by (simp add: http_sample_state_def new_filesystem_def)
  then show ?thesis
    using unpacking_confined [OF u_tar [OF run], where path = "[]"] run by (simp add: wf_path_def)
qed

text \<open>
  C0: A parallel extraction is a sequential one in some order: every item is worked on at
  most once, the files are those of the items done one after the other, and when it ends
  without an error every item was done and none of them failed.
\<close>

theorem pool_is_sequential:
  assumes "(pool_step work n)\<^sup>*\<^sup>* (new_pool s) p"
  shows "distinct (po_done p) \<and> set (po_done p) \<subseteq> {..<n} \<and> po_state p = snd (in_order work (po_done p) s) \<and>
     (pool_finished n p \<and> po_error p = None \<longrightarrow>
        set (po_done p) = {..<n} \<and> list_all (\<lambda>r. r = Inr ()) (fst (in_order work (po_done p) s)))"
proof -
  have ok: "pool_ok work n s p" by (rule pool_ok_reach [OF assms])
  moreover have "set (po_done p) = {..<n}" if "pool_finished n p" "po_error p = None"
    using that ok by (auto simp: pool_finished_def pool_ok_def)
  moreover have "\<not> isl r \<longleftrightarrow> r = Inr ()" for r :: "unit result" by (cases r) simp_all
  ultimately show ?thesis by (auto simp: pool_ok_def recorded_def)
qed

theorem pool_is_sequential_witness:
  "\<exists>p. (pool_step (\<lambda>i s. (Inr (), s @ [i])) 2)\<^sup>*\<^sup>* (new_pool []) p \<and> po_state p = [1, 0] \<and> set (po_done p) = {..<2}"
proof -
  let ?work = "\<lambda>i s. (Inr () :: unit result, s @ [i])"
  let ?p = "\<lambda>s taken running dn. \<lparr>po_state = s, po_taken = taken, po_running = running, po_done = dn, po_error = None\<rparr>"
  have "pool_step ?work 2 (new_pool []) (?p [] {0} {0} [])"
    using take_item [of 0 2 "new_pool []" ?work] by (simp add: new_pool_def)
  moreover have "pool_step ?work 2 (?p [] {0} {0} []) (?p [] {1, 0} {1, 0} [])"
    using take_item [of 1 2 "?p [] {0} {0} []" ?work] by simp
  moreover have "pool_step ?work 2 (?p [] {1, 0} {1, 0} []) (?p [1] {1, 0} {0} [1])"
    using end_item [of 1 "?p [] {1, 0} {1, 0} []" ?work "Inr ()" "[1]" 2] by simp
  moreover have "pool_step ?work 2 (?p [1] {1, 0} {0} [1]) (?p [1, 0] {1, 0} {} [1, 0])"
    using end_item [of 0 "?p [1] {1, 0} {0} [1]" ?work "Inr ()" "[1, 0]" 2] by simp
  ultimately have run: "(pool_step ?work 2)\<^sup>*\<^sup>* (new_pool []) (?p [1, 0] {1, 0} {} [1, 0])"
    by (meson rtranclp.rtrancl_refl rtranclp.rtrancl_into_rtrancl)
  have "pool_finished 2 (?p [1, 0] {1, 0} {} [1, 0])" by (auto simp: pool_finished_def)
  then have "set (po_done (?p [1, 0] {1, 0} {} [1, 0])) = {..<2}" using pool_is_sequential [OF run] by force
  then show ?thesis using run by (intro exI [of _ "?p [1, 0] {1, 0} {} [1, 0]"]) simp
qed

text \<open>
  C0: An extraction ends: while the pool has not finished some thread can go on, and every
  step brings it nearer to its end, whatever the threads do.
\<close>

definition pool_left :: "nat \<Rightarrow> 'st pool \<Rightarrow> nat" where
  "pool_left n p = 2 * (n - card (po_taken p)) + card (po_running p)"

theorem pool_ends:
  assumes "(pool_step work n)\<^sup>*\<^sup>* (new_pool s) p"
  shows "(\<not> pool_finished n p \<longrightarrow> (\<exists>q. pool_step work n p q)) \<and>
     (\<forall>q. pool_step work n p q \<longrightarrow> pool_left n q < pool_left n p)"
proof (intro conjI impI allI)
  have ok: "pool_ok work n s p" by (rule pool_ok_reach [OF assms])
  have sub: "po_taken p \<subseteq> {..<n}" "po_running p \<subseteq> po_taken p" using ok by (auto simp: pool_ok_def)
  then have fin: "finite (po_taken p)" "finite (po_running p)" by (auto intro: finite_subset)
  show "\<exists>q. pool_step work n p q" if "\<not> pool_finished n p"
  proof (cases "po_running p = {}")
    case True
    then have "po_error p = None" "\<not> {..<n} \<subseteq> po_taken p" using that by (simp_all add: pool_finished_def)
    then obtain i where "i < n" "i \<notin> po_taken p" "po_error p = None" by blast
    then show ?thesis by (blast intro: take_item)
  next
    case False
    then obtain i where "i \<in> po_running p" by blast
    then show ?thesis by (metis end_item surj_pair)
  qed
  fix q
  assume "pool_step work n p q"
  then show "pool_left n q < pool_left n p"
  proof cases
    case (take_item i)
    have "card (insert i (po_taken p)) \<le> n" using sub(1) take_item(2) card_mono [of "{..<n}" "insert i (po_taken p)"] by auto
    then have "card (po_taken p) < n" using take_item(3) fin(1) by simp
    moreover have "i \<notin> po_running p" using take_item(3) sub(2) by blast
    ultimately show ?thesis using take_item fin by (simp add: pool_left_def)
  next
    case (end_item i r t)
    have "card (po_running p - {i}) < card (po_running p)" by (rule psubset_card_mono [OF fin(2)]) (use end_item in blast)
    then show ?thesis using end_item by (simp add: pool_left_def)
  qed
qed

theorem pool_ends_witness:
  "\<exists>q. pool_step (\<lambda>i s. (Inr (), s + i)) 2 (new_pool (0 :: nat)) q \<and> pool_left 2 q < pool_left 2 (new_pool (0 :: nat))"
proof -
  have "\<not> pool_finished 2 (new_pool (0 :: nat))" by (simp add: pool_finished_def new_pool_def lessThan_empty_iff)
  then show ?thesis using pool_ends [of "\<lambda>i s. (Inr (), s + i)" 2 "0 :: nat" "new_pool 0"] by blast
qed

text \<open>
  C0: The archive of a server is opened inside its directory, but a RAR archive is then read
  by its name on the host: for an absolute path the library opens the file of that name
  anywhere on the host, and for a path that starts with \<open>..\<close> one beside the server's
  directory, in place of the file that was opened and checked.
\<close>

theorem rar_archive_outside:
  assumes "archive_open e path st = (Some a, st')" and "wf_path path" and "fs_base_path (sf_fs st) \<noteq> []"
  shows "(\<exists>q. sf_calls st' = sf_calls st @ [InDir D_Open [q]] \<and> local_path q) \<and> ar_path a = path \<and>
     (\<forall>p. path = RootDir # p \<longrightarrow> rar_file (fs_base_path (sf_fs st)) (ar_path a) = RootDir # p) \<and>
     (\<forall>p. path = ParentDir # p \<longrightarrow> rar_file (fs_base_path (sf_fs st)) (ar_path a) = fs_base_path (sf_fs st) @ ParentDir # p)"
proof -
  have "local_path (rel (cap_of (sf_fs st)) path)"
    using rel_confined [OF assms(2), of "cap_of (sf_fs st)"] assms(3) by (simp add: local_path_def cap_of_def)
  moreover have "ar_path a = path" "\<exists>r cs. sf_calls st' = sf_calls st @ cs \<and>
      cap_open (run_now e st) path (cap_of (sf_fs st)) = (Inr r, cs)"
    using assms(1)
    by (auto simp: archive_open_def file_open_def with_cap_def typed_def apfst_def map_prod_def
        split: prod.splits sum.splits option.splits)
  moreover have "cs = [InDir D_Open [rel (cap_of (sf_fs st)) path]]"
    if "cap_open (run_now e st) path (cap_of (sf_fs st)) = (Inr r, cs)" for r cs
    using that by (auto simp: cap_open_def in_dir_def split: if_splits)
  ultimately show ?thesis by (auto simp: rar_file_def)
qed

theorem rar_archive_outside_witness:
  "\<exists>a st'. archive_open http_sample_env [RootDir, Normal ''x.rar''] http_sample_state = (Some a, st') \<and>
     rar_file (fs_base_path (sf_fs http_sample_state)) (ar_path a) = [RootDir, Normal ''x.rar'']"
proof -
  have "fst (archive_open http_sample_env [RootDir, Normal ''x.rar''] http_sample_state) \<noteq> None"
    by (simp add: archive_open_def file_open_def with_cap_def typed_def cap_open_def in_dir_def http_sample_env_def
        http_sample_run_def run_now_def cap_of_def
        http_sample_state_def new_filesystem_def apfst_def map_prod_def split: prod.split)
  then obtain a st' where run: "archive_open http_sample_env [RootDir, Normal ''x.rar''] http_sample_state = (Some a, st')"
    by (metis option.exhaust_sel prod.collapse)
  have "wf_path [RootDir, Normal ''x.rar'']" "fs_base_path (sf_fs http_sample_state) \<noteq> []"
    by (simp_all add: wf_path_def http_sample_state_def new_filesystem_def)
  then show ?thesis using rar_archive_outside [OF run] run by blast
qed

text \<open>
  C0: An entry of a tar archive that cannot be read ends the extraction without an error:
  the result is that of an archive that stops there. So a damaged archive, and an abort
  between two entries, are reported as success.
\<close>

theorem damaged_tar_succeeds:
  "tar_all e now dest (map Inr ens @ Inl err # es) dirs st = tar_all e now dest (map Inr ens) dirs st"
  by (induction ens arbitrary: dirs st) (simp_all add: and_then_def split: prod.split sum.split)

text \<open>
  C0: An entry of a RAR archive is checked against the denied files under the name it has in
  the archive and not under the one it gets: an archive that is unpacked into a directory
  writes a denied file there, where a tar archive leaves it out.
\<close>

theorem rar_ignores_destination:
  assumes "\<not> route_ignored e (components nam) False st" and "route_ignored e (path_join dest (components nam)) False st"
    and "\<not> is_absolute (components nam)"
  shows "rar_one e dest (False, \<lparr>re_path = nam, re_dir = False, re_dos_time = t, re_data = data\<rparr>) dirs st =
       and_then (parent_dirs e (path_join dest (components nam)))
         (\<lambda>_. and_then (rar_unpack_file e (path_join dest (components nam)) (map_option int (dos_time_to_unix t)) data)
            (\<lambda>_. succeed dirs)) st \<and>
     tar_one e now dest \<lparr>en_path = nam, en_kind = Plain, en_mode = m, en_mtime = mt, en_link = l, en_data = data\<rparr> dirs st =
       (Inr dirs, st)"
  using assms by (simp add: rar_one_def tar_one_def skip_ignored_def Let_def succeed_def)

end
