(* ===== verification/Archive_Accounts.thy ===== *)
theory Archive_Accounts
  imports Archive_Safety
begin

unbundle bit_operations_syntax

text \<open>
  What unpacking a tar archive charges to the disk usage, and what is read from the headers
  of compressed files and the times of entries (theory \<open>Archives\<close>).
\<close>

lemma le_bytes_simps [simp]: "le_bytes [] = 0" "le_bytes (b # bs) = unat b + 256 * le_bytes bs"
  by (simp_all add: le_bytes_def)

section \<open>What stays of the file system\<close>

definition keeps :: "'gi Filesystem \<Rightarrow> 'gi Filesystem \<Rightarrow> bool" where
  "keeps fs fs' \<longleftrightarrow> disk_ignored fs' = disk_ignored fs \<and> disk_limit fs' = disk_limit fs \<and>
     (within_limit fs \<and> sint (disk_limit fs) < 2 ^ 62 \<longrightarrow> within_limit fs')"

lemma keeps_refl [simp]: "keeps fs fs"
  by (simp add: keeps_def)

lemma keeps_trans: "keeps a b \<Longrightarrow> keeps b c \<Longrightarrow> keeps a c"
  by (auto simp: keeps_def)

lemma with_cap_fs [simp]: "sf_fs (snd (with_cap e op st)) = sf_fs st"
  by (simp add: with_cap_def split: prod.split)

lemma do_io_fs [simp]: "sf_fs (snd (do_io e op st)) = sf_fs st"
  by (simp add: do_io_def)

lemma drop_file_fs [simp]: "sf_fs (drop_file e f m st) = sf_fs st"
  by (simp add: drop_file_def split: option.split)

lemma same_fs:
  "make_dirs e p st = (r, st') \<Longrightarrow> sf_fs st' = sf_fs st"
  "parent_dirs e p st = (r, st') \<Longrightarrow> sf_fs st' = sf_fs st"
  "set_mode e p m st = (r, st') \<Longrightarrow> sf_fs st' = sf_fs st"
  "set_time e now p t st = (r, st') \<Longrightarrow> sf_fs st' = sf_fs st"
  "unpack_link e now l p t' st = (r, st') \<Longrightarrow> sf_fs st' = sf_fs st"
  by (auto simp: make_dirs_def parent_dirs_def set_mode_def set_time_def cap_unit_def unpack_link_def succeed_def
      split: option.splits prod.splits sum.splits dest: arg_cong [where f = "sf_fs \<circ> snd"])
    (metis with_cap_fs snd_conv)+

lemma dir_times_fs: "dir_times e now dirs st = (r, st') \<Longrightarrow> sf_fs st' = sf_fs st"
  by (induction e now dirs arbitrary: st rule: dir_times.induct)
     (auto simp: and_then_def succeed_def split: prod.splits sum.splits dest: same_fs)

section \<open>The writer of an entry\<close>

lemma allocate_accumulated_fields:
  "allocate_accumulated al w fs = (r, w', fs') \<Longrightarrow> current_position w' = current_position w \<and>
     highest_position w' = highest_position w \<and> fw_writer w' = fw_writer w \<and> fw_ignorant w' = fw_ignorant w"
  by (auto simp: allocate_accumulated_def split: if_splits prod.splits bool.splits)

lemma allocate_accumulated_keeps:
  assumes "fsq.accounts base w fs" and "\<not> fw_ignorant w"
    and "allocate_accumulated allocate_in_path_slice w fs = (r, w', fs')"
  shows "keeps fs fs'"
proof (cases "0 < sint (accumulated_bytes w)")
  case True
  let ?r = "allocate_in_path_slice (fw_parent w) (accumulated_bytes w) False fs"
  have fs': "fs' = snd ?r"
    using assms(2,3) True by (auto simp: allocate_accumulated_def split: prod.splits bool.splits)
  have "sint (accumulated_bytes w) < 2 ^ 62"
    using assms(1) unfolding fsq.accounts_def by (auto simp del: of_nat_unat)
  then have "within_limit fs'" if "within_limit fs" "sint (disk_limit fs) < 2 ^ 62"
    using that quota_step_within [of fs "accumulated_bytes w" "fw_parent w"]
    by (cases "disk_limit fs = 0") (simp_all add: fs' within_limit_def)
  moreover have "disk_ignored fs' = disk_ignored fs" "disk_limit fs' = disk_limit fs"
    by (simp_all add: fs' allocate_slice_cases charge_cached_def Let_def)
  ultimately show ?thesis by (simp add: keeps_def)
qed (use assms(3) in \<open>auto simp: allocate_accumulated_def\<close>)

text \<open>A writer that has written \<open>n\<close> bytes from the start of its file.\<close>

definition written :: "int \<Rightarrow> nat \<Rightarrow> FileSystemWriter \<Rightarrow> 'gi Filesystem \<Rightarrow> bool" where
  "written base n w fs \<longleftrightarrow> fsq.accounts base w fs \<and> unat (current_position w) = n \<and>
     highest_position w = current_position w \<and> fw_writer w \<and> \<not> fw_ignorant w"

lemma advance_highest:
  assumes "highest_position w = current_position w" and "unat (current_position w) + unat n < 2 ^ 62"
  shows "highest_position (advance n w) = current_position w + n"
proof (cases "n = 0")
  case False
  then have "0 < unat n" by (simp add: unat_gt_0)
  moreover have "unat (current_position w + n) = unat (current_position w) + unat n"
    using assms(2) by (intro unat_plus_small) simp
  ultimately have "current_position w < current_position w + n" unfolding word_less_nat_alt by linarith
  then show ?thesis using assms(1) by (simp add: advance_def Let_def)
qed (use assms(1) in \<open>simp add: advance_def Let_def\<close>)

lemma write_piece_ok:
  assumes "write_piece e f c w st = ((Inr (), w'), st')"
  shows "\<exists>r. fw_write allocate_in_path_slice (Inr (word_of_nat (length c))) w (sf_fs st) = (Inr r, w', sf_fs st')"
proof (cases "he_io e (sf_io st) (IoWrite f c)")
  case (Inl err)
  then show ?thesis using assms by (simp add: write_piece_def do_io_def fw_write_def split: if_splits)
next
  case (Inr u)
  obtain r w1 fs where "fw_write allocate_in_path_slice (Inr (word_of_nat (length c))) w (sf_fs st) = (r, w1, fs)"
    by (metis prod_cases3)
  then show ?thesis using assms Inr by (cases r) (auto simp: write_piece_def do_io_def)
qed

lemma write_piece_written:
  assumes "written base n w (sf_fs st)" and "n + length c < 2 ^ 62"
    and "write_piece e f c w st = ((Inr (), w'), st')"
  shows "written base (n + length c) w' (sf_fs st') \<and> keeps (sf_fs st) (sf_fs st')"
proof -
  let ?n = "word_of_nat (length c) :: u64" and ?w = "advance (word_of_nat (length c)) w"
  have len: "unat ?n = length c" using assms(2) by (simp add: unsigned_of_nat take_bit_nat_eq_self)
  obtain r where run: "fw_write allocate_in_path_slice (Inr ?n) w (sf_fs st) = (Inr r, w', sf_fs st')"
    using write_piece_ok [OF assms(3)] by blast
  have w: "fsq.accounts base w (sf_fs st)" "unat (current_position w) = n" "highest_position w = current_position w"
    "fw_writer w" "\<not> fw_ignorant w" using assms(1) by (simp_all add: written_def)
  have "fw_step allocate_in_path_slice (WWrite (Inr ?n)) (w, sf_fs st) = (w', sf_fs st')" using run by simp
  from fsq.accounts_step [OF w(1) _ this] have acc: "fsq.accounts base w' (sf_fs st')" using assms(2) w(2) len by simp
  have adv: "fsq.accounts base ?w (sf_fs st)" using fsq.accounts_advance [OF w(1)] assms(2) w(2) len by simp
  have ign: "\<not> fw_ignorant ?w" using w(5) by (simp add: advance_def Let_def)
  have "current_position w' = current_position ?w \<and> highest_position w' = highest_position ?w \<and>
      fw_writer w' = fw_writer ?w \<and> fw_ignorant w' = fw_ignorant ?w \<and> keeps (sf_fs st) (sf_fs st')"
  proof (cases "ALLOCATION_THRESHOLD \<le> sint (accumulated_bytes ?w)")
    case True
    obtain x w1 fs1 where a: "allocate_accumulated allocate_in_path_slice ?w (sf_fs st) = (x, w1, fs1)"
      by (metis prod_cases3)
    then have b: "allocate_accumulated allocate_in_path_slice ?w (sf_fs st) = (Inr (), w', sf_fs st')"
      using run w(4) True by (cases x) (auto simp: fw_write_def Let_def)
    show ?thesis using allocate_accumulated_fields [OF b] allocate_accumulated_keeps [OF adv ign b] by simp
  next
    case False
    then show ?thesis using run w(4) by (auto simp: fw_write_def Let_def)
  qed
  moreover have "unat (current_position w + ?n) = n + length c"
    using assms(2) w(2) len by (subst unat_plus_small) simp_all
  ultimately show ?thesis
    using acc w advance_highest [OF w(3), of ?n] assms(2) len ign by (simp add: written_def)
qed

fun data_size :: "string result list \<Rightarrow> nat" where
  "data_size [] = 0"
| "data_size (Inl err # data) = 0"
| "data_size (Inr c # data) = (if c = [] then 0 else length c + data_size data)"

lemma copy_data_written:
  assumes "copy_data e f data w st = ((Inr (), w'), st')" and "written base n w (sf_fs st)"
    and "n + data_size data < 2 ^ 62"
  shows "written base (n + data_size data) w' (sf_fs st') \<and> keeps (sf_fs st) (sf_fs st')"
  using assms
proof (induction data arbitrary: w st n)
  case (Cons x data)
  then obtain c where x: "x = Inr c" by (cases x) auto
  show ?case
  proof (cases "c = []")
    case False
    then obtain w1 st1 where p: "write_piece e f c w st = ((Inr (), w1), st1)" "copy_data e f data w1 st1 = ((Inr (), w'), st')"
      using Cons.prems(1) x by (auto split: prod.splits sum.splits)
    have one: "written base (n + length c) w1 (sf_fs st1)" "keeps (sf_fs st) (sf_fs st1)"
      using write_piece_written [OF Cons.prems(2) _ p(1)] Cons.prems(3) x False by auto
    then show ?thesis
      using Cons.IH [OF p(2) one(1)] Cons.prems(3) x False keeps_trans [OF one(2)] by (auto simp: add.assoc)
  qed (use Cons.prems x in auto)
qed auto

lemma fw_new_fields:
  "fw_new fs c q p u = Inr w \<Longrightarrow> accumulated_bytes w = 0 \<and> current_position w = 0 \<and> highest_position w = 0 \<and>
     fw_writer w \<and> \<not> fw_ignorant w"
  by (auto simp: fw_new_def Let_def split: option.splits sum.splits)

lemma writer_new_written:
  assumes "writer_new e p m t st = (Inr (f, w), st')" and "unat (disk_usage_cached (sf_fs st)) < 2 ^ 62"
  shows "sf_fs st' = sf_fs st \<and> written (fs_used (sf_fs st)) 0 w (sf_fs st')"
proof -
  have "sf_fs st' = sf_fs st" and "\<exists>c q u. fw_new (sf_fs st) c q p u = Inr w"
    using assms(1)
    by (auto simp: writer_new_def ok_simps dest!: same_fs(3)) (metis snd_conv with_cap_fs)+
  then show ?thesis
    using assms(2) unfolding written_def fsq.accounts_def by (auto simp del: of_nat_unat dest!: fw_new_fields)
qed

lemma unpack_file_charges:
  assumes "unpack_file e p m t data st = (Inr (), st')"
    and "unat (disk_usage_cached (sf_fs st)) < 2 ^ 62" and "data_size data < 2 ^ 62"
  shows "unat (disk_usage_cached (sf_fs st')) = unat (disk_usage_cached (sf_fs st)) + data_size data \<and>
     keeps (sf_fs st) (sf_fs st')"
proof -
  obtain f w st1 where w: "writer_new e p m t st = (Inr (f, w), st1)"
    and k: "(case copy_data e f data w st1 of ((Inl err, w), st) \<Rightarrow> (Inl err, drop_file e f t st)
        | ((Inr _, w), st) \<Rightarrow> apsnd (drop_file e f t) (flush_file e f w st)) = (Inr (), st')"
    using assms(1) by (auto simp: unpack_file_def ok_simps)
  obtain x w1 st2 where copied: "copy_data e f data w st1 = ((x, w1), st2)" by (metis prod.exhaust)
  obtain y st3 where flushed: "flush_file e f w1 st2 = (y, st3)" by fastforce
  have c: "copy_data e f data w st1 = ((Inr (), w1), st2)" and fl: "flush_file e f w1 st2 = (Inr (), st3)"
    and st': "sf_fs st' = sf_fs st3"
    using k copied flushed by (auto split: sum.splits simp: apsnd_def)
  note new = writer_new_written [OF w assms(2)]
  have copied: "written (fs_used (sf_fs st)) (data_size data) w1 (sf_fs st2)" "keeps (sf_fs st) (sf_fs st2)"
    using copy_data_written [OF c, of "fs_used (sf_fs st)" 0] new assms(3) by auto
  obtain w2 fs where a: "allocate_accumulated allocate_in_path_slice w1 (sf_fs st2) = (Inr (), w2, fs)" and fs: "sf_fs st3 = fs"
    using fl by (auto simp: flush_file_def do_io_def split: prod.splits sum.splits)
  have acc: "fsq.accounts (fs_used (sf_fs st)) w1 (sf_fs st2)" using copied(1) by (simp add: written_def)
  have "fsq.accounts (fs_used (sf_fs st)) w2 fs" "accumulated_bytes w2 = 0" "unat (highest_position w2) = data_size data"
    using fsq.accounts_allocate [OF acc a] copied(1) by (simp_all add: written_def)
  then have "fs_used fs = fs_used (sf_fs st) + int (data_size data)"
    unfolding fsq.accounts_def by (simp del: of_nat_unat)
  moreover have "keeps (sf_fs st2) fs"
    by (rule allocate_accumulated_keeps [OF acc _ a]) (use copied(1) in \<open>simp add: written_def\<close>)
  ultimately show ?thesis
    using keeps_trans [OF copied(2)] st' fs by (simp del: of_nat_unat)
qed

section \<open>Tar\<close>

text \<open>The entries of a tar archive that are written as files.\<close>

definition written_entry :: "'gi http_env \<Rightarrow> path \<Rightarrow> 'gi Filesystem \<Rightarrow> archive_entry \<Rightarrow> bool" where
  "written_entry e dest fs en \<longleftrightarrow> en_kind en = Plain \<and> \<not> is_absolute (components (en_path en)) \<and>
     \<not> is_ignored (fe_ignores e) (path_join dest (components (en_path en))) False fs"

definition tar_size :: "'gi http_env \<Rightarrow> path \<Rightarrow> 'gi Filesystem \<Rightarrow> archive_entry result list \<Rightarrow> nat" where
  "tar_size e dest fs es =
     (\<Sum>en \<leftarrow> filter (written_entry e dest fs) (map projr (takeWhile (\<lambda>x. \<not> isl x) es)). data_size (en_data en))"

lemma keeps_written: "keeps fs fs' \<Longrightarrow> written_entry e dest fs' = written_entry e dest fs"
  by (auto simp: keeps_def written_entry_def is_ignored_def fun_eq_iff)

lemma tar_one_charges:
  assumes "tar_one e now dest en dirs st = (Inr dirs', st')" and "unat (disk_usage_cached (sf_fs st)) < 2 ^ 62"
    and "data_size (en_data en) < 2 ^ 62"
  shows "unat (disk_usage_cached (sf_fs st')) = unat (disk_usage_cached (sf_fs st)) +
       (if written_entry e dest (sf_fs st) en then data_size (en_data en) else 0) \<and> keeps (sf_fs st) (sf_fs st')"
proof (cases "is_absolute (components (en_path en))")
  case True
  then show ?thesis using assms(1) by (auto simp: tar_one_def Let_def succeed_def written_entry_def)
next
  case False
  show ?thesis
  proof (cases "route_ignored e (path_join dest (components (en_path en))) (en_kind en = Folder) st")
    case True
    then show ?thesis
      using assms(1) False by (auto simp: tar_one_def Let_def skip_ignored_def succeed_def written_entry_def route_ignored_def)
  next
    case kept: False
    show ?thesis
    proof (cases "en_kind en")
    case Plain
    obtain st1 where st1: "parent_dirs e (path_join dest (components (en_path en))) st = (Inr (), st1)"
      and f: "unpack_file e (path_join dest (components (en_path en))) (en_mode en) (en_mtime en) (en_data en) st1 = (Inr (), st')"
      using assms(1) False kept Plain by (auto simp: tar_one_def Let_def skip_ignored_def ok_simps)
    have "sf_fs st1 = sf_fs st" by (rule same_fs(2) [OF st1])
    then show ?thesis
      using unpack_file_charges [OF f] assms(2,3) False kept Plain by (simp add: written_entry_def route_ignored_def)
    qed (use assms(1) False kept in \<open>auto simp: tar_one_def Let_def skip_ignored_def ok_simps written_entry_def dest!: same_fs\<close>)
  qed
qed

lemma tar_all_charges:
  assumes "tar_all e now dest es dirs st = (Inr (), st')"
    and "unat (disk_usage_cached (sf_fs st)) + (\<Sum>en \<leftarrow> map projr (takeWhile (\<lambda>x. \<not> isl x) es). data_size (en_data en)) < 2 ^ 62"
  shows "unat (disk_usage_cached (sf_fs st')) = unat (disk_usage_cached (sf_fs st)) + tar_size e dest (sf_fs st) es \<and>
     keeps (sf_fs st) (sf_fs st')"
  using assms
proof (induction es arbitrary: dirs st)
  case Nil
  then have "sf_fs st' = sf_fs st" using dir_times_fs [of e now dirs st "Inr ()" st'] by (simp only: tar_all.simps)
  then show ?case by (simp add: tar_size_def)
next
  case (Cons x es)
  show ?case
  proof (cases x)
    case (Inl err)
    then have "sf_fs st' = sf_fs st"
      using Cons.prems(1) dir_times_fs [of e now dirs st "Inr ()" st'] by (simp only: tar_all.simps)
    then show ?thesis using Inl by (simp add: tar_size_def)
  next
    case (Inr en)
    obtain dirs1 st1 where one: "tar_one e now dest en dirs st = (Inr dirs1, st1)"
      and rest: "tar_all e now dest es dirs1 st1 = (Inr (), st')"
      using Cons.prems(1) Inr by (auto simp: ok_simps)
    have c: "unat (disk_usage_cached (sf_fs st1)) = unat (disk_usage_cached (sf_fs st)) +
        (if written_entry e dest (sf_fs st) en then data_size (en_data en) else 0)" "keeps (sf_fs st) (sf_fs st1)"
      using tar_one_charges [OF one] Cons.prems(2) Inr by auto
    have "unat (disk_usage_cached (sf_fs st1)) + (\<Sum>en \<leftarrow> map projr (takeWhile (\<lambda>x. \<not> isl x) es). data_size (en_data en)) < 2 ^ 62"
      using c(1) Cons.prems(2) Inr by (auto split: if_splits)
    from Cons.IH [OF rest this] show ?thesis
      using c keeps_written [OF c(2)] keeps_trans [OF c(2)] Inr by (simp add: tar_size_def)
  qed
qed

section \<open>Properties\<close>

text \<open>
  C0: A tar archive that was unpacked is charged with the bytes of the files written, no
  more and no less: entries with an absolute path, denied files, directories and links cost
  nothing. If the usage was within the limit, it is after.
\<close>

theorem unpacking_charges_data:
  assumes "unpack_tar e now dest (Inr es) st = (Inr (), st')"
    and "unat (disk_usage_cached (sf_fs st)) + (\<Sum>en \<leftarrow> map projr (takeWhile (\<lambda>x. \<not> isl x) es). data_size (en_data en)) < 2 ^ 62"
  shows "unat (disk_usage_cached (sf_fs st')) = unat (disk_usage_cached (sf_fs st)) + tar_size e dest (sf_fs st) es \<and>
     (within_limit (sf_fs st) \<and> sint (disk_limit (sf_fs st)) < 2 ^ 62 \<longrightarrow> within_limit (sf_fs st'))"
  using tar_all_charges [of e now dest es "[]" st st'] assms by (simp add: unpack_tar_def keeps_def)

definition small_entry :: archive_entry where
  "small_entry = \<lparr>en_path = ''world/level.dat'', en_kind = Plain, en_mode = None, en_mtime = None, en_link = [],
     en_data = [Inr ''0123'', Inr ''45'', Inr []]\<rparr>"

lemma small_size:
  "tar_size http_sample_env [] fs [Inr small_entry] = 6"
  "(\<Sum>en \<leftarrow> map projr (takeWhile (\<lambda>x. \<not> isl x) [Inr small_entry]). data_size (en_data en)) = 6"
proof -
  have "components ''world/level.dat'' = [Normal ''world'', Normal ''level.dat'']" by code_simp
  then show "tar_size http_sample_env [] fs [Inr small_entry] = 6"
    by (simp add: tar_size_def written_entry_def small_entry_def is_absolute_def is_ignored_def http_sample_env_def)
qed (simp add: small_entry_def)

lemma small_components: "components ''world/level.dat'' = [Normal ''world'', Normal ''level.dat'']"
  by code_simp

lemma small_unpacked:
  assumes "disk_limit (sf_fs st) = 0" and "initialized (sf_fs st)" and "fs_base_path (sf_fs st) = [RootDir, Normal ''srv'']"
  shows "fst (unpack_tar http_sample_env now [] (Inr [Inr small_entry]) st) = Inr ()"
  using assms
  by (simp add: unpack_tar_def tar_one_def small_entry_def small_components is_absolute_def skip_ignored_def route_ignored_def
    is_ignored_def http_sample_env_def handler_defs parent_dirs_def parent_def make_dirs_def
    cap_unit_def with_cap_def cap_create_dir_all_def in_dir_def cap_of_def rel_def Let_def typed_def run_now_def http_sample_run_def
    unpack_file_def writer_new_def set_mode_def fw_new_def cap_create_def write_piece_def do_io_def fw_write_def advance_def
    ALLOCATION_THRESHOLD_def flush_file_def drop_file_def allocate_accumulated_def allocate_slice_cases over_limit_def)

lemma small_run:
  assumes "disk_limit (sf_fs st) = 0" and "initialized (sf_fs st)" and "fs_base_path (sf_fs st) = [RootDir, Normal ''srv'']"
  obtains st' where "unpack_tar http_sample_env now [] (Inr [Inr small_entry]) st = (Inr (), st')"
    and "disk_limit (sf_fs st') = 0" and "initialized (sf_fs st')" and "fs_base_path (sf_fs st') = [RootDir, Normal ''srv'']"
proof -
  obtain st' where run: "unpack_tar http_sample_env now [] (Inr [Inr small_entry]) st = (Inr (), st')"
    using small_unpacked [OF assms] by (metis prod.collapse)
  have "accounts (sf_fs st) (sf_fs st')"
    using unpacks_accounts [OF u_tar [OF run], of "[]"] assms(3) by (simp add: wf_path_def)
  then show ?thesis using that run assms by (auto simp: accounts_def)
qed

lemma sample_files: "disk_limit (sf_fs http_sample_state) = 0" "initialized (sf_fs http_sample_state)"
  "fs_base_path (sf_fs http_sample_state) = [RootDir, Normal ''srv'']" "disk_usage_cached (sf_fs http_sample_state) = 0"
  by (simp_all add: http_sample_state_def new_filesystem_def)

theorem unpacking_charges_data_witness:
  "unat (disk_usage_cached (sf_fs (snd (unpack_tar http_sample_env 0 [] (Inr [Inr small_entry]) http_sample_state))))
     = unat (disk_usage_cached (sf_fs http_sample_state)) + 6"
proof -
  obtain st' where run: "unpack_tar http_sample_env 0 [] (Inr [Inr small_entry]) http_sample_state = (Inr (), st')"
    using small_run [OF sample_files(1-3)] by metis
  have "unat (disk_usage_cached (sf_fs http_sample_state)) + 6 < 2 ^ 62" by (simp add: sample_files)
  then show ?thesis using unpacking_charges_data [OF run] run by (simp only: small_size snd_conv)
qed

text \<open>
  C0: The files an archive replaces are not taken off the usage: unpacking the same archive
  again writes the same files and charges all of them a second time.
\<close>

theorem replaced_files_charged_again:
  assumes "unpack_tar e now dest (Inr es) st = (Inr (), st')" and "unpack_tar e now' dest (Inr es) st' = (Inr (), st'')"
    and "unat (disk_usage_cached (sf_fs st)) +
       2 * (\<Sum>en \<leftarrow> map projr (takeWhile (\<lambda>x. \<not> isl x) es). data_size (en_data en)) < 2 ^ 62"
  shows "unat (disk_usage_cached (sf_fs st'')) = unat (disk_usage_cached (sf_fs st)) + 2 * tar_size e dest (sf_fs st) es"
proof -
  let ?t = "\<Sum>en \<leftarrow> map projr (takeWhile (\<lambda>x. \<not> isl x) es). data_size (en_data en)"
  have one: "unat (disk_usage_cached (sf_fs st')) = unat (disk_usage_cached (sf_fs st)) + tar_size e dest (sf_fs st) es"
    "keeps (sf_fs st) (sf_fs st')"
    using tar_all_charges [of e now dest es "[]" st st'] assms(1,3) by (auto simp: unpack_tar_def)
  have "tar_size e dest (sf_fs st) es \<le> ?t"
    unfolding tar_size_def by (induction es) (auto split: if_splits)
  then have "unat (disk_usage_cached (sf_fs st')) + ?t < 2 ^ 62" using one(1) assms(3) by linarith
  then have "unat (disk_usage_cached (sf_fs st'')) = unat (disk_usage_cached (sf_fs st')) + tar_size e dest (sf_fs st') es"
    using tar_all_charges [of e now' dest es "[]" st' st''] assms(2) by (auto simp: unpack_tar_def)
  moreover have "tar_size e dest (sf_fs st') es = tar_size e dest (sf_fs st) es"
    by (simp add: tar_size_def keeps_written [OF one(2)])
  ultimately show ?thesis using one(1) by simp
qed

theorem replaced_files_charged_again_witness:
  "\<exists>st' st''. unpack_tar http_sample_env 0 [] (Inr [Inr small_entry]) http_sample_state = (Inr (), st') \<and>
     unpack_tar http_sample_env 1 [] (Inr [Inr small_entry]) st' = (Inr (), st'') \<and>
     unat (disk_usage_cached (sf_fs st'')) = unat (disk_usage_cached (sf_fs http_sample_state)) + 12"
proof -
  obtain st' where run: "unpack_tar http_sample_env 0 [] (Inr [Inr small_entry]) http_sample_state = (Inr (), st')"
    and st': "disk_limit (sf_fs st') = 0" "initialized (sf_fs st')" "fs_base_path (sf_fs st') = [RootDir, Normal ''srv'']"
    using small_run [OF sample_files(1-3)] by metis
  obtain st'' where again: "unpack_tar http_sample_env 1 [] (Inr [Inr small_entry]) st' = (Inr (), st'')"
    using small_run [OF st'] by metis
  have "unat (disk_usage_cached (sf_fs http_sample_state)) + 2 * 6 < 2 ^ 62" by (simp add: sample_files)
  then have "unat (disk_usage_cached (sf_fs st'')) = unat (disk_usage_cached (sf_fs http_sample_state)) + 2 * 6"
    using replaced_files_charged_again [OF run again] by (simp only: small_size)
  then show ?thesis using run again by simp
qed

subsection \<open>Sizes in headers\<close>

text \<open>
  The start of an LZ4 frame with a content size: the magic number, the flags with the bit
  for the size, the block descriptor, and the size in eight bytes. The start of a Zstandard
  frame: the magic number, the descriptor, the window descriptor unless the frame is one
  segment, and the size, in two bytes less 256, or in four or eight.
\<close>

definition lz4_frame :: "u8 \<Rightarrow> u8 \<Rightarrow> u8 list \<Rightarrow> u8 list" where
  "lz4_frame flags block size_bytes = [0x04, 0x22, 0x4D, 0x18, flags, block] @ size_bytes"

definition zstd_frame :: "bool \<Rightarrow> u8 \<Rightarrow> u8 \<Rightarrow> u8 list \<Rightarrow> u8 list" where
  "zstd_frame single flag window size_bytes =
     [0x28, 0xB5, 0x2F, 0xFD, (if single then 0x20 else 0) OR flag] @ (if single then [] else [window]) @ size_bytes"

lemma size_flag: "(flags OR 8) AND 8 = (8 :: u8)"
  by (rule bit_word_eqI) (auto simp: bit_simps)

text \<open>
  C0: The size of an LZ4 file is read one byte too early: what is taken for it is the size
  times 256 and the block descriptor. The size of a Zstandard file is right only when the
  frame is one segment with a size of four or eight bytes; otherwise the window descriptor
  is taken for its first byte, or the 256 that two bytes leave out is missing.
\<close>

theorem header_sizes_misread:
  "lz4_size (lz4_frame (flags OR 0x08) block [a, b, c, d, a', b', c', d'] @ r)
     = Some (unat block + 256 * le_bytes [a, b, c, d, a', b', c'])"
  "zstd_size (zstd_frame True 2 w [a, b, c, d] @ r) = Some (le_bytes [a, b, c, d])"
  "zstd_size (zstd_frame False 2 w [a, b, c, d] @ r) = Some (unat w + 256 * le_bytes [a, b, c])"
  "zstd_size (zstd_frame True 1 w [a, b] @ r) = Some (le_bytes [a, b])"
  by (simp_all add: lz4_size_def lz4_frame_def zstd_size_def zstd_frame_def le_bytes_def Let_def size_flag)

subsection \<open>DOS times\<close>

definition dos_time :: "nat \<Rightarrow> nat \<Rightarrow> nat \<Rightarrow> nat \<Rightarrow> nat \<Rightarrow> nat \<Rightarrow> u32" where
  "dos_time y m d h mi s =
     word_of_nat (s div 2 + 32 * (mi + 64 * (h + 32 * (d + 32 * (m + 16 * (y - 1980))))))"

text \<open>
  C0: The time of a RAR entry is read back as the time that was packed into it, for every
  valid date from 1980 to 2107 and every even second.
\<close>

theorem dos_time_roundtrip:
  assumes "1980 \<le> y" and "y \<le> 2107" and "valid_date y m d" and "valid_time h mi s" and "even s"
  shows "dos_time_to_unix (dos_time y m d h mi s) = Some (unix_seconds y m d h mi s)"
proof -
  have b: "m \<le> 12" "1 \<le> m" "1 \<le> d" "d \<le> 31" "h < 24" "mi < 60" "s < 60"
    using assms(3,4) by (auto simp: valid_date_def valid_time_def days_in_month_def split: if_splits)
  define Y where "Y = y - 1980"
  have Y: "y = Y + 1980" "Y < 128" using assms(1,2) by (simp_all add: Y_def)
  define n where "n = s div 2 + 32 * (mi + 64 * (h + 32 * (d + 32 * (m + 16 * Y))))"
  have t: "dos_time y m d h mi s = word_of_nat n" by (simp add: dos_time_def n_def Y_def)
  have half: "s div 2 < 32" using b by simp
  have step: "a + k * x < k * (c :: nat)" if "a < k" "x < c" for a k x c
    using that mult_le_mono2 [of "Suc x" c k] by simp
  have s1: "m + 16 * Y < 16 * 128" using step [of m 16 Y 128] b Y by simp
  have s2: "d + 32 * (m + 16 * Y) < 32 * (16 * 128)" by (rule step [OF _ s1]) (use b in simp)
  have s3: "h + 32 * (d + 32 * (m + 16 * Y)) < 32 * (32 * (16 * 128))" by (rule step [OF _ s2]) (use b in simp)
  have s4: "mi + 64 * (h + 32 * (d + 32 * (m + 16 * Y))) < 64 * (32 * (32 * (16 * 128)))" by (rule step [OF _ s3]) (use b in simp)
  have "n < 32 * (64 * (32 * (32 * (16 * 128))))" unfolding n_def by (rule step [OF _ s4]) (rule half)
  then have n: "n < 4294967296" by simp
  have digit: "N mod k = a" "N div k = x" if "N = a + k * x" "a < k" for a k x N :: nat
    using that by simp_all
  note q = digit [OF n_def half]
  have q2: "n div 32 mod 64 = mi" "n div 32 div 64 = h + 32 * (d + 32 * (m + 16 * Y))"
    by (rule digit [OF q(2)], use b in simp)+
  have q3: "n div 32 div 64 mod 32 = h" "n div 32 div 64 div 32 = d + 32 * (m + 16 * Y)"
    by (rule digit [OF q2(2)], use b in simp)+
  have q4: "n div 32 div 64 div 32 mod 32 = d" "n div 32 div 64 div 32 div 32 = m + 16 * Y"
    by (rule digit [OF q3(2)], use b in simp)+
  have q5: "n div 32 div 64 div 32 div 32 mod 16 = m" "n div 32 div 64 div 32 div 32 div 16 = Y"
    by (rule digit [OF q4(2)], use b in simp)+
  have field: "unat (drop_bit k (word_of_nat n :: u32) AND mask j) = n div 2 ^ k mod 2 ^ j" for k j
    using n by (simp add: take_bit_eq_mask [symmetric] unsigned_take_bit_eq unsigned_drop_bit_eq unsigned_of_nat
        take_bit_nat_eq_self drop_bit_nat_def take_bit_nat_def)
  have f: "unat ((word_of_nat n :: u32) AND 0x1F) = s div 2" "unat (drop_bit 5 (word_of_nat n :: u32) AND 0x3F) = mi"
    "unat (drop_bit 11 (word_of_nat n :: u32) AND 0x1F) = h" "unat (drop_bit 16 (word_of_nat n :: u32) AND 0x1F) = d"
    "unat (drop_bit 21 (word_of_nat n :: u32) AND 0x0F) = m" "unat (drop_bit 25 (word_of_nat n :: u32) AND 0x7F) = Y"
    using field [of 0 5] field [of 5 6] field [of 11 5] field [of 16 5] field [of 21 4] field [of 25 7]
      q(1) q2(1) q3(1) q4(1) q5 Y(2)
    by (simp_all add: mask_eq_exp_minus_1 div_mult2_eq [symmetric])
  have "unat (((word_of_nat n :: u32) AND 0x1F) * 2) = s"
    using f(1) b assms(5) by (subst unat_mult_lem [THEN iffD1]) simp_all
  moreover have "unat ((drop_bit 25 (word_of_nat n :: u32) AND 0x7F) + 1980) = y"
    using f(6) Y by (subst unat_add_lem [THEN iffD1]) simp_all
  ultimately show ?thesis
    using f b assms(3,4) by (simp add: dos_time_to_unix_def t Let_def)
qed

theorem dos_time_roundtrip_witness:
  "dos_time_to_unix (dos_time 2024 2 29 23 59 58) = Some (unix_seconds 2024 2 29 23 59 58)"
  by (rule dos_time_roundtrip) (simp_all add: valid_date_def valid_time_def days_in_month_def leap_year_def)

end
