(* ===== verification/Archive_Create_Safety.thy ===== *)
theory Archive_Create_Safety
  imports Archive_Create Archive_Accounts
begin

text \<open>
  Properties of theory \<open>Archive_Create\<close>: what making an archive does to the files, which
  files are in it, and what the archive of a server is charged with.
\<close>

section \<open>Paths\<close>

lemma set_resolve_step: "set (resolve_step c r) \<subseteq> insert c (set r)"
  by (cases c) (auto simp: resolve_step_def push_def pop_def dest: in_set_butlastD)

lemma set_fold_resolve: "set (fold resolve_step p r) \<subseteq> set r \<union> set p"
proof (induction p arbitrary: r)
  case (Cons c p)
  show ?case using Cons.IH [of "resolve_step c r"] set_resolve_step [of c r] by auto
qed simp

lemma set_relative_path: "set (relative_path base p) \<subseteq> set p"
  using set_fold_resolve [of _ "[]"] set_drop_subset [of _ p]
  by (force simp: relative_path_def resolve_path_def strip_prefix_def split: option.splits if_splits)

lemma wf_plain: "wf_path p \<Longrightarrow> c \<in> set p \<Longrightarrow> is_normal c \<Longrightarrow> plain c"
  by (cases p) (auto simp: wf_path_def list_all_iff)

lemma wf_rel:
  assumes "wf_path p" and "base_path self \<noteq> []"
  shows "wf_path (rel self p)"
proof -
  have r: "resolved (rel self p)" "set (rel self p) \<subseteq> set p"
    using relative_path_resolved [OF assms] set_relative_path by (simp_all add: rel_def)
  then have "is_normal c \<Longrightarrow> plain c" if "c \<in> set (rel self p)" for c
    using wf_plain [OF assms(1)] that by blast
  then show ?thesis using r(1) by (cases "rel self p") (auto simp: resolved_def wf_path_def list_all_iff)
qed

section \<open>Destinations\<close>

text \<open>A destination of an archive: taking a member and ending are steps on the server's files.\<close>

locale archive_sink =
  fixes put :: "('gi, 's, 'k) sink" and finish :: "'k \<Rightarrow> ('gi, 's, 'k) unpack" and L :: "file_label set"
  assumes put_stays: "route_in L (put m k) (on_ok anything)"
    and finish_stays: "route_in L (finish k) (on_ok anything)"
    and looks_in: "Looks \<in> L"

definition walks_ok :: "archiver \<Rightarrow> bool" where
  "walks_ok v \<longleftrightarrow> (\<forall>ignored p ps. wf_path p \<longrightarrow> av_walk v ignored p = Inr ps \<longrightarrow>
     list_all (\<lambda>x. isl x \<or> wf_path (snd (projr x))) ps)"

lemma from_result_stays [stays]: "route_in L (from_result r) (on_ok anything)"
  by (cases r) (simp_all add: from_result_def confines_def)

lemma link_contents_stay:
  assumes "wf_path p" and "Looks \<in> L"
  shows "route_in L (file_read_link_contents e p) (on_ok anything)"
  unfolding file_read_link_contents_def
  by (rule routes.with_cap_stays [where l = Looks];
      use assms rel_confined [OF assms(1)] in \<open>simp add: cap_defs in_dir_confined on_ok_anything\<close>)

lemma link_or_stays:
  assumes "wf_path p" and "Looks \<in> L" and "\<And>target. route_in L (m target) (on_ok anything)"
  shows "route_in L (link_or e p k m) (on_ok anything)"
  unfolding link_or_def [abs_def]
  by (rule confines_seq [OF link_contents_stay [OF assms(1,2)]], rule confines_case_sum_at)
    (use assms(3) in \<open>auto simp: confines_def\<close>)

lemma opened_stays:
  assumes "wf_path p" and "Looks \<in> L"
  shows "route_in L (opened_content e v p) (on_ok anything)"
  unfolding opened_content_def by (rule confines_and_then [OF opens_stay(1) [OF assms]], rule from_result_stays)

context archive_sink
begin

abbreviation adds where
  "adds add \<equiv> \<forall>nam path md source_md k. wf_path path \<longrightarrow> route_in L (add nam path md source_md k) (on_ok anything)"

lemma tar_adds: "adds (tar_add e v put)"
proof (intro allI impI)
  fix nam path md source_md k
  assume p: "wf_path path"
  show "route_in L (tar_add e v put nam path md source_md k) (on_ok anything)"
    unfolding tar_add_def Let_def
    by (intro confines_if put_stays link_or_stays [OF p looks_in] confines_pure
        confines_and_then [OF opened_stays [OF p looks_in]])
qed

lemma zip_adds: "adds (zip_add e v put)"
proof (intro allI impI)
  fix nam path md source_md k
  assume p: "wf_path path"
  show "route_in L (zip_add e v put nam path md source_md k) (on_ok anything)"
    unfolding zip_add_def Let_def
    by (intro confines_if put_stays link_or_stays [OF p looks_in]
        confines_and_then [OF opened_stays [OF p looks_in]])
qed

lemma seven_adds: "adds (seven_add e v put)"
proof (intro allI impI)
  fix nam path md source_md k
  assume p: "wf_path path"
  show "route_in L (seven_add e v put nam path md source_md k) (on_ok anything)"
    unfolding seven_add_def Let_def
    by (intro confines_if put_stays confines_pure confines_and_then [OF opened_stays [OF p looks_in]])
qed

lemma walked_stay:
  assumes "adds add" and "list_all (\<lambda>x. isl x \<or> wf_path (snd (projr x))) ps"
  shows "route_in L (add_walked e add base source_md ps k) (on_ok anything)"
  using assms(2)
proof (induction ps arbitrary: k)
  case Nil
  show ?case by (simp add: confines_pure)
next
  case (Cons x ps)
  show ?case
  proof (cases x)
    case (Inl err)
    then show ?thesis by (simp add: confines_pure)
  next
    case (Inr entry)
    obtain d path where entry: "entry = (d, path)" by fastforce
    have path: "wf_path path" using Cons.prems by (simp add: Inr entry)
    have rest: "route_in L (add_walked e add base source_md ps k) (on_ok anything)" for k
      using Cons by simp
    have "route_in L (and_then (add nam path md source_md k) (add_walked e add base source_md ps)) (on_ok anything)" for nam md
      by (rule confines_and_then) (use assms(1) path rest in blast)+
    then show ?thesis
      unfolding Inr entry add_walked.simps
      by (intro confines_case_option rest confines_seq [OF routes.lookups_stay(2) [OF path looks_in]]
          confines_case_sum_at)
  qed
qed

lemma source_stays:
  assumes "adds add" and "walks_ok v" and "wf_path base" and "wf_path relative"
  shows "route_in L (add_source e v add ignored base relative k) (on_ok anything)"
proof -
  have p: "wf_path (path_join base relative)" by (rule wf_path_join [OF assms(3,4)])
  have walk: "route_in L (and_then (from_result (av_walk v ignored (path_join base relative)))
      (\<lambda>ps. add_walked e add base md ps k)) (on_ok anything)" for md k
  proof (cases "av_walk v ignored (path_join base relative)")
    case (Inr ps)
    have "list_all (\<lambda>x. isl x \<or> wf_path (snd (projr x))) ps" using assms(2) p Inr by (auto simp: walks_ok_def)
    then show ?thesis
      using walked_stay [OF assms(1)] by (simp add: Inr and_then_def [abs_def] from_result_def)
  qed (simp add: and_then_def [abs_def] from_result_def confines_def)
  have added: "route_in L (and_then (add relative (path_join base relative) md md k)
      (\<lambda>k. if md_is_dir md then and_then (from_result (av_walk v ignored (path_join base relative)))
        (\<lambda>ps. add_walked e add base md ps k) else succeed k)) (on_ok anything)" for md
    by (rule confines_and_then, use assms(1) p in blast, rule confines_if, rule walk, rule confines_pure)
  show ?thesis
    unfolding add_source_def [abs_def] Let_def
    by (intro confines_seq [OF routes.lookups_stay(2) [OF p looks_in]] confines_case_sum_at confines_if_at added)
      (simp_all add: confines_def)
qed

lemma sources_stay:
  assumes "adds add" and "walks_ok v" and "wf_path base" and "list_all wf_path sources"
  shows "route_in L (add_sources e v add ignored base sources k) (on_ok anything)"
  using assms(4)
proof (induction sources arbitrary: k)
  case (Cons x sources)
  then show ?case
    unfolding add_sources.simps by (intro confines_and_then [OF source_stays [OF assms(1-3)]]) simp_all
qed (simp add: confines_pure)

lemma archive_stays:
  assumes "adds add" and "walks_ok v" and "wf_path base" and "list_all wf_path sources"
  shows "route_in L (create_archive e v add finish base sources ignored k) (on_ok anything)"
proof (rule confinesI)
  fix s :: "('gi, 's) file_state_scheme"
  assume s: "wf_files s"
  have "wf_path (rel (cap_of (sf_fs s)) base)"
    using wf_rel [OF assms(3)] s by (simp add: cap_of_def wf_files_def)
  from confines_and_then [OF sources_stay [OF assms(1,2) this assms(4)] finish_stays]
  show "(steps_of file_step L)\<^sup>*\<^sup>* s (snd (create_archive e v add finish base sources ignored k s)) \<and>
      wf_files (snd (create_archive e v add finish base sources ignored k s)) \<and>
      on_ok anything (fst (create_archive e v add finish base sources ignored k s))"
    using s by (simp add: confines_def create_archive_def)
qed

lemma archives_stay:
  assumes "walks_ok v" and "wf_path base" and "list_all wf_path sources"
  shows "route_in L (create_tar e v put finish base sources ignored k) (on_ok anything)"
    and "route_in L (create_zip e v put finish base sources ignored k) (on_ok anything)"
    and "route_in L (create_zip_streaming e v put finish base sources ignored k) (on_ok anything)"
    and "route_in L (create_7z e v put finish base sources ignored k) (on_ok anything)"
  unfolding create_tar_def create_zip_def create_zip_streaming_def create_7z_def
  by (rule archive_stays [OF _ assms], rule tar_adds zip_adds seven_adds)+

end

interpretation stream: archive_sink "stream_put accepts" "stream_finish ends" "{Looks}"
  by unfold_locales (auto simp: stream_put_def stream_finish_def intro!: confines_and_then [OF from_result_stays] confines_pure)

lemma put_bytes_stays:
  assumes "Writes \<in> L" and "Accounts \<in> L"
  shows "route_in L (put_bytes e f chunk w) (on_ok anything)"
proof -
  have "route_in L (\<lambda>st. case write_piece e f chunk w st of (x, st) \<Rightarrow> (map_sum id (\<lambda>_. snd x) (fst x), st)) (on_ok anything)"
    by (rule confines_seq [OF write_piece_stays [OF assms]]) (simp add: confines_def on_ok_anything)
  then show ?thesis by (simp add: put_bytes_def [abs_def] case_prod_beta)
qed

lemma accounts_fw_seek [simp]:
  "accounts a (snd (snd (fw_seek allocate_in_path_slice io w fs))) = accounts a fs"
  using accounts_allocate_accumulated [of a w fs]
  by (auto simp: fw_seek_def simp del: accounts_allocate_accumulated split: prod.split sum.split)

lemma seek_to_stays:
  assumes "Accounts \<in> L"
  shows "route_in L (seek_to e f pos w) (on_ok anything)"
proof -
  have "route_in L (\<lambda>st. case (case fw_seek allocate_in_path_slice (map_sum id (\<lambda>_. pos) (he_seek e f)) w (sf_fs st) of
      (r, w, fs) \<Rightarrow> ((r, w), fs)) of (x, fs) \<Rightarrow> (map_sum id (\<lambda>_. snd x) (fst x), st\<lparr>sf_fs := fs\<rparr>)) anything"
    using on_account [where op = "\<lambda>fs. case fw_seek allocate_in_path_slice (map_sum id (\<lambda>_. pos) (he_seek e f)) w fs of
        (r, w, fs) \<Rightarrow> ((r, w), fs)" and g = "\<lambda>x. map_sum id (\<lambda>_. snd x) (fst x)" and L = L]
      assms accounts_fw_seek [of _ _ w] by (simp add: case_prod_beta)
  then show ?thesis
    by (simp add: seek_to_def [abs_def] case_prod_beta confines_def on_ok_anything)
qed

lemma sink_ops_stay: "Writes \<in> L \<Longrightarrow> Accounts \<in> L \<Longrightarrow> route_in L (sink_ops e f ops w) (on_ok anything)"
  by (induction e f ops w rule: sink_ops.induct)
    (simp_all add: confines_pure confines_and_then [OF put_bytes_stays] confines_and_then [OF seek_to_stays])

lemma file_put_stays: "route_in editing (file_put e encode m k) (on_ok anything)"
  unfolding file_put_def
  by (rule confines_and_then [OF sink_ops_stay], simp_all add: confines_pure)

lemma file_finish_stays: "route_in editing (file_finish e trailer flushes k) (on_ok anything)"
  unfolding file_finish_def
  by (rule confines_and_then [OF sink_ops_stay], simp, simp, rule confines_and_then [where A = anything],
      rule confines_if, rule flush_file_stays, simp_all add: confines_pure)

interpretation archive_file: archive_sink "file_put e encode" "file_finish e trailer flushes" editing
  by unfold_locales (rule file_put_stays file_finish_stays | simp)+

section \<open>What a destination keeps\<close>

text \<open>
  A statement \<open>J\<close> about what a destination has taken and the files it writes to that every
  member with an allowed name keeps, and that does not depend on what was looked at.
\<close>

locale sink_invariant =
  fixes put :: "('gi, 's, 'k) sink" and J :: "'k \<Rightarrow> ('gi, 's) file_state_scheme \<Rightarrow> bool"
    and names :: "path \<Rightarrow> bool" and Q :: "member \<Rightarrow> bool"
  assumes put_keeps: "J k st \<Longrightarrow> names (mb_name m) \<Longrightarrow> Q m \<Longrightarrow> put m k st = (Inr k', st') \<Longrightarrow> J k' st'"
    and look_keeps: "J k st \<Longrightarrow> sf_fs st' = sf_fs st \<Longrightarrow> sf_io st' = sf_io st \<Longrightarrow> J k st'"

lemma with_cap_same: "with_cap e op st = (r, st') \<Longrightarrow> sf_fs st' = sf_fs st \<and> sf_io st' = sf_io st"
  by (auto simp: with_cap_def split: prod.splits)

lemma looked_at:
  "file_symlink_metadata e p st = (r, st') \<Longrightarrow> sf_fs st' = sf_fs st \<and> sf_io st' = sf_io st"
  "file_metadata e p st = (r, st') \<Longrightarrow> sf_fs st' = sf_fs st \<and> sf_io st' = sf_io st"
  "file_read_link_contents e p st = (q, st') \<Longrightarrow> sf_fs st' = sf_fs st \<and> sf_io st' = sf_io st"
  "file_open e p st = (f, st') \<Longrightarrow> sf_fs st' = sf_fs st \<and> sf_io st' = sf_io st"
  unfolding file_symlink_metadata_def file_metadata_def file_read_link_contents_def file_open_def
  by (rule with_cap_same, assumption)+

lemma opened_looks: "opened_content e v p st = (Inr c, st') \<Longrightarrow> sf_fs st' = sf_fs st \<and> sf_io st' = sf_io st"
  by (auto simp: opened_content_def ok_simps from_result_def dest!: looked_at(4))

text \<open>What the members of a tar archive are like: a file has the size that was announced.\<close>

definition sized :: "member \<Rightarrow> bool" where
  "sized m \<longleftrightarrow> length (mb_data m) = unat (mb_size m)"

lemma length_fixed_content [simp]: "length (fixed_content n s) = n"
  by (simp add: fixed_content_def)

text \<open>The names that members can have.\<close>

definition sources_named :: "(path \<Rightarrow> bool) \<Rightarrow> archiver \<Rightarrow> (path \<Rightarrow> bool \<Rightarrow> bool) list \<Rightarrow> path \<Rightarrow> path list \<Rightarrow> bool" where
  "sources_named N v ignored base sources \<longleftrightarrow> (\<forall>relative \<in> set sources.
     (\<forall>d. \<not> any_ignored ignored (path_join base relative) d \<longrightarrow> N relative) \<and>
     (\<forall>ps d q nam. av_walk v ignored (path_join base relative) = Inr ps \<longrightarrow> Inr (d, q) \<in> set ps \<longrightarrow>
        strip_prefix q base = Some nam \<longrightarrow> N nam))"

context sink_invariant
begin

abbreviation keeps_adding where
  "keeps_adding add \<equiv> \<forall>nam path md source_md k st k' st'. names nam \<longrightarrow> J k st \<longrightarrow>
     add nam path md source_md k st = (Inr k', st') \<longrightarrow> J k' st'"

lemma opened_keeps:
  assumes "J k st" and "\<forall>s. names (mb_name (m s)) \<and> Q (m s)"
    and "and_then (opened_content e v p) (\<lambda>s. put (m s) k) st = (Inr k', st')"
  shows "J k' st'"
proof -
  obtain s st1 where s: "opened_content e v p st = (Inr s, st1)" and p: "put (m s) k st1 = (Inr k', st')"
    using assms(3) by (auto simp: ok_simps)
  show ?thesis
    by (rule put_keeps [OF look_keeps [OF assms(1)] _ _ p]) (use opened_looks [OF s] assms(2) in auto)
qed

lemma link_keeps:
  assumes "J k st" and "\<And>target st1. sf_fs st1 = sf_fs st \<Longrightarrow> sf_io st1 = sf_io st \<Longrightarrow> m target st1 = (Inr k', st') \<Longrightarrow> J k' st'"
    and "link_or e p k m st = (Inr k', st')"
  shows "J k' st'"
proof -
  obtain r st1 where r: "file_read_link_contents e p st = (r, st1)" by fastforce
  then show ?thesis
    using assms(2) [of st1] assms(3) look_keeps [OF assms(1), of st1] looked_at(3) [OF r]
    by (cases r) (auto simp: link_or_def)
qed

lemma tar_keeps:
  assumes "\<And>m. sized m \<Longrightarrow> Q m"
  shows "keeps_adding (tar_add e v put)"
proof (intro allI impI)
  fix nam path md source_md k st k' st'
  assume n: "names nam" and j: "J k st" and run: "tar_add e v put nam path md source_md k st = (Inr k', st')"
  show "J k' st'"
  proof (cases "md_is_dir md")
    case True
    then show ?thesis
      using run by (auto simp: tar_add_def Let_def sized_def intro!: put_keeps [OF j] assms n)
  next
    case no_dir: False
    show ?thesis
    proof (cases "md_is_file md")
      case True
      then show ?thesis
        using run no_dir
        by (auto simp: tar_add_def Let_def n sized_def intro!: assms elim!: opened_keeps [OF j, rotated])
    next
      case False
      then show ?thesis
        using run no_dir look_keeps [OF j, of st']
        by (auto simp: tar_add_def Let_def n sized_def succeed_def intro!: assms
            elim!: link_keeps [OF j, rotated] put_keeps [OF look_keeps [OF j], rotated -1] split: if_splits)
    qed
  qed
qed

lemma zip_keeps:
  assumes "\<And>m. Q m"
  shows "keeps_adding (zip_add e v put)"
proof (intro allI impI)
  fix nam path md source_md k st k' st'
  assume n: "names nam" and j: "J k st" and run: "zip_add e v put nam path md source_md k st = (Inr k', st')"
  show "J k' st'"
  proof (cases "md_is_dir md")
    case True
    then show ?thesis using run by (auto simp: zip_add_def Let_def intro!: put_keeps [OF j] assms n)
  next
    case no_dir: False
    show ?thesis
    proof (cases "md_is_file md")
      case True
      then show ?thesis
        using run no_dir by (auto simp: zip_add_def Let_def n assms elim!: opened_keeps [OF j, rotated])
    next
      case False
      then show ?thesis
        using run no_dir look_keeps [OF j, of st']
        by (auto simp: zip_add_def Let_def n assms
            elim!: link_keeps [OF j, rotated] put_keeps [OF look_keeps [OF j], rotated -1])
    qed
  qed
qed

lemma seven_keeps:
  assumes "\<And>m. Q m"
  shows "keeps_adding (seven_add e v put)"
proof (intro allI impI)
  fix nam path md source_md k st k' st'
  assume n: "names nam" and j: "J k st" and run: "seven_add e v put nam path md source_md k st = (Inr k', st')"
  show "J k' st'"
  proof (cases "md_is_dir md")
    case True
    then show ?thesis using run by (auto simp: seven_add_def Let_def intro!: put_keeps [OF j] assms n)
  next
    case False
    then show ?thesis
      using run j by (auto simp: seven_add_def Let_def n assms succeed_def elim!: opened_keeps [OF j, rotated] split: if_splits)
  qed
qed

lemma walked_keep:
  assumes "keeps_adding add" and "\<forall>d q nam. Inr (d, q) \<in> set ps \<longrightarrow> strip_prefix q base = Some nam \<longrightarrow> names nam"
    and "J k st" and "add_walked e add base source_md ps k st = (Inr k', st')"
  shows "J k' st'"
  using assms(2-)
proof (induction ps arbitrary: k st)
  case Nil
  then show ?case by (simp add: succeed_def)
next
  case (Cons x ps)
  show ?case
  proof (cases x)
    case (Inl err)
    then show ?thesis using Cons.prems by (simp add: succeed_def)
  next
    case (Inr entry)
    obtain d path where entry: "entry = (d, path)" by fastforce
    have rest: "J k' st'" if "J k st" "add_walked e add base source_md ps k st = (Inr k', st')" for k st
      using Cons.IH [OF _ that] Cons.prems(1) by auto
    show ?thesis
    proof (cases "strip_prefix path base")
      case None
      then show ?thesis using rest Cons.prems by (simp add: Inr entry)
    next
      case (Some nam)
      have nam: "names nam" using Cons.prems(1) Some by (auto simp: Inr entry)
      obtain r st1 where r: "file_symlink_metadata e path st = (r, st1)" by fastforce
      have j: "J k st1" by (rule look_keeps [OF Cons.prems(2)]) (use looked_at(1) [OF r] in auto)
      show ?thesis
      proof (cases r)
        case (Inl err)
        then show ?thesis using Cons.prems(3) Some r rest [OF j] by (simp add: Inr entry)
      next
        case (Inr md)
        then obtain k1 st2 where "add nam path md source_md k st1 = (Inr k1, st2)"
          and tail: "add_walked e add base source_md ps k1 st2 = (Inr k', st')"
          using Cons.prems(3) Some r by (auto simp: \<open>x = Inr entry\<close> entry ok_simps)
        then have "J k1 st2" using assms(1) nam j by blast
        then show ?thesis using tail by (rule rest)
      qed
    qed
  qed
qed

lemma source_keeps:
  assumes "keeps_adding add" and "sources_named names v ignored base [relative]"
    and "J k st" and "add_source e v add ignored base relative k st = (Inr k', st')"
  shows "J k' st'"
proof -
  let ?s = "path_join base relative"
  obtain r st1 where r: "file_symlink_metadata e ?s st = (r, st1)" by fastforce
  have j: "J k st1" by (rule look_keeps [OF assms(3)]) (use looked_at(1) [OF r] in auto)
  show ?thesis
  proof (cases "\<exists>md. r = Inr md \<and> \<not> any_ignored ignored ?s (md_is_dir md)")
    case False
    then show ?thesis using assms(4) r j by (cases r) (auto simp: add_source_def)
  next
    case True
    then obtain md where md: "r = Inr md" "\<not> any_ignored ignored ?s (md_is_dir md)" by blast
    obtain k1 st2 where a: "add relative ?s md md k st1 = (Inr k1, st2)"
      and b: "(if md_is_dir md then and_then (from_result (av_walk v ignored ?s)) (\<lambda>ps. add_walked e add base md ps k1)
          else succeed k1) st2 = (Inr k', st')"
      using assms(4) r md by (auto simp: add_source_def Let_def ok_simps)
    have "names relative" using assms(2) md(2) by (auto simp: sources_named_def)
    then have j1: "J k1 st2" using assms(1) j a by blast
    show ?thesis
    proof (cases "md_is_dir md")
      case True
      then obtain ps where ps: "av_walk v ignored ?s = Inr ps" "add_walked e add base md ps k1 st2 = (Inr k', st')"
        using b by (auto simp: ok_simps from_result_def)
      show ?thesis
        by (rule walked_keep [OF assms(1) _ j1 ps(2)]) (use assms(2) ps(1) in \<open>auto simp: sources_named_def\<close>)
    next
      case False
      then show ?thesis using b j1 by (simp add: succeed_def)
    qed
  qed
qed

lemma sources_keep:
  assumes "keeps_adding add" and "sources_named names v ignored base sources"
    and "J k st" and "add_sources e v add ignored base sources k st = (Inr k', st')"
  shows "J k' st'"
  using assms(2-)
proof (induction sources arbitrary: k st)
  case (Cons x sources)
  then obtain k1 st1 where a: "add_source e v add ignored base x k st = (Inr k1, st1)"
    and b: "add_sources e v add ignored base sources k1 st1 = (Inr k', st')" by (auto simp: ok_simps)
  have "J k1 st1"
    by (rule source_keeps [OF assms(1) _ Cons.prems(2) a]) (use Cons.prems(1) in \<open>simp add: sources_named_def\<close>)
  then show ?case using Cons.IH [OF _ _ b] Cons.prems(1) by (simp add: sources_named_def)
qed (simp add: succeed_def)

lemma archive_keeps:
  assumes "keeps_adding add" and "sources_named names v ignored (rel (cap_of (sf_fs st)) base) sources"
    and "J k st" and "create_archive e v add finish base sources ignored k st = (Inr k', st')"
  shows "\<exists>k1 st1. J k1 st1 \<and> finish k1 st1 = (Inr k', st')"
proof -
  obtain k1 st1 where "add_sources e v add ignored (rel (cap_of (sf_fs st)) base) sources k st = (Inr k1, st1)"
    and f: "finish k1 st1 = (Inr k', st')"
    using assms(4) by (auto simp: create_archive_def ok_simps)
  have "J k1 st1" by (rule sources_keep [OF assms(1,2,3)]) fact
  then show ?thesis using f by blast
qed

end

text \<open>The members a stream has taken.\<close>

interpretation listed: sink_invariant "stream_put accepts" "\<lambda>ms st. \<forall>m\<in>set ms. N (mb_name m) \<and> Q m" N Q
  by unfold_locales (auto simp: stream_put_def ok_simps from_result_def)

section \<open>The archive a server keeps\<close>

text \<open>The bytes written to open files, and what is charged for those of an archive.\<close>

fun io_bytes :: "io_op list \<Rightarrow> nat" where
  "io_bytes [] = 0"
| "io_bytes (IoWrite f c # ops) = length c + io_bytes ops"
| "io_bytes (op # ops) = io_bytes ops"

lemma io_bytes_append [simp]: "io_bytes (xs @ ys) = io_bytes xs + io_bytes ys"
  by (induction xs rule: io_bytes.induct) simp_all

definition charged :: "int \<Rightarrow> nat \<Rightarrow> file_sink \<Rightarrow> ('gi, 's) file_state_scheme \<Rightarrow> bool" where
  "charged base n k st \<longleftrightarrow> n \<le> io_bytes (sf_io st) \<and> sint (accumulated_bytes (fk_writer k)) < ALLOCATION_THRESHOLD \<and>
     (io_bytes (sf_io st) < 2 ^ 62 \<longrightarrow> written base (io_bytes (sf_io st) - n) (fk_writer k) (sf_fs st))"

lemma map_sum_Inr: "map_sum id g x = Inr y \<Longrightarrow> (\<And>u. x = Inr u \<Longrightarrow> y = g u \<Longrightarrow> P) \<Longrightarrow> P"
  by (cases x) simp_all

lemma put_bytes_charges:
  assumes "n \<le> io_bytes (sf_io st)" and "io_bytes (sf_io st) < 2 ^ 62 \<longrightarrow> written base (io_bytes (sf_io st) - n) w (sf_fs st)"
    and "put_bytes e f c w st = (Inr w', st')"
  shows "n \<le> io_bytes (sf_io st') \<and>
     (io_bytes (sf_io st') < 2 ^ 62 \<longrightarrow> written base (io_bytes (sf_io st') - n) w' (sf_fs st'))"
proof -
  have p: "write_piece e f c w st = ((Inr (), w'), st')"
    using assms(3) by (auto simp: put_bytes_def split: prod.splits) (auto elim: map_sum_Inr)
  have "sf_io st' = sf_io st @ [IoWrite f c]"
    using p by (auto simp: write_piece_def do_io_def split: prod.splits)
  then have n: "io_bytes (sf_io st') = io_bytes (sf_io st) + length c" by simp
  show ?thesis
    using write_piece_written [OF _ _ p, of base "io_bytes (sf_io st) - n"] assms(1,2) n by auto
qed

lemma put_bytes_small:
  assumes "put_bytes e f c w st = (Inr w', st')"
  shows "sint (accumulated_bytes w') < ALLOCATION_THRESHOLD"
proof -
  have "write_piece e f c w st = ((Inr (), w'), st')"
    using assms by (auto simp: put_bytes_def split: prod.splits) (auto elim: map_sum_Inr)
  from write_piece_ok [OF this] obtain r where
    r: "fw_write allocate_in_path_slice (Inr (word_of_nat (length c))) w (sf_fs st) = (Inr r, w', sf_fs st')" by blast
  show ?thesis
  proof (cases "ALLOCATION_THRESHOLD \<le> sint (accumulated_bytes (advance (word_of_nat (length c)) w))")
    case True
    obtain x w1 fs where a: "allocate_accumulated allocate_in_path_slice (advance (word_of_nat (length c)) w) (sf_fs st) = (x, w1, fs)"
      by (metis prod_cases3)
    have "accumulated_bytes w' = 0"
      using r True a by (cases x) (auto simp: fw_write_def Let_def allocate_accumulated_def ALLOCATION_THRESHOLD_def
          split: if_splits prod.splits bool.splits)
    then show ?thesis by (simp add: ALLOCATION_THRESHOLD_def)
  next
    case False
    then show ?thesis using r by (auto simp: fw_write_def Let_def split: if_splits)
  qed
qed

lemma sequential_small:
  "sint (accumulated_bytes w) < ALLOCATION_THRESHOLD \<Longrightarrow> sink_ops e f (sequential cs) w st = (Inr w', st') \<Longrightarrow>
     sint (accumulated_bytes w') < ALLOCATION_THRESHOLD"
proof (induction cs arbitrary: w st)
  case (Cons c cs)
  then show ?case by (cases c) (auto simp: sequential_def ok_simps fail_def dest: put_bytes_small)
qed (simp add: sequential_def succeed_def)

lemma sequential_charges:
  assumes "n \<le> io_bytes (sf_io st)" and "io_bytes (sf_io st) < 2 ^ 62 \<longrightarrow> written base (io_bytes (sf_io st) - n) w (sf_fs st)"
    and "sink_ops e f (sequential cs) w st = (Inr w', st')"
  shows "n \<le> io_bytes (sf_io st') \<and>
     (io_bytes (sf_io st') < 2 ^ 62 \<longrightarrow> written base (io_bytes (sf_io st') - n) w' (sf_fs st'))"
  using assms
proof (induction cs arbitrary: w st)
  case Nil
  then show ?case by (simp add: sequential_def succeed_def)
next
  case (Cons c cs)
  then obtain s w1 st1 where p: "put_bytes e f s w st = (Inr w1, st1)" and r: "sink_ops e f (sequential cs) w1 st1 = (Inr w', st')"
    by (cases c) (auto simp: sequential_def ok_simps fail_def)
  show ?case using put_bytes_charges [OF Cons.prems(1,2) p] Cons.IH [OF _ _ r] by blast
qed

interpretation charging: sink_invariant "file_put e (\<lambda>ms m. sequential (pieces ms m))" "charged base n" anything anything
proof
  fix k k' m and st st' :: "('a, 'b) file_state_scheme"
  assume "charged base n k st" and "file_put e (\<lambda>ms m. sequential (pieces ms m)) m k st = (Inr k', st')"
  then show "charged base n k' st'"
    using sequential_charges [of n st base "fk_writer k" e "fk_file k" "pieces (fk_members k) m"]
      sequential_small [of "fk_writer k" e "fk_file k" "pieces (fk_members k) m"]
    by (auto simp: file_put_def ok_simps charged_def)
qed (simp add: charged_def)

definition walks_directories :: "archiver \<Rightarrow> bool" where
  "walks_directories v \<longleftrightarrow> (\<forall>ignored p. \<exists>rd n. av_walk v ignored p = map_sum id (walk_run rd ignored n) (walk_new rd p))"

abbreviation taken :: "('gi, 's, member list) sink" where
  "taken \<equiv> stream_put (\<lambda>_ _. Inr ())"

lemma taken_simps: "taken m ms st = (Inr (ms @ [m]), st)"
  by (simp add: stream_put_def from_result_def and_then_def succeed_def)

section \<open>Samples\<close>

definition sample_rd :: "path \<Rightarrow> dir_entry list result" where
  "sample_rd p = (if p = [Normal ''d''] then Inr [Inr (False, ''b'')] else Inl ''not found'')"

definition sample_archiver :: archiver where
  "sample_archiver = \<lparr>av_walk = \<lambda>ignored p. map_sum id (walk_run sample_rd ignored (Suc (Suc 0))) (walk_new sample_rd p),
     av_content = \<lambda>_. Inr ''hello'', av_link_ok = \<lambda>_. True\<rparr>"

definition sample_members :: "member list" where
  "sample_members =
     [\<lparr>mb_name = [Normal ''d''], mb_kind = Folder, mb_mode = Some 16877, mb_mtime = Some 0, mb_size = 0, mb_link = [],
       mb_data = [], mb_counted = 0\<rparr>,
      \<lparr>mb_name = [Normal ''d'', Normal ''b''], mb_kind = Plain, mb_mode = Some 33188, mb_mtime = Some 0, mb_size = 5, mb_link = [],
       mb_data = ''hello'', mb_counted = 5\<rparr>]"

lemma sample_walks: "walks_ok sample_archiver" "walks_directories sample_archiver"
proof -
  show "walks_ok sample_archiver"
    by (auto simp: walks_ok_def sample_archiver_def sample_rd_def walk_new_def wf_path_def Let_def split: if_splits)
  have "av_walk sample_archiver ignored p = map_sum id (walk_run sample_rd ignored (Suc (Suc 0))) (walk_new sample_rd p)" for ignored p
    by (simp add: sample_archiver_def)
  then show "walks_directories sample_archiver" unfolding walks_directories_def by blast
qed

lemma sample_types:
  "md_is_dir \<lparr>md_mode = 16877, md_len = n, md_modified = t, md_created = c\<rparr>"
  "\<not> md_is_dir \<lparr>md_mode = 33188, md_len = n, md_modified = t, md_created = c\<rparr>"
  "md_is_file \<lparr>md_mode = 33188, md_len = n, md_modified = t, md_created = c\<rparr>"
proof -
  have "file_type 16877 = Directory" "file_type 33188 = RegularFile" by code_simp+
  then show "md_is_dir \<lparr>md_mode = 16877, md_len = n, md_modified = t, md_created = c\<rparr>"
    "\<not> md_is_dir \<lparr>md_mode = 33188, md_len = n, md_modified = t, md_created = c\<rparr>"
    "md_is_file \<lparr>md_mode = 33188, md_len = n, md_modified = t, md_created = c\<rparr>"
    by (simp_all add: md_is_dir_def md_is_file_def)
qed

lemma sample_looked:
  fixes st :: "unit file_state"
  assumes "sf_fs st = sf_fs http_sample_state"
  shows "\<exists>st1. file_symlink_metadata http_sample_env [Normal ''d''] st =
       (Inr \<lparr>md_mode = 16877, md_len = 0, md_modified = None, md_created = None\<rparr>, st1) \<and> sf_fs st1 = sf_fs http_sample_state"
    and "\<exists>st1. file_symlink_metadata http_sample_env [Normal ''d'', Normal ''b''] st =
       (Inr \<lparr>md_mode = 33188, md_len = 5, md_modified = None, md_created = None\<rparr>, st1) \<and> sf_fs st1 = sf_fs http_sample_state"
    and "\<exists>st1. opened_content http_sample_env sample_archiver [Normal ''d'', Normal ''b''] st = (Inr ''hello'', st1) \<and>
       sf_fs st1 = sf_fs http_sample_state"
  using assms
  by (simp_all add: file_symlink_metadata_def opened_content_def file_open_def and_then_def from_result_def sample_archiver_def
      with_cap_def typed_def cap_defs in_dir_def in_dir_or_base_def http_sample_env_def http_sample_run_def run_now_def cap_of_def
      http_sample_state_def new_filesystem_def rel_def relative_path_def resolve_path_def resolve_step_def push_def
      strip_prefix_def Let_def apfst_def map_prod_def)

lemma sample_archive:
  "\<exists>st1. create_tar http_sample_env sample_archiver taken (stream_finish (\<lambda>_. Inr ())) []
     [[Normal ''d'']] [] [] http_sample_state = (Inr sample_members, st1) \<and> sf_fs st1 = sf_fs http_sample_state"
proof -
  obtain st1 where 1: "file_symlink_metadata http_sample_env [Normal ''d''] http_sample_state =
      (Inr \<lparr>md_mode = 16877, md_len = 0, md_modified = None, md_created = None\<rparr>, st1)" "sf_fs st1 = sf_fs http_sample_state"
    using sample_looked(1) by blast
  obtain st2 where 2: "file_symlink_metadata http_sample_env [Normal ''d'', Normal ''b''] st1 =
      (Inr \<lparr>md_mode = 33188, md_len = 5, md_modified = None, md_created = None\<rparr>, st2)" "sf_fs st2 = sf_fs http_sample_state"
    using sample_looked(2) [OF 1(2)] by blast
  obtain st3 where 3: "opened_content http_sample_env sample_archiver [Normal ''d'', Normal ''b''] st2 = (Inr ''hello'', st3)"
    "sf_fs st3 = sf_fs http_sample_state"
    using sample_looked(3) [OF 2(2)] by blast
  have base: "rel (cap_of (sf_fs http_sample_state)) [] = []"
    by (simp add: rel_def relative_path_def strip_prefix_def resolve_path_def cap_of_def http_sample_state_def new_filesystem_def)
  have walk: "av_walk sample_archiver [] [Normal ''d''] = Inr [Inr (False, [Normal ''d'', Normal ''b''])]"
    by (simp add: sample_archiver_def sample_rd_def walk_new_def any_ignored_def)
  have size: "unat (5 :: u64) = 5" by simp
  show ?thesis
    using 1 2 3
    by (simp add: create_tar_def create_archive_def base add_source_def walk any_ignored_def and_then_def from_result_def
        succeed_def taken_simps stream_finish_def tar_add_def sample_types sample_members_def strip_prefix_def fixed_content_def
        Let_def)
qed

section \<open>Properties\<close>

text \<open>
  C0: Making an archive for a client, as a tar or a zip, only looks at the files of the
  server: every call is one that looks and stays inside the server's directory, and neither
  the accounting nor an open file is touched, whatever the files, names and links are.
\<close>

theorem archives_only_look:
  assumes "walks_ok v" and "wf_path base" and "list_all wf_path sources" and "fs_base_path (sf_fs st) \<noteq> []"
    and "create = create_tar e v (stream_put accepts) (stream_finish ends) \<or>
      create = create_zip_streaming e v (stream_put accepts) (stream_finish ends)"
  shows "sf_fs (snd (create base sources ignored [] st)) = sf_fs st \<and>
     sf_io (snd (create base sources ignored [] st)) = sf_io st \<and>
     (\<exists>cs. sf_calls (snd (create base sources ignored [] st)) = sf_calls st @ cs \<and>
        list_all (confined (cap_of (sf_fs st))) cs \<and> list_all looks cs)"
proof -
  have "wf_files st" using assms(4) by (simp add: wf_files_def)
  then have "(steps_of file_step {Looks})\<^sup>*\<^sup>* st (snd (create base sources ignored [] st))"
    using assms(5) confinesD(1) [OF stream.archives_stay(1) [OF assms(1-3)]]
      confinesD(1) [OF stream.archives_stay(3) [OF assms(1-3)]] by auto
  from file_steps_inv [OF this] show ?thesis by auto
qed

theorem archives_only_look_witness:
  "sf_io (snd (create_tar http_sample_env sample_archiver taken (stream_finish (\<lambda>_. Inr ())) []
     [[ParentDir, Normal ''etc'']] [] [] http_sample_state)) = sf_io http_sample_state"
  using archives_only_look [OF sample_walks(1) _ _ http_sample_ok(2) disjI1 [OF refl],
      where base = "[]" and sources = "[[ParentDir, Normal ''etc'']]"]
  by (auto simp: wf_path_def)

text \<open>
  C0: No denied file gets into an archive: with the walk of \<open>Dir_Walk\<close> over the same list of
  denied files, each member of a tar or zip archive stands for the path its name leads to from
  the directory of the archive, and that path is not denied.
\<close>

lemma walk_next_kept: "walk_next rd ignored s = (Some (Inr (d, q)), s') \<Longrightarrow> \<not> any_ignored ignored q d"
  by (induction rd ignored s rule: walk_next.induct) (auto simp: Let_def split: if_splits sum.splits)

lemma walk_run_kept: "Inr (d, q) \<in> set (walk_run rd ignored n s) \<Longrightarrow> \<not> any_ignored ignored q d"
proof (induction n arbitrary: s)
  case (Suc n)
  obtain r s' where w: "walk_next rd ignored s = (r, s')" by fastforce
  show ?case
  proof (cases r)
    case (Some x)
    then show ?thesis using Suc w walk_next_kept [of rd ignored s d q s'] by auto
  qed (use Suc.prems w in simp)
qed simp

lemma strip_prefix_join:
  assumes "wf_path q" and "strip_prefix q base = Some nam"
  shows "path_join base nam = q"
proof -
  have q: "q = base @ nam"
    using assms(2) by (auto simp: strip_prefix_def split: if_splits) (metis append_take_drop_id)
  show ?thesis
  proof (cases "base = []")
    case True
    then show ?thesis using q by (cases "([] :: path, nam)" rule: path_join.cases) auto
  next
    case False
    then have "list_all plain nam" using assms(1) q by (cases base) (auto simp: wf_path_def)
    then show ?thesis using q by (cases "(base, nam)" rule: path_join.cases) auto
  qed
qed

theorem archive_has_no_denied:
  assumes "walks_ok v" and "walks_directories v" and "wf_path base" and "list_all wf_path sources"
    and "fs_base_path (sf_fs st) \<noteq> []"
    and "create = create_tar e v (stream_put accepts) (stream_finish ends) \<or>
      create = create_zip_streaming e v (stream_put accepts) (stream_finish ends)"
    and "create base sources ignored [] st = (Inr ms, st')"
  shows "\<forall>m\<in>set ms. \<exists>d. \<not> any_ignored ignored (path_join (rel (cap_of (sf_fs st)) base) (mb_name m)) d"
proof -
  let ?b = "rel (cap_of (sf_fs st)) base"
  let ?N = "\<lambda>nam. \<exists>d. \<not> any_ignored ignored (path_join ?b nam) d"
  have b: "wf_path ?b" using wf_rel [OF assms(3)] assms(5) by (simp add: cap_of_def)
  have walked: "?N nam" if "relative \<in> set sources" "av_walk v ignored (path_join ?b relative) = Inr ps"
    "Inr (d, q) \<in> set ps" "strip_prefix q ?b = Some nam" for relative ps d q nam
  proof -
    have "wf_path (path_join ?b relative)" using wf_path_join [OF b] that(1) assms(4) by (simp add: list_all_iff)
    then have "wf_path q" using assms(1) that(2,3) by (fastforce simp: walks_ok_def list_all_iff)
    moreover have "\<not> any_ignored ignored q d"
    proof -
      obtain rd n where "av_walk v ignored (path_join ?b relative) = map_sum id (walk_run rd ignored n) (walk_new rd (path_join ?b relative))"
        using assms(2) unfolding walks_directories_def by blast
      then have "map_sum id (walk_run rd ignored n) (walk_new rd (path_join ?b relative)) = Inr ps" using that(2) by simp
      then obtain s where "ps = walk_run rd ignored n s" by (rule map_sum_Inr)
      then show ?thesis using that(3) walk_run_kept by blast
    qed
    ultimately show ?thesis using strip_prefix_join [OF _ that(4)] by metis
  qed
  then have named: "sources_named ?N v ignored ?b sources" unfolding sources_named_def by blast
  have "\<exists>ms1 st1. (\<forall>m\<in>set ms1. ?N (mb_name m) \<and> True) \<and> stream_finish ends ms1 st1 = (Inr ms, st')"
    using assms(6)
  proof
    assume c: "create = create_tar e v (stream_put accepts) (stream_finish ends)"
    show ?thesis
      by (rule listed.archive_keeps [OF listed.tar_keeps named, where k = "[]"])
        (use assms(7) in \<open>simp_all add: c create_tar_def\<close>)
  next
    assume c: "create = create_zip_streaming e v (stream_put accepts) (stream_finish ends)"
    show ?thesis
      by (rule listed.archive_keeps [OF listed.zip_keeps named, where k = "[]"])
        (use assms(7) in \<open>simp_all add: c create_zip_streaming_def\<close>)
  qed
  then show ?thesis by (auto simp: stream_finish_def ok_simps from_result_def)
qed

theorem archive_has_no_denied_witness:
  "\<exists>ms st1. create_tar http_sample_env sample_archiver taken (stream_finish (\<lambda>_. Inr ())) [] [[Normal ''d'']] [] [] http_sample_state
       = (Inr ms, st1) \<and>
     (\<exists>m\<in>set ms. \<exists>d. \<not> any_ignored [] (path_join (rel (cap_of (sf_fs http_sample_state)) []) (mb_name m)) d)"
proof -
  obtain st1 where run: "create_tar http_sample_env sample_archiver taken (stream_finish (\<lambda>_. Inr ())) []
      [[Normal ''d'']] [] [] http_sample_state = (Inr sample_members, st1)"
    using sample_archive by blast
  have "wf_path []" "list_all wf_path [[Normal ''d'']]" by (simp_all add: wf_path_def)
  from archive_has_no_denied [OF sample_walks this http_sample_ok(2) disjI1 [OF refl] run]
  have "\<exists>m\<in>set sample_members. \<exists>d. \<not> any_ignored [] (path_join (rel (cap_of (sf_fs http_sample_state)) []) (mb_name m)) d"
    by (simp add: sample_members_def)
  then show ?thesis using run by blast
qed

text \<open>
  C0: The archive of a directory that can be read holds exactly the directory and what the
  recursive traversal of it gives without the denied entries, in that order, each under its
  path from the directory of the archive.
\<close>

definition readable_at :: "'gi http_env \<Rightarrow> archiver \<Rightarrow> (('gi, 's) file_state_scheme \<Rightarrow> bool) \<Rightarrow> bool \<times> path \<Rightarrow> bool" where
  "readable_at e v I x \<longleftrightarrow> (\<forall>st. I st \<longrightarrow>
     (\<exists>md st1. file_symlink_metadata e (snd x) st = (Inr md, st1) \<and> I st1 \<and> md_is_dir md = fst x \<and>
        (\<not> fst x \<longrightarrow> md_is_file md \<and> (\<exists>s st2. opened_content e v (snd x) st1 = (Inr s, st2) \<and> I st2))))"

definition shown_member :: "member \<Rightarrow> path \<times> entry_kind" where
  "shown_member m = (mb_name m, mb_kind m)"

lemma tar_add_shown:
  assumes "readable_at e v I (d, p)" and "I st"
  shows "\<exists>md st1. file_symlink_metadata e p st = (Inr md, st1) \<and> md_is_dir md = d \<and>
     (\<forall>nam source_md ms. \<exists>m st2. tar_add e v taken nam p md source_md ms st1 = (Inr (ms @ [m]), st2) \<and> I st2 \<and>
        shown_member m = (nam, if d then Folder else Plain))"
proof -
  obtain md st1 where md: "file_symlink_metadata e p st = (Inr md, st1)" "I st1" "md_is_dir md = d"
    "\<not> d \<longrightarrow> md_is_file md \<and> (\<exists>s st2. opened_content e v p st1 = (Inr s, st2) \<and> I st2)"
    using assms unfolding readable_at_def by fastforce
  have "\<exists>m st2. tar_add e v taken nam p md source_md ms st1 = (Inr (ms @ [m]), st2) \<and> I st2 \<and>
      shown_member m = (nam, if d then Folder else Plain)" for nam source_md ms
  proof (cases d)
    case True
    then show ?thesis using md by (simp add: tar_add_def shown_member_def Let_def taken_simps)
  next
    case False
    then show ?thesis using md by (auto simp: tar_add_def shown_member_def and_then_def Let_def taken_simps)
  qed
  then show ?thesis using md by blast
qed

lemma walked_shown:
  assumes "\<forall>x\<in>set ps. readable_at e v I x" and "\<forall>x\<in>set ps. \<exists>nam. snd x = base @ nam" and "I st"
  shows "\<exists>ms' st'. add_walked e (tar_add e v taken) base source_md (map Inr ps) ms st = (Inr (ms @ ms'), st') \<and> I st' \<and>
     map shown_member ms' = map (\<lambda>(d, p). (drop (length base) p, if d then Folder else Plain)) ps"
  using assms
proof (induction ps arbitrary: ms st)
  case (Cons x ps)
  obtain d nam where x: "x = (d, base @ nam)" using Cons.prems(2) by (metis list.set_intros(1) prod.collapse)
  obtain md st1 m st2 where one: "file_symlink_metadata e (base @ nam) st = (Inr md, st1)"
    "tar_add e v taken nam (base @ nam) md source_md ms st1 = (Inr (ms @ [m]), st2)" "I st2"
    "shown_member m = (nam, if d then Folder else Plain)"
    using tar_add_shown [of e v I d "base @ nam" st] Cons.prems(1,3) x by (metis list.set_intros(1))
  obtain ms' st' where rest: "add_walked e (tar_add e v taken) base source_md (map Inr ps) (ms @ [m]) st2 = (Inr ((ms @ [m]) @ ms'), st')"
    "I st'" "map shown_member ms' = map (\<lambda>(d, p). (drop (length base) p, if d then Folder else Plain)) ps"
    using Cons.IH [OF _ _ one(3), of "ms @ [m]"] Cons.prems(1,2) by (meson list.set_intros(2))
  have "strip_prefix (base @ nam) base = Some nam" by (simp add: strip_prefix_def)
  then show ?case using one rest by (intro exI [of _ "m # ms'"]) (auto simp: x and_then_def)
qed (simp add: succeed_def)

lemma preorder_below: "(d, q) \<in> set (preorder ignored p t) \<Longrightarrow> \<exists>r. q = p @ r"
proof (induction ignored p t rule: preorder.induct)
  case (2 ignored p cs)
  then show ?case by (fastforce simp: Let_def split: if_splits)
qed simp

theorem archive_lists_tree:
  assumes "b = rel (cap_of (sf_fs st)) base" and "displays rd (b @ relative) (Dir cs)" and "list_all is_normal relative"
    and "av_walk v ignored (b @ relative) = map_sum id (walk_run rd ignored n) (walk_new rd (b @ relative))"
    and "length (preorder ignored (b @ relative) (Dir cs)) \<le> n" and "\<not> any_ignored ignored (b @ relative) True"
    and "\<forall>x \<in> set ((True, b @ relative) # preorder ignored (b @ relative) (Dir cs)). readable_at e v I x" and "I st"
  shows "\<exists>ms st'. create_tar e v taken (stream_finish (\<lambda>_. Inr ())) base [relative] ignored [] st = (Inr ms, st') \<and>
     map shown_member ms = (relative, Folder) #
       map (\<lambda>(d, p). (drop (length b) p, if d then Folder else Plain)) (preorder ignored (b @ relative) (Dir cs))"
proof -
  let ?s = "b @ relative" and ?ps = "preorder ignored (b @ relative) (Dir cs)"
  have join: "path_join b relative = ?s"
    using assms(3) by (cases "(b, relative)" rule: path_join.cases) auto
  have "shown rd [(?s, cs)]" using assms(2) by (auto simp: shown_def)
  from walk_run_pending [OF this, of ignored n]
  have walk: "av_walk v ignored ?s = Inr (map Inr ?ps)"
    using assms(2,4,5) by (simp add: walk_new_def pending_def del: preorder.simps)
  obtain md st1 m st2 where one: "file_symlink_metadata e ?s st = (Inr md, st1)" "md_is_dir md"
    "tar_add e v taken relative ?s md md [] st1 = (Inr [m], st2)" "I st2" "shown_member m = (relative, Folder)"
    using tar_add_shown [of e v I True ?s st] assms(7,8) by (metis append_Nil list.set_intros(1))
  have below: "\<forall>x\<in>set ?ps. \<exists>nam. snd x = b @ nam" using preorder_below by fastforce
  obtain ms' st' where rest: "add_walked e (tar_add e v taken) b md (map Inr ?ps) [m] st2 = (Inr ([m] @ ms'), st')"
    "map shown_member ms' = map (\<lambda>(d, p). (drop (length b) p, if d then Folder else Plain)) ?ps"
    using walked_shown [where I = I, OF _ below one(4), of e v md "[m]"] assms(7) by (auto simp del: preorder.simps)
  have "add_source e v (tar_add e v taken) ignored b relative [] st = (Inr ([m] @ ms'), st')"
    using one rest(1) walk assms(6)
    by (simp add: add_source_def join Let_def and_then_def from_result_def del: preorder.simps)
  then show ?thesis
    using one(5) rest(2)
    by (simp add: create_tar_def create_archive_def assms(1) [symmetric] and_then_def succeed_def stream_finish_def from_result_def
        del: preorder.simps)
qed

lemma sample_readable:
  "readable_at http_sample_env sample_archiver (\<lambda>st :: unit file_state. sf_fs st = sf_fs http_sample_state) (True, [Normal ''d''])"
  "readable_at http_sample_env sample_archiver (\<lambda>st :: unit file_state. sf_fs st = sf_fs http_sample_state) (False, [Normal ''d'', Normal ''b''])"
proof -
  show "readable_at http_sample_env sample_archiver (\<lambda>st :: unit file_state. sf_fs st = sf_fs http_sample_state) (True, [Normal ''d''])"
    unfolding readable_at_def
  proof (intro allI impI)
    fix st :: "unit file_state"
    assume "sf_fs st = sf_fs http_sample_state"
    from sample_looked(1) [OF this] sample_types(1)
    show "\<exists>md st1. file_symlink_metadata http_sample_env (snd (True, [Normal ''d''])) st = (Inr md, st1) \<and>
        sf_fs st1 = sf_fs http_sample_state \<and> md_is_dir md = fst (True, [Normal ''d'']) \<and>
        (\<not> fst (True, [Normal ''d'']) \<longrightarrow> md_is_file md \<and>
          (\<exists>s st2. opened_content http_sample_env sample_archiver (snd (True, [Normal ''d''])) st1 = (Inr s, st2) \<and>
             sf_fs st2 = sf_fs http_sample_state))" by auto
  qed
  show "readable_at http_sample_env sample_archiver (\<lambda>st :: unit file_state. sf_fs st = sf_fs http_sample_state) (False, [Normal ''d'', Normal ''b''])"
    unfolding readable_at_def
  proof (intro allI impI)
    fix st :: "unit file_state"
    assume "sf_fs st = sf_fs http_sample_state"
    from sample_looked(2) [OF this] obtain st1 where
      1: "file_symlink_metadata http_sample_env [Normal ''d'', Normal ''b''] st =
       (Inr \<lparr>md_mode = 33188, md_len = 5, md_modified = None, md_created = None\<rparr>, st1)" "sf_fs st1 = sf_fs http_sample_state" by blast
    from sample_looked(3) [OF 1(2)] 1 sample_types(2,3)
    show "\<exists>md st1. file_symlink_metadata http_sample_env (snd (False, [Normal ''d'', Normal ''b''])) st = (Inr md, st1) \<and>
        sf_fs st1 = sf_fs http_sample_state \<and> md_is_dir md = fst (False, [Normal ''d'', Normal ''b'']) \<and>
        (\<not> fst (False, [Normal ''d'', Normal ''b'']) \<longrightarrow> md_is_file md \<and>
          (\<exists>s st2. opened_content http_sample_env sample_archiver (snd (False, [Normal ''d'', Normal ''b''])) st1 = (Inr s, st2) \<and>
             sf_fs st2 = sf_fs http_sample_state))" by auto
  qed
qed

theorem archive_lists_tree_witness:
  "\<exists>ms st1. create_tar http_sample_env sample_archiver taken (stream_finish (\<lambda>_. Inr ())) [] [[Normal ''d'']] [] [] http_sample_state
       = (Inr ms, st1) \<and> map shown_member ms = [([Normal ''d''], Folder), ([Normal ''d'', Normal ''b''], Plain)]"
proof -
  have base: "[] = rel (cap_of (sf_fs http_sample_state)) []"
    by (simp add: rel_def relative_path_def strip_prefix_def resolve_path_def cap_of_def http_sample_state_def new_filesystem_def)
  let ?I = "\<lambda>st :: unit file_state. sf_fs st = sf_fs http_sample_state"
  have d: "displays sample_rd ([] @ [Normal ''d'']) (Dir [(''b'', File)])"
    by (simp add: sample_rd_def entries_of_def)
  have w: "av_walk sample_archiver [] ([] @ [Normal ''d'']) =
      map_sum id (walk_run sample_rd [] (Suc (Suc 0))) (walk_new sample_rd ([] @ [Normal ''d'']))"
    by (simp add: sample_archiver_def)
  have r: "\<forall>x \<in> set ((True, [] @ [Normal ''d'']) # preorder [] ([] @ [Normal ''d'']) (Dir [(''b'', File)])).
      readable_at http_sample_env sample_archiver ?I x"
    using sample_readable by (simp add: any_ignored_def)
  have "\<exists>ms st'. create_tar http_sample_env sample_archiver taken (stream_finish (\<lambda>_. Inr ())) [] [[Normal ''d'']] [] []
       http_sample_state = (Inr ms, st') \<and>
     map shown_member ms = ([Normal ''d''], Folder) #
       map (\<lambda>(d, p). (drop (length ([] :: path)) p, if d then Folder else Plain)) (preorder [] ([] @ [Normal ''d'']) (Dir [(''b'', File)]))"
    by (rule archive_lists_tree [OF base d _ w _ _ r]) (simp_all add: any_ignored_def)
  then show ?thesis by (simp add: any_ignored_def)
qed

text \<open>
  C0: A tar archive that is made of the files of a server and unpacked again costs exactly the
  sizes of the files in it: each file is written with the size it was listed with, under the
  path its name leads to from the destination, unless that path is denied there.
\<close>

text \<open>What the \<open>tar\<close> crate reads from what it has written.\<close>

definition tar_entry_of :: "member \<Rightarrow> archive_entry" where
  "tar_entry_of m = \<lparr>en_path = path_text (mb_name m), en_kind = mb_kind m, en_mode = mb_mode m, en_mtime = mb_mtime m,
     en_link = path_text (mb_link m), en_data = [Inr (mb_data m)]\<rparr>"

definition unpacked_member :: "'gi http_env \<Rightarrow> path \<Rightarrow> 'gi Filesystem \<Rightarrow> member \<Rightarrow> bool" where
  "unpacked_member e dest fs m \<longleftrightarrow> mb_kind m = Plain \<and> \<not> is_absolute (mb_name m) \<and>
     \<not> is_ignored (fe_ignores e) (path_join dest (mb_name m)) False fs"

lemma component_of_str: "plain c \<Longrightarrow> component_of (component_str c) = c"
  by (cases c) (auto simp: component_of_def)

lemma plain_str: "plain c \<Longrightarrow> component_str c \<noteq> [] \<and> component_str c \<noteq> ''.'' \<and> CHR ''/'' \<notin> set (component_str c)"
  by (cases c) auto

lemma components_of_parts:
  assumes "list_all plain q"
  shows "map component_of (filter (\<lambda>p. p \<noteq> [] \<and> p \<noteq> ''.'') (map component_str q)) = q"
  using assms by (induction q) (use plain_str component_of_str in auto)

lemma split_parts:
  assumes "list_all plain q" and "q \<noteq> []"
  shows "str_split CHR ''/'' (str_join ''/'' (map component_str q)) = map component_str q"
  by (rule str_split_join) (use assms plain_str in \<open>auto simp: list_all_iff\<close>)

lemma components_path_text:
  assumes "wf_path p"
  shows "components (path_text p) = p"
proof (cases p)
  case Nil
  then show ?thesis by (simp add: components_def path_text_def starts_with_def)
next
  case (Cons c q)
  have q: "list_all plain q" and c: "c = RootDir \<or> c = CurDir \<or> plain c" using assms Cons by (auto simp: wf_path_def)
  show ?thesis
  proof (cases "c = RootDir")
    case True
    show ?thesis
    proof (cases "q = []")
      case False
      have "str_split CHR ''/'' (path_text p) = [] # map component_str q"
        using split_parts [OF q False] by (simp add: path_text_def Cons True)
      then show ?thesis
        using components_of_parts [OF q] by (simp add: components_def Let_def path_text_def Cons True starts_with_def)
    qed (simp add: Cons True components_def path_text_def starts_with_def)
  next
    case False
    have txtp: "path_text p = str_join ''/'' (map component_str p)" using False by (cases c) (simp_all add: path_text_def Cons)
    have parts: "CHR ''/'' \<notin> set (component_str c)" "component_str c \<noteq> []"
      using c False plain_str [of c] by auto
    have split: "str_split CHR ''/'' (path_text p) = map component_str p"
      unfolding txtp by (rule str_split_join) (use parts q plain_str in \<open>auto simp: Cons list_all_iff\<close>)
    have "\<not> starts_with (str_join ''/'' (map component_str p)) ''/''"
      using parts by (cases "component_str c"; cases q) (auto simp: Cons starts_with_def)
    then have "\<not> starts_with (path_text p) ''/''" by (simp add: txtp)
    then show ?thesis
      using components_of_parts [OF q] c False plain_str [of c] component_of_str [of c]
        split [unfolded Cons list.map] \<open>\<not> starts_with (path_text p) ''/''\<close> [unfolded Cons]
      by (auto simp: components_def Let_def Cons)
  qed
qed

lemma strip_prefix_wf: "wf_path q \<Longrightarrow> strip_prefix q base = Some nam \<Longrightarrow> wf_path nam"
  using wf_path_drop [of q "length base"] plain_wf
  by (cases "base = []") (auto simp: strip_prefix_def split: if_splits)

lemma tar_members:
  assumes "walks_ok v" and "wf_path base" and "list_all wf_path sources" and "fs_base_path (sf_fs st) \<noteq> []"
    and "create_tar e v (stream_put accepts) (stream_finish ends) base sources ignored [] st = (Inr ms, st')"
  shows "\<forall>m\<in>set ms. wf_path (mb_name m) \<and> sized m"
proof -
  let ?b = "rel (cap_of (sf_fs st)) base"
  have b: "wf_path ?b" using wf_rel [OF assms(2)] assms(4) by (simp add: cap_of_def)
  have "wf_path nam" if "relative \<in> set sources" "av_walk v ignored (path_join ?b relative) = Inr ps"
    "Inr (d, q) \<in> set ps" "strip_prefix q ?b = Some nam" for relative ps d q nam
  proof -
    have "wf_path (path_join ?b relative)" using wf_path_join [OF b] that(1) assms(3) by (simp add: list_all_iff)
    then have "wf_path q" using assms(1) that(2,3) by (fastforce simp: walks_ok_def list_all_iff)
    then show ?thesis using that(4) by (rule strip_prefix_wf)
  qed
  then have named: "sources_named wf_path v ignored ?b sources"
    using assms(3) unfolding sources_named_def list_all_iff by blast
  have "\<exists>ms1 st1. (\<forall>m\<in>set ms1. wf_path (mb_name m) \<and> sized m) \<and> stream_finish ends ms1 st1 = (Inr ms, st')"
    by (rule listed.archive_keeps [OF listed.tar_keeps named, where k = "[]"]) (use assms(5) in \<open>simp_all add: create_tar_def\<close>)
  then show ?thesis by (auto simp: stream_finish_def ok_simps from_result_def)
qed

theorem archive_roundtrip:
  assumes "walks_ok v" and "wf_path base" and "list_all wf_path sources" and "fs_base_path (sf_fs st) \<noteq> []"
    and "create_tar e v (stream_put accepts) (stream_finish ends) base sources ignored [] st = (Inr ms, st1)"
    and "unpack_tar e' now dest (Inr (map (Inr \<circ> tar_entry_of) ms)) s = (Inr (), s')"
    and "unat (disk_usage_cached (sf_fs s)) + (\<Sum>m\<leftarrow>ms. unat (mb_size m)) < 2 ^ 62"
  shows "unat (disk_usage_cached (sf_fs s')) =
     unat (disk_usage_cached (sf_fs s)) + (\<Sum>m\<leftarrow>filter (unpacked_member e' dest (sf_fs s)) ms. unat (mb_size m))"
proof -
  have ms: "\<forall>m\<in>set ms. wf_path (mb_name m) \<and> sized m" by (rule tar_members [OF assms(1-5)])
  have data: "data_size [Inr (mb_data m)] = unat (mb_size m)" if "m \<in> set ms" for m
    using ms that by (auto simp: sized_def)
  have entries: "map projr (takeWhile (\<lambda>x. \<not> isl x) (map (Inr \<circ> tar_entry_of) ms)) = map tar_entry_of ms"
    by (simp add: takeWhile_map o_def takeWhile_eq_all_conv [THEN iffD2])
  have sum: "(\<Sum>en\<leftarrow>map tar_entry_of ms. data_size (en_data en)) = (\<Sum>m\<leftarrow>ms. unat (mb_size m))"
    using data by (simp add: tar_entry_of_def o_def cong: map_cong)
  have "tar_size e' dest (sf_fs s) (map (Inr \<circ> tar_entry_of) ms) =
      (\<Sum>m\<leftarrow>filter (unpacked_member e' dest (sf_fs s)) ms. unat (mb_size m))"
  proof -
    have "written_entry e' dest (sf_fs s) (tar_entry_of m) = unpacked_member e' dest (sf_fs s) m" if "m \<in> set ms" for m
      using ms that by (simp add: written_entry_def unpacked_member_def tar_entry_of_def components_path_text)
    then show ?thesis
      unfolding tar_size_def entries using data
      by (induction ms) (auto simp: tar_entry_of_def)
  qed
  then show ?thesis
    using tar_all_charges [of e' now dest "map (Inr \<circ> tar_entry_of) ms" "[]" s s'] assms(6,7)
    unfolding entries sum by (simp add: unpack_tar_def)
qed

lemma sample_unpacked:
  "\<exists>s'. unpack_tar http_sample_env 0 [] (Inr (map (Inr \<circ> tar_entry_of) sample_members)) http_sample_state = (Inr (), s')"
proof -
  have paths: "components (path_text [Normal ''d'']) = [Normal ''d'']"
    "components (path_text [Normal ''d'', Normal ''b'']) = [Normal ''d'', Normal ''b'']"
    by (rule components_path_text, simp add: wf_path_def)+
  have "fst (unpack_tar http_sample_env 0 [] (Inr (map (Inr \<circ> tar_entry_of) sample_members)) http_sample_state) = Inr ()"
    by (simp add: unpack_tar_def tar_one_def sample_members_def tar_entry_of_def paths is_absolute_def skip_ignored_def
      route_ignored_def is_ignored_def http_sample_env_def handler_defs parent_dirs_def parent_def make_dirs_def
      http_sample_state_def new_filesystem_def set_time_def cap_set_times_def cap_set_permissions_def
      cap_unit_def with_cap_def cap_create_dir_all_def in_dir_def cap_of_def rel_def Let_def typed_def run_now_def http_sample_run_def
      unpack_file_def writer_new_def set_mode_def fw_new_def cap_create_def write_piece_def do_io_def fw_write_def advance_def
      ALLOCATION_THRESHOLD_def flush_file_def drop_file_def allocate_accumulated_def allocate_slice_cases over_limit_def
      charge_cached_def)
  then show ?thesis by (metis prod.collapse)
qed

theorem archive_roundtrip_witness:
  "\<exists>s'. unpack_tar http_sample_env 0 [] (Inr (map (Inr \<circ> tar_entry_of) sample_members)) http_sample_state = (Inr (), s') \<and>
     unat (disk_usage_cached (sf_fs s')) = unat (disk_usage_cached (sf_fs http_sample_state)) + 5"
proof -
  obtain st1 where made: "create_tar http_sample_env sample_archiver taken (stream_finish (\<lambda>_. Inr ())) []
      [[Normal ''d'']] [] [] http_sample_state = (Inr sample_members, st1)"
    using sample_archive by blast
  obtain s' where run: "unpack_tar http_sample_env 0 [] (Inr (map (Inr \<circ> tar_entry_of) sample_members)) http_sample_state = (Inr (), s')"
    using sample_unpacked by blast
  have wf: "wf_path []" "list_all wf_path [[Normal ''d'']]" by (simp_all add: wf_path_def)
  have bound: "unat (disk_usage_cached (sf_fs http_sample_state)) + (\<Sum>m\<leftarrow>sample_members. unat (mb_size m)) < 2 ^ 62"
    by (simp add: sample_files sample_members_def)
  have "(\<Sum>m\<leftarrow>filter (unpacked_member http_sample_env [] (sf_fs http_sample_state)) sample_members. unat (mb_size m)) = 5"
    by (simp add: sample_members_def unpacked_member_def is_absolute_def is_ignored_def http_sample_env_def)
  then show ?thesis
    using archive_roundtrip [OF sample_walks(1) wf http_sample_ok(2) made run bound] run by simp
qed

text \<open>
  C0: The archive a server keeps is charged with the bytes written to it: for an uncompressed
  tar with all of them, for a compressed one with all but what the encoder left in the writer
  when it did not flush it, which is always less than the threshold of 1 MiB.
\<close>

lemma compress_total_looks: "compress_total e files n st = (r, st') \<Longrightarrow> sf_fs st' = sf_fs st \<and> sf_io st' = sf_io st"
  by (induction e files n st rule: compress_total.induct)
    (auto split: prod.splits sum.splits dest!: looked_at(2))

lemma writer_new_io: "writer_new e p None None st = (Inr (f, w), st') \<Longrightarrow> sf_io st' = sf_io st \<and> accumulated_bytes w = 0"
  by (auto simp: writer_new_def ok_simps set_mode_def succeed_def dest!: with_cap_same fw_new_fields)

theorem compress_charges:
  assumes "compress_files e v c (FormatTar t) dir p files st = (Inr k, st')"
    and "unat (disk_usage_cached (sf_fs st)) < 2 ^ 62" and "io_bytes (sf_io st') < 2 ^ 62"
  shows "\<exists>uncharged. fs_used (sf_fs st') + uncharged =
       fs_used (sf_fs st) + (int (io_bytes (sf_io st')) - int (io_bytes (sf_io st))) \<and>
     0 \<le> uncharged \<and> uncharged < ALLOCATION_THRESHOLD \<and> (tar_flushes c t \<longrightarrow> uncharged = 0)"
proof -
  let ?base = "fs_used (sf_fs st)" and ?n = "io_bytes (sf_io st)"
  obtain f w st1 tot st2 where new: "writer_new e p None None st = (Inr (f, w), st1)"
    and total: "compress_total e files 0 st1 = (tot, st2)"
    and made: "create_format e v c (FormatTar t) dir (map components files) [fe_ignores e (disk_ignored (sf_fs st))]
        \<lparr>fk_members = [], fk_file = f, fk_writer = w\<rparr> st2 = (Inr k, st')"
    using assms(1) by (auto simp: compress_files_def ok_simps inspect_def)
  let ?k = "\<lparr>fk_members = [], fk_file = f, fk_writer = w\<rparr>"
  have begun: "charged ?base ?n ?k st2"
    using writer_new_written [OF new assms(2)] writer_new_io [OF new] compress_total_looks [OF total]
    by (auto simp: charged_def ALLOCATION_THRESHOLD_def)
  have named: "sources_named anything v [fe_ignores e (disk_ignored (sf_fs st))] b sources" for b sources
    by (simp add: sources_named_def)
  have "create_archive e v (tar_add e v (file_put e (\<lambda>ms m. sequential (ec_tar c t ms m))))
      (file_finish e (\<lambda>ms. sequential (ec_tar_end c t ms)) (tar_flushes c t)) dir (map components files)
      [fe_ignores e (disk_ignored (sf_fs st))] ?k st2 = (Inr k, st')"
    using made by (simp add: create_format_def create_tar_def)
  from charging.archive_keeps [OF charging.tar_keeps [OF TrueI] named begun this]
  obtain k1 st3 where k1: "charged ?base ?n k1 st3"
    and fin: "file_finish e (\<lambda>ms. sequential (ec_tar_end c t ms)) (tar_flushes c t) k1 st3 = (Inr k, st')"
    by blast
  obtain w2 st4 where w2: "sink_ops e (fk_file k1) (sequential (ec_tar_end c t (fk_members k1))) (fk_writer k1) st3 = (Inr w2, st4)"
    and fl: "(if tar_flushes c t then flush_file e (fk_file k1) w2 else succeed ()) st4 = (Inr (), st')"
    using fin by (auto simp: file_finish_def ok_simps)
  have io: "io_bytes (sf_io st') = io_bytes (sf_io st4)"
    using fl by (auto simp: flush_file_def do_io_def succeed_def split: if_splits prod.splits sum.splits)
  have acc: "written ?base (io_bytes (sf_io st4) - ?n) w2 (sf_fs st4)" "?n \<le> io_bytes (sf_io st4)"
    "sint (accumulated_bytes w2) < ALLOCATION_THRESHOLD"
    using sequential_charges [OF _ _ w2, of ?n ?base] sequential_small [OF _ w2] k1 assms(3) io by (auto simp: charged_def)
  have highest: "unat (highest_position w2) = io_bytes (sf_io st4) - ?n" and a: "fsq.accounts ?base w2 (sf_fs st4)"
    using acc(1) by (simp_all add: written_def)
  show ?thesis
  proof (cases "tar_flushes c t")
    case True
    then obtain w3 fs where al: "allocate_accumulated allocate_in_path_slice w2 (sf_fs st4) = (Inr (), w3, fs)" "sf_fs st' = fs"
      using fl by (auto simp: flush_file_def do_io_def split: prod.splits sum.splits)
    have "fsq.accounts ?base w3 fs" "accumulated_bytes w3 = 0" "highest_position w3 = highest_position w2"
      using fsq.accounts_allocate [OF a al(1)] by simp_all
    then have "fs_used fs = ?base + int (unat (highest_position w2))"
      unfolding fsq.accounts_def by (simp del: of_nat_unat)
    then show ?thesis
      using highest acc(2) io al(2) by (intro exI [of _ 0]) (simp add: ALLOCATION_THRESHOLD_def of_nat_diff del: of_nat_unat)
  next
    case False
    then have "st' = st4" using fl by (simp add: succeed_def)
    then show ?thesis
      using a acc(2,3) highest False unfolding fsq.accounts_def
      by (intro exI [of _ "sint (accumulated_bytes w2)"]) (simp add: of_nat_diff del: of_nat_unat)
  qed
qed

definition sample_encoder :: encoder where
  "sample_encoder = \<lparr>ec_tar = \<lambda>t ms m. [Inr (replicate 512 (CHR 0x00))], ec_tar_end = \<lambda>t ms. [Inr (replicate 1024 (CHR 0x00))],
     ec_flushes = \<lambda>t. False, ec_encode = \<lambda>fmt ms m. [], ec_end = \<lambda>fmt ms. []\<rparr>"

lemma sample_compressed:
  "\<exists>k st1. compress_files http_sample_env sample_archiver sample_encoder (FormatTar Bz2) [] [Normal ''x''] [''a'']
     http_sample_state = (Inr k, st1) \<and> io_bytes (sf_io st1) = 1536"
proof -
  have "components ''a'' = [Normal ''a'']" by code_simp
  moreover have "file_type 33188 = RegularFile" by code_simp
  ultimately show ?thesis
    by (simp add: compress_files_def create_format_def create_tar_def create_archive_def add_source_def tar_add_def any_ignored_def
      sample_archiver_def sample_encoder_def file_put_def file_finish_def sequential_def put_bytes_def tar_flushes_def
      opened_content_def file_open_def from_result_def fixed_content_def md_is_dir_def md_is_file_def
      file_symlink_metadata_def file_metadata_def cap_defs in_dir_or_base_def
      http_sample_env_def handler_defs parent_def http_sample_state_def new_filesystem_def
      cap_unit_def with_cap_def in_dir_def cap_of_def rel_def relative_path_def resolve_path_def resolve_step_def push_def
      strip_prefix_def Let_def typed_def run_now_def http_sample_run_def
      writer_new_def set_mode_def fw_new_def write_piece_def do_io_def fw_write_def advance_def
      ALLOCATION_THRESHOLD_def flush_file_def allocate_accumulated_def allocate_slice_cases over_limit_def)
qed

theorem compress_charges_witness:
  "\<exists>k st1 uncharged. compress_files http_sample_env sample_archiver sample_encoder (FormatTar Bz2) [] [Normal ''x''] [''a'']
       http_sample_state = (Inr k, st1) \<and>
     fs_used (sf_fs st1) + uncharged = fs_used (sf_fs http_sample_state) + 1536 \<and> uncharged < ALLOCATION_THRESHOLD"
proof -
  obtain k st1 where run: "compress_files http_sample_env sample_archiver sample_encoder (FormatTar Bz2) [] [Normal ''x''] [''a'']
      http_sample_state = (Inr k, st1)" and n: "io_bytes (sf_io st1) = 1536"
    using sample_compressed by blast
  have "io_bytes (sf_io http_sample_state) = 0" by (simp add: http_sample_state_def)
  then show ?thesis
    using compress_charges [OF run] run n by (auto simp: sample_files)
qed

text \<open>
  C0: The routes that compress and decompress stay inside the server's directory, whatever the
  names in the request, in the archive and on the disk.
\<close>

lemma on_ok_map: "on_ok A (map_sum f id r) = on_ok A r"
  by (cases r) simp_all

lemma message_stays: "route_in L m (on_ok A) \<Longrightarrow> route_in L (with_message msg m) (on_ok A)"
  by (simp add: with_message_def [abs_def] confines_def on_ok_map)

lemma compress_files_stay:
  assumes "walks_ok v" and "wf_path dir" and "wf_path p"
  shows "route_in editing (compress_files e v c fmt dir p files) (on_ok anything)"
proof -
  have total: "route_in editing (compress_total e files n) anything" for n
  proof (induction files arbitrary: n)
    case (Cons x files)
    then show ?case
      unfolding compress_total.simps
      by (intro confines_seq [OF routes.lookups_stay(1)] confines_case_sum_at) (auto simp: confines_def)
  qed (simp add: confines_def)
  have sources: "list_all wf_path (map components files)" by (simp add: list_all_iff)
  have made: "route_in editing (create_format e v c fmt dir (map components files) ignored k) (on_ok anything)" for ignored k
    using archive_file.archives_stay [OF assms(1,2) sources]
    by (cases fmt) (simp_all add: create_format_def)
  show ?thesis
    unfolding compress_files_def
    by (rule confines_and_then [OF confines_pure(4)], rule confines_and_then [OF writer_new_stays [OF assms(3)]], simp, simp add: case_prod_beta,
        rule confines_and_then [OF confines_perform [OF total]], rule made)
qed

lemma compress_start_stays:
  assumes "answers_ok e"
  shows "route_in editing (compress_start e fmt nam raw) (on_ok (\<lambda>(dir, p). wf_path dir \<and> wf_path p))"
  unfolding compress_start_def
proof (rule confines_and_then [OF canonical_stays(1) [OF assms]], simp)
  fix dir :: path
  assume "wf_path dir"
  then show "route_in editing (let p = path_join dir (components (case nam of None \<Rightarrow> ''archive-'' @ he_now e @ ''.'' @ format_suffix_of fmt | Some n \<Rightarrow> n))
      in guarded [ensure_run (symlink_dir_or True e dir) (Refused EXPECTATION_FAILED ''root is not a directory''),
           not_ignored e p False (Refused EXPECTATION_FAILED ''file not found'')] (succeed (dir, p)))
      (on_ok (\<lambda>(dir, p). wf_path dir \<and> wf_path p))"
    unfolding Let_def
    by (intro confines_guarded succeed_stays) (auto intro!: stays simp: wf_path_join)
qed

lemma archive_open_stays:
  assumes "wf_path p"
  shows "route_in editing (archive_open e p) (\<lambda>a. a = None \<or> ar_path (the a) = p)"
proof -
  have "route_in editing (\<lambda>st. case file_open e p st of (x, st) \<Rightarrow>
      (case x of Inl err \<Rightarrow> (None, st) | Inr f \<Rightarrow>
        (case he_open_read e f 16 of Inl err \<Rightarrow> (None, st) | Inr s \<Rightarrow>
          (Some \<lparr>ar_compression = compression_of (he_infer e (take 16 (s @ replicate 16 (CHR 0x00)))),
             ar_type = archive_type p, ar_header = header_bytes s, ar_file = f, ar_path = p\<rparr>, st))))
      (\<lambda>a. a = None \<or> ar_path (the a) = p)"
    by (rule confines_seq [OF opens_stay(1) [OF assms]], simp, rule confines_case_sum_at, simp add: confines_def,
        rule confines_case_sum_at, simp_all add: confines_def)
  then show ?thesis by (simp add: archive_open_def [abs_def])
qed

lemma decompress_start_stays:
  assumes "answers_ok e"
  shows "route_in editing (decompress_start e raw nam) (on_ok (\<lambda>(dir, a). wf_path dir \<and> wf_path (ar_path a)))"
  unfolding decompress_start_def
proof (rule confines_and_then [OF canonical_stays(1) [OF assms]], simp)
  fix dir :: path
  assume dir: "wf_path dir"
  let ?p = "path_join dir (components nam)"
  have p: "wf_path ?p" by (rule wf_path_join [OF dir wf_components])
  have opened: "route_in editing (and_then (perform (archive_open e ?p)) (\<lambda>a. and_then (from_option a err) (\<lambda>a. succeed (dir, a))))
      (on_ok (\<lambda>(dir, a). wf_path dir \<and> wf_path (ar_path a)))" for err
  proof (rule confines_and_then [OF confines_perform [OF archive_open_stays [OF p]]])
    fix a :: "Archive option"
    assume a: "a = None \<or> ar_path (the a) = ?p"
    show "route_in editing (and_then (from_option a err) (\<lambda>a. succeed (dir, a))) (on_ok (\<lambda>(dir, a). wf_path dir \<and> wf_path (ar_path a)))"
      using a dir p by (cases a) (auto simp: and_then_def from_option_def succeed_def confines_def)
  qed
  show "route_in editing (let source = ?p in guarded [ensure_run (dir_or True e dir) (Refused EXPECTATION_FAILED ''root is not a directory'')]
      (and_then (perform (dir_or False e source)) (\<lambda>is_dir. guarded [not_ignored e source is_dir (Refused NOT_FOUND ''file not found'')]
        (and_then (perform (archive_open e source)) (\<lambda>a.
           and_then (from_option a (Refused EXPECTATION_FAILED ''failed to open archive'')) (\<lambda>a. succeed (dir, a)))))))
      (on_ok (\<lambda>(dir, a). wf_path dir \<and> wf_path (ar_path a)))"
    unfolding Let_def
    by (intro confines_guarded confines_and_then [OF confines_perform [OF dir_checks_stay(1) [OF p]]] opened)
      (auto intro!: stays dir simp: confines_guarded)
qed

lemma decompresses_steps:
  assumes "answers_ok e" and "decompresses e now contents raw nam st r st'" and "wf_files st"
  shows "(steps_of file_step editing)\<^sup>*\<^sup>* st st'"
  using assms(2)
proof cases
  case (d_refused err)
  then show ?thesis using confinesD(1) [OF decompress_start_stays [OF assms(1)] assms(3), of raw nam] by simp
next
  case (d_unpacked dir a st1 q st2)
  note start = confinesD [OF decompress_start_stays [OF assms(1)] assms(3), of raw nam]
  have s1: "(steps_of file_step editing)\<^sup>*\<^sup>* st st1" "wf_files st1" "wf_path dir" "wf_path (ar_path a)"
    using start d_unpacked(1) by simp_all
  have s2: "(steps_of file_step editing)\<^sup>*\<^sup>* st1 st2" by (rule unpacks_stays [OF d_unpacked(2) s1(4,3,2)])
  have wf2: "wf_files st2" using file_steps_inv [OF s2] s1(2) by (simp add: wf_files_def accounts_def)
  have "route_in editing (and_then (with_message ''failed to decompress archive: '' (\<lambda>st. (q, st)))
      (\<lambda>_. attempt (file_chown e dir) Internal)) (on_ok anything)"
    by (rule confines_and_then [where A = anything], rule message_stays, simp add: confines_def on_ok_anything, rule confines_attempt,
        rule routes.accounting_stays(3)) (use s1 assms(1) in simp_all)
  from confinesD(1) [OF this wf2] have "(steps_of file_step editing)\<^sup>*\<^sup>* st2 st'" using d_unpacked(3) by simp
  then show ?thesis using s1(1) s2 by (meson rtranclp_trans)
qed

theorem archive_routes_confined:
  assumes "answers_ok e" and "walks_ok v" and "fs_base_path (sf_fs st) \<noteq> []"
  shows "accounts (sf_fs st) (sf_fs (snd (compress_route e v c fmt nam raw files st))) \<and>
     (\<exists>cs. sf_calls (snd (compress_route e v c fmt nam raw files st)) = sf_calls st @ cs \<and>
        list_all (confined (cap_of (sf_fs st))) cs) \<and>
     (\<forall>now contents r st'. decompresses e now contents raw nam' st r st' \<longrightarrow>
        accounts (sf_fs st) (sf_fs st') \<and>
        (\<exists>cs. sf_calls st' = sf_calls st @ cs \<and> list_all (confined (cap_of (sf_fs st))) cs))"
proof -
  have wf: "wf_files st" using assms(3) by (simp add: wf_files_def)
  have "route_in editing (compress_route e v c fmt nam raw files) (on_ok anything)"
    unfolding compress_route_def
    by (rule confines_and_then [OF compress_start_stays [OF assms(1)]], simp add: case_prod_beta,
        rule confines_and_then [OF message_stays [OF compress_files_stay [OF assms(2)]]], simp, simp,
        rule confines_and_then [OF confines_attempt [OF routes.lookups_stay(2)]], simp, simp,
        rule confines_perform [OF entry_stays [OF assms(1)]], simp, simp)
  from file_steps_inv [OF confinesD(1) [OF this wf]] file_steps_inv [OF decompresses_steps [OF assms(1) _ wf]]
  show ?thesis by blast
qed

theorem archive_routes_confined_witness:
  "accounts (sf_fs http_sample_state) (sf_fs (snd (compress_route http_sample_env sample_archiver sample_encoder
     FormatZip None ''/'' [''../../etc/passwd''] http_sample_state)))"
  using archive_routes_confined [OF http_sample_ok(1) sample_walks(1) http_sample_ok(2)] by blast

end
